(* ===== verification/Prelude.thy ===== *)
theory Prelude
  imports Main "HOL-Library.Word"
begin

text \<open>
  Shared vocabulary of the development: names for the machine integers, the collections of
  simplification rules the components extend, and the ordered table that models
  \<open>std::map\<close>. A table is an association list with strictly ascending keys, so that
  iterating it visits the entries in the order the C++ containers do. The \<open>table\<close> locale
  states the interface the authority relies on; it is interpreted on the model's own
  \<open>om_find\<close>/\<open>om_put\<close> below.
\<close>

section \<open>Machine integers\<close>

type_synonym u8 = "8 word"
type_synonym u16 = "16 word"
type_synonym u32 = "32 word"
type_synonym u64 = "64 word"
type_synonym byte = "8 word"

named_theorems plan_simps \<open>unfolding rules of the planning functions\<close>
named_theorems codec_simps \<open>decoding an encoded field\<close>
named_theorems canon_inv \<open>a decoded field determines the bytes it was read from\<close>

section \<open>Ordered tables\<close>

type_synonym ('k, 'v) omap = "('k \<times> 'v) list"

fun om_find :: "'k \<Rightarrow> ('k, 'v) omap \<Rightarrow> 'v option" where
  "om_find k [] = None"
| "om_find k ((k', v) # m) = (if k = k' then Some v else om_find k m)"

fun om_put :: "'k::linorder \<Rightarrow> 'v \<Rightarrow> ('k, 'v) omap \<Rightarrow> ('k, 'v) omap" where
  "om_put k v [] = [(k, v)]"
| "om_put k v ((k', v') # m) =
     (if k < k' then (k, v) # (k', v') # m
      else if k = k' then (k, v) # m
      else (k', v') # om_put k v m)"

definition om_keys :: "('k, 'v) omap \<Rightarrow> 'k set" where
  "om_keys m = fst ` set m"

definition om_vals :: "('k, 'v) omap \<Rightarrow> 'v list" where
  "om_vals m = map snd m"

definition om_wf :: "('k::linorder, 'v) omap \<Rightarrow> bool" where
  "om_wf m \<longleftrightarrow> sorted_wrt (<) (map fst m)"

definition om_sum :: "('v \<Rightarrow> nat) \<Rightarrow> ('k, 'v) omap \<Rightarrow> nat" where
  "om_sum f m = (\<Sum>v\<leftarrow>om_vals m. f v)"

section \<open>The table interface\<close>

text \<open>
  What a client of an ordered table relies on: reading after writing, the set of keys, and
  the invariant under which both laws hold. The lemmas inside the locale describe a whole
  sequence of writes, which is what applying a change set is.
\<close>

locale table =
  fixes tempty :: "'m"
    and tfind :: "'k \<Rightarrow> 'm \<Rightarrow> 'v option"
    and tput :: "'k \<Rightarrow> 'v \<Rightarrow> 'm \<Rightarrow> 'm"
    and tkeys :: "'m \<Rightarrow> 'k set"
    and twf :: "'m \<Rightarrow> bool"
  assumes wf_empty: "twf tempty"
    and wf_put: "twf m \<Longrightarrow> twf (tput k v m)"
    and find_empty: "tfind k tempty = None"
    and find_put: "twf m \<Longrightarrow> tfind k' (tput k v m) = (if k' = k then Some v else tfind k' m)"
    and keys_find: "twf m \<Longrightarrow> k \<in> tkeys m \<longleftrightarrow> tfind k m \<noteq> None"
    and keys_finite: "finite (tkeys m)"
begin

lemma keys_put: "twf m \<Longrightarrow> tkeys (tput k v m) = insert k (tkeys m)"
  using keys_find find_put wf_put by (auto split: if_splits)

lemma find_put_same: "twf m \<Longrightarrow> tfind k (tput k v m) = Some v"
  by (simp add: find_put)

lemma find_put_other: "twf m \<Longrightarrow> k' \<noteq> k \<Longrightarrow> tfind k' (tput k v m) = tfind k' m"
  by (simp add: find_put)

lemma wf_puts: "twf m \<Longrightarrow> twf (fold (\<lambda>(k, v). tput k v) kvs m)"
  by (induction kvs arbitrary: m) (auto simp: wf_put)

lemma find_puts:
  "twf m \<Longrightarrow> tfind k (fold (\<lambda>(k, v). tput k v) kvs m) =
     (case map_of (rev kvs) k of Some v \<Rightarrow> Some v | None \<Rightarrow> tfind k m)"
proof (induction kvs arbitrary: m)
  case Nil
  then show ?case by simp
next
  case (Cons kv kvs)
  obtain k' v' where kv: "kv = (k', v')" by (cases kv)
  have "twf (tput k' v' m)" using Cons.prems by (rule wf_put)
  from Cons.IH [OF this] show ?case
    using Cons.prems by (auto simp: kv find_put map_add_def split: option.splits)
qed

end

section \<open>The association list implements the interface\<close>

lemma om_keys_Nil [simp]: "om_keys [] = {}"
  by (simp add: om_keys_def)

lemma om_keys_Cons [simp]: "om_keys (kv # m) = insert (fst kv) (om_keys m)"
  by (simp add: om_keys_def)

lemma om_keys_finite [simp]: "finite (om_keys m)"
  by (simp add: om_keys_def)

lemma om_wf_Nil [simp]: "om_wf []"
  by (simp add: om_wf_def)

lemma om_wf_Cons: "om_wf (kv # m) \<longleftrightarrow> om_wf m \<and> (\<forall>k \<in> om_keys m. fst kv < k)"
  by (auto simp: om_wf_def om_keys_def)

lemma om_find_keys: "om_find k m \<noteq> None \<longleftrightarrow> k \<in> om_keys m"
  by (induction k m rule: om_find.induct) auto

lemma om_find_None: "om_find k m = None \<longleftrightarrow> k \<notin> om_keys m"
  using om_find_keys by metis

lemma om_put_keys [simp]: "om_keys (om_put k v m) = insert k (om_keys m)"
  by (induction k v m rule: om_put.induct) auto

lemma om_put_wf: "om_wf m \<Longrightarrow> om_wf (om_put k v m)"
  by (induction k v m rule: om_put.induct) (force simp: om_wf_Cons)+

lemma om_find_less: "om_wf ((k', v') # m) \<Longrightarrow> k < k' \<Longrightarrow> om_find k m = None"
  by (auto simp: om_wf_Cons om_find_None dest: order.strict_trans)

lemma om_find_put: "om_wf m \<Longrightarrow> om_find k' (om_put k v m) = (if k' = k then Some v else om_find k' m)"
  by (induction k v m rule: om_put.induct) (auto simp: om_wf_Cons)

interpretation om: table "[]" om_find om_put om_keys om_wf
  by unfold_locales (simp_all add: om_put_wf om_find_put om_find_keys [symmetric])

lemma om_put_same: "om_wf m \<Longrightarrow> om_find k m = Some v \<Longrightarrow> om_put k v m = m"
  by (induction k v m rule: om_put.induct) (auto simp: om_wf_Cons om_find_less split: if_splits
      dest: om_find_less [unfolded om_wf_Cons])

lemma om_put_length: "om_wf m \<Longrightarrow>
    length (om_put k v m) = (if k \<in> om_keys m then length m else Suc (length m))"
  by (induction k v m rule: om_put.induct) (auto simp: om_wf_Cons)

lemma om_find_in: "om_find k m = Some v \<Longrightarrow> (k, v) \<in> set m"
  by (induction k m rule: om_find.induct) (auto split: if_splits)

lemma om_in_find: "om_wf m \<Longrightarrow> (k, v) \<in> set m \<Longrightarrow> om_find k m = Some v"
  by (induction k m rule: om_find.induct) (force simp: om_wf_Cons om_keys_def)+

lemma om_in_iff: "om_wf m \<Longrightarrow> (k, v) \<in> set m \<longleftrightarrow> om_find k m = Some v"
  by (blast intro: om_find_in om_in_find)

lemma om_find_vals: "om_find k m = Some v \<Longrightarrow> v \<in> set (om_vals m)"
  by (force simp: om_vals_def dest: om_find_in)

lemma om_wf_distinct: "om_wf m \<Longrightarrow> distinct (map fst m)"
  by (simp add: om_wf_def strict_sorted_iff)

section \<open>Sums over a table\<close>

text \<open>The contribution of a key to a sum: absent keys contribute nothing.\<close>

definition contrib :: "('v \<Rightarrow> nat) \<Rightarrow> 'v option \<Rightarrow> nat" where
  "contrib f x = (case x of None \<Rightarrow> 0 | Some v \<Rightarrow> f v)"

lemma contrib_simps [simp]: "contrib f None = 0" "contrib f (Some v) = f v"
  by (simp_all add: contrib_def)

lemma om_sum_Nil [simp]: "om_sum f [] = 0"
  by (simp add: om_sum_def om_vals_def)

lemma om_sum_Cons [simp]: "om_sum f (kv # m) = f (snd kv) + om_sum f m"
  by (simp add: om_sum_def om_vals_def)

lemma om_sum_keys: "om_wf m \<Longrightarrow> om_sum f m = (\<Sum>k\<in>om_keys m. contrib f (om_find k m))"
proof (induction m)
  case Nil
  then show ?case by simp
next
  case (Cons kv m)
  obtain k v where kv: "kv = (k, v)" by (cases kv)
  have notin: "k \<notin> om_keys m" using Cons.prems by (auto simp: om_wf_Cons kv)
  have "(\<Sum>j\<in>om_keys m. contrib f (om_find j (kv # m))) = (\<Sum>j\<in>om_keys m. contrib f (om_find j m))"
    using notin by (intro sum.cong) (auto simp: kv)
  then show ?case using Cons notin by (simp add: om_wf_Cons kv)
qed

lemma om_sum_superset:
  assumes "om_wf m" and "om_keys m \<subseteq> K" and "finite K"
  shows "om_sum f m = (\<Sum>k\<in>K. contrib f (om_find k m))"
proof -
  have "(\<Sum>k\<in>K. contrib f (om_find k m)) = (\<Sum>k\<in>om_keys m. contrib f (om_find k m))"
  proof (rule sum.mono_neutral_right [OF assms(3,2)])
    show "\<forall>i\<in>K - om_keys m. contrib f (om_find i m) = 0"
      by (metis Diff_iff contrib_simps(1) om_find_None)
  qed
  then show ?thesis using assms(1) by (simp add: om_sum_keys)
qed

lemma om_sum_mono:
  assumes "om_wf m" and "om_wf m'"
    and "\<And>k. contrib f (om_find k m') \<le> contrib g (om_find k m)"
  shows "om_sum f m' \<le> om_sum g m"
proof -
  let ?K = "om_keys m \<union> om_keys m'"
  have "om_sum f m' = (\<Sum>k\<in>?K. contrib f (om_find k m'))"
    by (rule om_sum_superset [OF assms(2)]) auto
  also have "\<dots> \<le> (\<Sum>k\<in>?K. contrib g (om_find k m))"
    by (rule sum_mono) (rule assms(3))
  also have "\<dots> = om_sum g m"
    by (rule om_sum_superset [OF assms(1), symmetric]) auto
  finally show ?thesis .
qed

lemma om_sum_cong:
  assumes "om_wf m" and "om_wf m'"
    and "\<And>k. contrib f (om_find k m') = contrib g (om_find k m)"
  shows "om_sum f m' = om_sum g m"
  using om_sum_mono [of m m' f g] om_sum_mono [of m' m g f] assms by (simp add: order_antisym)

text \<open>Changing one entry changes the sum by at most the new entry's contribution.\<close>

lemma om_sum_bump:
  assumes "om_wf m" and "om_wf m'"
    and "\<And>k. k \<noteq> j \<Longrightarrow> contrib f (om_find k m') \<le> contrib f (om_find k m)"
    and "contrib f (om_find j m') \<le> contrib f (om_find j m) + d"
  shows "om_sum f m' \<le> om_sum f m + d"
proof -
  let ?K = "insert j (om_keys m \<union> om_keys m')"
  have "om_sum f m' = (\<Sum>k\<in>?K. contrib f (om_find k m'))"
    by (rule om_sum_superset [OF assms(2)]) auto
  also have "\<dots> \<le> (\<Sum>k\<in>?K. contrib f (om_find k m) + (if k = j then d else 0))"
    using assms(3,4) by (intro sum_mono) (auto intro: add_increasing2)
  also have "\<dots> = (\<Sum>k\<in>?K. contrib f (om_find k m)) + d"
    by (simp add: sum.distrib)
  also have "(\<Sum>k\<in>?K. contrib f (om_find k m)) = om_sum f m"
    by (rule om_sum_superset [OF assms(1), symmetric]) auto
  finally show ?thesis .
qed

lemma om_sum_ge: "om_find k m = Some v \<Longrightarrow> f v \<le> om_sum f m"
  by (induction k m rule: om_find.induct) (auto split: if_splits)

lemma om_sum_add: "om_sum (\<lambda>v. f v + g v) m = om_sum f m + om_sum g m"
  by (simp add: om_sum_def sum_list_addf)

lemma om_sum_le: "(\<And>v. v \<in> set (om_vals m) \<Longrightarrow> f v \<le> g v) \<Longrightarrow> om_sum f m \<le> om_sum g m"
  by (simp add: om_sum_def sum_list_mono)

section \<open>Names of enumerations\<close>

text \<open>
  The contract between the printer and the parser of an enumeration: the parser recognises
  exactly the names that are printed. A printed name is then never ambiguous, and every other
  text is refused.
\<close>

locale naming =
  fixes name :: "'a \<Rightarrow> string"
    and from_name :: "string \<Rightarrow> 'a option"
  assumes from_name_iff: "from_name n = Some x \<longleftrightarrow> n = name x"
begin

lemma reads_name: "from_name (name x) = Some x"
  by (simp add: from_name_iff)

lemma name_eq_iff: "name x = name y \<longleftrightarrow> x = y"
  using reads_name by (metis option.inject)

lemma refuses_iff: "from_name n = None \<longleftrightarrow> n \<notin> range name"
  using from_name_iff by (metis option.exhaust option.distinct(1) rangeE rangeI)

end

text \<open>A parser that searches the list of all values keeps the contract if the names differ.\<close>

lemma naming_find:
  assumes "\<And>x. x \<in> set xs" and "distinct (map name xs)"
  shows "naming name (\<lambda>n. find (\<lambda>x. n = name x) xs)"
proof
  have inj: "name x = name y \<Longrightarrow> x = y" for x y
    using assms distinct_map inj_on_eq_iff by metis
  show "find (\<lambda>x. n = name x) xs = Some x \<longleftrightarrow> n = name x" for n x
  proof
    show "find (\<lambda>x. n = name x) xs = Some x \<Longrightarrow> n = name x" by (auto simp: find_Some_iff)
    assume "n = name x"
    then have "find (\<lambda>x. n = name x) xs \<noteq> None" using assms(1) by (auto simp: find_None_iff)
    then obtain y where y: "find (\<lambda>x. n = name x) xs = Some y" by blast
    then have "name x = name y" using \<open>n = name x\<close> by (auto simp: find_Some_iff)
    then show "find (\<lambda>x. n = name x) xs = Some x" using y inj by blast
  qed
qed

end
