(* ===== verification/Outcome.thy ===== *)
theory Outcome
  imports Prelude
begin

text \<open>
  Typed outcomes and checked arithmetic (\<open>include/isf/status.hpp\<close>, \<open>src/status.cpp\<close>,
  \<open>include/isf/checked.hpp\<close>). \<open>Expected<T>\<close> is the sum \<open>status + 'a\<close>: \<open>Inl\<close> a failure
  status, \<open>Inr\<close> the value. The diagnostic text an \<open>Outcome\<close> carries is not part of the
  model, since program logic branches on the status only.
\<close>

section \<open>Statuses\<close>

datatype status =
    StOk | StUnknown | StUnsupported | StStale | StConflicting | StIncomplete
  | StIndeterminate | StRefused | StCancelled | StInvalid | StNotFound | StDuplicate
  | StExhausted | StDenied | StLimitExceeded | StInvalidTransition | StCorrupt
  | StVersionMismatch | StUnauthorized | StBusy | StExpired | StFenced | StUnavailable
  | StAmbiguous

type_synonym 'a expected = "status + 'a"

text \<open>The early return on a failed \<open>Expected\<close>: the status is passed on.\<close>

definition ebind :: "'a expected \<Rightarrow> ('a \<Rightarrow> 'b expected) \<Rightarrow> 'b expected" where
  "ebind e f = (case e of Inl s \<Rightarrow> Inl s | Inr x \<Rightarrow> f x)"

definition kStatusNames :: "(status \<times> string) list" where
  "kStatusNames =
    [(StOk, ''OK''), (StUnknown, ''UNKNOWN''), (StUnsupported, ''UNSUPPORTED''),
     (StStale, ''STALE''), (StConflicting, ''CONFLICTING''), (StIncomplete, ''INCOMPLETE''),
     (StIndeterminate, ''INDETERMINATE''), (StRefused, ''REFUSED''), (StCancelled, ''CANCELLED''),
     (StInvalid, ''INVALID''), (StNotFound, ''NOT_FOUND''), (StDuplicate, ''DUPLICATE''),
     (StExhausted, ''EXHAUSTED''), (StDenied, ''DENIED''), (StLimitExceeded, ''LIMIT_EXCEEDED''),
     (StInvalidTransition, ''INVALID_TRANSITION''), (StCorrupt, ''CORRUPT''),
     (StVersionMismatch, ''VERSION_MISMATCH''), (StUnauthorized, ''UNAUTHORIZED''),
     (StBusy, ''BUSY''), (StExpired, ''EXPIRED''), (StFenced, ''FENCED''),
     (StUnavailable, ''UNAVAILABLE''), (StAmbiguous, ''AMBIGUOUS'')]"

definition status_name :: "status \<Rightarrow> string" where
  "status_name s =
     (case find (\<lambda>entry. fst entry = s) kStatusNames of
        Some entry \<Rightarrow> snd entry
      | None \<Rightarrow> ''INVALID'')"

text \<open>The second component is the \<open>recognized\<close> out-parameter.\<close>

definition status_from_name :: "string \<Rightarrow> status \<times> bool" where
  "status_from_name name =
     (case find (\<lambda>entry. name = snd entry) kStatusNames of
        Some entry \<Rightarrow> (fst entry, True)
      | None \<Rightarrow> (StInvalid, False))"

definition is_ok :: "status \<Rightarrow> bool" where
  "is_ok s \<longleftrightarrow> s = StOk"

definition is_refusal :: "status \<Rightarrow> bool" where
  "is_refusal s \<longleftrightarrow> s = StRefused \<or> s = StDenied \<or> s = StExhausted \<or> s = StLimitExceeded"

definition is_indeterminate :: "status \<Rightarrow> bool" where
  "is_indeterminate s \<longleftrightarrow>
     s = StUnknown \<or> s = StIncomplete \<or> s = StIndeterminate \<or> s = StConflicting \<or>
     s = StAmbiguous \<or> s = StUnavailable"

section \<open>Checked arithmetic\<close>

type_synonym amount = u64

definition kAmountMax :: amount where
  "kAmountMax = - 1"

definition checked_add :: "amount \<Rightarrow> amount \<Rightarrow> amount expected" where
  "checked_add a b = (if a > kAmountMax - b then Inl StLimitExceeded else Inr (a + b))"

definition checked_sub :: "amount \<Rightarrow> amount \<Rightarrow> amount expected" where
  "checked_sub a b = (if b > a then Inl StInvalid else Inr (a - b))"

definition checked_mul :: "amount \<Rightarrow> amount \<Rightarrow> amount expected" where
  "checked_mul a b =
     (if a = 0 \<or> b = 0 then Inr 0
      else if a > kAmountMax div b then Inl StLimitExceeded
      else Inr (a * b))"

definition saturating_add :: "amount \<Rightarrow> amount \<Rightarrow> amount" where
  "saturating_add a b = (if a > kAmountMax - b then kAmountMax else a + b)"

definition narrow_u32 :: "u64 \<Rightarrow> u32 expected" where
  "narrow_u32 value = (if value > 0xFFFFFFFF then Inl StLimitExceeded else Inr (ucast value))"

definition max_amount :: "amount \<Rightarrow> amount \<Rightarrow> amount" where
  "max_amount a b = (if a > b then a else b)"

section \<open>Facts\<close>

lemma ebind_simps [simp]: "ebind (Inl s) f = Inl s" "ebind (Inr x) f = f x"
  by (simp_all add: ebind_def)

lemma ebind_Inr: "ebind e f = Inr y \<longleftrightarrow> (\<exists>x. e = Inr x \<and> f x = Inr y)"
  by (cases e) auto

abbreviation amount_max :: nat where
  "amount_max \<equiv> 2 ^ 64 - 1"

lemma unat_kAmountMax [simp]: "unat kAmountMax = amount_max"
  by (simp add: kAmountMax_def unsigned_minus_1_eq_mask mask_eq_exp_minus_1)

lemma unat_le_max: "unat (a :: u64) \<le> amount_max"
proof -
  have "unat a < 2 ^ LENGTH(64)" by (rule unsigned_less)
  then show ?thesis by simp
qed

lemma le_kAmountMax [simp]: "a \<le> kAmountMax"
  by (simp add: kAmountMax_def)

lemma kAmountMax_minus: "unat (kAmountMax - b) = amount_max - unat b"
  by (simp add: unat_sub)

lemma add_overflows_iff: "a > kAmountMax - b \<longleftrightarrow> unat a + unat b > amount_max"
  using unat_le_max [of b] by (simp add: word_less_nat_alt kAmountMax_minus) linarith

lemma unat_add_fits: "unat a + unat b \<le> amount_max \<Longrightarrow> unat (a + b :: u64) = unat a + unat b"
  by (rule unat_add_lem [THEN iffD1]) simp

lemma checked_add_Inr:
  "checked_add a b = Inr c \<longleftrightarrow> unat a + unat b \<le> amount_max \<and> c = a + b"
  by (auto simp: checked_add_def add_overflows_iff)

lemma checked_add_unat:
  "checked_add a b = Inr c \<Longrightarrow> unat c = unat a + unat b"
  by (auto simp: checked_add_Inr unat_add_fits)

lemma checked_add_ok:
  "unat a + unat b \<le> amount_max \<Longrightarrow> checked_add a b = Inr (a + b)"
  by (simp add: checked_add_Inr)

lemma checked_add_Inl:
  "checked_add a b = Inl s \<longleftrightarrow> unat a + unat b > amount_max \<and> s = StLimitExceeded"
  by (auto simp: checked_add_def add_overflows_iff)

lemma checked_sub_Inr: "checked_sub a b = Inr c \<longleftrightarrow> unat b \<le> unat a \<and> c = a - b"
  by (auto simp: checked_sub_def word_less_nat_alt not_less)

lemma unat_saturating_add: "unat (saturating_add a b) = min amount_max (unat a + unat b)"
proof (cases "unat a + unat b > amount_max")
  case True
  then show ?thesis
    unfolding saturating_add_def using add_overflows_iff by simp
next
  case False
  then show ?thesis
    unfolding saturating_add_def using add_overflows_iff [of b a] unat_add_fits [of a b] by simp
qed

lemma unat_max_amount: "unat (max_amount a b) = max (unat a) (unat b)"
  by (auto simp: max_amount_def word_less_nat_alt)

lemma mul_overflows_iff:
  assumes "b \<noteq> 0"
  shows "a > kAmountMax div b \<longleftrightarrow> unat a * unat b > amount_max"
proof -
  have b: "0 < unat b" using assms by (simp add: unat_gt_0)
  have "a > kAmountMax div b \<longleftrightarrow> amount_max div unat b < unat a"
    by (simp add: word_less_nat_alt unat_div)
  also have "\<dots> \<longleftrightarrow> amount_max < unat a * unat b"
    using b by (metis div_less_iff_less_mult)
  finally show ?thesis .
qed

lemma checked_mul_unat:
  assumes "checked_mul a b = Inr c"
  shows "unat c = unat a * unat b"
proof (cases "a = 0 \<or> b = 0")
  case True
  then show ?thesis using assms by (auto simp: checked_mul_def)
next
  case False
  with assms have "unat a * unat b \<le> amount_max" and "c = a * b"
    using mul_overflows_iff [of b a] by (auto simp: checked_mul_def split: if_splits)
  then show ?thesis by (simp add: unat_mult_lem [THEN iffD1])
qed

lemma checked_mul_Inl:
  "checked_mul a b = Inl s \<Longrightarrow> unat a * unat b > amount_max \<and> s = StLimitExceeded"
  by (auto simp: checked_mul_def mul_overflows_iff split: if_splits)

text \<open>
  A status name is never ambiguous: parsing the name of any status recognises it and
  gives that status back, and a name that is not recognised is the name of no status.
\<close>

theorem status_name_roundtrip:
  "status_from_name (status_name s) = (s, True) \<and>
   (status_from_name name = (StInvalid, False) \<longleftrightarrow> (\<forall>t. status_name t \<noteq> name))"
proof
  show "status_from_name (status_name s) = (s, True)"
    by (cases s) (simp_all add: status_name_def status_from_name_def kStatusNames_def)
  have names: "(\<exists>t. status_name t = name) \<longleftrightarrow> name \<in> snd ` set kStatusNames"
  proof
    assume "\<exists>t. status_name t = name"
    then obtain t where t: "name = status_name t" by auto
    have "status_name t \<in> snd ` set kStatusNames"
      by (cases t) (simp_all add: status_name_def kStatusNames_def)
    with t show "name \<in> snd ` set kStatusNames" by simp
  next
    assume "name \<in> snd ` set kStatusNames"
    then obtain t where "(t, name) \<in> set kStatusNames" by auto
    then have "status_name t = name"
      by (auto simp: kStatusNames_def status_name_def)
    then show "\<exists>t. status_name t = name" by blast
  qed
  have "find (\<lambda>entry. name = snd entry) kStatusNames = None \<longleftrightarrow> name \<notin> snd ` set kStatusNames"
    by (force simp: find_None_iff)
  then have "status_from_name name = (StInvalid, False) \<longleftrightarrow> name \<notin> snd ` set kStatusNames"
    by (auto simp: status_from_name_def split: option.splits)
  then show "status_from_name name = (StInvalid, False) \<longleftrightarrow> (\<forall>t. status_name t \<noteq> name)"
    using names by blast
qed

end
