(* ===== verification/Ids.thy ===== *)
theory Ids
  imports Outcome "HOL-Library.Word"
begin

text \<open>
  Identities (\<open>include/isf/ids.hpp\<close>, \<open>src/ids.cpp\<close>): the 128-bit value, its order (the
  order of every \<open>std::map\<close> of the authority), its textual forms, the deterministic
  construction from seeds, and the monotonic counters. The sixteen \<open>TypedId\<close> instances
  share one representation; the tag only contributes its textual prefix, which is an
  argument here. \<open>Id128::random\<close> reads the process entropy source and is not modelled.
\<close>

unbundle bit_operations_syntax

datatype id128 = Id128 (id_hi: u64) (id_lo: u64)

instantiation id128 :: linorder
begin

definition less_eq_id128 :: "id128 \<Rightarrow> id128 \<Rightarrow> bool" where
  "less_eq_id128 a b \<longleftrightarrow> id_hi a < id_hi b \<or> id_hi a = id_hi b \<and> id_lo a \<le> id_lo b"

definition less_id128 :: "id128 \<Rightarrow> id128 \<Rightarrow> bool" where
  "less_id128 a b \<longleftrightarrow> id_hi a < id_hi b \<or> id_hi a = id_hi b \<and> id_lo a < id_lo b"

instance
proof
  fix x y z :: id128
  show "x < y \<longleftrightarrow> x \<le> y \<and> \<not> y \<le> x"
    by (auto simp: less_id128_def less_eq_id128_def)
  show "x \<le> x"
    by (simp add: less_eq_id128_def)
  show "x \<le> y \<Longrightarrow> y \<le> z \<Longrightarrow> x \<le> z"
    by (auto simp: less_eq_id128_def)
  show "x \<le> y \<Longrightarrow> y \<le> x \<Longrightarrow> x = y"
    by (cases x; cases y) (auto simp: less_eq_id128_def)
  show "x \<le> y \<or> y \<le> x"
    by (auto simp: less_eq_id128_def)
qed

end

type_synonym site_id = id128
type_synonym path_id = id128
type_synonym edge_id = id128
type_synonym grant_id = id128
type_synonym lease_id = id128
type_synonym request_id = id128
type_synonym domain_id = id128
type_synonym principal_id = id128
type_synonym incarnation = id128
type_synonym policy_id = id128
type_synonym verification_id = id128
type_synonym oversubscription_id = id128
type_synonym attestation_id = id128
type_synonym generation = u64
type_synonym epoch = u64
type_synonym arb_seq = u64

definition nil_id :: id128 where
  "nil_id = Id128 0 0"

definition is_nil :: "id128 \<Rightarrow> bool" where
  "is_nil x \<longleftrightarrow> id_hi x = 0 \<and> id_lo x = 0"

definition generation_is_nil :: "generation \<Rightarrow> bool" where
  "generation_is_nil g \<longleftrightarrow> g = 0"

definition generation_next :: "generation \<Rightarrow> generation" where
  "generation_next g = g + 1"

section \<open>Textual forms\<close>

definition kHexDigits :: string where
  "kHexDigits = ''0123456789abcdef''"

definition char_code :: "char \<Rightarrow> int" where
  "char_code c = of_char c"

definition hex_value :: "char \<Rightarrow> int" where
  "hex_value c =
     (if char_code c \<ge> char_code CHR ''0'' \<and> char_code c \<le> char_code CHR ''9''
      then char_code c - char_code CHR ''0''
      else if char_code c \<ge> char_code CHR ''a'' \<and> char_code c \<le> char_code CHR ''f''
      then 10 + (char_code c - char_code CHR ''a'')
      else if char_code c \<ge> char_code CHR ''A'' \<and> char_code c \<le> char_code CHR ''F''
      then 10 + (char_code c - char_code CHR ''A'')
      else - 1)"

definition hex_word :: "u64 \<Rightarrow> string" where
  "hex_word w = map (\<lambda>i. kHexDigits ! unat (drop_bit ((15 - i) * 4) w AND 0xF)) [0..<16]"

definition to_hex :: "id128 \<Rightarrow> string" where
  "to_hex x = hex_word (id_hi x) @ hex_word (id_lo x)"

definition to_canonical :: "id128 \<Rightarrow> string" where
  "to_canonical x =
     (let flat = to_hex x
      in take 8 flat @ ''-'' @ take 4 (drop 8 flat) @ ''-'' @ take 4 (drop 12 flat) @ ''-'' @
         take 4 (drop 16 flat) @ ''-'' @ take 12 (drop 20 flat))"

text \<open>The loop that shifts one nibble after the other into its target word.\<close>

fun hex_shift_in :: "u64 \<Rightarrow> string \<Rightarrow> u64 expected" where
  "hex_shift_in target [] = Inr target"
| "hex_shift_in target (c # cs) =
     (let v = hex_value c
      in if v < 0 then Inl StInvalid
         else hex_shift_in (push_bit 4 target OR word_of_int v) cs)"

definition id128_parse :: "string \<Rightarrow> id128 expected" where
  "id128_parse text =
     (let compact = filter (\<lambda>c. c \<noteq> CHR ''-'') text
      in if length compact \<noteq> 32 then Inl StInvalid
         else case hex_shift_in 0 (take 16 compact) of
             Inl s \<Rightarrow> Inl s
           | Inr hi \<Rightarrow>
               (case hex_shift_in 0 (drop 16 compact) of
                  Inl s \<Rightarrow> Inl s
                | Inr lo \<Rightarrow> Inr (Id128 hi lo)))"

definition typed_id_to_string :: "string \<Rightarrow> id128 \<Rightarrow> string" where
  "typed_id_to_string prefix x = prefix @ '':'' @ to_canonical x"

definition typed_id_parse :: "string \<Rightarrow> string \<Rightarrow> id128 expected" where
  "typed_id_parse prefix text =
     id128_parse
       (if length text > length prefix + 1 \<and> take (length prefix) text = prefix \<and>
           text ! length prefix = CHR '':''
        then drop (length prefix + 1) text else text)"

text \<open>Decimal text of a counter (\<open>std::to_string\<close>).\<close>

fun nat_to_dec :: "nat \<Rightarrow> string" where
  "nat_to_dec n =
     (if n < 10 then [kHexDigits ! n] else nat_to_dec (n div 10) @ [kHexDigits ! (n mod 10)])"

declare nat_to_dec.simps [simp del]

definition u64_to_string :: "u64 \<Rightarrow> string" where
  "u64_to_string w = nat_to_dec (unat w)"

section \<open>Deterministic construction\<close>

text \<open>One step: the new generator state and the mixed output.\<close>

definition splitmix64 :: "u64 \<Rightarrow> u64 \<times> u64" where
  "splitmix64 state =
     (let state = state + 0x9E3779B97F4A7C15;
          z = state;
          z = (z XOR drop_bit 30 z) * 0xBF58476D1CE4E5B9;
          z = (z XOR drop_bit 27 z) * 0x94D049BB133111EB
      in (state, z XOR drop_bit 31 z))"

definition from_seed :: "u64 \<Rightarrow> u64 \<Rightarrow> id128" where
  "from_seed a b =
     (let state = a XOR (b * 0xD6E8FEB86659FD93);
          (state, hi) = splitmix64 state;
          (state, lo) = splitmix64 state
      in if is_nil (Id128 hi lo) then Id128 hi 1 else Id128 hi lo)"

definition id_hash :: "id128 \<Rightarrow> u64" where
  "id_hash i =
     (let x = id_hi i XOR (id_lo i + 0x9E3779B97F4A7C15 + push_bit 6 (id_hi i) + drop_bit 2 (id_hi i));
          x = x XOR drop_bit 33 x;
          x = x * 0xFF51AFD7ED558CCD
      in x XOR drop_bit 33 x)"

section \<open>Facts\<close>

lemma is_nil_iff: "is_nil x \<longleftrightarrow> x = nil_id"
  by (cases x) (simp add: is_nil_def nil_id_def)

lemma from_seed_not_nil: "\<not> is_nil (from_seed a b)"
  by (auto simp: from_seed_def is_nil_def Let_def split: prod.splits)

lemma nibble_lt: "unat (w AND 0xF :: u64) < 16"
proof -
  have "w AND 0xF \<le> (0xF :: u64)" by (rule word_and_le1)
  then have "unat (w AND 0xF) \<le> unat (0xF :: u64)" by (simp only: word_le_nat_alt)
  then show ?thesis by simp
qed

lemma hex_digit_value: "n < 16 \<Longrightarrow> hex_value (kHexDigits ! n) = int n \<and> kHexDigits ! n \<noteq> CHR ''-''"
proof -
  have "\<forall>n \<in> set [0..<16]. hex_value (kHexDigits ! n) = int n \<and> kHexDigits ! n \<noteq> CHR ''-''"
    by (simp add: upt_rec kHexDigits_def hex_value_def char_code_def)
  then show "n < 16 \<Longrightarrow> ?thesis" by simp
qed

lemma shift_in_nibble:
  assumes "s + 4 \<le> 64"
  shows "push_bit 4 (drop_bit (s + 4) w) OR (drop_bit s w AND 0xF) = drop_bit s (w :: u64)"
proof (rule bit_word_eqI)
  fix n assume "n < LENGTH(64)"
  have mask: "(0xF :: u64) = mask 4" by (simp add: mask_eq_exp_minus_1)
  show "bit (push_bit 4 (drop_bit (s + 4) w) OR drop_bit s w AND 0xF) n \<longleftrightarrow> bit (drop_bit s w) n"
    unfolding mask using \<open>n < LENGTH(64)\<close> by (cases "n < 4") (auto simp: bit_simps not_less add.assoc)
qed

lemma hex_word_shift_in:
  "k \<le> 16 \<Longrightarrow>
    hex_shift_in (drop_bit (4 * k) w)
      (map (\<lambda>i. kHexDigits ! unat (drop_bit ((15 - i) * 4) w AND 0xF)) [16 - k..<16]) = Inr w"
proof (induction k)
  case 0
  then show ?case by simp
next
  case (Suc k)
  let ?d = "drop_bit (4 * k) w AND 0xF"
  have range: "[16 - Suc k..<16] = (15 - k) # [16 - k..<16]"
    using Suc.prems by (subst upt_conv_Cons) (auto intro: arg_cong2 [where f = upt])
  have idx: "(15 - (15 - k)) * 4 = 4 * k" using Suc.prems by simp
  have v: "hex_value (kHexDigits ! unat ?d) = int (unat ?d)"
    using hex_digit_value [OF nibble_lt] by blast
  have "push_bit 4 (drop_bit (4 * Suc k) w) OR ?d = drop_bit (4 * k) w"
    using shift_in_nibble [of "4 * k" w] Suc.prems by (simp add: add.commute)
  then show ?case
    using Suc.IH Suc.prems unfolding range list.map hex_shift_in.simps Let_def idx v
    by (simp del: upt_Suc)
qed

lemma hex_word_parses: "hex_shift_in 0 (hex_word w) = Inr w"
proof -
  have "drop_bit 64 w = 0" by (rule bit_word_eqI) (simp add: bit_simps)
  then show ?thesis using hex_word_shift_in [of 16 w] by (simp add: hex_word_def)
qed

lemma hex_word_length [simp]: "length (hex_word w) = 16"
  by (simp add: hex_word_def)

lemma hex_word_no_dash: "CHR ''-'' \<notin> set (hex_word w)"
  using hex_digit_value [OF nibble_lt] by (force simp: hex_word_def)

lemma to_hex_length [simp]: "length (to_hex x) = 32"
  by (simp add: to_hex_def)

lemma to_hex_no_dash: "filter (\<lambda>c. c \<noteq> CHR ''-'') (to_hex x) = to_hex x"
  using hex_word_no_dash [of "id_hi x"] hex_word_no_dash [of "id_lo x"]
  by (auto simp: to_hex_def filter_id_conv simp del: filter_append)

lemma pieces: "length xs = 32 \<Longrightarrow>
    take 8 xs @ take 4 (drop 8 xs) @ take 4 (drop 12 xs) @ take 4 (drop 16 xs) @ take 12 (drop 20 xs) = xs"
  using take_add [of 8 4 xs] take_add [of 12 4 xs] take_add [of 16 4 xs] take_add [of 20 12 xs]
  by simp

lemma to_canonical_no_dash: "filter (\<lambda>c. c \<noteq> CHR ''-'') (to_canonical x) = to_hex x"
proof -
  have f: "filter (\<lambda>c. c \<noteq> CHR ''-'') ys = ys" if "set ys \<subseteq> set (to_hex x)" for ys
  proof -
    have "CHR ''-'' \<notin> set (to_hex x)" by (simp add: to_hex_def hex_word_no_dash)
    with that show ?thesis by (auto simp: filter_id_conv)
  qed
  have sub: "set (take n (drop m (to_hex x))) \<subseteq> set (to_hex x)" "set (take n (to_hex x)) \<subseteq> set (to_hex x)" for n m
    by (meson order_trans set_drop_subset set_take_subset)+
  show ?thesis
    unfolding to_canonical_def Let_def using pieces [of "to_hex x"]
    by (simp add: f sub set_drop_subset)
qed

lemma id128_parse_hex: "filter (\<lambda>c. c \<noteq> CHR ''-'') text = to_hex x \<Longrightarrow> id128_parse text = Inr x"
  by (cases x) (simp add: id128_parse_def Let_def to_hex_def hex_word_parses)

text \<open>
  Identities survive their textual forms: parsing the 32-digit form, the grouped
  canonical form, or the prefixed form of a typed identity gives the identity back.
\<close>

theorem id_text_roundtrip:
  "id128_parse (to_hex x) = Inr x \<and> id128_parse (to_canonical x) = Inr x \<and>
   typed_id_parse prefix (typed_id_to_string prefix x) = Inr x"
proof (intro conjI)
  show "id128_parse (to_hex x) = Inr x" "id128_parse (to_canonical x) = Inr x"
    by (simp_all add: id128_parse_hex to_hex_no_dash to_canonical_no_dash)
  then show "typed_id_parse prefix (typed_id_to_string prefix x) = Inr x"
    by (simp add: typed_id_parse_def typed_id_to_string_def nth_append to_canonical_def Let_def)
qed

text \<open>
  the parser ignores dashes wherever they stand, so it accepts more than the flat and
  the grouped form: any text with the 32 digits of an identity and extra dashes parses.
\<close>

theorem id_parse_ignores_dashes:
  "id128_parse (concat (map (\<lambda>c. [c, CHR ''-'']) (to_hex x))) = Inr x"
proof -
  have "filter (\<lambda>c. c \<noteq> CHR ''-'') (concat (map (\<lambda>c. [c, CHR ''-'']) ys)) =
      filter (\<lambda>c. c \<noteq> CHR ''-'') ys" for ys
    by (induction ys) simp_all
  then show ?thesis by (simp add: id128_parse_hex to_hex_no_dash)
qed

end
