(* ===== verification/Wire.thy ===== *)
theory Wire
  imports Ids
begin

text \<open>
  The canonical binary encoding (\<open>include/isf/wire.hpp\<close>, \<open>src/wire.cpp\<close>). A \<open>Writer\<close>
  method appends bytes to its buffer; its model is the list of bytes it appends. A
  \<open>Reader\<close> is the unread suffix of its input together with the limits; a read either fails
  with a status or gives a value and the new suffix. A \<open>std::string\<close> is a HOL string,
  whose characters are bytes.
\<close>

unbundle bit_operations_syntax

section \<open>Limits\<close>

record wire_limits =
  max_bytes :: nat
  max_string :: nat
  max_container :: nat
  max_nesting :: nat

definition default_limits :: wire_limits where
  "default_limits = \<lparr>max_bytes = 1048576, max_string = 4096, max_container = 4096, max_nesting = 8\<rparr>"

section \<open>UTF-8 validation\<close>

definition byte_of_char :: "char \<Rightarrow> byte" where
  "byte_of_char c = of_nat (of_char c)"

definition char_of_byte :: "byte \<Rightarrow> char" where
  "char_of_byte b = char_of (unat b)"

text \<open>The classification of a lead byte: how many continuation bytes follow, and its payload bits.\<close>

definition utf8_lead :: "byte \<Rightarrow> (nat \<times> u32) option" where
  "utf8_lead lead =
     (if lead AND 0xE0 = 0xC0 then
        (let code = ucast (lead AND 0x1F) in if code = 0 then None else Some (1, code))
      else if lead AND 0xF0 = 0xE0 then Some (2, ucast (lead AND 0x0F))
      else if lead AND 0xF8 = 0xF0 then Some (3, ucast (lead AND 0x07))
      else None)"

text \<open>The loop over the continuation bytes.\<close>

fun utf8_continue :: "u32 \<Rightarrow> byte list \<Rightarrow> u32 option" where
  "utf8_continue code [] = Some code"
| "utf8_continue code (cont # rest) =
     (if cont AND 0xC0 \<noteq> 0x80 then None
      else utf8_continue (push_bit 6 code OR ucast (cont AND 0x3F)) rest)"

function utf8_valid_bytes :: "byte list \<Rightarrow> bool" where
  "utf8_valid_bytes [] = True"
| "utf8_valid_bytes (lead # rest) =
     (if lead < 0x80 then utf8_valid_bytes rest
      else case utf8_lead lead of
          None \<Rightarrow> False
        | Some (extra, code0) \<Rightarrow>
            if length rest < extra then False
            else case utf8_continue code0 (take extra rest) of
                None \<Rightarrow> False
              | Some code \<Rightarrow>
                  if extra = 2 \<and> code < 0x800 then False
                  else if extra = 3 \<and> code < 0x10000 then False
                  else if code > 0x10FFFF then False
                  else if code \<ge> 0xD800 \<and> code \<le> 0xDFFF then False
                  else utf8_valid_bytes (drop extra rest))"
  by pat_completeness auto
termination
  by (relation "measure length") auto

definition is_valid_utf8 :: "string \<Rightarrow> bool" where
  "is_valid_utf8 text = utf8_valid_bytes (map byte_of_char text)"

section \<open>Writer\<close>

definition w_u8 :: "u8 \<Rightarrow> byte list" where
  "w_u8 v = [v]"

definition w_u16 :: "u16 \<Rightarrow> byte list" where
  "w_u16 v = [ucast (v AND 0xFF), ucast (drop_bit 8 v AND 0xFF)]"

definition w_u32 :: "u32 \<Rightarrow> byte list" where
  "w_u32 v = map (\<lambda>i. ucast (drop_bit (i * 8) v AND 0xFF)) [0..<4]"

definition w_u64 :: "u64 \<Rightarrow> byte list" where
  "w_u64 v = map (\<lambda>i. ucast (drop_bit (i * 8) v AND 0xFF)) [0..<8]"

definition w_boolean :: "bool \<Rightarrow> byte list" where
  "w_boolean v = w_u8 (if v then 1 else 0)"

definition w_bytes :: "byte list \<Rightarrow> byte list" where
  "w_bytes v = w_u32 (of_nat (length v)) @ v"

definition w_str :: "string \<Rightarrow> byte list" where
  "w_str v = w_u32 (of_nat (length v)) @ map byte_of_char v"

definition w_id128 :: "id128 \<Rightarrow> byte list" where
  "w_id128 v = w_u64 (id_hi v) @ w_u64 (id_lo v)"

section \<open>Digests\<close>

text \<open>A \<open>Digest256\<close> is exactly 32 bytes; the length is part of the type, as in the code.\<close>

typedef digest256 = "{bs :: byte list. length bs = 32}"
  by (rule exI [of _ "replicate 32 0"]) simp

definition digest_bytes :: "digest256 \<Rightarrow> byte list" where
  "digest_bytes d = Rep_digest256 d"

definition digest_of :: "byte list \<Rightarrow> digest256" where
  "digest_of bs = Abs_digest256 (if length bs = 32 then bs else replicate 32 0)"

definition digest_zero :: digest256 where
  "digest_zero = digest_of (replicate 32 0)"

definition digest_is_zero :: "digest256 \<Rightarrow> bool" where
  "digest_is_zero d = list_all (\<lambda>b. b = 0) (digest_bytes d)"

definition w_digest :: "digest256 \<Rightarrow> byte list" where
  "w_digest d = digest_bytes d"

section \<open>Reader\<close>

type_synonym 'a reader = "byte list \<Rightarrow> ('a \<times> byte list) expected"

definition rbind :: "'a reader \<Rightarrow> ('a \<Rightarrow> 'b reader) \<Rightarrow> 'b reader" where
  "rbind r f bs = (case r bs of Inl s \<Rightarrow> Inl s | Inr (x, rest) \<Rightarrow> f x rest)"

definition rreturn :: "'a \<Rightarrow> 'a reader" where
  "rreturn x bs = Inr (x, bs)"

definition rfail :: "status \<Rightarrow> 'a reader" where
  "rfail s bs = Inl s"

definition r_take :: "nat \<Rightarrow> byte list reader" where
  "r_take count bs = (if count > length bs then Inl StInvalid else Inr (take count bs, drop count bs))"

definition r_u8 :: "u8 reader" where
  "r_u8 = rbind (r_take 1) (\<lambda>sp. rreturn (sp ! 0))"

definition r_u16 :: "u16 reader" where
  "r_u16 = rbind (r_take 2) (\<lambda>sp. rreturn (ucast (sp ! 0) OR push_bit 8 (ucast (sp ! 1))))"

text \<open>The loop \<open>out |= span[i] << (i * 8)\<close>.\<close>

definition le_word :: "nat \<Rightarrow> byte list \<Rightarrow> 'w::len word" where
  "le_word n sp = fold (\<lambda>i out. out OR push_bit (i * 8) (ucast (sp ! i))) [0..<n] 0"

definition r_u32 :: "u32 reader" where
  "r_u32 = rbind (r_take 4) (\<lambda>sp. rreturn (le_word 4 sp))"

definition r_u64 :: "u64 reader" where
  "r_u64 = rbind (r_take 8) (\<lambda>sp. rreturn (le_word 8 sp))"

definition r_boolean :: "bool reader" where
  "r_boolean = rbind r_u8 (\<lambda>v. if v > 1 then rfail StInvalid else rreturn (v = 1))"

definition r_bytes :: "wire_limits \<Rightarrow> byte list reader" where
  "r_bytes lim =
     rbind r_u32 (\<lambda>len.
       let count = unat len
       in if count > max_bytes lim then rfail StLimitExceeded else r_take count)"

definition r_str :: "wire_limits \<Rightarrow> string reader" where
  "r_str lim =
     rbind r_u32 (\<lambda>len.
       let count = unat len
       in if count > max_string lim then rfail StLimitExceeded
          else rbind (r_take count) (\<lambda>sp.
            let view = map char_of_byte sp
            in if is_valid_utf8 view then rreturn view else rfail StInvalid))"

definition r_id128 :: "id128 reader" where
  "r_id128 = rbind r_u64 (\<lambda>high. rbind r_u64 (\<lambda>low. rreturn (Id128 high low)))"

definition r_digest :: "digest256 reader" where
  "r_digest = rbind (r_take 32) (\<lambda>sp. rreturn (digest_of sp))"

definition r_container_count :: "wire_limits \<Rightarrow> u32 reader" where
  "r_container_count lim =
     rbind r_u32 (\<lambda>count bs.
       if unat count > max_container lim then Inl StLimitExceeded
       else if unat count > length bs + 1 then Inl StInvalid
       else Inr (count, bs))"

definition require_end :: "byte list \<Rightarrow> status" where
  "require_end bs = (if bs = [] then StOk else StInvalid)"

section \<open>Facts: integers\<close>

lemma rbind_ok: "r bs = Inr (x, rest) \<Longrightarrow> rbind r f bs = f x rest"
  by (simp add: rbind_def)

lemma rbind_fail: "r bs = Inl s \<Longrightarrow> rbind r f bs = Inl s"
  by (simp add: rbind_def)

lemma rbind_Inr: "rbind r f bs = Inr y \<longleftrightarrow> (\<exists>x rest. r bs = Inr (x, rest) \<and> f x rest = Inr y)"
  by (auto simp: rbind_def split: sum.splits)

lemma rreturn_apply [simp]: "rreturn x bs = Inr (x, bs)"
  by (simp add: rreturn_def)

lemma rfail_apply [simp]: "rfail s bs = Inl s"
  by (simp add: rfail_def)

lemma r_take_append: "length xs = n \<Longrightarrow> r_take n (xs @ rest) = Inr (xs, rest)"
  by (simp add: r_take_def)

lemma bit_fold_or:
  "bit (fold (\<lambda>i out. out OR g i) is acc) n \<longleftrightarrow> bit (acc :: 'w::len word) n \<or> (\<exists>i\<in>set is. bit (g i) n)"
  by (induction "is" arbitrary: acc) (auto simp: bit_or_iff)

lemma bit_le_byte:
  "bit (ucast (ucast (drop_bit (i * 8) v AND 0xFF) :: byte) :: 'w::len word) m \<longleftrightarrow>
     m < LENGTH('w) \<and> m < 8 \<and> bit (v :: 'w word) (i * 8 + m)"
proof -
  have mask: "(0xFF :: 'w word) = mask 8" by (simp add: mask_eq_exp_minus_1)
  show ?thesis unfolding mask by (auto simp: bit_simps)
qed

lemma le_word_bytes:
  assumes "LENGTH('w::len) = n * 8"
    and "\<And>i. i < n \<Longrightarrow> sp ! i = ucast (drop_bit (i * 8) (v :: 'w word) AND 0xFF)"
  shows "le_word n sp = v"
proof (rule bit_word_eqI)
  fix m assume m: "m < LENGTH('w)"
  have "bit (le_word n sp :: 'w word) m \<longleftrightarrow>
      (\<exists>i < n. i * 8 \<le> m \<and> bit (ucast (sp ! i) :: 'w word) (m - i * 8))"
    using m by (auto simp: le_word_def bit_fold_or bit_push_bit_iff)
  also have "\<dots> \<longleftrightarrow> (\<exists>i < n. i * 8 \<le> m \<and> m - i * 8 < 8 \<and> bit v m)"
    using m by (auto simp: assms(2) bit_le_byte)
  also have "\<dots> \<longleftrightarrow> bit v m"
  proof -
    have "m div 8 < n" using m assms(1) by (simp add: less_mult_imp_div_less)
    moreover have "m div 8 * 8 \<le> m" "m - m div 8 * 8 < 8"
      by (simp_all add: minus_div_mult_eq_mod)
    ultimately show ?thesis by blast
  qed
  finally show "bit (le_word n sp :: 'w word) m \<longleftrightarrow> bit v m" .
qed

lemma r_u8_w [codec_simps]: "r_u8 (w_u8 v @ rest) = Inr (v, rest)"
  by (simp add: r_u8_def w_u8_def rbind_ok r_take_def)

lemma r_u32_w [codec_simps]: "r_u32 (w_u32 v @ rest) = Inr (v, rest)"
proof -
  have "le_word 4 (w_u32 v) = v"
    by (rule le_word_bytes) (simp_all add: w_u32_def)
  then show ?thesis by (simp add: r_u32_def rbind_ok r_take_append w_u32_def)
qed

lemma r_u64_w [codec_simps]: "r_u64 (w_u64 v @ rest) = Inr (v, rest)"
proof -
  have "le_word 8 (w_u64 v) = v"
    by (rule le_word_bytes) (simp_all add: w_u64_def)
  then show ?thesis by (simp add: r_u64_def rbind_ok r_take_append w_u64_def)
qed

lemma r_u16_w [codec_simps]: "r_u16 (w_u16 v @ rest) = Inr (v, rest)"
proof -
  have "le_word 2 (w_u16 v) = v"
    by (rule le_word_bytes) (auto simp: w_u16_def less_2_cases_iff)
  moreover have "le_word 2 sp = (ucast (sp ! 0) OR push_bit 8 (ucast (sp ! 1)) :: u16)" for sp
    by (simp add: le_word_def numeral_2_eq_2)
  ultimately show ?thesis by (simp add: r_u16_def rbind_def r_take_def w_u16_def)
qed

lemma r_boolean_w [codec_simps]: "r_boolean (w_boolean v @ rest) = Inr (v, rest)"
  by (cases v) (simp_all add: r_boolean_def w_boolean_def rbind_ok r_u8_w)

lemma r_id128_w [codec_simps]: "r_id128 (w_id128 v @ rest) = Inr (v, rest)"
  by (simp add: r_id128_def w_id128_def rbind_ok r_u64_w)

lemma digest_bytes_length [simp]: "length (digest_bytes d) = 32"
  using Rep_digest256 [of d] by (simp add: digest_bytes_def)

lemma digest_of_bytes [simp]: "digest_of (digest_bytes d) = d"
  using digest_bytes_length [of d] by (simp add: digest_of_def digest_bytes_def Rep_digest256_inverse)

lemma digest_bytes_of [simp]: "length bs = 32 \<Longrightarrow> digest_bytes (digest_of bs) = bs"
  by (simp add: digest_of_def digest_bytes_def Abs_digest256_inverse)

lemma r_digest_w [codec_simps]: "r_digest (w_digest d @ rest) = Inr (d, rest)"
  by (simp add: r_digest_def w_digest_def rbind_ok r_take_append)

section \<open>Facts: strings\<close>

lemma char_of_byte_of_char [simp]: "char_of_byte (byte_of_char c) = c"
proof -
  have "of_char c < (256 :: nat)" by (rule nat_of_char_less_256)
  then show ?thesis by (simp add: char_of_byte_def byte_of_char_def unsigned_of_nat take_bit_nat_eq_self)
qed

lemma byte_of_char_of_byte [simp]: "byte_of_char (char_of_byte b) = b"
proof -
  have "unat b < 2 ^ LENGTH(8)" by (rule unsigned_less)
  then show ?thesis by (simp add: char_of_byte_def byte_of_char_def)
qed

lemma map_char_byte [simp]: "map char_of_byte (map byte_of_char s) = s"
  by (simp add: comp_def)

lemma unat_u32_length: "length v < 2 ^ 32 \<Longrightarrow> unat (of_nat (length v) :: u32) = length v"
  by (simp add: unsigned_of_nat take_bit_nat_eq_self)

text \<open>What reading a written string gives: the string, or the reason it is refused.\<close>

lemma r_str_w:
  "length v < 2 ^ 32 \<Longrightarrow>
   r_str lim (w_str v @ rest) =
     (if length v > max_string lim then Inl StLimitExceeded
      else if is_valid_utf8 v then Inr (v, rest) else Inl StInvalid)"
  by (simp add: r_str_def w_str_def rbind_ok r_u32_w unat_u32_length r_take_append Let_def comp_def)

lemma r_bytes_w:
  "length v < 2 ^ 32 \<Longrightarrow>
   r_bytes lim (w_bytes v @ rest) =
     (if length v > max_bytes lim then Inl StLimitExceeded else Inr (v, rest))"
  by (simp add: r_bytes_def w_bytes_def rbind_ok r_u32_w unat_u32_length r_take_append Let_def)

lemma r_str_bound: "r_str lim bs = Inr (v, rest) \<Longrightarrow> length v \<le> max_string lim \<and> is_valid_utf8 v"
  by (auto simp: r_str_def rbind_Inr Let_def r_take_def split: if_splits)

lemma w_lengths [simp]:
  "length (w_u8 a) = 1" "length (w_u16 b) = 2" "length (w_u32 c) = 4" "length (w_u64 d) = 8"
  "length (w_boolean e) = 1" "length (w_id128 f) = 16" "length (w_digest g) = 32"
  "length (w_str s) = 4 + length s" "length (w_bytes x) = 4 + length x"
  by (simp_all add: w_u8_def w_u16_def w_u32_def w_u64_def w_boolean_def w_id128_def w_digest_def
      w_str_def w_bytes_def)

end
