(* ===== verification/Capacity.thy ===== *)
theory Capacity
  imports Outcome
begin

text \<open>
  The derived capacity ledger of a path and the basis-point arithmetic
  (\<open>include/isf/capacity.hpp\<close>, \<open>src/capacity.cpp\<close>). The one-line text summary of a ledger
  is in \<open>Control\<close>, with the other texts.
\<close>

datatype capacity_class = CcFree | CcReserved | CcCommitted | CcProtected | CcUnavailable

definition capacity_class_name :: "capacity_class \<Rightarrow> string" where
  "capacity_class_name c =
     (case c of
        CcFree \<Rightarrow> ''FREE''
      | CcReserved \<Rightarrow> ''RESERVED''
      | CcCommitted \<Rightarrow> ''COMMITTED''
      | CcProtected \<Rightarrow> ''PROTECTED''
      | CcUnavailable \<Rightarrow> ''UNAVAILABLE'')"

record capacity_ledger =
  cl_authoritative_usable :: amount
  cl_committed :: amount
  cl_withdrawing :: amount
  cl_reserved :: amount
  cl_protected_headroom :: amount
  cl_unavailable :: amount
  cl_free :: amount
  cl_allocatable :: amount
  cl_reclaimable :: amount
  cl_oversubscribed :: amount
  cl_authorized_extension :: amount

definition empty_ledger :: capacity_ledger where
  "empty_ledger =
     \<lparr>cl_authoritative_usable = 0, cl_committed = 0, cl_withdrawing = 0, cl_reserved = 0,
      cl_protected_headroom = 0, cl_unavailable = 0, cl_free = 0, cl_allocatable = 0,
      cl_reclaimable = 0, cl_oversubscribed = 0, cl_authorized_extension = 0\<rparr>"

definition ledger_allocated :: "capacity_ledger \<Rightarrow> amount expected" where
  "ledger_allocated l =
     (case checked_add (cl_committed l) (cl_withdrawing l) of
        Inl s \<Rightarrow> Inl s
      | Inr held \<Rightarrow> checked_add held (cl_reserved l))"

definition ledger_basis :: "capacity_ledger \<Rightarrow> amount expected" where
  "ledger_basis l = checked_add (cl_authoritative_usable l) (cl_authorized_extension l)"

text \<open>The loop that adds the parts to a running checked sum.\<close>

fun checked_sum :: "amount \<Rightarrow> amount list \<Rightarrow> amount expected" where
  "checked_sum acc [] = Inr acc"
| "checked_sum acc (part # parts) =
     (case checked_add acc part of Inl s \<Rightarrow> Inl s | Inr acc' \<Rightarrow> checked_sum acc' parts)"

definition verify_closure :: "capacity_ledger \<Rightarrow> status" where
  "verify_closure l =
     (case checked_add (cl_free l) (cl_committed l) of
        Inl s \<Rightarrow> s
      | Inr sum0 \<Rightarrow>
     (case checked_sum sum0 [cl_reserved l, cl_protected_headroom l, cl_unavailable l] of
        Inl s \<Rightarrow> s
      | Inr tot \<Rightarrow>
     (case ledger_basis l of
        Inl s \<Rightarrow> s
      | Inr expected_total \<Rightarrow>
     (case checked_add expected_total (cl_oversubscribed l) of
        Inl s \<Rightarrow> s
      | Inr with_over \<Rightarrow>
     (if tot \<noteq> with_over then StIncomplete
      else case ledger_allocated l of
        Inl s \<Rightarrow> s
      | Inr held \<Rightarrow>
          if cl_reclaimable l > held then StConflicting else StOk)))))"

definition fraction_bps :: "amount \<Rightarrow> u32 \<Rightarrow> amount" where
  "fraction_bps value basis_points =
     (if basis_points = 0 \<or> value = 0 then 0
      else
        let bps = ucast basis_points :: u64;
            whole = value div 10000;
            remainder = value mod 10000
        in if whole > kAmountMax div bps then kAmountMax
           else case checked_mul whole bps of
               Inl _ \<Rightarrow> kAmountMax
             | Inr scaled \<Rightarrow>
                 (case checked_mul remainder bps of
                    Inl _ \<Rightarrow> kAmountMax
                  | Inr tail \<Rightarrow>
                      (case checked_add scaled (tail div 10000) of
                         Inl _ \<Rightarrow> kAmountMax
                       | Inr tot \<Rightarrow> tot)))"

definition oversubscription_extension :: "amount \<Rightarrow> u32 \<Rightarrow> amount" where
  "oversubscription_extension usable ratio_bps =
     (if ratio_bps \<le> 10000 then 0 else fraction_bps usable (ratio_bps - 10000))"

section \<open>Facts\<close>

lemma checked_add_not_ok [simp]: "checked_add a b \<noteq> Inl StOk"
  by (simp add: checked_add_def)

lemma checked_sum_not_ok [simp]: "checked_sum a parts \<noteq> Inl StOk"
  by (induction parts arbitrary: a) (auto split: sum.splits)

lemma checked_sum_unat:
  "checked_sum acc parts = Inr tot \<Longrightarrow> unat tot = unat acc + sum_list (map unat parts)"
  by (induction parts arbitrary: acc)
     (auto split: sum.splits dest!: checked_add_unat)

lemma verify_closure_ok:
  assumes "verify_closure l = StOk"
  shows "unat (cl_free l) + unat (cl_committed l) + unat (cl_reserved l) +
           unat (cl_protected_headroom l) + unat (cl_unavailable l) =
         unat (cl_authoritative_usable l) + unat (cl_authorized_extension l) +
           unat (cl_oversubscribed l)"
    and "unat (cl_reclaimable l) \<le>
           unat (cl_committed l) + unat (cl_withdrawing l) + unat (cl_reserved l)"
proof -
  from assms obtain sum0 tot basis over held sum1 where
      a: "checked_add (cl_free l) (cl_committed l) = Inr sum0"
    and b: "checked_sum sum0 [cl_reserved l, cl_protected_headroom l, cl_unavailable l] = Inr tot"
    and c: "ledger_basis l = Inr basis"
    and d: "checked_add basis (cl_oversubscribed l) = Inr over"
    and e: "tot = over" and f: "ledger_allocated l = Inr held" "\<not> cl_reclaimable l > held"
    and g: "checked_add (cl_committed l) (cl_withdrawing l) = Inr sum1"
      "checked_add sum1 (cl_reserved l) = Inr held"
    unfolding verify_closure_def
    by (auto split: sum.splits if_splits simp: ledger_allocated_def ledger_basis_def
        simp del: checked_sum.simps)
  show "unat (cl_free l) + unat (cl_committed l) + unat (cl_reserved l) +
           unat (cl_protected_headroom l) + unat (cl_unavailable l) =
         unat (cl_authoritative_usable l) + unat (cl_authorized_extension l) +
           unat (cl_oversubscribed l)"
    using checked_add_unat [OF a] checked_sum_unat [OF b] checked_add_unat [OF d]
      c [unfolded ledger_basis_def, THEN checked_add_unat] e by simp
  show "unat (cl_reclaimable l) \<le>
           unat (cl_committed l) + unat (cl_withdrawing l) + unat (cl_reserved l)"
    using f(2) checked_add_unat [OF g(1)] checked_add_unat [OF g(2)]
    by (simp add: not_less word_le_nat_alt)
qed

lemma checked_add_if:
  "checked_add a b = (if unat a + unat b \<le> amount_max then Inr (a + b) else Inl StLimitExceeded)"
  by (auto simp: checked_add_Inr checked_add_Inl not_le)

lemma checked_sum_fits:
  "unat acc + sum_list (map unat parts) \<le> amount_max \<Longrightarrow> \<exists>tot. checked_sum acc parts = Inr tot"
proof (induction parts arbitrary: acc)
  case Nil
  then show ?case by simp
next
  case (Cons x xs)
  then have le: "unat acc + unat x \<le> amount_max" by simp
  have "unat (acc + x) + sum_list (map unat xs) \<le> amount_max"
    using Cons.prems unat_add_fits [OF le] by simp
  from Cons.IH [OF this] show ?case using le by (simp add: checked_add_if)
qed

lemma verify_closure_intro:
  assumes "unat (cl_free l) + unat (cl_committed l) + unat (cl_reserved l) +
             unat (cl_protected_headroom l) + unat (cl_unavailable l) =
           unat (cl_authoritative_usable l) + unat (cl_authorized_extension l) + unat (cl_oversubscribed l)"
    and "unat (cl_authoritative_usable l) + unat (cl_authorized_extension l) + unat (cl_oversubscribed l)
           \<le> amount_max"
    and "unat (cl_committed l) + unat (cl_withdrawing l) + unat (cl_reserved l) \<le> amount_max"
    and "unat (cl_reclaimable l) \<le> unat (cl_committed l) + unat (cl_withdrawing l) + unat (cl_reserved l)"
  shows "verify_closure l = StOk"
proof -
  have free: "checked_add (cl_free l) (cl_committed l) = Inr (cl_free l + cl_committed l)"
    using assms(1,2) by (intro checked_add_ok) linarith
  from checked_add_unat [OF this] obtain tot where
    tot: "checked_sum (cl_free l + cl_committed l)
            [cl_reserved l, cl_protected_headroom l, cl_unavailable l] = Inr tot"
    using assms(1,2) checked_sum_fits [of "cl_free l + cl_committed l"
        "[cl_reserved l, cl_protected_headroom l, cl_unavailable l]"] by auto
  have basis: "ledger_basis l = Inr (cl_authoritative_usable l + cl_authorized_extension l)"
    unfolding ledger_basis_def using assms(2) by (intro checked_add_ok) linarith
  have ubasis: "unat (cl_authoritative_usable l + cl_authorized_extension l) =
      unat (cl_authoritative_usable l) + unat (cl_authorized_extension l)"
    using assms(2) by (intro unat_add_fits) linarith
  have over: "checked_add (cl_authoritative_usable l + cl_authorized_extension l) (cl_oversubscribed l) =
      Inr (cl_authoritative_usable l + cl_authorized_extension l + cl_oversubscribed l)"
    using assms(2) ubasis by (intro checked_add_ok) simp
  have same: "tot = cl_authoritative_usable l + cl_authorized_extension l + cl_oversubscribed l"
    using checked_sum_unat [OF tot] checked_add_unat [OF free] checked_add_unat [OF over] ubasis assms(1)
    by (intro word_unat_eq_iff [THEN iffD2]) simp
  have held1: "checked_add (cl_committed l) (cl_withdrawing l) = Inr (cl_committed l + cl_withdrawing l)"
    using assms(3) by (intro checked_add_ok) linarith
  have held2: "checked_add (cl_committed l + cl_withdrawing l) (cl_reserved l) =
      Inr (cl_committed l + cl_withdrawing l + cl_reserved l)"
    using assms(3) checked_add_unat [OF held1] by (intro checked_add_ok) simp
  have "\<not> cl_reclaimable l > cl_committed l + cl_withdrawing l + cl_reserved l"
    using assms(4) checked_add_unat [OF held2] checked_add_unat [OF held1]
    by (simp add: word_less_nat_alt not_less)
  then show ?thesis
    using free tot basis over same held1 held2
    by (simp add: verify_closure_def ledger_allocated_def del: checked_sum.simps)
qed

lemma unat_bps: "unat (ucast (b :: u32) :: u64) = unat b"
proof -
  have "unat b < 2 ^ LENGTH(32)" by (rule unsigned_less)
  then show ?thesis by (simp add: unsigned_ucast_eq take_bit_nat_eq_self)
qed

lemma fraction_split:
  "(v div 10000) * b + (v mod 10000) * b div 10000 = v * b div (10000 :: nat)"
proof -
  have "v * b = (v div 10000) * b * 10000 + (v mod 10000) * b"
    by (metis add_mult_distrib div_mult_mod_eq mult.assoc mult.commute)
  then have "v * b div 10000 = ((v div 10000) * b * 10000 + (v mod 10000) * b) div 10000"
    by simp
  also have "\<dots> = (v div 10000) * b + (v mod 10000) * b div 10000"
    by (subst div_mult_self3) simp_all
  finally show ?thesis by simp
qed

lemma unat_fraction_bps:
  "unat (fraction_bps v b) = min amount_max (unat v * unat b div 10000)"
proof (cases "b = 0 \<or> v = 0")
  case True
  then show ?thesis by (auto simp: fraction_bps_def)
next
  case False
  define bw where "bw = (ucast b :: u64)"
  define wh rm where "wh = v div 10000" and "rm = v mod 10000"
  have ub: "unat bw = unat b" by (simp add: bw_def unat_bps)
  have b0: "bw \<noteq> 0" using False ub by (metis unat_eq_zero unat_0)
  have uw: "unat wh = unat v div 10000" and ur: "unat rm = unat v mod 10000"
    by (simp_all add: wh_def rm_def unat_div unat_mod)
  have split: "unat v * unat b div 10000 = unat wh * unat b + unat rm * unat b div 10000"
    by (simp add: uw ur fraction_split)
  have rmb: "unat rm * unat bw \<le> amount_max"
  proof -
    have "unat b < 2 ^ LENGTH(32)" by (rule unsigned_less)
    then have "unat rm * unat b \<le> 9999 * (2 ^ 32 - 1)"
      unfolding ur by (intro mult_le_mono) auto
    then show ?thesis by (simp add: ub)
  qed
  show ?thesis
  proof (cases "wh > kAmountMax div bw")
    case True
    then have "amount_max < unat wh * unat b" using mul_overflows_iff [OF b0] ub by simp
    then show ?thesis using False True split
      by (simp add: fraction_bps_def Let_def bw_def [symmetric] wh_def [symmetric] rm_def [symmetric])
  next
    case no_over: False
    then have fits: "\<not> amount_max < unat wh * unat bw" using mul_overflows_iff [OF b0] by simp
    obtain sc where sc: "checked_mul wh bw = Inr sc"
      using fits checked_mul_Inl by (cases "checked_mul wh bw") auto
    obtain tl where tl: "checked_mul rm bw = Inr tl"
      using rmb checked_mul_Inl [of rm bw] by (cases "checked_mul rm bw") auto
    have usc: "unat sc = unat wh * unat b" using checked_mul_unat [OF sc] ub by simp
    have utl: "unat (tl div 10000) = unat rm * unat b div 10000"
      using checked_mul_unat [OF tl] ub by (simp add: unat_div)
    have eq: "fraction_bps v b = (case checked_add sc (tl div 10000) of Inl _ \<Rightarrow> kAmountMax | Inr t \<Rightarrow> t)"
      using False no_over sc tl
      by (simp add: fraction_bps_def Let_def bw_def [symmetric] wh_def [symmetric] rm_def [symmetric])
    show ?thesis
    proof (cases "checked_add sc (tl div 10000)")
      case (Inl s)
      then have "fraction_bps v b = kAmountMax" using eq by simp
      moreover have "amount_max < unat sc + unat (tl div 10000)" using Inl by (simp add: checked_add_Inl)
      ultimately show ?thesis using usc utl split by simp
    next
      case (Inr t)
      moreover from Inr have "unat sc + unat (tl div 10000) \<le> amount_max"
        by (simp add: checked_add_Inr)
      ultimately show ?thesis using eq usc utl split checked_add_unat [OF Inr] by simp
    qed
  qed
qed

lemma fraction_bps_le: "unat b \<le> 10000 \<Longrightarrow> unat (fraction_bps v b) \<le> unat v"
proof -
  assume "unat b \<le> 10000"
  then have "unat v * unat b div 10000 \<le> unat v * 10000 div 10000"
    by (intro div_le_mono mult_le_mono) auto
  then show ?thesis using unat_fraction_bps [of v b] by simp
qed

lemma fraction_bps_mono: "unat b \<le> unat c \<Longrightarrow> unat (fraction_bps v b) \<le> unat (fraction_bps v c)"
  unfolding unat_fraction_bps by (intro min.mono div_le_mono mult_le_mono) auto

lemma oversubscription_extension_mono:
  "r \<le> r' \<Longrightarrow> unat (oversubscription_extension u r) \<le> unat (oversubscription_extension u r')"
proof -
  assume le: "r \<le> r'"
  show ?thesis
  proof (cases "r \<le> 10000")
    case True
    then show ?thesis by (simp add: oversubscription_extension_def)
  next
    case False
    then have "\<not> r' \<le> 10000" using le by auto
    moreover have "unat (r - 10000) \<le> unat (r' - 10000)"
      using False le \<open>\<not> r' \<le> 10000\<close> by (simp add: unat_sub word_le_nat_alt)
    ultimately show ?thesis using False fraction_bps_mono by (simp add: oversubscription_extension_def)
  qed
qed

lemma oversubscription_extension_0 [simp]: "oversubscription_extension u 0 = 0"
  by (simp add: oversubscription_extension_def)

text \<open>
  C27: the overflow-free basis-point arithmetic computes the exact fraction: splitting the
  value into whole and remainder gives the same amount as dividing the full product, and the
  result saturates at the largest amount exactly when the true fraction does not fit.
\<close>

theorem fraction_bps_exact:
  "unat (fraction_bps v b) = min amount_max (unat v * unat b div 10000) \<and>
   (fraction_bps v b = kAmountMax \<longleftrightarrow> amount_max \<le> unat v * unat b div 10000)"
proof -
  have "fraction_bps v b = kAmountMax \<longleftrightarrow> unat (fraction_bps v b) = amount_max"
    by (metis unat_kAmountMax unsigned_word_eqI)
  then show ?thesis by (simp add: unat_fraction_bps min_def)
qed

end
