(* ===== verification/Lifecycle.thy ===== *)
theory Lifecycle
  imports Outcome
begin

text \<open>
  The lifecycle state machines (\<open>include/isf/lifecycle.hpp\<close>, \<open>src/lifecycle.cpp\<close>): grant,
  site and path states, the grant transition table, the predicates over states that the
  authority branches on, and the canonical names.
\<close>

unbundle bit_operations_syntax

section \<open>Grant lifecycle\<close>

datatype grant_state =
    GsProposed | GsEligible | GsReserved | GsActive | GsDegraded
  | GsWithdrawing | GsRetired | GsRefused | GsCancelled | GsExpired

text \<open>The numeric value of the enumerator (\<open>static_cast<std::uint8_t>\<close>).\<close>

fun grant_state_code :: "grant_state \<Rightarrow> nat" where
  "grant_state_code GsProposed = 0"
| "grant_state_code GsEligible = 1"
| "grant_state_code GsReserved = 2"
| "grant_state_code GsActive = 3"
| "grant_state_code GsDegraded = 4"
| "grant_state_code GsWithdrawing = 5"
| "grant_state_code GsRetired = 6"
| "grant_state_code GsRefused = 7"
| "grant_state_code GsCancelled = 8"
| "grant_state_code GsExpired = 9"

text \<open>The transition table: a state with its \<open>count\<close> legal successors.\<close>

definition kGrantTransitions :: "(grant_state \<times> grant_state list) list" where
  "kGrantTransitions =
    [(GsProposed, [GsEligible, GsRefused, GsCancelled]),
     (GsEligible, [GsReserved, GsRefused, GsCancelled, GsExpired]),
     (GsReserved, [GsActive, GsWithdrawing, GsCancelled, GsExpired]),
     (GsActive, [GsDegraded, GsWithdrawing, GsExpired]),
     (GsDegraded, [GsActive, GsWithdrawing, GsExpired]),
     (GsWithdrawing, [GsRetired, GsExpired]),
     (GsRetired, []),
     (GsRefused, []),
     (GsCancelled, []),
     (GsExpired, [])]"

definition find_transition :: "grant_state \<Rightarrow> (grant_state \<times> grant_state list) option" where
  "find_transition from_state = find (\<lambda>entry. fst entry = from_state) kGrantTransitions"

definition grant_state_name :: "grant_state \<Rightarrow> string" where
  "grant_state_name s =
     (case s of
        GsProposed \<Rightarrow> ''PROPOSED''
      | GsEligible \<Rightarrow> ''ELIGIBLE''
      | GsReserved \<Rightarrow> ''RESERVED''
      | GsActive \<Rightarrow> ''ACTIVE''
      | GsDegraded \<Rightarrow> ''DEGRADED''
      | GsWithdrawing \<Rightarrow> ''WITHDRAWING''
      | GsRetired \<Rightarrow> ''RETIRED''
      | GsRefused \<Rightarrow> ''REFUSED''
      | GsCancelled \<Rightarrow> ''CANCELLED''
      | GsExpired \<Rightarrow> ''EXPIRED'')"

definition grant_state_all :: "grant_state list" where
  "grant_state_all =
     [GsProposed, GsEligible, GsReserved, GsActive, GsDegraded, GsWithdrawing, GsRetired,
      GsRefused, GsCancelled, GsExpired]"

definition grant_state_from_name :: "string \<Rightarrow> grant_state option" where
  "grant_state_from_name name = find (\<lambda>s. name = grant_state_name s) grant_state_all"

definition is_terminal :: "grant_state \<Rightarrow> bool" where
  "is_terminal s \<longleftrightarrow> s = GsRetired \<or> s = GsRefused \<or> s = GsCancelled \<or> s = GsExpired"

definition holds_capacity :: "grant_state \<Rightarrow> bool" where
  "holds_capacity s =
     (case s of
        GsReserved \<Rightarrow> True | GsActive \<Rightarrow> True | GsDegraded \<Rightarrow> True | GsWithdrawing \<Rightarrow> True
      | _ \<Rightarrow> False)"

definition is_reclaimable :: "grant_state \<Rightarrow> bool" where
  "is_reclaimable s \<longleftrightarrow> s = GsReserved \<or> s = GsDegraded \<or> s = GsWithdrawing"

definition is_live_obligation :: "grant_state \<Rightarrow> bool" where
  "is_live_obligation s \<longleftrightarrow> s = GsActive \<or> s = GsDegraded"

definition can_transition :: "grant_state \<Rightarrow> grant_state \<Rightarrow> bool" where
  "can_transition from_state to_state =
     (case find_transition from_state of
        None \<Rightarrow> False
      | Some entry \<Rightarrow> list_ex (\<lambda>s. s = to_state) (snd entry))"

definition successor_mask :: "grant_state \<Rightarrow> u32" where
  "successor_mask s =
     (case find_transition s of
        None \<Rightarrow> 0
      | Some entry \<Rightarrow> fold (\<lambda>t mask. mask OR push_bit (grant_state_code t) 1) (snd entry) 0)"

section \<open>Site lifecycle\<close>

datatype site_state =
    SsUnknown | SsUp | SsDegraded | SsPartitioned | SsMaintenance | SsDraining | SsDown | SsFenced

fun site_state_code :: "site_state \<Rightarrow> nat" where
  "site_state_code SsUnknown = 0"
| "site_state_code SsUp = 1"
| "site_state_code SsDegraded = 2"
| "site_state_code SsPartitioned = 3"
| "site_state_code SsMaintenance = 4"
| "site_state_code SsDraining = 5"
| "site_state_code SsDown = 6"
| "site_state_code SsFenced = 7"

definition site_state_name :: "site_state \<Rightarrow> string" where
  "site_state_name s =
     (case s of
        SsUnknown \<Rightarrow> ''UNKNOWN''
      | SsUp \<Rightarrow> ''UP''
      | SsDegraded \<Rightarrow> ''DEGRADED''
      | SsPartitioned \<Rightarrow> ''PARTITIONED''
      | SsMaintenance \<Rightarrow> ''MAINTENANCE''
      | SsDraining \<Rightarrow> ''DRAINING''
      | SsDown \<Rightarrow> ''DOWN''
      | SsFenced \<Rightarrow> ''FENCED'')"

definition site_state_all :: "site_state list" where
  "site_state_all =
     [SsUnknown, SsUp, SsDegraded, SsPartitioned, SsMaintenance, SsDraining, SsDown, SsFenced]"

definition site_state_from_name :: "string \<Rightarrow> site_state option" where
  "site_state_from_name name = find (\<lambda>s. name = site_state_name s) site_state_all"

definition site_accepts_new_reservations :: "site_state \<Rightarrow> bool" where
  "site_accepts_new_reservations s \<longleftrightarrow> s = SsUp \<or> s = SsDegraded"

definition site_requires_degradation :: "site_state \<Rightarrow> bool" where
  "site_requires_degradation s =
     (case s of
        SsPartitioned \<Rightarrow> True | SsDown \<Rightarrow> True | SsFenced \<Rightarrow> True | SsMaintenance \<Rightarrow> True
      | _ \<Rightarrow> False)"

section \<open>Path lifecycle\<close>

datatype path_state =
    PsUnknown | PsUp | PsDegraded | PsDown | PsMaintenance | PsDraining | PsFenced

fun path_state_code :: "path_state \<Rightarrow> nat" where
  "path_state_code PsUnknown = 0"
| "path_state_code PsUp = 1"
| "path_state_code PsDegraded = 2"
| "path_state_code PsDown = 3"
| "path_state_code PsMaintenance = 4"
| "path_state_code PsDraining = 5"
| "path_state_code PsFenced = 6"

definition path_state_name :: "path_state \<Rightarrow> string" where
  "path_state_name s =
     (case s of
        PsUnknown \<Rightarrow> ''UNKNOWN''
      | PsUp \<Rightarrow> ''UP''
      | PsDegraded \<Rightarrow> ''DEGRADED''
      | PsDown \<Rightarrow> ''DOWN''
      | PsMaintenance \<Rightarrow> ''MAINTENANCE''
      | PsDraining \<Rightarrow> ''DRAINING''
      | PsFenced \<Rightarrow> ''FENCED'')"

definition path_state_all :: "path_state list" where
  "path_state_all =
     [PsUnknown, PsUp, PsDegraded, PsDown, PsMaintenance, PsDraining, PsFenced]"

definition path_state_from_name :: "string \<Rightarrow> path_state option" where
  "path_state_from_name name = find (\<lambda>s. name = path_state_name s) path_state_all"

definition path_accepts_new_reservations :: "path_state \<Rightarrow> bool" where
  "path_accepts_new_reservations s \<longleftrightarrow> s = PsUp \<or> s = PsDegraded"

definition path_requires_degradation :: "path_state \<Rightarrow> bool" where
  "path_requires_degradation s =
     (case s of PsDown \<Rightarrow> True | PsFenced \<Rightarrow> True | PsMaintenance \<Rightarrow> True | _ \<Rightarrow> False)"

section \<open>Verification and provenance\<close>

datatype verification_state = VsUnverified | VsVerified | VsFailed | VsIndeterminate

fun verification_state_code :: "verification_state \<Rightarrow> nat" where
  "verification_state_code VsUnverified = 0"
| "verification_state_code VsVerified = 1"
| "verification_state_code VsFailed = 2"
| "verification_state_code VsIndeterminate = 3"

definition verification_state_name :: "verification_state \<Rightarrow> string" where
  "verification_state_name s =
     (case s of
        VsUnverified \<Rightarrow> ''UNVERIFIED''
      | VsVerified \<Rightarrow> ''VERIFIED''
      | VsFailed \<Rightarrow> ''FAILED''
      | VsIndeterminate \<Rightarrow> ''INDETERMINATE'')"

definition verification_state_all :: "verification_state list" where
  "verification_state_all = [VsUnverified, VsVerified, VsFailed, VsIndeterminate]"

datatype provenance =
    PvLive | PvRecoveredFromSnapshot | PvRecoveredFromLog | PvPartitionRecovery
  | PvOperatorReconcile | PvAmbiguousCommit | PvFencedIncarnation

fun provenance_code :: "provenance \<Rightarrow> nat" where
  "provenance_code PvLive = 0"
| "provenance_code PvRecoveredFromSnapshot = 1"
| "provenance_code PvRecoveredFromLog = 2"
| "provenance_code PvPartitionRecovery = 3"
| "provenance_code PvOperatorReconcile = 4"
| "provenance_code PvAmbiguousCommit = 5"
| "provenance_code PvFencedIncarnation = 6"

definition provenance_name :: "provenance \<Rightarrow> string" where
  "provenance_name p =
     (case p of
        PvLive \<Rightarrow> ''LIVE''
      | PvRecoveredFromSnapshot \<Rightarrow> ''RECOVERED_FROM_SNAPSHOT''
      | PvRecoveredFromLog \<Rightarrow> ''RECOVERED_FROM_LOG''
      | PvPartitionRecovery \<Rightarrow> ''PARTITION_RECOVERY''
      | PvOperatorReconcile \<Rightarrow> ''OPERATOR_RECONCILE''
      | PvAmbiguousCommit \<Rightarrow> ''AMBIGUOUS_COMMIT''
      | PvFencedIncarnation \<Rightarrow> ''FENCED_INCARNATION'')"

definition provenance_all :: "provenance list" where
  "provenance_all =
     [PvLive, PvRecoveredFromSnapshot, PvRecoveredFromLog, PvPartitionRecovery,
      PvOperatorReconcile, PvAmbiguousCommit, PvFencedIncarnation]"

definition provenance_is_historical :: "provenance \<Rightarrow> bool" where
  "provenance_is_historical p \<longleftrightarrow> p \<noteq> PvLive"

section \<open>Facts\<close>

text \<open>
  The step relation the transition table describes, one rule per legal pair. It is the
  abstract specification that \<open>can_transition\<close> implements.
\<close>

inductive grant_step :: "grant_state \<Rightarrow> grant_state \<Rightarrow> bool" where
  qualify: "grant_step GsProposed GsEligible"
| reserve: "grant_step GsEligible GsReserved"
| activate: "grant_step GsReserved GsActive"
| degrade: "grant_step GsActive GsDegraded"
| recover: "grant_step GsDegraded GsActive"
| withdraw: "s \<in> {GsReserved, GsActive, GsDegraded} \<Longrightarrow> grant_step s GsWithdrawing"
| retire: "grant_step GsWithdrawing GsRetired"
| refuse: "s \<in> {GsProposed, GsEligible} \<Longrightarrow> grant_step s GsRefused"
| cancel: "s \<in> {GsProposed, GsEligible, GsReserved} \<Longrightarrow> grant_step s GsCancelled"
| expire: "s = GsEligible \<or> holds_capacity s \<Longrightarrow> grant_step s GsExpired"

inductive_simps grant_step_simps: "grant_step s t"

lemma grant_state_listed: "s \<in> set grant_state_all"
  by (cases s) (simp_all add: grant_state_all_def)

lemma site_state_listed: "s \<in> set site_state_all"
  by (cases s) (simp_all add: site_state_all_def)

lemma path_state_listed: "s \<in> set path_state_all"
  by (cases s) (simp_all add: path_state_all_def)

text \<open>The state names the operator tool and the reports use read back.\<close>

interpretation grant_state_names: naming grant_state_name grant_state_from_name
  unfolding grant_state_from_name_def [abs_def]
  by (rule naming_find, rule grant_state_listed) (simp add: grant_state_all_def grant_state_name_def)

interpretation site_state_names: naming site_state_name site_state_from_name
  unfolding site_state_from_name_def [abs_def]
  by (rule naming_find, rule site_state_listed) (simp add: site_state_all_def site_state_name_def)

interpretation path_state_names: naming path_state_name path_state_from_name
  unfolding path_state_from_name_def [abs_def]
  by (rule naming_find, rule path_state_listed) (simp add: path_state_all_def path_state_name_def)

lemma holds_capacity_simps [simp]:
  "holds_capacity GsReserved" "holds_capacity GsActive" "holds_capacity GsDegraded"
  "holds_capacity GsWithdrawing" "\<not> holds_capacity GsProposed" "\<not> holds_capacity GsEligible"
  "\<not> holds_capacity GsRetired" "\<not> holds_capacity GsRefused" "\<not> holds_capacity GsCancelled"
  "\<not> holds_capacity GsExpired"
  by (simp_all add: holds_capacity_def)

lemma holds_capacity_iff:
  "holds_capacity s \<longleftrightarrow> s = GsReserved \<or> s = GsActive \<or> s = GsDegraded \<or> s = GsWithdrawing"
  by (cases s) simp_all

lemma is_terminal_simps [simp]:
  "\<not> is_terminal GsReserved" "\<not> is_terminal GsActive" "\<not> is_terminal GsDegraded"
  "\<not> is_terminal GsWithdrawing" "\<not> is_terminal GsProposed" "\<not> is_terminal GsEligible"
  "is_terminal GsRetired" "is_terminal GsRefused" "is_terminal GsCancelled"
  "is_terminal GsExpired"
  by (simp_all add: is_terminal_def)

lemma can_transition_step: "can_transition s t \<longleftrightarrow> grant_step s t"
  by (cases s; cases t)
     (simp_all add: can_transition_def find_transition_def kGrantTransitions_def grant_step_simps)

lemma terminal_no_step: "is_terminal s \<Longrightarrow> \<not> grant_step s t"
  by (cases s) (simp_all add: grant_step_simps)

text \<open>
  C26: the transition table implements the lifecycle relation: the table accepts exactly the
  legal steps, a terminal state has no successor, a state that is not terminal has one, and
  the bit mask of successors lists exactly the states the table allows.
\<close>

theorem lifecycle_table_correct:
  "(can_transition s t \<longleftrightarrow> grant_step s t) \<and>
   (is_terminal s \<longleftrightarrow> (\<forall>u. \<not> can_transition s u)) \<and>
   (bit (successor_mask s) (grant_state_code t) \<longleftrightarrow> can_transition s t)"
proof (intro conjI)
  show "can_transition s t \<longleftrightarrow> grant_step s t" by (rule can_transition_step)
  show "is_terminal s \<longleftrightarrow> (\<forall>u. \<not> can_transition s u)"
    unfolding can_transition_step
  proof
    show "is_terminal s \<Longrightarrow> \<forall>u. \<not> grant_step s u" by (simp add: terminal_no_step)
    show "\<forall>u. \<not> grant_step s u \<Longrightarrow> is_terminal s"
      by (cases s) (auto intro: grant_step.intros)
  qed
  show "bit (successor_mask s) (grant_state_code t) \<longleftrightarrow> can_transition s t"
    by (cases s; cases t)
       (simp_all add: successor_mask_def can_transition_def find_transition_def
          kGrantTransitions_def push_bit_eq_mult)
qed

text \<open>
  Once a grant holds capacity, the only states it can reach are holding states and the
  terminal states, so it never goes back to being a mere proposal; and from a terminal state
  nothing is reachable.
\<close>

theorem lifecycle_reachability:
  assumes "grant_step\<^sup>*\<^sup>* s t"
  shows "(holds_capacity s \<longrightarrow> holds_capacity t \<or> is_terminal t) \<and> (is_terminal s \<longrightarrow> t = s)"
  using assms
proof (induction rule: rtranclp_induct)
  case base
  then show ?case by simp
next
  case (step t u)
  have "holds_capacity t \<Longrightarrow> holds_capacity u \<or> is_terminal u"
    using step.hyps(2) by (auto simp: grant_step_simps)
  with step show ?case by (auto simp: terminal_no_step)
qed

theorem lifecycle_reachability_witness:
  "holds_capacity GsRetired \<or> is_terminal GsRetired"
proof -
  have "grant_step GsReserved GsActive" "grant_step GsActive GsWithdrawing"
      "grant_step GsWithdrawing GsRetired"
    by (simp_all add: grant_step_simps)
  then have "grant_step\<^sup>*\<^sup>* GsReserved GsRetired"
    by (meson converse_rtranclp_into_rtranclp rtranclp.rtrancl_refl)
  from lifecycle_reachability [OF this] show ?thesis by simp
qed

end
