(* ===== verification/Model.thy ===== *)
theory Model
  imports Wire Capacity Lifecycle
begin

text \<open>
  The authoritative record types (\<open>include/isf/model.hpp\<close>), the policy document
  (\<open>include/isf/policy.hpp\<close>, \<open>src/policy.cpp\<close>) and their canonical codecs
  (\<open>src/model.cpp\<close>). Field names carry the prefix of their record: \<open>sr_\<close> site, \<open>pr_\<close> path,
  \<open>sd_\<close> shared risk domain, \<open>ca_\<close> attestation, \<open>gb_\<close> binding, \<open>gr_\<close> grant, \<open>vr_\<close>
  verification, \<open>oa_\<close> oversubscription authority, \<open>po_\<close> policy.
\<close>

section \<open>Records\<close>

record site_record =
  sr_id :: site_id
  sr_name :: string
  sr_incarnation :: incarnation
  sr_generation :: generation
  sr_epoch :: epoch
  sr_state :: site_state
  sr_advertised_capacity :: amount
  sr_registered_at_ms :: u64
  sr_last_heartbeat_ms :: u64
  sr_missed_heartbeats :: u32
  sr_fence_reason :: string
  sr_provenance :: provenance

record path_record =
  pr_id :: path_id
  pr_name :: string
  pr_edge :: edge_id
  pr_shared_risk_domain :: domain_id
  pr_endpoint_a :: site_id
  pr_endpoint_b :: site_id
  pr_generation :: generation
  pr_capacity_generation :: generation
  pr_state :: path_state
  pr_advertised :: amount
  pr_observed :: amount
  pr_authoritative_usable :: amount
  pr_unavailable :: amount
  pr_updated_at_ms :: u64
  pr_provenance :: provenance

record shared_risk_domain =
  sd_id :: domain_id
  sd_name :: string
  sd_description :: string

record capacity_attestation =
  ca_id :: attestation_id
  ca_path :: path_id
  ca_path_generation :: generation
  ca_capacity_generation :: generation
  ca_usable :: amount
  ca_advertised :: amount
  ca_observed :: amount
  ca_issuer :: incarnation
  ca_epoch :: epoch
  ca_principal :: principal_id
  ca_observed_at_ms :: u64
  ca_evidence :: digest256
  ca_source :: string

record grant_binding =
  gb_holder :: site_id
  gb_holder_incarnation :: incarnation
  gb_holder_generation :: generation
  gb_path :: path_id
  gb_path_generation :: generation
  gb_capacity_generation :: generation
  gb_policy_generation :: generation
  gb_epoch :: epoch
  gb_lease :: lease_id

datatype grant_class = GcGeneral | GcProtected

fun grant_class_code :: "grant_class \<Rightarrow> nat" where
  "grant_class_code GcGeneral = 0"
| "grant_class_code GcProtected = 1"

definition grant_class_all :: "grant_class list" where
  "grant_class_all = [GcGeneral, GcProtected]"

definition grant_class_name :: "grant_class \<Rightarrow> string" where
  "grant_class_name c = (case c of GcGeneral \<Rightarrow> ''GENERAL'' | GcProtected \<Rightarrow> ''PROTECTED'')"

record grant_record =
  gr_id :: grant_id
  gr_request :: request_id
  gr_arbitration :: arb_seq
  gr_binding :: grant_binding
  gr_class :: grant_class
  gr_amount :: amount
  gr_state :: grant_state
  gr_verification :: verification_state
  gr_acknowledged :: bool
  gr_ack_count :: u32
  gr_created_at_ms :: u64
  gr_updated_at_ms :: u64
  gr_expires_at_ms :: u64
  gr_reason :: string
  gr_provenance :: provenance
  gr_historical :: bool
  gr_ambiguous :: bool

record verification_record =
  vr_id :: verification_id
  vr_grant :: grant_id
  vr_binding :: grant_binding
  vr_result :: verification_state
  vr_verifier :: principal_id
  vr_evidence :: digest256
  vr_at_ms :: u64
  vr_detail :: string

record oversubscription_authority =
  oa_id :: oversubscription_id
  oa_path :: path_id
  oa_path_generation :: generation
  oa_capacity_generation :: generation
  oa_policy_generation :: generation
  oa_epoch :: epoch
  oa_issuer :: incarnation
  oa_ratio_bps :: u32
  oa_issued_at_ms :: u64
  oa_not_after_ms :: u64
  oa_principal :: principal_id

definition is_live_at :: "oversubscription_authority \<Rightarrow> u64 \<Rightarrow> bool" where
  "is_live_at oa now_ms \<longleftrightarrow> oa_not_after_ms oa = 0 \<or> now_ms \<le> oa_not_after_ms oa"

section \<open>Policy\<close>

definition kMaxOversubscriptionBps :: u32 where
  "kMaxOversubscriptionBps = 100000"

definition kMaxLeaseDurationMs :: u64 where
  "kMaxLeaseDurationMs = 30 * 24 * 60 * 60 * 1000"

definition kMaxGrantsPerPathLimit :: u32 where
  "kMaxGrantsPerPathLimit = 2 ^ 20"

definition kMinSiteLeaseTimeoutMs :: u64 where
  "kMinSiteLeaseTimeoutMs = 100"

definition kMaxSiteLeaseTimeoutMs :: u64 where
  "kMaxSiteLeaseTimeoutMs = 60 * 60 * 1000"

record policy =
  po_id :: policy_id
  po_generation :: generation
  po_protected_floor_units :: amount
  po_protected_floor_bps :: u32
  po_min_free_units :: amount
  po_min_free_bps :: u32
  po_max_oversubscription_bps :: u32
  po_max_lease_duration_ms :: u64
  po_max_grants_per_path :: u32
  po_max_grants_per_site :: u32
  po_max_srd_concentration_bps :: u32
  po_allow_degraded_activation :: bool
  po_allow_partition_optimistic_recovery :: bool
  po_require_verification_for_active :: bool
  po_auto_reconcile_on_restart :: bool
  po_site_lease_timeout_ms :: u64

definition policy_validate :: "policy \<Rightarrow> status" where
  "policy_validate p =
     (if generation_is_nil (po_generation p) then StInvalid
      else if po_protected_floor_bps p > 10000 then StInvalid
      else if po_min_free_bps p > 10000 then StInvalid
      else if po_max_oversubscription_bps p > kMaxOversubscriptionBps then StLimitExceeded
      else if po_max_srd_concentration_bps p > 10000 then StInvalid
      else if po_max_lease_duration_ms p = 0 \<or> po_max_lease_duration_ms p > kMaxLeaseDurationMs
        then StLimitExceeded
      else if po_max_grants_per_path p = 0 \<or> po_max_grants_per_path p > kMaxGrantsPerPathLimit
        then StLimitExceeded
      else if po_max_grants_per_site p < po_max_grants_per_path p \<or> po_max_grants_per_site p > 2 ^ 24
        then StLimitExceeded
      else if po_site_lease_timeout_ms p < kMinSiteLeaseTimeoutMs \<or>
              po_site_lease_timeout_ms p > kMaxSiteLeaseTimeoutMs
        then StLimitExceeded
      else if po_allow_partition_optimistic_recovery p \<and> \<not> po_auto_reconcile_on_restart p
        then StConflicting
      else StOk)"

definition conservative_default :: policy where
  "conservative_default =
     \<lparr>po_id = from_seed 0x15F0000000000001 0,
      po_generation = 1,
      po_protected_floor_units = 0,
      po_protected_floor_bps = 1000,
      po_min_free_units = 0,
      po_min_free_bps = 0,
      po_max_oversubscription_bps = 0,
      po_max_lease_duration_ms = 3600000,
      po_max_grants_per_path = 1024,
      po_max_grants_per_site = 4096,
      po_max_srd_concentration_bps = 10000,
      po_allow_degraded_activation = False,
      po_allow_partition_optimistic_recovery = False,
      po_require_verification_for_active = False,
      po_auto_reconcile_on_restart = False,
      po_site_lease_timeout_ms = 30000\<rparr>"

section \<open>Encoding helpers\<close>

definition kMaxReasonBytes :: nat where
  "kMaxReasonBytes = 512"

definition encode_string_bounded :: "string \<Rightarrow> byte list" where
  "encode_string_bounded v = w_str (if length v > kMaxReasonBytes then take kMaxReasonBytes v else v)"

text \<open>
  Reading an enumerator: the byte must not exceed the last enumerator, whose position is the
  length of the enumeration minus one.
\<close>

definition r_enum :: "'e list \<Rightarrow> 'e reader" where
  "r_enum all = rbind r_u8 (\<lambda>v. if unat v > length all - 1 then rfail StInvalid else rreturn (all ! unat v))"

definition w_enum :: "('e \<Rightarrow> nat) \<Rightarrow> 'e \<Rightarrow> byte list" where
  "w_enum code v = w_u8 (of_nat (code v))"

section \<open>Record codecs\<close>

definition encode_site :: "site_record \<Rightarrow> byte list" where
  "encode_site v =
     w_id128 (sr_id v) @ w_str (sr_name v) @ w_id128 (sr_incarnation v) @ w_u64 (sr_generation v) @
     w_u64 (sr_epoch v) @ w_enum site_state_code (sr_state v) @ w_u64 (sr_advertised_capacity v) @
     w_u64 (sr_registered_at_ms v) @ w_u64 (sr_last_heartbeat_ms v) @ w_u32 (sr_missed_heartbeats v) @
     encode_string_bounded (sr_fence_reason v) @ w_enum provenance_code (sr_provenance v)"

definition decode_site :: "wire_limits \<Rightarrow> site_record reader" where
  "decode_site lim =
     rbind r_id128 (\<lambda>i.
     rbind (r_str lim) (\<lambda>name.
     rbind r_id128 (\<lambda>inc.
     rbind r_u64 (\<lambda>gen.
     rbind r_u64 (\<lambda>ep.
     rbind (r_enum site_state_all) (\<lambda>st.
     rbind r_u64 (\<lambda>advertised.
     rbind r_u64 (\<lambda>registered.
     rbind r_u64 (\<lambda>heartbeat.
     rbind r_u32 (\<lambda>missed.
     rbind (r_str lim) (\<lambda>reason.
     rbind (r_enum provenance_all) (\<lambda>prov.
     rreturn \<lparr>sr_id = i, sr_name = name, sr_incarnation = inc, sr_generation = gen, sr_epoch = ep,
       sr_state = st, sr_advertised_capacity = advertised, sr_registered_at_ms = registered,
       sr_last_heartbeat_ms = heartbeat, sr_missed_heartbeats = missed, sr_fence_reason = reason,
       sr_provenance = prov\<rparr>))))))))))))"

definition encode_path :: "path_record \<Rightarrow> byte list" where
  "encode_path v =
     w_id128 (pr_id v) @ w_str (pr_name v) @ w_id128 (pr_edge v) @
     w_id128 (pr_shared_risk_domain v) @ w_id128 (pr_endpoint_a v) @ w_id128 (pr_endpoint_b v) @
     w_u64 (pr_generation v) @ w_u64 (pr_capacity_generation v) @
     w_enum path_state_code (pr_state v) @ w_u64 (pr_advertised v) @ w_u64 (pr_observed v) @
     w_u64 (pr_authoritative_usable v) @ w_u64 (pr_unavailable v) @ w_u64 (pr_updated_at_ms v) @
     w_enum provenance_code (pr_provenance v)"

definition decode_path :: "wire_limits \<Rightarrow> path_record reader" where
  "decode_path lim =
     rbind r_id128 (\<lambda>i.
     rbind (r_str lim) (\<lambda>name.
     rbind r_id128 (\<lambda>edge.
     rbind r_id128 (\<lambda>domain.
     rbind r_id128 (\<lambda>a.
     rbind r_id128 (\<lambda>b.
     rbind r_u64 (\<lambda>gen.
     rbind r_u64 (\<lambda>cgen.
     rbind (r_enum path_state_all) (\<lambda>st.
     rbind r_u64 (\<lambda>advertised.
     rbind r_u64 (\<lambda>observed.
     rbind r_u64 (\<lambda>usable.
     rbind r_u64 (\<lambda>unavailable.
     if unavailable > usable then rfail StConflicting else
     rbind r_u64 (\<lambda>updated.
     rbind (r_enum provenance_all) (\<lambda>prov.
     rreturn \<lparr>pr_id = i, pr_name = name, pr_edge = edge, pr_shared_risk_domain = domain,
       pr_endpoint_a = a, pr_endpoint_b = b, pr_generation = gen, pr_capacity_generation = cgen,
       pr_state = st, pr_advertised = advertised, pr_observed = observed,
       pr_authoritative_usable = usable, pr_unavailable = unavailable,
       pr_updated_at_ms = updated, pr_provenance = prov\<rparr>)))))))))))))))"

definition encode_domain :: "shared_risk_domain \<Rightarrow> byte list" where
  "encode_domain v = w_id128 (sd_id v) @ w_str (sd_name v) @ w_str (sd_description v)"

definition decode_domain :: "wire_limits \<Rightarrow> shared_risk_domain reader" where
  "decode_domain lim =
     rbind r_id128 (\<lambda>i.
     rbind (r_str lim) (\<lambda>name.
     rbind (r_str lim) (\<lambda>description.
     rreturn \<lparr>sd_id = i, sd_name = name, sd_description = description\<rparr>)))"

definition encode_attestation :: "capacity_attestation \<Rightarrow> byte list" where
  "encode_attestation v =
     w_id128 (ca_id v) @ w_id128 (ca_path v) @ w_u64 (ca_path_generation v) @
     w_u64 (ca_capacity_generation v) @ w_u64 (ca_usable v) @ w_u64 (ca_advertised v) @
     w_u64 (ca_observed v) @ w_id128 (ca_issuer v) @ w_u64 (ca_epoch v) @
     w_id128 (ca_principal v) @ w_u64 (ca_observed_at_ms v) @ w_digest (ca_evidence v) @
     encode_string_bounded (ca_source v)"

definition decode_attestation :: "wire_limits \<Rightarrow> capacity_attestation reader" where
  "decode_attestation lim =
     rbind r_id128 (\<lambda>i.
     rbind r_id128 (\<lambda>path.
     rbind r_u64 (\<lambda>pgen.
     rbind r_u64 (\<lambda>cgen.
     rbind r_u64 (\<lambda>usable.
     rbind r_u64 (\<lambda>advertised.
     rbind r_u64 (\<lambda>observed.
     rbind r_id128 (\<lambda>issuer.
     rbind r_u64 (\<lambda>ep.
     rbind r_id128 (\<lambda>principal.
     rbind r_u64 (\<lambda>observed_at.
     rbind r_digest (\<lambda>evidence.
     rbind (r_str lim) (\<lambda>source.
     rreturn \<lparr>ca_id = i, ca_path = path, ca_path_generation = pgen, ca_capacity_generation = cgen,
       ca_usable = usable, ca_advertised = advertised, ca_observed = observed, ca_issuer = issuer,
       ca_epoch = ep, ca_principal = principal, ca_observed_at_ms = observed_at,
       ca_evidence = evidence, ca_source = source\<rparr>)))))))))))))"

definition encode_binding :: "grant_binding \<Rightarrow> byte list" where
  "encode_binding v =
     w_id128 (gb_holder v) @ w_id128 (gb_holder_incarnation v) @ w_u64 (gb_holder_generation v) @
     w_id128 (gb_path v) @ w_u64 (gb_path_generation v) @ w_u64 (gb_capacity_generation v) @
     w_u64 (gb_policy_generation v) @ w_u64 (gb_epoch v) @ w_id128 (gb_lease v)"

definition decode_binding :: "grant_binding reader" where
  "decode_binding =
     rbind r_id128 (\<lambda>holder.
     rbind r_id128 (\<lambda>inc.
     rbind r_u64 (\<lambda>hgen.
     rbind r_id128 (\<lambda>path.
     rbind r_u64 (\<lambda>pgen.
     rbind r_u64 (\<lambda>cgen.
     rbind r_u64 (\<lambda>polgen.
     rbind r_u64 (\<lambda>ep.
     rbind r_id128 (\<lambda>lease.
     rreturn \<lparr>gb_holder = holder, gb_holder_incarnation = inc, gb_holder_generation = hgen,
       gb_path = path, gb_path_generation = pgen, gb_capacity_generation = cgen,
       gb_policy_generation = polgen, gb_epoch = ep, gb_lease = lease\<rparr>)))))))))"

definition encode_grant :: "grant_record \<Rightarrow> byte list" where
  "encode_grant v =
     w_id128 (gr_id v) @ w_id128 (gr_request v) @ w_u64 (gr_arbitration v) @
     encode_binding (gr_binding v) @ w_enum grant_class_code (gr_class v) @ w_u64 (gr_amount v) @
     w_enum grant_state_code (gr_state v) @ w_enum verification_state_code (gr_verification v) @
     w_boolean (gr_acknowledged v) @ w_u32 (gr_ack_count v) @ w_u64 (gr_created_at_ms v) @
     w_u64 (gr_updated_at_ms v) @ w_u64 (gr_expires_at_ms v) @
     encode_string_bounded (gr_reason v) @ w_enum provenance_code (gr_provenance v) @
     w_boolean (gr_historical v) @ w_boolean (gr_ambiguous v)"

definition decode_grant :: "wire_limits \<Rightarrow> grant_record reader" where
  "decode_grant lim =
     rbind r_id128 (\<lambda>i.
     rbind r_id128 (\<lambda>request.
     rbind r_u64 (\<lambda>arbitration.
     rbind decode_binding (\<lambda>binding.
     rbind (r_enum grant_class_all) (\<lambda>cls.
     rbind r_u64 (\<lambda>amt.
     rbind (r_enum grant_state_all) (\<lambda>st.
     rbind (r_enum verification_state_all) (\<lambda>verification.
     rbind r_boolean (\<lambda>ack.
     rbind r_u32 (\<lambda>ack_count.
     rbind r_u64 (\<lambda>created.
     rbind r_u64 (\<lambda>updated.
     rbind r_u64 (\<lambda>expires.
     rbind (r_str lim) (\<lambda>reason.
     rbind (r_enum provenance_all) (\<lambda>prov.
     rbind r_boolean (\<lambda>historical.
     rbind r_boolean (\<lambda>ambiguous.
     rreturn \<lparr>gr_id = i, gr_request = request, gr_arbitration = arbitration, gr_binding = binding,
       gr_class = cls, gr_amount = amt, gr_state = st, gr_verification = verification,
       gr_acknowledged = ack, gr_ack_count = ack_count, gr_created_at_ms = created,
       gr_updated_at_ms = updated, gr_expires_at_ms = expires, gr_reason = reason,
       gr_provenance = prov, gr_historical = historical,
       gr_ambiguous = ambiguous\<rparr>)))))))))))))))))"

definition encode_verification :: "verification_record \<Rightarrow> byte list" where
  "encode_verification v =
     w_id128 (vr_id v) @ w_id128 (vr_grant v) @ encode_binding (vr_binding v) @
     w_enum verification_state_code (vr_result v) @ w_id128 (vr_verifier v) @
     w_digest (vr_evidence v) @ w_u64 (vr_at_ms v) @ encode_string_bounded (vr_detail v)"

definition decode_verification :: "wire_limits \<Rightarrow> verification_record reader" where
  "decode_verification lim =
     rbind r_id128 (\<lambda>i.
     rbind r_id128 (\<lambda>grant.
     rbind decode_binding (\<lambda>binding.
     rbind (r_enum verification_state_all) (\<lambda>result.
     rbind r_id128 (\<lambda>verifier.
     rbind r_digest (\<lambda>evidence.
     rbind r_u64 (\<lambda>at.
     rbind (r_str lim) (\<lambda>detail.
     rreturn \<lparr>vr_id = i, vr_grant = grant, vr_binding = binding, vr_result = result,
       vr_verifier = verifier, vr_evidence = evidence, vr_at_ms = at, vr_detail = detail\<rparr>))))))))"

definition encode_oversubscription :: "oversubscription_authority \<Rightarrow> byte list" where
  "encode_oversubscription v =
     w_id128 (oa_id v) @ w_id128 (oa_path v) @ w_u64 (oa_path_generation v) @
     w_u64 (oa_capacity_generation v) @ w_u64 (oa_policy_generation v) @ w_u64 (oa_epoch v) @
     w_id128 (oa_issuer v) @ w_u32 (oa_ratio_bps v) @ w_u64 (oa_issued_at_ms v) @
     w_u64 (oa_not_after_ms v) @ w_id128 (oa_principal v)"

definition decode_oversubscription :: "oversubscription_authority reader" where
  "decode_oversubscription =
     rbind r_id128 (\<lambda>i.
     rbind r_id128 (\<lambda>path.
     rbind r_u64 (\<lambda>pgen.
     rbind r_u64 (\<lambda>cgen.
     rbind r_u64 (\<lambda>polgen.
     rbind r_u64 (\<lambda>ep.
     rbind r_id128 (\<lambda>issuer.
     rbind r_u32 (\<lambda>ratio.
     rbind r_u64 (\<lambda>issued.
     rbind r_u64 (\<lambda>not_after.
     rbind r_id128 (\<lambda>principal.
     rreturn \<lparr>oa_id = i, oa_path = path, oa_path_generation = pgen, oa_capacity_generation = cgen,
       oa_policy_generation = polgen, oa_epoch = ep, oa_issuer = issuer, oa_ratio_bps = ratio,
       oa_issued_at_ms = issued, oa_not_after_ms = not_after, oa_principal = principal\<rparr>)))))))))))"

definition encode_policy :: "policy \<Rightarrow> byte list" where
  "encode_policy v =
     w_id128 (po_id v) @ w_u64 (po_generation v) @ w_u64 (po_protected_floor_units v) @
     w_u32 (po_protected_floor_bps v) @ w_u64 (po_min_free_units v) @ w_u32 (po_min_free_bps v) @
     w_u32 (po_max_oversubscription_bps v) @ w_u64 (po_max_lease_duration_ms v) @
     w_u32 (po_max_grants_per_path v) @ w_u32 (po_max_grants_per_site v) @
     w_u32 (po_max_srd_concentration_bps v) @ w_boolean (po_allow_degraded_activation v) @
     w_boolean (po_allow_partition_optimistic_recovery v) @
     w_boolean (po_require_verification_for_active v) @
     w_boolean (po_auto_reconcile_on_restart v) @ w_u64 (po_site_lease_timeout_ms v)"

definition decode_policy :: "policy reader" where
  "decode_policy =
     rbind r_id128 (\<lambda>i.
     rbind r_u64 (\<lambda>gen.
     rbind r_u64 (\<lambda>protected_units.
     rbind r_u32 (\<lambda>protected_bps.
     rbind r_u64 (\<lambda>min_free_units.
     rbind r_u32 (\<lambda>min_free_bps.
     rbind r_u32 (\<lambda>oversub.
     rbind r_u64 (\<lambda>lease.
     rbind r_u32 (\<lambda>per_path.
     rbind r_u32 (\<lambda>per_site.
     rbind r_u32 (\<lambda>concentration.
     rbind r_boolean (\<lambda>degraded.
     rbind r_boolean (\<lambda>optimistic.
     rbind r_boolean (\<lambda>require_verification.
     rbind r_boolean (\<lambda>auto_reconcile.
     rbind r_u64 (\<lambda>site_lease.
     rreturn \<lparr>po_id = i, po_generation = gen, po_protected_floor_units = protected_units,
       po_protected_floor_bps = protected_bps, po_min_free_units = min_free_units,
       po_min_free_bps = min_free_bps, po_max_oversubscription_bps = oversub,
       po_max_lease_duration_ms = lease, po_max_grants_per_path = per_path,
       po_max_grants_per_site = per_site, po_max_srd_concentration_bps = concentration,
       po_allow_degraded_activation = degraded,
       po_allow_partition_optimistic_recovery = optimistic,
       po_require_verification_for_active = require_verification,
       po_auto_reconcile_on_restart = auto_reconcile,
       po_site_lease_timeout_ms = site_lease\<rparr>))))))))))))))))"

section \<open>Facts: field codecs\<close>

lemma r_enum_w:
  assumes "all ! code v = v" and "code v < length all" and "length all \<le> 256"
  shows "r_enum all (w_enum code v @ rest) = Inr (v, rest)"
proof -
  have "unat (of_nat (code v) :: u8) = code v"
    using assms(2,3) by (simp add: unsigned_of_nat take_bit_nat_eq_self)
  then show ?thesis using assms(1,2) by (simp add: r_enum_def w_enum_def rbind_ok r_u8_w)
qed

lemma r_site_state_w [codec_simps]:
  "r_enum site_state_all (w_enum site_state_code v @ rest) = Inr (v, rest)"
  by (rule r_enum_w; cases v) (simp_all add: site_state_all_def)

lemma r_path_state_w [codec_simps]:
  "r_enum path_state_all (w_enum path_state_code v @ rest) = Inr (v, rest)"
  by (rule r_enum_w; cases v) (simp_all add: path_state_all_def)

lemma r_grant_state_w [codec_simps]:
  "r_enum grant_state_all (w_enum grant_state_code v @ rest) = Inr (v, rest)"
  by (rule r_enum_w; cases v) (simp_all add: grant_state_all_def)

lemma r_verification_state_w [codec_simps]:
  "r_enum verification_state_all (w_enum verification_state_code v @ rest) = Inr (v, rest)"
  by (rule r_enum_w; cases v) (simp_all add: verification_state_all_def)

lemma r_provenance_w [codec_simps]:
  "r_enum provenance_all (w_enum provenance_code v @ rest) = Inr (v, rest)"
  by (rule r_enum_w; cases v) (simp_all add: provenance_all_def)

lemma r_grant_class_w [codec_simps]:
  "r_enum grant_class_all (w_enum grant_class_code v @ rest) = Inr (v, rest)"
  by (rule r_enum_w; cases v) (simp_all add: grant_class_all_def)

lemma encode_string_bounded_take: "encode_string_bounded v = w_str (take 512 v)"
  by (simp add: encode_string_bounded_def kMaxReasonBytes_def)

lemma r_str_ok:
  "length v \<le> max_string lim \<Longrightarrow> length v < 2 ^ 32 \<Longrightarrow> is_valid_utf8 v \<Longrightarrow>
    r_str lim (w_str v @ rest) = Inr (v, rest)"
  by (simp add: r_str_w)

lemma r_str_bounded_ok:
  "512 \<le> max_string lim \<Longrightarrow> is_valid_utf8 (take 512 v) \<Longrightarrow>
    r_str lim (encode_string_bounded v @ rest) = Inr (take 512 v, rest)"
  by (simp add: encode_string_bounded_take r_str_w)

lemma r_str_bounded_bad:
  "512 \<le> max_string lim \<Longrightarrow> \<not> is_valid_utf8 (take 512 v) \<Longrightarrow>
    r_str lim (encode_string_bounded v @ rest) = Inl StInvalid"
  by (simp add: encode_string_bounded_take r_str_w)

section \<open>Facts: record codecs\<close>

text \<open>
  A text field is clean when a reader accepts it: not longer than the reader's limit and
  well-formed. A bounded field is cut to 512 bytes before it is written, so it is clean when
  the cut text is well-formed.
\<close>

definition clean :: "string \<Rightarrow> bool" where
  "clean v \<longleftrightarrow> length v \<le> 4096 \<and> is_valid_utf8 v"

definition clean_bounded :: "string \<Rightarrow> bool" where
  "clean_bounded v \<longleftrightarrow> is_valid_utf8 (take 512 v)"

lemma r_str_clean:
  "4096 \<le> max_string lim \<Longrightarrow> clean v \<Longrightarrow> r_str lim (w_str v @ rest) = Inr (v, rest)"
  by (simp add: clean_def r_str_w)

lemma r_str_clean_bounded:
  "4096 \<le> max_string lim \<Longrightarrow> clean_bounded v \<Longrightarrow>
    r_str lim (encode_string_bounded v @ rest) = Inr (take 512 v, rest)"
  by (simp add: clean_bounded_def r_str_bounded_ok)

lemma r_str_unclean_bounded:
  "4096 \<le> max_string lim \<Longrightarrow> \<not> clean_bounded v \<Longrightarrow>
    r_str lim (encode_string_bounded v @ rest) = Inl StInvalid"
  by (simp add: clean_bounded_def r_str_bounded_bad)

lemmas codec_steps = rbind_ok append_assoc r_str_clean r_str_clean_bounded

lemma decode_binding_encode [codec_simps]:
  "decode_binding (encode_binding v @ rest) = Inr (v, rest)"
  by (simp add: decode_binding_def encode_binding_def codec_steps codec_simps)

lemma decode_policy_encode [codec_simps]:
  "decode_policy (encode_policy v @ rest) = Inr (v, rest)"
  by (simp add: decode_policy_def encode_policy_def codec_steps codec_simps)

lemma decode_oversubscription_encode [codec_simps]:
  "decode_oversubscription (encode_oversubscription v @ rest) = Inr (v, rest)"
  by (simp add: decode_oversubscription_def encode_oversubscription_def codec_steps codec_simps)

lemma decode_grant_encode:
  assumes "4096 \<le> max_string lim" and "clean_bounded (gr_reason v)"
  shows "decode_grant lim (encode_grant v @ rest) = Inr (v\<lparr>gr_reason := take 512 (gr_reason v)\<rparr>, rest)"
  using assms by (simp add: decode_grant_def encode_grant_def codec_steps codec_simps)

lemma decode_grant_unclean:
  assumes "4096 \<le> max_string lim" and "\<not> clean_bounded (gr_reason v)"
  shows "decode_grant lim (encode_grant v @ rest) = Inl StInvalid"
  using assms
  by (simp add: decode_grant_def encode_grant_def codec_steps codec_simps rbind_fail
      r_str_unclean_bounded)


lemma r_str_iff:
  assumes "max_string lim = 4096" and "length v < 2 ^ 32"
  shows "r_str lim (w_str v @ rest) = Inr x \<longleftrightarrow> clean v \<and> x = (v, rest)"
  using assms by (auto simp: clean_def r_str_w)

lemma r_str_bounded_iff:
  assumes "max_string lim = 4096"
  shows "r_str lim (encode_string_bounded v @ rest) = Inr x \<longleftrightarrow> clean_bounded v \<and> x = (take 512 v, rest)"
  using assms by (auto simp: clean_bounded_def encode_string_bounded_take r_str_w)

lemma rbind_str_iff:
  assumes "max_string lim = 4096" and "length v < 2 ^ 32"
  shows "rbind (r_str lim) f (w_str v @ rest) = Inr y \<longleftrightarrow> clean v \<and> f v rest = Inr y"
  using r_str_iff [OF assms, of rest] by (auto simp: rbind_Inr)

lemma rbind_str_bounded_iff:
  assumes "max_string lim = 4096"
  shows "rbind (r_str lim) f (encode_string_bounded v @ rest) = Inr y \<longleftrightarrow>
    clean_bounded v \<and> f (take 512 v) rest = Inr y"
  using r_str_bounded_iff [OF assms, of v rest] by (auto simp: rbind_Inr)

lemmas decode_steps = rbind_ok append_assoc rbind_str_iff rbind_str_bounded_iff

lemma decode_site_encode:
  assumes "max_string lim = 4096" and "length (sr_name v) < 2 ^ 32"
  shows "decode_site lim (encode_site v @ rest) = Inr x \<longleftrightarrow>
    clean (sr_name v) \<and> clean_bounded (sr_fence_reason v) \<and>
    x = (v\<lparr>sr_fence_reason := take 512 (sr_fence_reason v)\<rparr>, rest)"
  using assms
  by (auto simp: decode_site_def encode_site_def decode_steps codec_simps)

lemma decode_path_encode:
  assumes "max_string lim = 4096" and "length (pr_name v) < 2 ^ 32"
  shows "decode_path lim (encode_path v @ rest) = Inr x \<longleftrightarrow>
    clean (pr_name v) \<and> pr_unavailable v \<le> pr_authoritative_usable v \<and> x = (v, rest)"
  using assms
  by (auto simp: decode_path_def encode_path_def decode_steps codec_simps not_less)

lemma decode_domain_encode:
  assumes "max_string lim = 4096" and "length (sd_name v) < 2 ^ 32" and "length (sd_description v) < 2 ^ 32"
  shows "decode_domain lim (encode_domain v @ rest) = Inr x \<longleftrightarrow>
    clean (sd_name v) \<and> clean (sd_description v) \<and> x = (v, rest)"
  using assms
  by (auto simp: decode_domain_def encode_domain_def decode_steps codec_simps)

lemma decode_attestation_encode:
  assumes "max_string lim = 4096"
  shows "decode_attestation lim (encode_attestation v @ rest) = Inr x \<longleftrightarrow>
    clean_bounded (ca_source v) \<and> x = (v\<lparr>ca_source := take 512 (ca_source v)\<rparr>, rest)"
  using assms
  by (auto simp: decode_attestation_def encode_attestation_def decode_steps codec_simps)

lemma decode_verification_encode:
  assumes "max_string lim = 4096"
  shows "decode_verification lim (encode_verification v @ rest) = Inr x \<longleftrightarrow>
    clean_bounded (vr_detail v) \<and> x = (v\<lparr>vr_detail := take 512 (vr_detail v)\<rparr>, rest)"
  using assms
  by (auto simp: decode_verification_def encode_verification_def decode_steps codec_simps)

lemma decode_grant_encode_iff:
  assumes "max_string lim = 4096"
  shows "decode_grant lim (encode_grant v @ rest) = Inr x \<longleftrightarrow>
    clean_bounded (gr_reason v) \<and> x = (v\<lparr>gr_reason := take 512 (gr_reason v)\<rparr>, rest)"
  using assms
  by (auto simp: decode_grant_def encode_grant_def decode_steps codec_simps)

section \<open>Facts: decoded text is clean\<close>

lemma r_str_clean_result: "r_str lim bs = Inr (v, rest) \<Longrightarrow> max_string lim = 4096 \<Longrightarrow> clean v"
  by (auto simp: clean_def dest: r_str_bound)

lemma decode_site_clean:
  "decode_site lim bs = Inr (v, rest) \<Longrightarrow> max_string lim = 4096 \<Longrightarrow>
    clean (sr_name v) \<and> clean (sr_fence_reason v)"
  by (auto simp: decode_site_def rbind_Inr dest: r_str_clean_result)

lemma decode_path_clean:
  "decode_path lim bs = Inr (v, rest) \<Longrightarrow> max_string lim = 4096 \<Longrightarrow>
    clean (pr_name v) \<and> pr_unavailable v \<le> pr_authoritative_usable v"
  by (auto simp: decode_path_def rbind_Inr not_less split: if_splits dest: r_str_clean_result)

section \<open>Facts: the encoding is canonical\<close>

lemma bit_le_word:
  assumes "m < LENGTH('w::len)"
  shows "bit (le_word n sp :: 'w word) m \<longleftrightarrow> m div 8 < n \<and> bit (sp ! (m div 8)) (m mod 8)"
proof -
  have "bit (le_word n sp :: 'w word) m \<longleftrightarrow> (\<exists>i < n. i * 8 \<le> m \<and> bit (sp ! i) (m - i * 8))"
    using assms by (auto simp: le_word_def bit_fold_or bit_push_bit_iff bit_ucast_iff)
  also have "\<dots> \<longleftrightarrow> m div 8 < n \<and> bit (sp ! (m div 8)) (m mod 8)"
  proof
    assume "\<exists>i < n. i * 8 \<le> m \<and> bit (sp ! i) (m - i * 8)"
    then obtain i where i: "i < n" "i * 8 \<le> m" "bit (sp ! i) (m - i * 8)" by blast
    then have "m - i * 8 < 8" using bit_imp_le_length by fastforce
    with i(2) have "m div 8 = i" "m mod 8 = m - i * 8"
      by (auto simp: div_nat_eqI intro: mod_nat_eqI)
    with i show "m div 8 < n \<and> bit (sp ! (m div 8)) (m mod 8)" by simp
  next
    assume "m div 8 < n \<and> bit (sp ! (m div 8)) (m mod 8)"
    then show "\<exists>i < n. i * 8 \<le> m \<and> bit (sp ! i) (m - i * 8)"
      by (intro exI [of _ "m div 8"]) (auto simp: minus_div_mult_eq_mod)
  qed
  finally show ?thesis .
qed

lemma le_bytes_word:
  assumes "LENGTH('w::len) = n * 8" and "i < n"
  shows "ucast (drop_bit (i * 8) (le_word n sp :: 'w word) AND 0xFF) = sp ! i"
proof (rule bit_word_eqI)
  fix m assume m: "m < LENGTH(8)"
  have mask: "(0xFF :: 'w word) = mask 8" by (simp add: mask_eq_exp_minus_1)
  have lt: "i * 8 + m < LENGTH('w)" using assms m by simp
  have idx: "(i * 8 + m) div 8 = i" "(i * 8 + m) mod 8 = m" using m by simp_all
  have "bit (ucast (drop_bit (i * 8) (le_word n sp :: 'w word) AND 0xFF) :: byte) m \<longleftrightarrow>
      bit (le_word n sp :: 'w word) (i * 8 + m)"
    using m lt unfolding mask by (auto simp: bit_simps dest: bit_imp_le_length)
  also have "\<dots> \<longleftrightarrow> bit (sp ! i) m"
    using assms(2) m by (simp add: bit_le_word [OF lt] idx del: div_mult_self1 mod_mult_self1)
  finally show "bit (ucast (drop_bit (i * 8) (le_word n sp :: 'w word) AND 0xFF) :: byte) m \<longleftrightarrow>
      bit (sp ! i) m" .
qed

lemma r_take_inv: "r_take n bs = Inr (sp, rest) \<Longrightarrow> bs = sp @ rest \<and> length sp = n"
  by (auto simp: r_take_def split: if_splits)

lemma r_u8_inv [canon_inv]: "r_u8 bs = Inr (v, rest) \<Longrightarrow> bs = w_u8 v @ rest"
  by (auto simp: r_u8_def rbind_Inr w_u8_def length_Suc_conv dest!: r_take_inv)

lemma r_u32_inv [canon_inv]: "r_u32 bs = Inr (v, rest) \<Longrightarrow> bs = w_u32 v @ rest"
  by (auto simp: r_u32_def rbind_Inr w_u32_def intro!: nth_equalityI dest!: r_take_inv
      simp del: upt_Suc simp: le_bytes_word)

lemma r_u64_inv [canon_inv]: "r_u64 bs = Inr (v, rest) \<Longrightarrow> bs = w_u64 v @ rest"
  by (auto simp: r_u64_def rbind_Inr w_u64_def intro!: nth_equalityI dest!: r_take_inv
      simp del: upt_Suc simp: le_bytes_word)

lemma r_boolean_inv [canon_inv]: "r_boolean bs = Inr (v, rest) \<Longrightarrow> bs = w_boolean v @ rest"
proof -
  assume a: "r_boolean bs = Inr (v, rest)"
  then obtain x where x: "r_u8 bs = Inr (x, rest)" "\<not> x > 1" "v = (x = 1)"
    by (auto simp: r_boolean_def rbind_Inr split: if_splits)
  have "x = 0 \<or> x = 1"
    using x(2) by (metis linorder_not_less word_less_1 order_le_less)
  with r_u8_inv [OF x(1)] x(3) show ?thesis by (auto simp: w_boolean_def w_u8_def)
qed

lemma r_id128_inv [canon_inv]: "r_id128 bs = Inr (v, rest) \<Longrightarrow> bs = w_id128 v @ rest"
  by (auto simp: r_id128_def rbind_Inr w_id128_def dest!: r_u64_inv)

lemma r_digest_inv [canon_inv]: "r_digest bs = Inr (v, rest) \<Longrightarrow> bs = w_digest v @ rest"
  by (auto simp: r_digest_def rbind_Inr w_digest_def dest!: r_take_inv)

lemma r_str_inv [canon_inv]: "r_str lim bs = Inr (v, rest) \<Longrightarrow> bs = w_str v @ rest"
  by (auto simp: r_str_def rbind_Inr w_str_def Let_def comp_def map_idI
      split: if_splits dest!: r_take_inv r_u32_inv)

lemma r_bytes_inv [canon_inv]: "r_bytes lim bs = Inr (v, rest) \<Longrightarrow> bs = w_bytes v @ rest"
  by (auto simp: r_bytes_def rbind_Inr w_bytes_def Let_def
      split: if_splits dest!: r_take_inv r_u32_inv)

lemma r_enum_inv:
  assumes "r_enum all bs = Inr (v, rest)" and "all \<noteq> []"
    and "\<And>i. i < length all \<Longrightarrow> code (all ! i) = i"
  shows "bs = w_enum code v @ rest"
proof -
  obtain x where x: "r_u8 bs = Inr (x, rest)" "unat x < length all" "v = all ! unat x"
    using assms(1,2) by (cases all) (auto simp: r_enum_def rbind_Inr not_less less_Suc_eq_le split: if_splits)
  then have "code v = unat x" using assms(3) by simp
  with r_u8_inv [OF x(1)] show ?thesis by (simp add: w_enum_def)
qed

lemma r_site_state_inv [canon_inv]:
  "r_enum site_state_all bs = Inr (v, rest) \<Longrightarrow> bs = w_enum site_state_code v @ rest"
  by (erule r_enum_inv) (auto simp: site_state_all_def nth_Cons split: nat.splits)

lemma r_path_state_inv [canon_inv]:
  "r_enum path_state_all bs = Inr (v, rest) \<Longrightarrow> bs = w_enum path_state_code v @ rest"
  by (erule r_enum_inv) (auto simp: path_state_all_def nth_Cons split: nat.splits)

lemma r_grant_state_inv [canon_inv]:
  "r_enum grant_state_all bs = Inr (v, rest) \<Longrightarrow> bs = w_enum grant_state_code v @ rest"
  by (erule r_enum_inv) (auto simp: grant_state_all_def nth_Cons split: nat.splits)

lemma r_verification_state_inv [canon_inv]:
  "r_enum verification_state_all bs = Inr (v, rest) \<Longrightarrow> bs = w_enum verification_state_code v @ rest"
  by (erule r_enum_inv) (auto simp: verification_state_all_def nth_Cons split: nat.splits)

lemma r_provenance_inv [canon_inv]:
  "r_enum provenance_all bs = Inr (v, rest) \<Longrightarrow> bs = w_enum provenance_code v @ rest"
  by (erule r_enum_inv) (auto simp: provenance_all_def nth_Cons split: nat.splits)

lemma r_grant_class_inv [canon_inv]:
  "r_enum grant_class_all bs = Inr (v, rest) \<Longrightarrow> bs = w_enum grant_class_code v @ rest"
  by (erule r_enum_inv) (auto simp: grant_class_all_def nth_Cons split: nat.splits)

lemma decode_binding_inv [canon_inv]:
  "decode_binding bs = Inr (v, rest) \<Longrightarrow> bs = encode_binding v @ rest"
  by (auto simp: decode_binding_def rbind_Inr encode_binding_def dest!: canon_inv)

lemma decode_policy_inv: "decode_policy bs = Inr (v, rest) \<Longrightarrow> bs = encode_policy v @ rest"
  by (auto simp: decode_policy_def rbind_Inr encode_policy_def dest!: canon_inv)

lemma decode_oversubscription_inv:
  "decode_oversubscription bs = Inr (v, rest) \<Longrightarrow> bs = encode_oversubscription v @ rest"
  by (auto simp: decode_oversubscription_def rbind_Inr encode_oversubscription_def dest!: canon_inv)

lemma decode_domain_inv: "decode_domain lim bs = Inr (v, rest) \<Longrightarrow> bs = encode_domain v @ rest"
  by (auto simp: decode_domain_def rbind_Inr encode_domain_def dest!: canon_inv)

lemma decode_path_inv: "decode_path lim bs = Inr (v, rest) \<Longrightarrow> bs = encode_path v @ rest"
  by (auto simp: decode_path_def rbind_Inr encode_path_def split: if_splits dest!: canon_inv)

lemma decode_site_inv:
  "decode_site lim bs = Inr (v, rest) \<Longrightarrow> length (sr_fence_reason v) \<le> 512 \<Longrightarrow> bs = encode_site v @ rest"
  by (auto simp: decode_site_def rbind_Inr encode_site_def encode_string_bounded_take dest!: canon_inv)

lemma decode_grant_inv:
  "decode_grant lim bs = Inr (v, rest) \<Longrightarrow> length (gr_reason v) \<le> 512 \<Longrightarrow> bs = encode_grant v @ rest"
  by (auto simp: decode_grant_def rbind_Inr encode_grant_def encode_string_bounded_take dest!: canon_inv)

end
