(* ===== verification/Authority.thy ===== *)
theory Authority
  imports Model
begin

text \<open>
  The state of the capacity authority and everything about it that is not planning
  (\<open>include/isf/authority.hpp\<close>, \<open>src/authority.cpp\<close>): the change and snapshot codecs,
  construction and recovery from a snapshot, the queries, the derived ledger, the capacity
  that may still be promised, applying a change set, the fencing check on a caller's binding,
  and the invariant checker. The explanation texts that accompany a status are diagnostic
  and not modelled; a failing operation is \<open>Inl\<close> of its status.
\<close>

unbundle bit_operations_syntax

section \<open>State\<close>

record authority_config =
  ac_policy :: policy
  ac_epoch :: epoch
  ac_incarnation :: incarnation
  ac_max_sites :: nat
  ac_max_paths :: nat
  ac_max_domains :: nat
  ac_max_grants :: nat
  ac_max_attestations :: nat
  ac_max_verifications :: nat
  ac_max_oversubscriptions :: nat

definition default_config :: "incarnation \<Rightarrow> authority_config" where
  "default_config random_incarnation =
     \<lparr>ac_policy = conservative_default, ac_epoch = 1, ac_incarnation = random_incarnation,
      ac_max_sites = 4096, ac_max_paths = 65536, ac_max_domains = 4096, ac_max_grants = 2 ^ 20,
      ac_max_attestations = 2 ^ 16, ac_max_verifications = 2 ^ 20,
      ac_max_oversubscriptions = 4096\<rparr>"

record authority =
  au_config :: authority_config
  au_last_arbitration :: arb_seq
  au_sites :: "(id128, site_record) omap"
  au_paths :: "(id128, path_record) omap"
  au_domains :: "(id128, shared_risk_domain) omap"
  au_attestations :: "(id128, capacity_attestation) omap"
  au_grants :: "(id128, grant_record) omap"
  au_verifications :: "(id128, verification_record) omap"
  au_oversubscriptions :: "(id128, oversubscription_authority) omap"
  au_request_index :: "(id128, id128) omap"

abbreviation au_policy :: "authority \<Rightarrow> policy" where
  "au_policy a \<equiv> ac_policy (au_config a)"

abbreviation au_epoch :: "authority \<Rightarrow> epoch" where
  "au_epoch a \<equiv> ac_epoch (au_config a)"

section \<open>State changes\<close>

datatype object_kind =
    OkSite | OkPath | OkDomain | OkAttestation | OkGrant | OkVerification
  | OkOversubscription | OkPolicy | OkEpoch | OkAuthorityMeta

fun object_kind_code :: "object_kind \<Rightarrow> nat" where
  "object_kind_code OkSite = 1"
| "object_kind_code OkPath = 2"
| "object_kind_code OkDomain = 3"
| "object_kind_code OkAttestation = 4"
| "object_kind_code OkGrant = 5"
| "object_kind_code OkVerification = 6"
| "object_kind_code OkOversubscription = 7"
| "object_kind_code OkPolicy = 8"
| "object_kind_code OkEpoch = 9"
| "object_kind_code OkAuthorityMeta = 10"

definition object_kind_all :: "object_kind list" where
  "object_kind_all =
     [OkSite, OkPath, OkDomain, OkAttestation, OkGrant, OkVerification, OkOversubscription,
      OkPolicy, OkEpoch, OkAuthorityMeta]"

definition object_kind_name :: "object_kind \<Rightarrow> string" where
  "object_kind_name k =
     (case k of
        OkSite \<Rightarrow> ''SITE''
      | OkPath \<Rightarrow> ''PATH''
      | OkDomain \<Rightarrow> ''DOMAIN''
      | OkAttestation \<Rightarrow> ''ATTESTATION''
      | OkGrant \<Rightarrow> ''GRANT''
      | OkVerification \<Rightarrow> ''VERIFICATION''
      | OkOversubscription \<Rightarrow> ''OVERSUBSCRIPTION''
      | OkPolicy \<Rightarrow> ''POLICY''
      | OkEpoch \<Rightarrow> ''EPOCH''
      | OkAuthorityMeta \<Rightarrow> ''AUTHORITY_META'')"

record state_change =
  sc_kind :: object_kind
  sc_key :: id128
  sc_image :: "byte list"
  sc_releases_capacity :: bool

definition encode_state_change :: "state_change \<Rightarrow> byte list" where
  "encode_state_change v =
     w_enum object_kind_code (sc_kind v) @ w_id128 (sc_key v) @
     w_boolean (sc_releases_capacity v) @ w_bytes (sc_image v)"

definition decode_state_change :: "wire_limits \<Rightarrow> state_change reader" where
  "decode_state_change lim =
     rbind r_u8 (\<lambda>kind.
     if unat kind < 1 \<or> unat kind > object_kind_code OkAuthorityMeta then rfail StInvalid else
     rbind r_id128 (\<lambda>key.
     rbind r_boolean (\<lambda>releases.
     rbind (r_bytes lim) (\<lambda>image.
     rreturn \<lparr>sc_kind = object_kind_all ! (unat kind - 1), sc_key = key, sc_image = image,
       sc_releases_capacity = releases\<rparr>))))"

text \<open>A decoded post-image: one case per kind of object.\<close>

datatype object =
    OSite site_record
  | OPath path_record
  | ODomain shared_risk_domain
  | OAttestation capacity_attestation
  | OGrant grant_record
  | OVerification verification_record
  | OOversubscription oversubscription_authority
  | OPolicy policy
  | OEpoch epoch
  | OAuthorityMeta

text \<open>
  The overloads of \<open>change_for\<close>, and \<open>change_for_epoch\<close>. The authority never builds an
  \<open>AuthorityMeta\<close> change; the last case only makes the function total.
\<close>

definition change_for :: "object \<Rightarrow> bool \<Rightarrow> state_change" where
  "change_for ob releases =
     (case ob of
        OSite site \<Rightarrow> \<lparr>sc_kind = OkSite, sc_key = sr_id site, sc_image = encode_site site,
          sc_releases_capacity = releases\<rparr>
      | OPath path \<Rightarrow> \<lparr>sc_kind = OkPath, sc_key = pr_id path, sc_image = encode_path path,
          sc_releases_capacity = releases\<rparr>
      | ODomain domain \<Rightarrow> \<lparr>sc_kind = OkDomain, sc_key = sd_id domain,
          sc_image = encode_domain domain, sc_releases_capacity = releases\<rparr>
      | OAttestation att \<Rightarrow> \<lparr>sc_kind = OkAttestation, sc_key = ca_id att,
          sc_image = encode_attestation att, sc_releases_capacity = releases\<rparr>
      | OGrant grant \<Rightarrow> \<lparr>sc_kind = OkGrant, sc_key = gr_id grant, sc_image = encode_grant grant,
          sc_releases_capacity = releases\<rparr>
      | OVerification ver \<Rightarrow> \<lparr>sc_kind = OkVerification, sc_key = vr_id ver,
          sc_image = encode_verification ver, sc_releases_capacity = releases\<rparr>
      | OOversubscription oa \<Rightarrow> \<lparr>sc_kind = OkOversubscription, sc_key = oa_id oa,
          sc_image = encode_oversubscription oa, sc_releases_capacity = releases\<rparr>
      | OPolicy p \<Rightarrow> \<lparr>sc_kind = OkPolicy, sc_key = nil_id, sc_image = encode_policy p,
          sc_releases_capacity = releases\<rparr>
      | OEpoch e \<Rightarrow> \<lparr>sc_kind = OkEpoch, sc_key = nil_id, sc_image = w_u64 e,
          sc_releases_capacity = releases\<rparr>
      | OAuthorityMeta \<Rightarrow> \<lparr>sc_kind = OkAuthorityMeta, sc_key = nil_id, sc_image = [],
          sc_releases_capacity = releases\<rparr>)"

text \<open>
  A planned post-image is the object and whether storing it releases capacity. A mutation is
  kept as its post-images; the \<open>changes\<close> member of the code is the encoding of each of them,
  in order.
\<close>

type_synonym post_image = "object \<times> bool"

record mutation =
  mu_images :: "post_image list"
  mu_summary :: string
  mu_arbitration :: arb_seq

definition mu_changes :: "mutation \<Rightarrow> state_change list" where
  "mu_changes m = map (\<lambda>(ob, releases). change_for ob releases) (mu_images m)"

type_synonym mutation_result = "mutation expected"

section \<open>Snapshots\<close>

record authority_snapshot =
  sn_epoch :: epoch
  sn_incarnation :: incarnation
  sn_policy :: policy
  sn_sites :: "site_record list"
  sn_paths :: "path_record list"
  sn_domains :: "shared_risk_domain list"
  sn_attestations :: "capacity_attestation list"
  sn_grants :: "grant_record list"
  sn_verifications :: "verification_record list"
  sn_oversubscriptions :: "oversubscription_authority list"
  sn_last_arbitration :: arb_seq

text \<open>A counted sequence: the count, then the items.\<close>

definition w_list :: "('a \<Rightarrow> byte list) \<Rightarrow> 'a list \<Rightarrow> byte list" where
  "w_list enc xs = w_u32 (of_nat (length xs)) @ concat (map enc xs)"

primrec r_times :: "nat \<Rightarrow> 'a reader \<Rightarrow> 'a list reader" where
  "r_times 0 dec = rreturn []"
| "r_times (Suc n) dec = rbind dec (\<lambda>x. rbind (r_times n dec) (\<lambda>xs. rreturn (x # xs)))"

definition r_list :: "wire_limits \<Rightarrow> 'a reader \<Rightarrow> 'a list reader" where
  "r_list lim dec = rbind (r_container_count lim) (\<lambda>n. r_times (unat n) dec)"

definition encode_snapshot :: "authority_snapshot \<Rightarrow> byte list" where
  "encode_snapshot v =
     w_u64 (sn_epoch v) @ w_id128 (sn_incarnation v) @ encode_policy (sn_policy v) @
     w_list encode_site (sn_sites v) @ w_list encode_path (sn_paths v) @
     w_list encode_domain (sn_domains v) @ w_list encode_attestation (sn_attestations v) @
     w_list encode_grant (sn_grants v) @ w_list encode_verification (sn_verifications v) @
     w_list encode_oversubscription (sn_oversubscriptions v) @ w_u64 (sn_last_arbitration v)"

definition decode_snapshot :: "wire_limits \<Rightarrow> authority_snapshot reader" where
  "decode_snapshot lim =
     rbind r_u64 (\<lambda>ep.
     rbind r_id128 (\<lambda>inc.
     rbind decode_policy (\<lambda>pol.
     rbind (r_list lim (decode_site lim)) (\<lambda>sites.
     rbind (r_list lim (decode_path lim)) (\<lambda>paths.
     rbind (r_list lim (decode_domain lim)) (\<lambda>domains.
     rbind (r_list lim (decode_attestation lim)) (\<lambda>attestations.
     rbind (r_list lim (decode_grant lim)) (\<lambda>grants.
     rbind (r_list lim (decode_verification lim)) (\<lambda>verifications.
     rbind (r_list lim decode_oversubscription) (\<lambda>oversubscriptions.
     rbind r_u64 (\<lambda>arb.
     rreturn \<lparr>sn_epoch = ep, sn_incarnation = inc, sn_policy = pol, sn_sites = sites,
       sn_paths = paths, sn_domains = domains, sn_attestations = attestations,
       sn_grants = grants, sn_verifications = verifications,
       sn_oversubscriptions = oversubscriptions, sn_last_arbitration = arb\<rparr>)))))))))))"

section \<open>Construction\<close>

definition default_domain :: shared_risk_domain where
  "default_domain =
     \<lparr>sd_id = from_seed 0x15F0D0A1 0, sd_name = ''default'',
      sd_description = ''shared risk domain applied to paths without an explicit domain''\<rparr>"

text \<open>The constructor; \<open>random_incarnation\<close> is the identity drawn when the configuration has none.\<close>

definition new_authority :: "incarnation \<Rightarrow> authority_config \<Rightarrow> authority" where
  "new_authority random_incarnation config =
     (let pol = ac_policy config;
          pol = (if generation_is_nil (po_generation pol) then pol\<lparr>po_generation := 1\<rparr> else pol);
          ep = (if ac_epoch config = 0 then 1 else ac_epoch config);
          inc = (if is_nil (ac_incarnation config) then random_incarnation else ac_incarnation config)
      in \<lparr>au_config = config\<lparr>ac_policy := pol, ac_epoch := ep, ac_incarnation := inc\<rparr>,
          au_last_arbitration = 0, au_sites = [], au_paths = [],
          au_domains = om_put (sd_id default_domain) default_domain [],
          au_attestations = [], au_grants = [], au_verifications = [],
          au_oversubscriptions = [], au_request_index = []\<rparr>)"

text \<open>A loop of \<open>from_snapshot\<close> that refuses a nil identity and otherwise stores the record.\<close>

fun load_records :: "('v \<Rightarrow> id128) \<Rightarrow> 'v list \<Rightarrow> (id128, 'v) omap \<Rightarrow> (id128, 'v) omap expected" where
  "load_records ident [] m = Inr m"
| "load_records ident (item # items) m =
     (if is_nil (ident item) then Inl StCorrupt
      else load_records ident items (om_put (ident item) item m))"

definition recover_grant :: "grant_record \<Rightarrow> grant_record" where
  "recover_grant item =
     (let recovered = (if gr_provenance item = PvLive
                       then item\<lparr>gr_provenance := PvRecoveredFromSnapshot\<rparr> else item)
      in if \<not> is_terminal (gr_state recovered)
         then recovered\<lparr>gr_historical := True, gr_verification := VsUnverified\<rparr> else recovered)"

fun load_grants ::
    "grant_record list \<Rightarrow> (id128, grant_record) omap \<times> (id128, id128) omap \<Rightarrow>
     ((id128, grant_record) omap \<times> (id128, id128) omap) expected" where
  "load_grants [] (m, idx) = Inr (m, idx)"
| "load_grants (item # items) (m, idx) =
     (if is_nil (gr_id item) then Inl StCorrupt
      else
        let m' = om_put (gr_id item) (recover_grant item) m
        in if is_nil (gr_request item) then load_grants items (m', idx)
           else case om_find (gr_request item) idx of
               Some other \<Rightarrow>
                 if other \<noteq> gr_id item then Inl StCorrupt
                 else load_grants items (m', om_put (gr_request item) (gr_id item) idx)
             | None \<Rightarrow> load_grants items (m', om_put (gr_request item) (gr_id item) idx))"

definition from_snapshot ::
    "incarnation \<Rightarrow> authority_config \<Rightarrow> authority_snapshot \<Rightarrow> authority expected" where
  "from_snapshot random_incarnation config sn =
     (if policy_validate (sn_policy sn) \<noteq> StOk then Inl StCorrupt
      else
        let a = new_authority random_incarnation config;
            ep = (if sn_epoch sn = 0 then 1 else sn_epoch sn);
            a = a\<lparr>au_config := (au_config a)\<lparr>ac_policy := sn_policy sn, ac_epoch := ep\<rparr>,
                  au_last_arbitration := sn_last_arbitration sn\<rparr>
        in ebind (load_records sd_id (sn_domains sn) (au_domains a)) (\<lambda>domains.
           ebind (load_records sr_id (sn_sites sn) (au_sites a)) (\<lambda>sites.
           ebind (load_records pr_id (sn_paths sn) (au_paths a)) (\<lambda>paths.
           ebind (load_records ca_id (sn_attestations sn) (au_attestations a)) (\<lambda>attestations.
           ebind (load_grants (sn_grants sn) (au_grants a, au_request_index a)) (\<lambda>(grants, idx).
           ebind (load_records vr_id (sn_verifications sn) (au_verifications a)) (\<lambda>verifications.
           ebind (load_records oa_id (sn_oversubscriptions sn) (au_oversubscriptions a)) (\<lambda>oversubs.
           Inr (a\<lparr>au_domains := domains, au_sites := sites, au_paths := paths,
                  au_attestations := attestations, au_grants := grants,
                  au_request_index := idx, au_verifications := verifications,
                  au_oversubscriptions := oversubs\<rparr>)))))))))"

section \<open>Queries\<close>

definition find_site :: "authority \<Rightarrow> site_id \<Rightarrow> site_record option" where
  "find_site a i = om_find i (au_sites a)"

definition find_path :: "authority \<Rightarrow> path_id \<Rightarrow> path_record option" where
  "find_path a i = om_find i (au_paths a)"

definition find_grant :: "authority \<Rightarrow> grant_id \<Rightarrow> grant_record option" where
  "find_grant a i = om_find i (au_grants a)"

definition find_attestation :: "authority \<Rightarrow> attestation_id \<Rightarrow> capacity_attestation option" where
  "find_attestation a i = om_find i (au_attestations a)"

definition find_oversubscription ::
    "authority \<Rightarrow> oversubscription_id \<Rightarrow> oversubscription_authority option" where
  "find_oversubscription a i = om_find i (au_oversubscriptions a)"

definition require_grant :: "authority \<Rightarrow> grant_id \<Rightarrow> grant_record expected" where
  "require_grant a i = (case om_find i (au_grants a) of None \<Rightarrow> Inl StNotFound | Some g \<Rightarrow> Inr g)"

definition require_site :: "authority \<Rightarrow> site_id \<Rightarrow> site_record expected" where
  "require_site a i = (case om_find i (au_sites a) of None \<Rightarrow> Inl StNotFound | Some s \<Rightarrow> Inr s)"

definition require_path :: "authority \<Rightarrow> path_id \<Rightarrow> path_record expected" where
  "require_path a i = (case om_find i (au_paths a) of None \<Rightarrow> Inl StNotFound | Some p \<Rightarrow> Inr p)"

definition sites :: "authority \<Rightarrow> site_record list" where
  "sites a = om_vals (au_sites a)"

definition paths :: "authority \<Rightarrow> path_record list" where
  "paths a = om_vals (au_paths a)"

definition domains :: "authority \<Rightarrow> shared_risk_domain list" where
  "domains a = om_vals (au_domains a)"

definition grants :: "authority \<Rightarrow> grant_record list" where
  "grants a = om_vals (au_grants a)"

definition attestations :: "authority \<Rightarrow> capacity_attestation list" where
  "attestations a = om_vals (au_attestations a)"

definition verifications :: "authority \<Rightarrow> verification_record list" where
  "verifications a = om_vals (au_verifications a)"

definition oversubscriptions :: "authority \<Rightarrow> oversubscription_authority list" where
  "oversubscriptions a = om_vals (au_oversubscriptions a)"

definition grants_for_path :: "authority \<Rightarrow> path_id \<Rightarrow> grant_record list" where
  "grants_for_path a path = filter (\<lambda>g. gb_path (gr_binding g) = path) (om_vals (au_grants a))"

definition grants_for_site :: "authority \<Rightarrow> site_id \<Rightarrow> grant_record list" where
  "grants_for_site a site = filter (\<lambda>g. gb_holder (gr_binding g) = site) (om_vals (au_grants a))"

definition snapshot :: "authority \<Rightarrow> authority_snapshot" where
  "snapshot a =
     \<lparr>sn_epoch = au_epoch a, sn_incarnation = ac_incarnation (au_config a),
      sn_policy = au_policy a, sn_sites = sites a, sn_paths = paths a, sn_domains = domains a,
      sn_attestations = attestations a, sn_grants = grants a,
      sn_verifications = verifications a, sn_oversubscriptions = oversubscriptions a,
      sn_last_arbitration = au_last_arbitration a\<rparr>"

section \<open>Derived capacity\<close>

text \<open>The capacity that exists on a path: usable less unavailable.\<close>

definition path_basis :: "path_record \<Rightarrow> amount" where
  "path_basis path =
     (if pr_authoritative_usable path > pr_unavailable path
      then pr_authoritative_usable path - pr_unavailable path else 0)"

definition protected_floor :: "authority \<Rightarrow> path_record \<Rightarrow> amount" where
  "protected_floor a path =
     (let by_ratio = fraction_bps (pr_authoritative_usable path) (po_protected_floor_bps (au_policy a));
          wanted = max_amount (po_protected_floor_units (au_policy a)) by_ratio;
          basis = path_basis path
      in if wanted > basis then basis else wanted)"

definition minimum_free :: "authority \<Rightarrow> path_record \<Rightarrow> amount" where
  "minimum_free a path =
     (let by_ratio = fraction_bps (pr_authoritative_usable path) (po_min_free_bps (au_policy a));
          wanted = max_amount (po_min_free_units (au_policy a)) by_ratio;
          basis = path_basis path
      in if wanted > basis then basis else wanted)"

record path_totals =
  pt_committed :: amount
  pt_withdrawing :: amount
  pt_reserved :: amount
  pt_reclaimable :: amount
  pt_protected_held :: amount

definition zero_totals :: path_totals where
  "zero_totals = \<lparr>pt_committed = 0, pt_withdrawing = 0, pt_reserved = 0, pt_reclaimable = 0,
     pt_protected_held = 0\<rparr>"

text \<open>The body of the accumulation loop, for a grant that holds capacity.\<close>

definition add_to_totals :: "grant_record \<Rightarrow> path_totals \<Rightarrow> path_totals" where
  "add_to_totals g t =
     (let t = (if gr_state g = GsActive \<or> gr_state g = GsDegraded
               then t\<lparr>pt_committed := saturating_add (pt_committed t) (gr_amount g)\<rparr>
               else if gr_state g = GsWithdrawing
               then t\<lparr>pt_withdrawing := saturating_add (pt_withdrawing t) (gr_amount g)\<rparr>
               else if gr_state g = GsReserved
               then t\<lparr>pt_reserved := saturating_add (pt_reserved t) (gr_amount g)\<rparr>
               else t);
          t = (if is_reclaimable (gr_state g)
               then t\<lparr>pt_reclaimable := saturating_add (pt_reclaimable t) (gr_amount g)\<rparr> else t)
      in if gr_class g = GcProtected
         then t\<lparr>pt_protected_held := saturating_add (pt_protected_held t) (gr_amount g)\<rparr> else t)"

definition totals_for :: "authority \<Rightarrow> path_id \<Rightarrow> path_totals" where
  "totals_for a path =
     fold (\<lambda>g t. if gb_path (gr_binding g) \<noteq> path \<or> \<not> holds_capacity (gr_state g) then t
                 else add_to_totals g t)
       (om_vals (au_grants a)) zero_totals"

definition live_oversubscription_bps :: "authority \<Rightarrow> path_id \<Rightarrow> u64 \<Rightarrow> u32 expected" where
  "live_oversubscription_bps a path now_ms =
     (case om_find path (au_paths a) of
        None \<Rightarrow> Inl StNotFound
      | Some rec \<Rightarrow>
          if po_max_oversubscription_bps (au_policy a) = 0 then Inl StRefused
          else
            let best = fold (\<lambda>oa best.
                if oa_path oa \<noteq> path then best
                else if oa_ratio_bps oa \<le> 10000 then best
                else if now_ms \<noteq> 0 \<and> \<not> is_live_at oa now_ms then best
                else if oa_epoch oa \<noteq> au_epoch a then best
                else if oa_policy_generation oa \<noteq> po_generation (au_policy a) then best
                else if oa_path_generation oa \<noteq> pr_generation rec then best
                else if oa_capacity_generation oa \<noteq> pr_capacity_generation rec then best
                else max best (oa_ratio_bps oa)) (om_vals (au_oversubscriptions a)) 0
            in if best = 0 then Inl StRefused
               else Inr (min best (po_max_oversubscription_bps (au_policy a))))"

definition value_or_zero :: "u32 expected \<Rightarrow> u32" where
  "value_or_zero e = (case e of Inl _ \<Rightarrow> 0 | Inr v \<Rightarrow> v)"

definition ledger :: "authority \<Rightarrow> path_id \<Rightarrow> capacity_ledger expected" where
  "ledger a path =
     (case om_find path (au_paths a) of
        None \<Rightarrow> Inl StNotFound
      | Some rec \<Rightarrow>
          if pr_unavailable rec > pr_authoritative_usable rec then Inl StConflicting
          else
            let totals = totals_for a path;
                floor_amount = protected_floor a rec;
                permitted_bps = value_or_zero (live_oversubscription_bps a path 0);
                out = empty_ledger
                  \<lparr>cl_authoritative_usable := pr_authoritative_usable rec,
                   cl_committed := pt_committed totals,
                   cl_withdrawing := pt_withdrawing totals,
                   cl_reserved := pt_reserved totals,
                   cl_reclaimable := pt_reclaimable totals,
                   cl_protected_headroom :=
                     (if pt_protected_held totals \<ge> floor_amount then 0
                      else floor_amount - pt_protected_held totals),
                   cl_unavailable := pr_unavailable rec,
                   cl_authorized_extension :=
                     oversubscription_extension (pr_authoritative_usable rec) permitted_bps\<rparr>
            in ebind (ledger_basis out) (\<lambda>basis.
               ebind (checked_add (cl_committed out) (cl_reserved out)) (\<lambda>obligations.
               ebind (checked_add obligations (cl_protected_headroom out)) (\<lambda>with_floor.
               ebind (checked_add with_floor (cl_unavailable out)) (\<lambda>structural.
                 let out = (if structural \<le> basis
                            then out\<lparr>cl_free := basis - structural, cl_oversubscribed := 0\<rparr>
                            else out\<lparr>cl_free := 0, cl_oversubscribed := structural - basis\<rparr>)
                 in ebind (checked_add structural (cl_withdrawing out)) (\<lambda>blocked.
                    ebind (checked_add blocked (minimum_free a rec)) (\<lambda>blocked.
                      let out = out\<lparr>cl_allocatable := (if blocked < basis then basis - blocked else 0)\<rparr>
                      in if verify_closure out \<noteq> StOk then Inl StConflicting else Inr out)))))))"

text \<open>
  One round of the aggregate loop: the ledger summed so far and the running \<open>blocked\<close> amount.
\<close>

definition aggregate_step ::
    "authority \<Rightarrow> path_record \<Rightarrow> capacity_ledger \<times> amount \<Rightarrow> capacity_ledger \<times> amount" where
  "aggregate_step a rec st =
     (let (out, blocked) = st;
          totals = totals_for a (pr_id rec);
          record_floor = protected_floor a rec;
          ratio = value_or_zero (live_oversubscription_bps a (pr_id rec) 0);
          out' = out
            \<lparr>cl_authoritative_usable :=
               saturating_add (cl_authoritative_usable out) (pr_authoritative_usable rec),
             cl_committed := saturating_add (cl_committed out) (pt_committed totals),
             cl_withdrawing := saturating_add (cl_withdrawing out) (pt_withdrawing totals),
             cl_reserved := saturating_add (cl_reserved out) (pt_reserved totals),
             cl_reclaimable := saturating_add (cl_reclaimable out) (pt_reclaimable totals),
             cl_protected_headroom := saturating_add (cl_protected_headroom out)
               (if pt_protected_held totals \<ge> record_floor then 0
                else record_floor - pt_protected_held totals),
             cl_unavailable := saturating_add (cl_unavailable out) (pr_unavailable rec),
             cl_authorized_extension := saturating_add (cl_authorized_extension out)
               (oversubscription_extension (pr_authoritative_usable rec) ratio)\<rparr>;
          blocked = saturating_add blocked (pt_committed totals);
          blocked = saturating_add blocked (pt_reserved totals);
          blocked = saturating_add blocked (pt_withdrawing totals);
          blocked = saturating_add blocked
            (if pt_protected_held totals > protected_floor a rec then pt_protected_held totals
             else protected_floor a rec);
          blocked = saturating_add blocked (pr_unavailable rec)
      in (out', blocked))"

definition aggregate_ledger :: "authority \<Rightarrow> capacity_ledger" where
  "aggregate_ledger a =
     (let (out, blocked) = fold (aggregate_step a) (om_vals (au_paths a)) (empty_ledger, 0);
          ceiling = saturating_add (cl_authoritative_usable out) (cl_authorized_extension out);
          rest = (if ceiling > blocked then ceiling - blocked else 0)
      in out\<lparr>cl_free := rest, cl_allocatable := rest, cl_oversubscribed := 0\<rparr>)"

definition allocatable :: "authority \<Rightarrow> path_id \<Rightarrow> grant_class \<Rightarrow> u64 \<Rightarrow> amount expected" where
  "allocatable a path klass now_ms =
     (case om_find path (au_paths a) of
        None \<Rightarrow> Inl StNotFound
      | Some rec \<Rightarrow>
          if pr_unavailable rec > pr_authoritative_usable rec then Inl StConflicting
          else
            let totals = totals_for a path;
                floor_amount = protected_floor a rec
            in if klass = GcProtected then
                 (if pt_protected_held totals > floor_amount then Inl StConflicting
                  else Inr (floor_amount - pt_protected_held totals))
               else
                 let ext = live_oversubscription_bps a path now_ms;
                     ceiling = saturating_add (pr_authoritative_usable rec)
                       (oversubscription_extension (pr_authoritative_usable rec) (value_or_zero ext))
                 in if pr_unavailable rec \<ge> ceiling then Inr 0
                    else
                      let basis = ceiling - pr_unavailable rec
                      in ebind (checked_add (pt_committed totals) (pt_reserved totals)) (\<lambda>consumed.
                         ebind (checked_add consumed (pt_withdrawing totals)) (\<lambda>consumed.
                         ebind (checked_add consumed floor_amount) (\<lambda>consumed.
                         ebind (checked_add consumed (minimum_free a rec)) (\<lambda>consumed.
                           Inr (if consumed < basis then basis - consumed else 0))))))"

section \<open>Post-images\<close>

definition kMaxReasonText :: nat where
  "kMaxReasonText = 512"

definition bounded :: "string \<Rightarrow> string" where
  "bounded text = (if length text > kMaxReasonText then take kMaxReasonText text else text)"

definition requires_current_binding :: "grant_state \<Rightarrow> bool" where
  "requires_current_binding s \<longleftrightarrow>
     s = GsProposed \<or> s = GsEligible \<or> s = GsReserved \<or> s = GsActive \<or> s = GsDegraded"

definition append_downgrades ::
    "authority \<Rightarrow> string \<Rightarrow> site_id option \<Rightarrow> path_id option \<Rightarrow> u64 \<Rightarrow> post_image list" where
  "append_downgrades a reason site path now_ms =
     concat (map (\<lambda>g.
       if (case site of None \<Rightarrow> False | Some s \<Rightarrow> gb_holder (gr_binding g) \<noteq> s) then []
       else if (case path of None \<Rightarrow> False | Some p \<Rightarrow> gb_path (gr_binding g) \<noteq> p) then []
       else if gr_state g = GsActive then
         [(OGrant (g\<lparr>gr_state := GsDegraded, gr_updated_at_ms := now_ms,
             gr_reason := bounded reason\<rparr>), False)]
       else if gr_state g = GsReserved then
         [(OGrant (g\<lparr>gr_state := GsWithdrawing, gr_updated_at_ms := now_ms,
             gr_reason := bounded reason\<rparr>), False)]
       else []) (om_vals (au_grants a)))"

section \<open>Applying changes\<close>

definition apply_limits :: wire_limits where
  "apply_limits = \<lparr>max_bytes = 16 * 2 ^ 20, max_string = 4096, max_container = 65536, max_nesting = 8\<rparr>"

text \<open>
  The decoding of one image: a record that does not decode is \<open>Corrupt\<close>, a record that
  names another key is \<open>Conflicting\<close>, and the image must be consumed to its end.
\<close>

definition decode_image :: "'v reader \<Rightarrow> ('v \<Rightarrow> id128 option) \<Rightarrow> ('v \<Rightarrow> object) \<Rightarrow> state_change \<Rightarrow> object expected" where
  "decode_image dec ident wrap change =
     (case dec (sc_image change) of
        Inl _ \<Rightarrow> Inl StCorrupt
      | Inr (v, rest) \<Rightarrow>
          if (case ident v of None \<Rightarrow> False | Some i \<Rightarrow> i \<noteq> sc_key change) then Inl StConflicting
          else if require_end rest \<noteq> StOk then Inl StCorrupt
          else Inr (wrap v))"

definition decode_change :: "state_change \<Rightarrow> object expected" where
  "decode_change change =
     (let lim = apply_limits
      in case sc_kind change of
        OkSite \<Rightarrow> decode_image (decode_site lim) (\<lambda>v. Some (sr_id v)) OSite change
      | OkPath \<Rightarrow> decode_image (decode_path lim) (\<lambda>v. Some (pr_id v)) OPath change
      | OkDomain \<Rightarrow> decode_image (decode_domain lim) (\<lambda>v. Some (sd_id v)) ODomain change
      | OkAttestation \<Rightarrow>
          decode_image (decode_attestation lim) (\<lambda>v. Some (ca_id v)) OAttestation change
      | OkGrant \<Rightarrow> decode_image (decode_grant lim) (\<lambda>v. Some (gr_id v)) OGrant change
      | OkVerification \<Rightarrow>
          decode_image (decode_verification lim) (\<lambda>v. Some (vr_id v)) OVerification change
      | OkOversubscription \<Rightarrow>
          decode_image decode_oversubscription (\<lambda>v. Some (oa_id v)) OOversubscription change
      | OkPolicy \<Rightarrow> decode_image decode_policy (\<lambda>_. None) OPolicy change
      | OkEpoch \<Rightarrow> decode_image r_u64 (\<lambda>_. None) OEpoch change
      | OkAuthorityMeta \<Rightarrow> decode_image (rreturn ()) (\<lambda>_. None) (\<lambda>_. OAuthorityMeta) change)"

fun decode_changes :: "state_change list \<Rightarrow> (id128 \<times> object) list expected" where
  "decode_changes [] = Inr []"
| "decode_changes (change # changes) =
     ebind (decode_change change) (\<lambda>ob.
     ebind (decode_changes changes) (\<lambda>rest. Inr ((sc_key change, ob) # rest)))"

text \<open>Storing one decoded object under its key, with the container bound of its table.\<close>

definition table_full :: "nat \<Rightarrow> id128 \<Rightarrow> (id128, 'v) omap \<Rightarrow> bool" where
  "table_full limit key m \<longleftrightarrow> length m \<ge> limit \<and> om_find key m = None"

definition store_object :: "id128 \<Rightarrow> object \<Rightarrow> authority \<Rightarrow> authority expected" where
  "store_object key ob a =
     (let cfg = au_config a
      in case ob of
        OSite v \<Rightarrow>
          if table_full (ac_max_sites cfg) key (au_sites a) then Inl StLimitExceeded
          else Inr (a\<lparr>au_sites := om_put key v (au_sites a)\<rparr>)
      | OPath v \<Rightarrow>
          if table_full (ac_max_paths cfg) key (au_paths a) then Inl StLimitExceeded
          else Inr (a\<lparr>au_paths := om_put key v (au_paths a)\<rparr>)
      | ODomain v \<Rightarrow>
          if table_full (ac_max_domains cfg) key (au_domains a) then Inl StLimitExceeded
          else Inr (a\<lparr>au_domains := om_put key v (au_domains a)\<rparr>)
      | OAttestation v \<Rightarrow>
          if table_full (ac_max_attestations cfg) key (au_attestations a) then Inl StLimitExceeded
          else Inr (a\<lparr>au_attestations := om_put key v (au_attestations a)\<rparr>)
      | OGrant v \<Rightarrow>
          if table_full (ac_max_grants cfg) key (au_grants a) then Inl StLimitExceeded
          else if is_nil (gr_request v) then Inr (a\<lparr>au_grants := om_put key v (au_grants a)\<rparr>)
          else if (case om_find (gr_request v) (au_request_index a) of
                     None \<Rightarrow> False | Some other \<Rightarrow> other \<noteq> key) then Inl StDuplicate
          else Inr (a\<lparr>au_request_index := om_put (gr_request v) key (au_request_index a),
                      au_grants := om_put key v (au_grants a)\<rparr>)
      | OVerification v \<Rightarrow>
          if table_full (ac_max_verifications cfg) key (au_verifications a) then Inl StLimitExceeded
          else Inr (a\<lparr>au_verifications := om_put key v (au_verifications a)\<rparr>)
      | OOversubscription v \<Rightarrow>
          if table_full (ac_max_oversubscriptions cfg) key (au_oversubscriptions a)
          then Inl StLimitExceeded
          else Inr (a\<lparr>au_oversubscriptions := om_put key v (au_oversubscriptions a)\<rparr>)
      | OPolicy v \<Rightarrow>
          if policy_validate v \<noteq> StOk then Inl StInvalid
          else Inr (a\<lparr>au_config := cfg\<lparr>ac_policy := v\<rparr>\<rparr>)
      | OEpoch v \<Rightarrow>
          if v = 0 then Inl StInvalid else Inr (a\<lparr>au_config := cfg\<lparr>ac_epoch := v\<rparr>\<rparr>)
      | OAuthorityMeta \<Rightarrow> Inr a)"

text \<open>The second loop stops at the first object it cannot store and keeps what it stored.\<close>

fun store_objects :: "(id128 \<times> object) list \<Rightarrow> authority \<Rightarrow> status \<times> authority" where
  "store_objects [] a = (StOk, a)"
| "store_objects ((key, ob) # rest) a =
     (case store_object key ob a of Inl s \<Rightarrow> (s, a) | Inr a' \<Rightarrow> store_objects rest a')"

definition note_recovered_arbitration :: "arb_seq \<Rightarrow> authority \<Rightarrow> authority" where
  "note_recovered_arbitration arb a =
     (if arb > au_last_arbitration a then a\<lparr>au_last_arbitration := arb\<rparr> else a)"

definition apply_changes :: "state_change list \<Rightarrow> arb_seq \<Rightarrow> authority \<Rightarrow> status \<times> authority" where
  "apply_changes changes arb a =
     (case decode_changes changes of
        Inl s \<Rightarrow> (s, a)
      | Inr decoded \<Rightarrow>
          (case store_objects decoded a of
             (s, a') \<Rightarrow> if s \<noteq> StOk then (s, a') else (StOk, note_recovered_arbitration arb a')))"

definition mark_recovered ::
    "grant_id \<Rightarrow> provenance \<Rightarrow> bool \<Rightarrow> string \<Rightarrow> authority \<Rightarrow> status \<times> authority" where
  "mark_recovered grant prov amb reason a =
     (case om_find grant (au_grants a) of
        None \<Rightarrow> (StNotFound, a)
      | Some rec \<Rightarrow>
          let rec = rec\<lparr>gr_provenance := prov, gr_historical := True, gr_ambiguous := amb\<rparr>;
              rec = (if reason = [] then rec else rec\<lparr>gr_reason := bounded reason\<rparr>);
              rec = rec\<lparr>gr_verification := VsUnverified\<rparr>
          in (StOk, a\<lparr>au_grants := om_put grant rec (au_grants a)\<rparr>))"

definition mark_all_historical :: "authority \<Rightarrow> authority" where
  "mark_all_historical a =
     a\<lparr>au_grants := map (\<lambda>(k, g). (k, if is_terminal (gr_state g) then g
                                      else g\<lparr>gr_historical := True\<rparr>)) (au_grants a)\<rparr>"

section \<open>Requests\<close>

record site_descriptor =
  sdesc_id :: site_id
  sdesc_name :: string
  sdesc_advertised_capacity :: amount

record site_registration =
  sreg_descriptor :: site_descriptor
  sreg_incarnation :: incarnation
  sreg_epoch :: epoch
  sreg_now_ms :: u64

record site_heartbeat =
  hb_id :: site_id
  hb_incarnation :: incarnation
  hb_generation :: generation
  hb_epoch :: epoch
  hb_advertised_capacity :: amount
  hb_now_ms :: u64

record path_descriptor =
  pdesc_id :: path_id
  pdesc_name :: string
  pdesc_edge :: edge_id
  pdesc_shared_risk_domain :: domain_id
  pdesc_endpoint_a :: site_id
  pdesc_endpoint_b :: site_id

record path_registration =
  preg_descriptor :: path_descriptor
  preg_path_generation :: generation
  preg_state :: path_state
  preg_advertised :: amount
  preg_observed :: amount
  preg_now_ms :: u64

record grant_proposal =
  gp_request :: request_id
  gp_holder :: site_id
  gp_holder_incarnation :: incarnation
  gp_holder_generation :: generation
  gp_path :: path_id
  gp_amount :: amount
  gp_grant_class :: grant_class
  gp_duration_ms :: u64
  gp_now_ms :: u64
  gp_reason :: string
  gp_grant_id :: grant_id
  gp_lease :: lease_id

record grant_operation =
  go_grant :: grant_id
  go_request :: request_id
  go_actor :: site_id
  go_actor_incarnation :: incarnation
  go_actor_generation :: generation
  go_epoch :: epoch
  go_path_generation :: generation
  go_capacity_generation :: generation
  go_policy_generation :: generation
  go_lease :: lease_id
  go_now_ms :: u64
  go_reason :: string

record grant_acknowledgement =
  gk_grant :: grant_id
  gk_actor :: site_id
  gk_actor_incarnation :: incarnation
  gk_epoch :: epoch
  gk_now_ms :: u64

record grant_verification =
  gv_id :: verification_id
  gv_grant :: grant_id
  gv_verifier :: principal_id
  gv_result :: verification_state
  gv_evidence :: digest256
  gv_now_ms :: u64
  gv_detail :: string

definition derive_grant_id :: "arb_seq \<Rightarrow> grant_proposal \<Rightarrow> grant_id" where
  "derive_grant_id arb p =
     (if \<not> is_nil (gp_grant_id p) then gp_grant_id p
      else from_seed arb (id_hash (gp_request p) XOR id_hash (gp_holder p)))"

section \<open>Fencing\<close>

definition check_binding :: "authority \<Rightarrow> grant_record \<Rightarrow> grant_operation \<Rightarrow> status" where
  "check_binding a g op =
     (let b = gr_binding g
      in if \<not> is_nil (go_actor op) \<and> go_actor op \<noteq> gb_holder b then StDenied
      else if \<not> is_nil (go_lease op) \<and> go_lease op \<noteq> gb_lease b then StStale
      else case om_find (gb_holder b) (au_sites a) of
        None \<Rightarrow> StNotFound
      | Some site \<Rightarrow>
      (case om_find (gb_path b) (au_paths a) of
        None \<Rightarrow> StNotFound
      | Some path \<Rightarrow>
          if \<not> is_nil (go_actor_incarnation op) \<and> go_actor_incarnation op \<noteq> sr_incarnation site
          then StFenced
          else if go_epoch op \<noteq> 0 \<and> go_epoch op \<noteq> au_epoch a then StStale
          else if \<not> generation_is_nil (go_path_generation op) \<and>
                  go_path_generation op \<noteq> pr_generation path then StStale
          else if \<not> generation_is_nil (go_capacity_generation op) \<and>
                  go_capacity_generation op \<noteq> pr_capacity_generation path then StStale
          else if \<not> generation_is_nil (go_policy_generation op) \<and>
                  go_policy_generation op \<noteq> po_generation (au_policy a) then StStale
          else if requires_current_binding (gr_state g) \<and> gb_epoch b \<noteq> au_epoch a then StStale
          else if requires_current_binding (gr_state g) \<and>
                  gb_holder_incarnation b \<noteq> sr_incarnation site then StFenced
          else if requires_current_binding (gr_state g) \<and>
                  gb_policy_generation b \<noteq> po_generation (au_policy a) then StStale
          else if requires_current_binding (gr_state g) \<and>
                  gb_path_generation b \<noteq> pr_generation path then StStale
          else if requires_current_binding (gr_state g) \<and>
                  gb_capacity_generation b \<noteq> pr_capacity_generation path then StStale
          else if gr_ambiguous g \<and> gr_state g \<noteq> GsWithdrawing \<and> go_reason op \<noteq> ''reconcile''
          then StIndeterminate
          else StOk))"

section \<open>The invariant checker\<close>

text \<open>One pass over the grants builds every path's totals.\<close>

definition totals_by_path :: "authority \<Rightarrow> (id128, path_totals) omap" where
  "totals_by_path a =
     fold (\<lambda>g m. if \<not> holds_capacity (gr_state g) then m
                 else
                   let p = gb_path (gr_binding g);
                       t = (case om_find p m of None \<Rightarrow> zero_totals | Some t \<Rightarrow> t)
                   in om_put p (add_to_totals g t) m)
       (om_vals (au_grants a)) []"

definition verify_path :: "authority \<Rightarrow> (id128, path_totals) omap \<Rightarrow> path_record \<Rightarrow> status" where
  "verify_path a by_path rec =
     (if pr_unavailable rec > pr_authoritative_usable rec then StConflicting
      else
        let totals = (case om_find (pr_id rec) by_path of None \<Rightarrow> zero_totals | Some t \<Rightarrow> t);
            record_floor = protected_floor a rec;
            ratio = value_or_zero (live_oversubscription_bps a (pr_id rec) 0);
            computed = empty_ledger
              \<lparr>cl_authoritative_usable := pr_authoritative_usable rec,
               cl_committed := pt_committed totals,
               cl_withdrawing := pt_withdrawing totals,
               cl_reserved := pt_reserved totals,
               cl_reclaimable := pt_reclaimable totals,
               cl_protected_headroom :=
                 (if pt_protected_held totals \<ge> record_floor then 0
                  else record_floor - pt_protected_held totals),
               cl_unavailable := pr_unavailable rec,
               cl_authorized_extension :=
                 oversubscription_extension (pr_authoritative_usable rec) ratio\<rparr>;
            result =
              ebind (ledger_basis computed) (\<lambda>basis.
              ebind (checked_add (cl_committed computed) (cl_reserved computed)) (\<lambda>structural.
              ebind (checked_add structural (cl_protected_headroom computed)) (\<lambda>structural.
              ebind (checked_add structural (cl_unavailable computed)) (\<lambda>structural.
                let computed = (if structural \<le> basis
                    then computed\<lparr>cl_free := basis - structural, cl_oversubscribed := 0\<rparr>
                    else computed\<lparr>cl_free := 0, cl_oversubscribed := structural - basis\<rparr>)
                in ebind (checked_add structural (cl_withdrawing computed)) (\<lambda>blocked.
                   ebind (checked_add blocked (minimum_free a rec)) (\<lambda>blocked.
                     Inr (computed\<lparr>cl_allocatable :=
                       (if blocked < basis then basis - blocked else 0)\<rparr>)))))))
        in case result of
             Inl s \<Rightarrow> s
           | Inr computed \<Rightarrow>
               if verify_closure computed \<noteq> StOk then verify_closure computed
               else if cl_oversubscribed computed \<noteq> 0 then StConflicting
               else if pt_protected_held totals > record_floor then StConflicting
               else StOk)"

text \<open>The loops return at the first violation; their model is the first status that is not \<open>Ok\<close>.\<close>

fun first_failure :: "('v \<Rightarrow> status) \<Rightarrow> 'v list \<Rightarrow> status" where
  "first_failure check [] = StOk"
| "first_failure check (x # xs) = (if check x \<noteq> StOk then check x else first_failure check xs)"

definition verify_grant_binding :: "authority \<Rightarrow> grant_record \<Rightarrow> site_record \<Rightarrow> path_record \<Rightarrow> status" where
  "verify_grant_binding a g site path =
     (let b = gr_binding g
      in if \<not> requires_current_binding (gr_state g) then StOk
      else if gb_epoch b \<noteq> au_epoch a then StStale
      else if gb_holder_incarnation b \<noteq> sr_incarnation site then StStale
      else if gb_policy_generation b \<noteq> po_generation (au_policy a) then StStale
      else if gb_path_generation b \<noteq> pr_generation path then StStale
      else if gb_capacity_generation b \<noteq> pr_capacity_generation path then StStale
      else StOk)"

text \<open>The grant loop carries the owners of the arbitration sequences and of the leases.\<close>

fun verify_grants ::
    "authority \<Rightarrow> (u64, grant_id) omap \<Rightarrow> (id128, grant_id) omap \<Rightarrow> grant_record list \<Rightarrow> status" where
  "verify_grants a arb_owners lease_owners [] = StOk"
| "verify_grants a arb_owners lease_owners (g # gs) =
     (let b = gr_binding g;
          arb = gr_arbitration g;
          arb_owners' = (if om_find arb arb_owners = None then om_put arb (gr_id g) arb_owners
                         else arb_owners);
          lease_owners' = (if is_nil (gb_lease b) then lease_owners
                           else if om_find (gb_lease b) lease_owners = None
                           then om_put (gb_lease b) (gr_id g) lease_owners else lease_owners)
      in if is_nil (gr_id g) then StCorrupt
      else if arb = 0 then StCorrupt
      else if arb > au_last_arbitration a \<and> au_last_arbitration a \<noteq> 0 then StConflicting
      else if om_find arb arb_owners' \<noteq> Some (gr_id g) then StConflicting
      else if \<not> is_nil (gb_lease b) \<and> om_find (gb_lease b) lease_owners' \<noteq> Some (gr_id g)
      then StConflicting
      else case om_find (gb_path b) (au_paths a) of
        None \<Rightarrow> StCorrupt
      | Some path \<Rightarrow>
      (case om_find (gb_holder b) (au_sites a) of
        None \<Rightarrow> StCorrupt
      | Some site \<Rightarrow>
          if verify_grant_binding a g site path \<noteq> StOk then verify_grant_binding a g site path
          else if gr_state g = GsActive \<and> po_require_verification_for_active (au_policy a) \<and>
                  gr_verification g \<noteq> VsVerified then StIncomplete
          else verify_grants a arb_owners' lease_owners' gs))"

definition verify_path_references :: "authority \<Rightarrow> path_record \<Rightarrow> status" where
  "verify_path_references a rec =
     (if \<not> is_nil (pr_shared_risk_domain rec) \<and>
         om_find (pr_shared_risk_domain rec) (au_domains a) = None then StCorrupt
      else if \<not> is_nil (pr_endpoint_a rec) \<and> om_find (pr_endpoint_a rec) (au_sites a) = None
      then StIncomplete
      else if \<not> is_nil (pr_endpoint_b rec) \<and> om_find (pr_endpoint_b rec) (au_sites a) = None
      then StIncomplete
      else StOk)"

definition within_container_bounds :: "authority \<Rightarrow> bool" where
  "within_container_bounds a \<longleftrightarrow>
     (let cfg = au_config a
      in length (au_sites a) \<le> ac_max_sites cfg \<and> length (au_paths a) \<le> ac_max_paths cfg \<and>
         length (au_grants a) \<le> ac_max_grants cfg \<and> length (au_domains a) \<le> ac_max_domains cfg \<and>
         length (au_attestations a) \<le> ac_max_attestations cfg \<and>
         length (au_verifications a) \<le> ac_max_verifications cfg \<and>
         length (au_oversubscriptions a) \<le> ac_max_oversubscriptions cfg)"

definition verify_invariants :: "authority \<Rightarrow> status" where
  "verify_invariants a =
     (let capacity = first_failure (verify_path a (totals_by_path a)) (om_vals (au_paths a));
          grants = verify_grants a [] [] (om_vals (au_grants a));
          references = first_failure (verify_path_references a) (om_vals (au_paths a))
      in if capacity \<noteq> StOk then capacity
      else if grants \<noteq> StOk then grants
      else if references \<noteq> StOk then references
      else if policy_validate (au_policy a) \<noteq> StOk then StInvalid
      else if \<not> within_container_bounds a then StLimitExceeded
      else StOk)"

definition describe_grant :: "grant_record \<Rightarrow> string" where
  "describe_grant g =
     typed_id_to_string ''grant'' (gr_id g) @ '' '' @ grant_state_name (gr_state g) @
     '' amount='' @ u64_to_string (gr_amount g) @ '' class='' @ grant_class_name (gr_class g) @
     '' arb='' @ u64_to_string (gr_arbitration g) @
     (if gr_ambiguous g then '' AMBIGUOUS'' else []) @
     (if gr_historical g then '' HISTORICAL'' else [])"

end
