(* ===== verification/Plan.thy ===== *)
theory Plan
  imports Authority "HOL-Library.Product_Lexorder"
begin

text \<open>
  Mutation planning (\<open>src/authority_plan.cpp\<close>). Each \<open>plan_\<close> function computes the
  post-images of a mutation from the current state without changing it; the texts that
  accompany a refusal are diagnostic and not modelled. \<open>plan_request\<close> collects the planning
  entry points as one request type, so that properties of every operation can be stated once.
\<close>

unbundle bit_operations_syntax

section \<open>Helpers\<close>

definition kMaxNameLength :: nat where
  "kMaxNameLength = 128"

definition kHeartbeatDownMultiplier :: u64 where
  "kHeartbeatDownMultiplier = 3"

definition valid_name :: "string \<Rightarrow> bool" where
  "valid_name name \<longleftrightarrow> name \<noteq> [] \<and> length name \<le> kMaxNameLength"

definition text_or :: "string \<Rightarrow> string \<Rightarrow> string" where
  "text_or reason fallback = (if reason = [] then fallback else reason)"

definition principal_text :: "principal_id \<Rightarrow> string" where
  "principal_text p = (if is_nil p then ''<anonymous>'' else typed_id_to_string ''principal'' p)"

text \<open>A finished mutation.\<close>

definition mk_mutation :: "arb_seq \<Rightarrow> post_image list \<Rightarrow> string \<Rightarrow> mutation_result" where
  "mk_mutation arb imgs summary =
     Inr \<lparr>mu_images = imgs, mu_summary = summary, mu_arbitration = arb\<rparr>"

section \<open>Rebalancing\<close>

text \<open>
  The extension a path may overbook by under a given policy: the loop over the
  oversubscription authorities and the policy ceiling.
\<close>

definition rebalance_bps :: "authority \<Rightarrow> path_record \<Rightarrow> policy \<Rightarrow> u64 \<Rightarrow> u32" where
  "rebalance_bps a path pol now_ms =
     min (fold (\<lambda>oa bps.
            if oa_path oa \<noteq> pr_id path \<or> oa_ratio_bps oa \<le> 10000 then bps
            else if oa_epoch oa \<noteq> au_epoch a \<or>
                    oa_policy_generation oa \<noteq> po_generation pol \<or>
                    oa_path_generation oa \<noteq> pr_generation path \<or>
                    oa_capacity_generation oa \<noteq> pr_capacity_generation path then bps
            else if now_ms \<noteq> 0 \<and> \<not> is_live_at oa now_ms then bps
            else max bps (oa_ratio_bps oa)) (om_vals (au_oversubscriptions a)) 0)
       (po_max_oversubscription_bps pol)"

text \<open>The path's grants that hold capacity, oldest arbitration first.\<close>

definition holding_grants :: "authority \<Rightarrow> path_id \<Rightarrow> grant_record list" where
  "holding_grants a path =
     sort_key (\<lambda>g. (gr_arbitration g, gr_id g))
       (filter (\<lambda>g. gb_path (gr_binding g) = path \<and> holds_capacity (gr_state g))
         (om_vals (au_grants a)))"

definition authorized_amount :: "grant_class \<Rightarrow> grant_record list \<Rightarrow> amount" where
  "authorized_amount klass holding =
     fold (\<lambda>g acc. if gr_state g = GsWithdrawing \<or> gr_class g \<noteq> klass then acc
                   else saturating_add acc (gr_amount g)) holding 0"

text \<open>
  The withdrawal loop, over the grants from the newest to the oldest: the emitted
  post-images and the list with the withdrawn states.
\<close>

fun withdraw_to_fit ::
    "string \<Rightarrow> u64 \<Rightarrow> grant_class \<Rightarrow> amount \<Rightarrow> amount \<Rightarrow> grant_record list \<Rightarrow>
     post_image list \<times> grant_record list" where
  "withdraw_to_fit reason now_ms klass limit remaining [] = ([], [])"
| "withdraw_to_fit reason now_ms klass limit remaining (g # gs) =
     (if remaining \<le> limit then ([], g # gs)
      else if gr_class g \<noteq> klass \<or> gr_state g = GsWithdrawing then
        (case withdraw_to_fit reason now_ms klass limit remaining gs of
           (out, gs') \<Rightarrow> (out, g # gs'))
      else
        (case withdraw_to_fit reason now_ms klass limit
                (if remaining > gr_amount g then remaining - gr_amount g else 0) gs of
           (out, gs') \<Rightarrow>
             ((OGrant (g\<lparr>gr_state := GsWithdrawing, gr_reason := bounded reason,
                         gr_updated_at_ms := now_ms\<rparr>), False) # out,
              g\<lparr>gr_state := GsWithdrawing\<rparr> # gs')))"

definition rebind_grant ::
    "path_record \<Rightarrow> policy \<Rightarrow> u64 \<Rightarrow> string \<Rightarrow> bool \<Rightarrow> bool \<Rightarrow> grant_record \<Rightarrow> post_image list" where
  "rebind_grant path pol now_ms reason rebind_policy rebind_path_capacity g =
     (if \<not> (gr_state g = GsReserved \<or> gr_state g = GsActive \<or> gr_state g = GsDegraded) then []
      else
        let b = gr_binding g;
            touch_policy = (rebind_policy \<and> gb_policy_generation b \<noteq> po_generation pol);
            b = (if touch_policy then b\<lparr>gb_policy_generation := po_generation pol\<rparr> else b);
            touch_path = (rebind_path_capacity \<and> gb_path_generation b \<noteq> pr_generation path);
            b = (if touch_path then b\<lparr>gb_path_generation := pr_generation path\<rparr> else b);
            touch_capacity =
              (rebind_path_capacity \<and> gb_capacity_generation b \<noteq> pr_capacity_generation path);
            b = (if touch_capacity then b\<lparr>gb_capacity_generation := pr_capacity_generation path\<rparr> else b)
        in if touch_policy \<or> touch_path \<or> touch_capacity
           then [(OGrant (g\<lparr>gr_binding := b, gr_updated_at_ms := now_ms,
                           gr_reason := bounded reason\<rparr>), False)]
           else [])"

text \<open>The limits a rebalance enforces: the protected floor and what is left for general grants.\<close>

definition rebalance_floor :: "path_record \<Rightarrow> policy \<Rightarrow> amount" where
  "rebalance_floor path pol =
     (let floor_amount = max_amount (po_protected_floor_units pol)
            (fraction_bps (pr_authoritative_usable path) (po_protected_floor_bps pol));
          basis = path_basis path
      in if floor_amount > basis then basis else floor_amount)"

definition rebalance_general_ceiling :: "authority \<Rightarrow> path_record \<Rightarrow> policy \<Rightarrow> u64 \<Rightarrow> amount" where
  "rebalance_general_ceiling a path pol now_ms =
     (let basis = path_basis path;
          wanted_free = max_amount (po_min_free_units pol)
            (fraction_bps (pr_authoritative_usable path) (po_min_free_bps pol));
          effective_min_free = (if wanted_free > basis then basis else wanted_free);
          ceiling = saturating_add (pr_authoritative_usable path)
            (oversubscription_extension (pr_authoritative_usable path)
              (rebalance_bps a path pol now_ms));
          available = (if ceiling > pr_unavailable path then ceiling - pr_unavailable path else 0);
          guard = saturating_add (rebalance_floor path pol) effective_min_free;
          guard = (if guard > available then available else guard)
      in if available > guard then available - guard else 0)"

definition rebalance_path ::
    "authority \<Rightarrow> path_record \<Rightarrow> policy \<Rightarrow> u64 \<Rightarrow> string \<Rightarrow> bool \<Rightarrow> bool \<Rightarrow> post_image list" where
  "rebalance_path a path pol now_ms reason rebind_policy rebind_path_capacity =
     (let holding = holding_grants a (pr_id path);
          authorized_protected = authorized_amount GcProtected holding;
          authorized_general = authorized_amount GcGeneral holding;
          (out1, newest_first) = withdraw_to_fit reason now_ms GcProtected
            (rebalance_floor path pol) authorized_protected (rev holding);
          (out2, newest_first) = withdraw_to_fit reason now_ms GcGeneral
            (rebalance_general_ceiling a path pol now_ms) authorized_general newest_first
      in if \<not> rebind_policy \<and> \<not> rebind_path_capacity then out1 @ out2
         else out1 @ out2 @
           concat (map (rebind_grant path pol now_ms reason rebind_policy rebind_path_capacity)
             (rev newest_first)))"

section \<open>Policy and epoch\<close>

definition plan_install_policy :: "authority \<Rightarrow> policy \<Rightarrow> principal_id \<Rightarrow> arb_seq \<Rightarrow> mutation_result" where
  "plan_install_policy a pol prin arb =
     (if policy_validate pol \<noteq> StOk then Inl (policy_validate pol)
      else if po_generation pol \<le> po_generation (au_policy a) then Inl StStale
      else mk_mutation arb
        ((OPolicy pol, False) #
         concat (map (\<lambda>path. rebalance_path a path pol 0 ''policy generation changed'' True False)
           (om_vals (au_paths a))))
        (''install policy generation '' @ u64_to_string (po_generation pol) @ '' by '' @
         principal_text prin))"

definition plan_bump_epoch :: "authority \<Rightarrow> epoch \<Rightarrow> principal_id \<Rightarrow> arb_seq \<Rightarrow> mutation_result" where
  "plan_bump_epoch a ep prin arb =
     (if ep \<le> au_epoch a then Inl StStale
      else
        let reason = ''authority epoch advanced to '' @ u64_to_string ep
        in mk_mutation arb
          ((OEpoch ep, False) #
           concat (map (\<lambda>g.
             if \<not> holds_capacity (gr_state g) \<or> gr_state g = GsWithdrawing then []
             else [(OGrant (g\<lparr>gr_state := GsWithdrawing, gr_reason := bounded reason\<rparr>), False)])
             (om_vals (au_grants a))))
          (''bump epoch to '' @ u64_to_string ep @ '' by '' @ principal_text prin))"

section \<open>Sites\<close>

definition plan_register_site :: "authority \<Rightarrow> site_registration \<Rightarrow> arb_seq \<Rightarrow> mutation_result" where
  "plan_register_site a reg arb =
     (let d = sreg_descriptor reg
      in if is_nil (sdesc_id d) then Inl StInvalid
      else if \<not> valid_name (sdesc_name d) then Inl StInvalid
      else if is_nil (sreg_incarnation reg) then Inl StInvalid
      else if sreg_epoch reg \<noteq> au_epoch a then Inl StStale
      else case om_find (sdesc_id d) (au_sites a) of
        None \<Rightarrow>
          if length (au_sites a) \<ge> ac_max_sites (au_config a) then Inl StLimitExceeded
          else mk_mutation arb
            [(OSite \<lparr>sr_id = sdesc_id d, sr_name = sdesc_name d,
               sr_incarnation = sreg_incarnation reg, sr_generation = 1, sr_epoch = sreg_epoch reg,
               sr_state = SsUp, sr_advertised_capacity = sdesc_advertised_capacity d,
               sr_registered_at_ms = sreg_now_ms reg, sr_last_heartbeat_ms = sreg_now_ms reg,
               sr_missed_heartbeats = 0, sr_fence_reason = [], sr_provenance = PvLive\<rparr>, False)]
            (''register site '' @ typed_id_to_string ''site'' (sdesc_id d) @ '' generation 1'')
      | Some current \<Rightarrow>
          if sr_state current = SsFenced then Inl StFenced
          else if sreg_epoch reg < sr_epoch current then Inl StStale
          else if sreg_incarnation reg = sr_incarnation current then
            mk_mutation arb
              [(OSite (current\<lparr>sr_name := sdesc_name d,
                 sr_advertised_capacity := sdesc_advertised_capacity d,
                 sr_last_heartbeat_ms := sreg_now_ms reg, sr_missed_heartbeats := 0,
                 sr_state := (if sr_state current = SsUnknown then SsUp else sr_state current)\<rparr>), False)]
              (''re-register site '' @ typed_id_to_string ''site'' (sdesc_id d) @
               '' incarnation unchanged'')
          else
            let updated = current\<lparr>sr_name := sdesc_name d, sr_incarnation := sreg_incarnation reg,
                  sr_generation := generation_next (sr_generation current),
                  sr_epoch := sreg_epoch reg, sr_state := SsUp,
                  sr_advertised_capacity := sdesc_advertised_capacity d,
                  sr_registered_at_ms := sreg_now_ms reg,
                  sr_last_heartbeat_ms := sreg_now_ms reg, sr_missed_heartbeats := 0,
                  sr_fence_reason := [], sr_provenance := PvLive\<rparr>
            in mk_mutation arb
              (concat (map (\<lambda>g.
                 if gb_holder (gr_binding g) \<noteq> sdesc_id d \<or> \<not> holds_capacity (gr_state g) then []
                 else if gr_state g = GsWithdrawing then []
                 else [(OGrant (g\<lparr>gr_state := GsWithdrawing,
                         gr_reason := bounded ''site incarnation superseded'',
                         gr_updated_at_ms := sreg_now_ms reg, gr_historical := True,
                         gr_provenance := PvFencedIncarnation,
                         gr_verification := VsUnverified\<rparr>), False)]) (om_vals (au_grants a))) @
               [(OSite updated, False)])
              (''register site '' @ typed_id_to_string ''site'' (sdesc_id d) @ '' generation '' @
               u64_to_string (sr_generation updated) @ '' (new incarnation)''))"

definition plan_heartbeat :: "authority \<Rightarrow> site_heartbeat \<Rightarrow> arb_seq \<Rightarrow> mutation_result" where
  "plan_heartbeat a hb arb =
     (case om_find (hb_id hb) (au_sites a) of
        None \<Rightarrow> Inl StNotFound
      | Some current \<Rightarrow>
          if hb_incarnation hb \<noteq> sr_incarnation current then Inl StFenced
          else if hb_epoch hb \<noteq> au_epoch a then Inl StStale
          else if sr_state current = SsFenced then Inl StFenced
          else if \<not> generation_is_nil (hb_generation hb) \<and> hb_generation hb \<noteq> sr_generation current
          then Inl StStale
          else mk_mutation arb
            [(OSite (current\<lparr>sr_last_heartbeat_ms := hb_now_ms hb, sr_missed_heartbeats := 0,
               sr_advertised_capacity := hb_advertised_capacity hb,
               sr_state := (if sr_state current = SsUp \<or> sr_state current = SsDegraded \<or>
                               sr_state current = SsUnknown then SsUp else sr_state current)\<rparr>), False)]
            (''heartbeat site '' @ typed_id_to_string ''site'' (hb_id hb)))"

definition plan_set_site_state ::
    "authority \<Rightarrow> site_id \<Rightarrow> site_state \<Rightarrow> string \<Rightarrow> u64 \<Rightarrow> arb_seq \<Rightarrow> mutation_result" where
  "plan_set_site_state a site state reason now_ms arb =
     (case om_find site (au_sites a) of
        None \<Rightarrow> Inl StNotFound
      | Some current \<Rightarrow>
          let updated = (if state = SsFenced
                then current\<lparr>sr_fence_reason := bounded (text_or reason ''operator fence'')\<rparr>
                else if sr_state current = SsFenced then current\<lparr>sr_fence_reason := []\<rparr>
                else current);
              updated = updated\<lparr>sr_state := state\<rparr>
          in mk_mutation arb
            ((OSite updated, False) #
             (if site_requires_degradation state
              then append_downgrades a (text_or reason (''site moved to '' @ site_state_name state))
                     (Some site) None now_ms
              else []))
            (''set site '' @ typed_id_to_string ''site'' site @ '' state '' @ site_state_name state))"

section \<open>Paths\<close>

text \<open>The domain a registration names, and the image that creates it when it does not exist.\<close>

definition registered_domain :: "path_descriptor \<Rightarrow> domain_id" where
  "registered_domain d =
     (if is_nil (pdesc_shared_risk_domain d) then from_seed 0x15F0D0A1 0 else pdesc_shared_risk_domain d)"

definition domain_images :: "authority \<Rightarrow> domain_id \<Rightarrow> post_image list" where
  "domain_images a domain =
     (if om_find domain (au_domains a) = None
      then [(ODomain \<lparr>sd_id = domain, sd_name = ''domain-'' @ typed_id_to_string ''srd'' domain,
              sd_description = ''auto-created on path registration''\<rparr>, False)]
      else [])"

text \<open>The record of a new path: no capacity is usable until an attestation arrives.\<close>

definition fresh_path :: "path_registration \<Rightarrow> path_record" where
  "fresh_path reg =
     (let d = preg_descriptor reg
      in \<lparr>pr_id = pdesc_id d, pr_name = pdesc_name d,
          pr_edge = (if is_nil (pdesc_edge d)
                     then from_seed (id_hi (pdesc_id d)) (id_lo (pdesc_id d)) else pdesc_edge d),
          pr_shared_risk_domain = registered_domain d, pr_endpoint_a = pdesc_endpoint_a d,
          pr_endpoint_b = pdesc_endpoint_b d, pr_generation = 1, pr_capacity_generation = 0,
          pr_state = preg_state reg, pr_advertised = preg_advertised reg,
          pr_observed = preg_observed reg, pr_authoritative_usable = 0, pr_unavailable = 0,
          pr_updated_at_ms = preg_now_ms reg, pr_provenance = PvLive\<rparr>)"

definition reregistered_path :: "path_registration \<Rightarrow> path_record \<Rightarrow> path_record" where
  "reregistered_path reg current =
     (let d = preg_descriptor reg
      in current\<lparr>pr_name := pdesc_name d,
           pr_edge := (if is_nil (pdesc_edge d) then pr_edge current else pdesc_edge d),
           pr_shared_risk_domain := registered_domain d, pr_endpoint_a := pdesc_endpoint_a d,
           pr_endpoint_b := pdesc_endpoint_b d, pr_generation := preg_path_generation reg,
           pr_state := preg_state reg, pr_advertised := preg_advertised reg,
           pr_observed := preg_observed reg, pr_updated_at_ms := preg_now_ms reg,
           pr_provenance := PvLive\<rparr>)"

definition plan_register_path :: "authority \<Rightarrow> path_registration \<Rightarrow> arb_seq \<Rightarrow> mutation_result" where
  "plan_register_path a reg arb =
     (let d = preg_descriptor reg;
          domain = registered_domain d
      in if is_nil (pdesc_id d) then Inl StInvalid
      else if \<not> valid_name (pdesc_name d) then Inl StInvalid
      else if is_nil (pdesc_endpoint_a d) \<or> is_nil (pdesc_endpoint_b d) then Inl StInvalid
      else if pdesc_endpoint_a d = pdesc_endpoint_b d then Inl StInvalid
      else if om_find (pdesc_endpoint_a d) (au_sites a) = None \<or>
              om_find (pdesc_endpoint_b d) (au_sites a) = None then Inl StIncomplete
      else if om_find domain (au_domains a) = None \<and>
              length (au_domains a) \<ge> ac_max_domains (au_config a) then Inl StLimitExceeded
      else case om_find (pdesc_id d) (au_paths a) of
        None \<Rightarrow>
          if length (au_paths a) \<ge> ac_max_paths (au_config a) then Inl StLimitExceeded
          else mk_mutation arb (domain_images a domain @ [(OPath (fresh_path reg), False)])
            (''register path '' @ typed_id_to_string ''path'' (pdesc_id d) @ '' generation 1'')
      | Some current \<Rightarrow>
          if preg_path_generation reg \<le> pr_generation current then Inl StStale
          else
            let updated = reregistered_path reg current
            in mk_mutation arb
              (domain_images a domain @ (OPath updated, False) #
               rebalance_path a updated (au_policy a) (preg_now_ms reg)
                 ''path generation changed'' False True)
              (''register path '' @ typed_id_to_string ''path'' (pdesc_id d) @ '' generation '' @
               u64_to_string (pr_generation updated)))"

text \<open>The record after a state change: a path that cannot carry traffic has no available capacity.\<close>

definition path_in_state :: "path_record \<Rightarrow> path_state \<Rightarrow> u64 \<Rightarrow> path_record" where
  "path_in_state current st now_ms =
     current\<lparr>pr_state := st, pr_updated_at_ms := now_ms,
       pr_unavailable :=
         (case st of
            PsDown \<Rightarrow> pr_authoritative_usable current
          | PsFenced \<Rightarrow> pr_authoritative_usable current
          | PsMaintenance \<Rightarrow> pr_authoritative_usable current
          | _ \<Rightarrow> 0)\<rparr>"

definition plan_set_path_state ::
    "authority \<Rightarrow> path_id \<Rightarrow> path_state \<Rightarrow> string \<Rightarrow> u64 \<Rightarrow> arb_seq \<Rightarrow> mutation_result" where
  "plan_set_path_state a path state reason now_ms arb =
     (case om_find path (au_paths a) of
        None \<Rightarrow> Inl StNotFound
      | Some current \<Rightarrow>
          let updated = path_in_state current state now_ms
          in mk_mutation arb
            ((OPath updated, False) #
             (if state = PsDown \<or> state = PsFenced \<or> state = PsMaintenance \<or> state = PsDraining
              then append_downgrades a (text_or reason (''path moved to '' @ path_state_name state))
                     None (Some path) now_ms
              else []) @
             (if state = PsDown \<or> state = PsFenced \<or> state = PsMaintenance
              then rebalance_path a updated (au_policy a) now_ms ''path capacity withdrawn'' False False
              else []))
            (''set path '' @ typed_id_to_string ''path'' path @ '' state '' @ path_state_name state))"

text \<open>The record after an attestation, with the unavailable share capped by the new figure.\<close>

definition attested_path :: "path_record \<Rightarrow> capacity_attestation \<Rightarrow> path_record" where
  "attested_path current att =
     current\<lparr>pr_capacity_generation := ca_capacity_generation att,
       pr_advertised := ca_advertised att, pr_observed := ca_observed att,
       pr_authoritative_usable := ca_usable att, pr_updated_at_ms := ca_observed_at_ms att,
       pr_provenance := PvLive,
       pr_unavailable := (if pr_unavailable current > ca_usable att then ca_usable att
                          else pr_unavailable current)\<rparr>"

definition plan_attest_capacity :: "authority \<Rightarrow> capacity_attestation \<Rightarrow> arb_seq \<Rightarrow> mutation_result" where
  "plan_attest_capacity a att arb =
     (if is_nil (ca_id att) then Inl StInvalid
      else if is_nil (ca_issuer att) then Inl StUnauthorized
      else if is_nil (ca_principal att) then Inl StUnauthorized
      else if digest_is_zero (ca_evidence att) then Inl StIncomplete
      else if ca_epoch att \<noteq> au_epoch a then Inl StStale
      else case om_find (ca_path att) (au_paths a) of
        None \<Rightarrow> Inl StNotFound
      | Some current \<Rightarrow>
          if ca_path_generation att \<noteq> pr_generation current then Inl StStale
          else if ca_capacity_generation att \<le> pr_capacity_generation current then Inl StStale
          else if length (au_attestations a) \<ge> ac_max_attestations (au_config a)
          then Inl StLimitExceeded
          else
            let updated = attested_path current att
            in mk_mutation arb
              ((OAttestation att, False) # (OPath updated, False) #
               rebalance_path a updated (au_policy a) (ca_observed_at_ms att)
                 ''authoritative capacity changed'' False True)
              (''attest capacity for path '' @ typed_id_to_string ''path'' (ca_path att) @
               '' usable='' @ u64_to_string (ca_usable att)))"

definition plan_issue_oversubscription ::
    "authority \<Rightarrow> oversubscription_authority \<Rightarrow> arb_seq \<Rightarrow> mutation_result" where
  "plan_issue_oversubscription a oa arb =
     (if is_nil (oa_id oa) then Inl StInvalid
      else if is_nil (oa_issuer oa) then Inl StUnauthorized
      else if is_nil (oa_principal oa) then Inl StUnauthorized
      else if oa_ratio_bps oa \<le> 10000 then Inl StInvalid
      else if oa_ratio_bps oa > kMaxOversubscriptionBps then Inl StLimitExceeded
      else if po_max_oversubscription_bps (au_policy a) = 0 then Inl StRefused
      else if oa_ratio_bps oa > po_max_oversubscription_bps (au_policy a) then Inl StRefused
      else if oa_epoch oa \<noteq> au_epoch a then Inl StStale
      else if oa_policy_generation oa \<noteq> po_generation (au_policy a) then Inl StStale
      else case om_find (oa_path oa) (au_paths a) of
        None \<Rightarrow> Inl StNotFound
      | Some path \<Rightarrow>
          if oa_path_generation oa \<noteq> pr_generation path then Inl StStale
          else if oa_capacity_generation oa \<noteq> pr_capacity_generation path then Inl StStale
          else if length (au_oversubscriptions a) \<ge> ac_max_oversubscriptions (au_config a)
          then Inl StLimitExceeded
          else mk_mutation arb [(OOversubscription oa, False)]
            (''issue oversubscription authority for path '' @ typed_id_to_string ''path'' (oa_path oa)))"

section \<open>Grants\<close>

definition plan_propose_grant :: "authority \<Rightarrow> grant_proposal \<Rightarrow> arb_seq \<Rightarrow> mutation_result" where
  "plan_propose_grant a p arb =
     (if is_nil (gp_request p) then Inl StInvalid
      else if gp_amount p = 0 then Inl StInvalid
      else if gp_duration_ms p = 0 \<or> gp_duration_ms p > po_max_lease_duration_ms (au_policy a)
      then Inl StLimitExceeded
      else if length (au_grants a) \<ge> ac_max_grants (au_config a) then Inl StLimitExceeded
      else if is_nil (gp_holder_incarnation p) then Inl StInvalid
      else if om_find (gp_request p) (au_request_index a) \<noteq> None then Inl StDuplicate
      else case om_find (gp_holder p) (au_sites a) of
        None \<Rightarrow> Inl StNotFound
      | Some site \<Rightarrow>
          if gp_holder_incarnation p \<noteq> sr_incarnation site then Inl StFenced
          else if \<not> generation_is_nil (gp_holder_generation p) \<and>
                  gp_holder_generation p \<noteq> sr_generation site then Inl StStale
          else (case om_find (gp_path p) (au_paths a) of
            None \<Rightarrow> Inl StNotFound
          | Some path \<Rightarrow>
              if pr_endpoint_a path \<noteq> gp_holder p \<and> pr_endpoint_b path \<noteq> gp_holder p then Inl StDenied
              else
                let grant_id = derive_grant_id arb p
                in if om_find grant_id (au_grants a) \<noteq> None then Inl StDuplicate
                else mk_mutation arb
                  [(OGrant \<lparr>gr_id = grant_id, gr_request = gp_request p, gr_arbitration = arb,
                     gr_binding = \<lparr>gb_holder = gp_holder p,
                       gb_holder_incarnation = sr_incarnation site,
                       gb_holder_generation = sr_generation site, gb_path = pr_id path,
                       gb_path_generation = pr_generation path,
                       gb_capacity_generation = pr_capacity_generation path,
                       gb_policy_generation = po_generation (au_policy a),
                       gb_epoch = au_epoch a,
                       gb_lease = (if is_nil (gp_lease p)
                         then from_seed (arb XOR 0x1EA5E) (id_lo (gp_request p)) else gp_lease p)\<rparr>,
                     gr_class = gp_grant_class p, gr_amount = gp_amount p, gr_state = GsProposed,
                     gr_verification = VsUnverified, gr_acknowledged = False, gr_ack_count = 0,
                     gr_created_at_ms = gp_now_ms p, gr_updated_at_ms = gp_now_ms p,
                     gr_expires_at_ms = gp_now_ms p + gp_duration_ms p,
                     gr_reason = bounded (gp_reason p), gr_provenance = PvLive,
                     gr_historical = False, gr_ambiguous = False\<rparr>, False)]
                  (''propose grant '' @ typed_id_to_string ''grant'' grant_id @ '' amount '' @
                   u64_to_string (gp_amount p))))"

text \<open>The refusal an evaluation records; empty when the grant is eligible.\<close>

definition evaluation_refusal :: "authority \<Rightarrow> site_record \<Rightarrow> path_record \<Rightarrow> string" where
  "evaluation_refusal a site path =
     (if \<not> site_accepts_new_reservations (sr_state site)
      then ''site is '' @ site_state_name (sr_state site)
      else if \<not> path_accepts_new_reservations (pr_state path)
      then ''path is '' @ path_state_name (pr_state path)
      else
        let per_path = of_nat (length (filter (\<lambda>g. gb_path (gr_binding g) = pr_id path \<and>
              \<not> is_terminal (gr_state g)) (om_vals (au_grants a)))) :: u32
        in if per_path \<ge> po_max_grants_per_path (au_policy a)
        then ''policy grant limit reached for this path''
        else
          let per_site = of_nat (length (filter (\<lambda>g. gb_holder (gr_binding g) = sr_id site \<and>
                \<not> is_terminal (gr_state g)) (om_vals (au_grants a)))) :: u32
          in if per_site \<ge> po_max_grants_per_site (au_policy a)
          then ''policy grant limit reached for this site'' else [])"

text \<open>
  \<open>sites_.at\<close> and \<open>paths_.at\<close> follow a successful \<open>check_binding\<close>, which found both
  records; the missing case, which would throw, is \<open>StNotFound\<close> here and never taken.
\<close>

definition plan_evaluate_grant :: "authority \<Rightarrow> grant_operation \<Rightarrow> arb_seq \<Rightarrow> mutation_result" where
  "plan_evaluate_grant a op arb =
     (case om_find (go_grant op) (au_grants a) of
        None \<Rightarrow> Inl StNotFound
      | Some g \<Rightarrow>
          if gr_state g \<noteq> GsProposed then Inl StInvalidTransition
          else if check_binding a g op \<noteq> StOk then Inl (check_binding a g op)
          else (case (om_find (gb_holder (gr_binding g)) (au_sites a),
                      om_find (gb_path (gr_binding g)) (au_paths a)) of
            (Some site, Some path) \<Rightarrow>
              let refusal = evaluation_refusal a site path
              in if refusal = [] then
                   mk_mutation arb
                     [(OGrant (g\<lparr>gr_updated_at_ms := go_now_ms op, gr_state := GsEligible\<rparr>), False)]
                     (''grant '' @ typed_id_to_string ''grant'' (gr_id g) @ '' eligible'')
                 else
                   mk_mutation arb
                     [(OGrant (g\<lparr>gr_updated_at_ms := go_now_ms op, gr_state := GsRefused,
                        gr_reason := bounded refusal\<rparr>), False)]
                     (''grant '' @ typed_id_to_string ''grant'' (gr_id g) @ '' refused: '' @ refusal)
          | _ \<Rightarrow> Inl StNotFound))"

text \<open>
  The shared risk domain check of a reservation: usable and held capacity of the domain's
  paths, and the projected concentration against the policy's ratio.
\<close>

definition domain_totals :: "authority \<Rightarrow> domain_id \<Rightarrow> amount \<times> amount" where
  "domain_totals a domain =
     fold (\<lambda>path (usable, held).
         if pr_shared_risk_domain path \<noteq> domain then (usable, held)
         else
           let totals = totals_for a (pr_id path)
           in (saturating_add usable (pr_authoritative_usable path),
               saturating_add (saturating_add held (pt_committed totals)) (pt_reserved totals)))
       (om_vals (au_paths a)) (0, 0)"

definition check_concentration :: "authority \<Rightarrow> path_record \<Rightarrow> amount \<Rightarrow> status" where
  "check_concentration a path amt =
     (if po_max_srd_concentration_bps (au_policy a) < 10000 \<and> \<not> is_nil (pr_shared_risk_domain path)
      then
        (case domain_totals a (pr_shared_risk_domain path) of (domain_usable, domain_held) \<Rightarrow>
          (case checked_add domain_held amt of
             Inl _ \<Rightarrow> StLimitExceeded
           | Inr projected \<Rightarrow>
          (case checked_mul projected 10000 of
             Inl _ \<Rightarrow> StLimitExceeded
           | Inr scaled \<Rightarrow>
          (case checked_mul domain_usable (ucast (po_max_srd_concentration_bps (au_policy a))) of
             Inl _ \<Rightarrow> StLimitExceeded
           | Inr allowed \<Rightarrow> if scaled > allowed then StRefused else StOk))))
      else StOk)"

definition rebound :: "authority \<Rightarrow> site_record \<Rightarrow> path_record \<Rightarrow> grant_binding \<Rightarrow> grant_binding" where
  "rebound a site path b =
     b\<lparr>gb_holder_incarnation := sr_incarnation site, gb_holder_generation := sr_generation site,
       gb_path_generation := pr_generation path,
       gb_capacity_generation := pr_capacity_generation path,
       gb_policy_generation := po_generation (au_policy a), gb_epoch := au_epoch a\<rparr>"

definition plan_reserve_grant :: "authority \<Rightarrow> grant_operation \<Rightarrow> arb_seq \<Rightarrow> mutation_result" where
  "plan_reserve_grant a op arb =
     (case om_find (go_grant op) (au_grants a) of
        None \<Rightarrow> Inl StNotFound
      | Some g \<Rightarrow>
          if gr_state g \<noteq> GsEligible then Inl StInvalidTransition
          else if check_binding a g op \<noteq> StOk then Inl (check_binding a g op)
          else (case (om_find (gb_holder (gr_binding g)) (au_sites a),
                      om_find (gb_path (gr_binding g)) (au_paths a)) of
            (Some site, Some path) \<Rightarrow>
              if \<not> site_accepts_new_reservations (sr_state site) then Inl StRefused
              else if \<not> path_accepts_new_reservations (pr_state path) then Inl StRefused
              else (case allocatable a (pr_id path) (gr_class g) (go_now_ms op) of
                Inl s \<Rightarrow> Inl s
              | Inr available \<Rightarrow>
                  if available < gr_amount g then Inl StExhausted
                  else if check_concentration a path (gr_amount g) \<noteq> StOk
                  then Inl (check_concentration a path (gr_amount g))
                  else mk_mutation arb
                    [(OGrant (g\<lparr>gr_state := GsReserved, gr_updated_at_ms := go_now_ms op,
                       gr_binding := rebound a site path (gr_binding g)\<rparr>), False)]
                    (''reserve grant '' @ typed_id_to_string ''grant'' (gr_id g) @ '' amount '' @
                     u64_to_string (gr_amount g)))
          | _ \<Rightarrow> Inl StNotFound))"

definition plan_activate_grant :: "authority \<Rightarrow> grant_operation \<Rightarrow> arb_seq \<Rightarrow> mutation_result" where
  "plan_activate_grant a op arb =
     (case om_find (go_grant op) (au_grants a) of
        None \<Rightarrow> Inl StNotFound
      | Some g \<Rightarrow>
          if gr_state g \<noteq> GsReserved then Inl StInvalidTransition
          else if check_binding a g op \<noteq> StOk then Inl (check_binding a g op)
          else (case (om_find (gb_holder (gr_binding g)) (au_sites a),
                      om_find (gb_path (gr_binding g)) (au_paths a)) of
            (Some site, Some path) \<Rightarrow>
              if \<not> site_accepts_new_reservations (sr_state site) then Inl StRefused
              else if pr_state path = PsDegraded \<and> \<not> po_allow_degraded_activation (au_policy a)
              then Inl StRefused
              else if \<not> path_accepts_new_reservations (pr_state path) then Inl StRefused
              else if po_require_verification_for_active (au_policy a) \<and>
                      gr_verification g \<noteq> VsVerified then Inl StIncomplete
              else mk_mutation arb
                [(OGrant (g\<lparr>gr_state := GsActive, gr_updated_at_ms := go_now_ms op\<rparr>), False)]
                (''activate grant '' @ typed_id_to_string ''grant'' (gr_id g))
          | _ \<Rightarrow> Inl StNotFound))"

definition plan_degrade_grant :: "authority \<Rightarrow> grant_operation \<Rightarrow> arb_seq \<Rightarrow> mutation_result" where
  "plan_degrade_grant a op arb =
     (case om_find (go_grant op) (au_grants a) of
        None \<Rightarrow> Inl StNotFound
      | Some g \<Rightarrow>
          if gr_state g \<noteq> GsActive then Inl StInvalidTransition
          else if check_binding a g op \<noteq> StOk then Inl (check_binding a g op)
          else mk_mutation arb
            [(OGrant (g\<lparr>gr_state := GsDegraded, gr_updated_at_ms := go_now_ms op,
               gr_reason := bounded (text_or (go_reason op) ''degraded''),
               gr_verification := VsUnverified\<rparr>), False)]
            (''degrade grant '' @ typed_id_to_string ''grant'' (gr_id g)))"

definition plan_withdraw_grant :: "authority \<Rightarrow> grant_operation \<Rightarrow> arb_seq \<Rightarrow> mutation_result" where
  "plan_withdraw_grant a op arb =
     (case om_find (go_grant op) (au_grants a) of
        None \<Rightarrow> Inl StNotFound
      | Some g \<Rightarrow>
          if \<not> (gr_state g = GsReserved \<or> gr_state g = GsActive \<or> gr_state g = GsDegraded)
          then Inl StInvalidTransition
          else if check_binding a g op \<noteq> StOk then Inl (check_binding a g op)
          else mk_mutation arb
            [(OGrant (g\<lparr>gr_state := GsWithdrawing, gr_updated_at_ms := go_now_ms op,
               gr_reason := bounded (text_or (go_reason op) ''withdrawing'')\<rparr>), False)]
            (''withdraw grant '' @ typed_id_to_string ''grant'' (gr_id g)))"

definition plan_retire_grant :: "authority \<Rightarrow> grant_operation \<Rightarrow> arb_seq \<Rightarrow> mutation_result" where
  "plan_retire_grant a op arb =
     (case om_find (go_grant op) (au_grants a) of
        None \<Rightarrow> Inl StNotFound
      | Some g \<Rightarrow>
          if gr_state g \<noteq> GsWithdrawing then Inl StInvalidTransition
          else if \<not> is_nil (go_actor op) \<and> go_actor op \<noteq> gb_holder (gr_binding g) then Inl StDenied
          else if \<not> is_nil (go_lease op) \<and> go_lease op \<noteq> gb_lease (gr_binding g) then Inl StStale
          else mk_mutation arb
            [(OGrant (g\<lparr>gr_state := GsRetired, gr_updated_at_ms := go_now_ms op,
               gr_reason := bounded (text_or (go_reason op) ''retired''),
               gr_verification := VsUnverified\<rparr>), True)]
            (''retire grant '' @ typed_id_to_string ''grant'' (gr_id g)))"

definition plan_cancel_grant :: "authority \<Rightarrow> grant_operation \<Rightarrow> arb_seq \<Rightarrow> mutation_result" where
  "plan_cancel_grant a op arb =
     (case om_find (go_grant op) (au_grants a) of
        None \<Rightarrow> Inl StNotFound
      | Some g \<Rightarrow>
          if \<not> can_transition (gr_state g) GsCancelled then Inl StInvalidTransition
          else if \<not> is_nil (go_actor op) \<and> go_actor op \<noteq> gb_holder (gr_binding g) then Inl StDenied
          else if \<not> is_nil (go_lease op) \<and> go_lease op \<noteq> gb_lease (gr_binding g) then Inl StStale
          else mk_mutation arb
            [(OGrant (g\<lparr>gr_state := GsCancelled, gr_updated_at_ms := go_now_ms op,
               gr_reason := bounded (text_or (go_reason op) ''cancelled'')\<rparr>),
              holds_capacity (gr_state g))]
            (''cancel grant '' @ typed_id_to_string ''grant'' (gr_id g)))"

definition plan_acknowledge_grant ::
    "authority \<Rightarrow> grant_acknowledgement \<Rightarrow> arb_seq \<Rightarrow> mutation_result" where
  "plan_acknowledge_grant a ack arb =
     (case om_find (gk_grant ack) (au_grants a) of
        None \<Rightarrow> Inl StNotFound
      | Some g \<Rightarrow>
          if is_terminal (gr_state g) then Inl StInvalidTransition
          else (case om_find (gb_holder (gr_binding g)) (au_sites a) of
            None \<Rightarrow> Inl StNotFound
          | Some site \<Rightarrow>
              if \<not> is_nil (gk_actor ack) \<and> gk_actor ack \<noteq> gb_holder (gr_binding g) then Inl StDenied
              else if \<not> is_nil (gk_actor_incarnation ack) \<and>
                      gk_actor_incarnation ack \<noteq> sr_incarnation site then Inl StFenced
              else if gk_epoch ack \<noteq> 0 \<and> gk_epoch ack \<noteq> au_epoch a then Inl StStale
              else mk_mutation arb
                [(OGrant (g\<lparr>gr_acknowledged := True, gr_ack_count := gr_ack_count g + 1,
                   gr_updated_at_ms := gk_now_ms ack\<rparr>), False)]
                (''acknowledge grant '' @ typed_id_to_string ''grant'' (gr_id g))))"

definition plan_verify_grant :: "authority \<Rightarrow> grant_verification \<Rightarrow> arb_seq \<Rightarrow> mutation_result" where
  "plan_verify_grant a v arb =
     (case om_find (gv_grant v) (au_grants a) of
        None \<Rightarrow> Inl StNotFound
      | Some g \<Rightarrow>
          if is_nil (gv_id v) then Inl StInvalid
          else if is_nil (gv_verifier v) then Inl StUnauthorized
          else if gv_result v = VsUnverified then Inl StInvalid
          else if length (au_verifications a) \<ge> ac_max_verifications (au_config a)
          then Inl StLimitExceeded
          else
            let rec = \<lparr>vr_id = gv_id v, vr_grant = gr_id g, vr_binding = gr_binding g,
                  vr_result = gv_result v, vr_verifier = gv_verifier v,
                  vr_evidence = gv_evidence v, vr_at_ms = gv_now_ms v,
                  vr_detail = bounded (gv_detail v)\<rparr>;
                updated = g\<lparr>gr_verification := gv_result v, gr_updated_at_ms := gv_now_ms v\<rparr>;
                updated = (if gv_result v = VsFailed
                  then updated\<lparr>gr_reason := bounded ''independent verification failed''\<rparr>
                  else updated)
            in mk_mutation arb [(OVerification rec, False), (OGrant updated, False)]
              (''verify grant '' @ typed_id_to_string ''grant'' (gr_id g) @ '' result '' @
               verification_state_name (gv_result v)))"

definition plan_reconcile_grant ::
    "authority \<Rightarrow> grant_operation \<Rightarrow> grant_state \<Rightarrow> principal_id \<Rightarrow> arb_seq \<Rightarrow> mutation_result" where
  "plan_reconcile_grant a op target prin arb =
     (if is_nil prin then Inl StUnauthorized
      else if \<not> (target = GsRetired \<or> target = GsActive) then Inl StInvalid
      else case om_find (go_grant op) (au_grants a) of
        None \<Rightarrow> Inl StNotFound
      | Some g \<Rightarrow>
          if is_terminal (gr_state g) then Inl StInvalidTransition
          else if target = GsActive then
            (if \<not> holds_capacity (gr_state g) \<and> gr_state g \<noteq> GsEligible then Inl StInvalidTransition
             else case om_find (gb_holder (gr_binding g)) (au_sites a) of
               None \<Rightarrow> Inl StNotFound
             | Some site \<Rightarrow>
             (case om_find (gb_path (gr_binding g)) (au_paths a) of
               None \<Rightarrow> Inl StNotFound
             | Some path \<Rightarrow>
                 if \<not> site_accepts_new_reservations (sr_state site) then Inl StRefused
                 else if \<not> path_accepts_new_reservations (pr_state path) then Inl StRefused
                 else mk_mutation arb
                   [(OGrant (g\<lparr>gr_state := GsActive,
                      gr_binding := rebound a site path (gr_binding g), gr_ambiguous := False,
                      gr_provenance := PvOperatorReconcile, gr_verification := VsUnverified,
                      gr_updated_at_ms := go_now_ms op, gr_reason := bounded (go_reason op)\<rparr>), False)]
                   (''reconcile grant '' @ typed_id_to_string ''grant'' (gr_id g) @ '' to ACTIVE'')))
          else mk_mutation arb
            [(OGrant (g\<lparr>gr_state := GsRetired, gr_ambiguous := False,
               gr_provenance := PvOperatorReconcile, gr_verification := VsUnverified,
               gr_updated_at_ms := go_now_ms op, gr_reason := bounded (go_reason op)\<rparr>), True)]
            (''reconcile grant '' @ typed_id_to_string ''grant'' (gr_id g) @ '' to RETIRED''))"

section \<open>Time\<close>

definition tick_site :: "authority \<Rightarrow> u64 \<Rightarrow> site_record \<Rightarrow> post_image list" where
  "tick_site a now_ms site =
     (if sr_state site = SsFenced \<or> sr_state site = SsMaintenance \<or> sr_state site = SsDraining then []
      else if sr_last_heartbeat_ms site = 0 \<or> now_ms < sr_last_heartbeat_ms site then []
      else
        let elapsed = now_ms - sr_last_heartbeat_ms site;
            timeout = po_site_lease_timeout_ms (au_policy a);
            downgrades = append_downgrades a ''site heartbeat lease expired'' (Some (sr_id site))
              None now_ms
        in if elapsed \<le> timeout then []
        else if elapsed > timeout * kHeartbeatDownMultiplier then
          (OSite (site\<lparr>sr_state := SsDown,
             sr_fence_reason := bounded ''heartbeat lease expired''\<rparr>), False) # downgrades
        else if sr_state site = SsUp then
          (OSite (site\<lparr>sr_state := SsDegraded,
             sr_missed_heartbeats := sr_missed_heartbeats site + 1\<rparr>), False) # downgrades
        else [])"

definition tick_grant :: "u64 \<Rightarrow> grant_record \<Rightarrow> post_image list" where
  "tick_grant now_ms g =
     (if gr_expires_at_ms g = 0 \<or> now_ms < gr_expires_at_ms g \<or> \<not> holds_capacity (gr_state g) then []
      else [(OGrant (g\<lparr>gr_state := GsExpired, gr_updated_at_ms := now_ms,
               gr_reason := bounded ''lease expired''\<rparr>), True)])"

definition plan_tick :: "authority \<Rightarrow> u64 \<Rightarrow> arb_seq \<Rightarrow> mutation_result" where
  "plan_tick a now_ms arb =
     (let imgs = concat (map (tick_site a now_ms) (om_vals (au_sites a))) @
                 concat (map (tick_grant now_ms) (om_vals (au_grants a)))
      in if imgs = [] then Inl StNotFound
         else mk_mutation arb imgs (''expire '' @ nat_to_dec (length imgs) @ '' record(s)''))"

section \<open>All operations\<close>

datatype request =
    RqInstallPolicy policy principal_id
  | RqBumpEpoch epoch principal_id
  | RqRegisterSite site_registration
  | RqHeartbeat site_heartbeat
  | RqSetSiteState site_id site_state string u64
  | RqRegisterPath path_registration
  | RqSetPathState path_id path_state string u64
  | RqAttestCapacity capacity_attestation
  | RqIssueOversubscription oversubscription_authority
  | RqProposeGrant grant_proposal
  | RqEvaluateGrant grant_operation
  | RqReserveGrant grant_operation
  | RqActivateGrant grant_operation
  | RqDegradeGrant grant_operation
  | RqWithdrawGrant grant_operation
  | RqRetireGrant grant_operation
  | RqCancelGrant grant_operation
  | RqAcknowledgeGrant grant_acknowledgement
  | RqVerifyGrant grant_verification
  | RqReconcileGrant grant_operation grant_state principal_id
  | RqTick u64

definition plan_request :: "authority \<Rightarrow> request \<Rightarrow> arb_seq \<Rightarrow> mutation_result" where
  "plan_request a rq arb =
     (case rq of
        RqInstallPolicy pol prin \<Rightarrow> plan_install_policy a pol prin arb
      | RqBumpEpoch ep prin \<Rightarrow> plan_bump_epoch a ep prin arb
      | RqRegisterSite reg \<Rightarrow> plan_register_site a reg arb
      | RqHeartbeat hb \<Rightarrow> plan_heartbeat a hb arb
      | RqSetSiteState site state reason now_ms \<Rightarrow> plan_set_site_state a site state reason now_ms arb
      | RqRegisterPath reg \<Rightarrow> plan_register_path a reg arb
      | RqSetPathState path state reason now_ms \<Rightarrow> plan_set_path_state a path state reason now_ms arb
      | RqAttestCapacity att \<Rightarrow> plan_attest_capacity a att arb
      | RqIssueOversubscription oa \<Rightarrow> plan_issue_oversubscription a oa arb
      | RqProposeGrant p \<Rightarrow> plan_propose_grant a p arb
      | RqEvaluateGrant op \<Rightarrow> plan_evaluate_grant a op arb
      | RqReserveGrant op \<Rightarrow> plan_reserve_grant a op arb
      | RqActivateGrant op \<Rightarrow> plan_activate_grant a op arb
      | RqDegradeGrant op \<Rightarrow> plan_degrade_grant a op arb
      | RqWithdrawGrant op \<Rightarrow> plan_withdraw_grant a op arb
      | RqRetireGrant op \<Rightarrow> plan_retire_grant a op arb
      | RqCancelGrant op \<Rightarrow> plan_cancel_grant a op arb
      | RqAcknowledgeGrant ack \<Rightarrow> plan_acknowledge_grant a ack arb
      | RqVerifyGrant v \<Rightarrow> plan_verify_grant a v arb
      | RqReconcileGrant op target prin \<Rightarrow> plan_reconcile_grant a op target prin arb
      | RqTick now_ms \<Rightarrow> plan_tick a now_ms arb)"

end
