(* ===== verification/Apply.thy ===== *)
theory Apply
  imports Plan
begin

text \<open>
  What applying a change set does (\<open>Authority::apply\<close>, \<open>src/authority.cpp\<close>). A planned
  post-image decodes back to the object it encodes, with its free text cut to 512 bytes
  (\<open>clip\<close>), exactly when its text fields are acceptable (\<open>object_ok\<close>); storing a sequence of
  objects is a sequence of table writes. The later theories reason about these writes and no
  longer about bytes.
\<close>

section \<open>Images and objects\<close>

fun clip :: "object \<Rightarrow> object" where
  "clip (OSite v) = OSite (v\<lparr>sr_fence_reason := take 512 (sr_fence_reason v)\<rparr>)"
| "clip (OAttestation v) = OAttestation (v\<lparr>ca_source := take 512 (ca_source v)\<rparr>)"
| "clip (OGrant v) = OGrant (v\<lparr>gr_reason := take 512 (gr_reason v)\<rparr>)"
| "clip (OVerification v) = OVerification (v\<lparr>vr_detail := take 512 (vr_detail v)\<rparr>)"
| "clip ob = ob"

fun object_key :: "object \<Rightarrow> id128" where
  "object_key (OSite v) = sr_id v"
| "object_key (OPath v) = pr_id v"
| "object_key (ODomain v) = sd_id v"
| "object_key (OAttestation v) = ca_id v"
| "object_key (OGrant v) = gr_id v"
| "object_key (OVerification v) = vr_id v"
| "object_key (OOversubscription v) = oa_id v"
| "object_key _ = nil_id"

text \<open>The image of the object decodes under the limits of \<open>apply\<close>.\<close>

fun object_ok :: "object \<Rightarrow> bool" where
  "object_ok (OSite v) \<longleftrightarrow> clean (sr_name v) \<and> clean_bounded (sr_fence_reason v)"
| "object_ok (OPath v) \<longleftrightarrow> clean (pr_name v) \<and> pr_unavailable v \<le> pr_authoritative_usable v"
| "object_ok (ODomain v) \<longleftrightarrow> clean (sd_name v) \<and> clean (sd_description v)"
| "object_ok (OAttestation v) \<longleftrightarrow> clean_bounded (ca_source v)"
| "object_ok (OGrant v) \<longleftrightarrow> clean_bounded (gr_reason v)"
| "object_ok (OVerification v) \<longleftrightarrow> clean_bounded (vr_detail v)"
| "object_ok _ \<longleftrightarrow> True"

text \<open>Lengths that fit the four byte length prefix.\<close>

fun object_sized :: "object \<Rightarrow> bool" where
  "object_sized (OSite v) \<longleftrightarrow> length (sr_name v) < 2 ^ 32"
| "object_sized (OPath v) \<longleftrightarrow> length (pr_name v) < 2 ^ 32"
| "object_sized (ODomain v) \<longleftrightarrow> length (sd_name v) < 2 ^ 32 \<and> length (sd_description v) < 2 ^ 32"
| "object_sized _ \<longleftrightarrow> True"

lemma change_for_key [simp]: "sc_key (change_for ob rel) = object_key ob"
  by (cases ob) (simp_all add: change_for_def)

lemma object_key_clip [simp]: "object_key (clip ob) = object_key ob"
  by (cases ob) simp_all

lemma apply_limits_string [simp]: "max_string apply_limits = 4096"
  by (simp add: apply_limits_def)

lemma require_end_Nil [simp]: "require_end [] = StOk"
  by (simp add: require_end_def)

text \<open>Decoding an image that a reader describes exactly.\<close>

lemma decode_image_exact:
  assumes "\<And>x. dec (sc_image change) = Inr x \<longleftrightarrow> ok \<and> x = (v, [])"
    and "ident v = None \<or> ident v = Some (sc_key change)"
  shows "decode_image dec ident wrap change = (if ok then Inr (wrap v) else Inl StCorrupt)"
proof (cases ok)
  case True
  then have "dec (sc_image change) = Inr (v, [])" using assms(1) by simp
  then show ?thesis using True assms(2) by (auto simp: decode_image_def)
next
  case False
  then obtain s where "dec (sc_image change) = Inl s"
    using assms(1) by (cases "dec (sc_image change)") auto
  then show ?thesis using False by (simp add: decode_image_def)
qed

lemmas decode_all = decode_site_encode [where rest = "[]", simplified]
  decode_path_encode [where rest = "[]", simplified]
  decode_domain_encode [where rest = "[]", simplified]
  decode_attestation_encode [where rest = "[]", simplified]
  decode_grant_encode_iff [where rest = "[]", simplified]
  decode_verification_encode [where rest = "[]", simplified]

lemmas decode_total = decode_oversubscription_encode [where rest = "[]", simplified]
  decode_policy_encode [where rest = "[]", simplified] r_u64_w [where rest = "[]", simplified]

lemma decode_change_for:
  assumes "object_sized ob"
  shows "decode_change (change_for ob rel) = (if object_ok ob then Inr (clip ob) else Inl StCorrupt)"
proof (cases ob)
  case (OSite v)
  then show ?thesis using assms
    by (simp add: decode_change_def change_for_def Let_def
        decode_image_exact [where ok = "clean (sr_name v) \<and> clean_bounded (sr_fence_reason v)"
          and v = "v\<lparr>sr_fence_reason := take 512 (sr_fence_reason v)\<rparr>"] decode_all)
next
  case (OPath v)
  then show ?thesis using assms
    by (simp add: decode_change_def change_for_def Let_def
        decode_image_exact [where ok = "clean (pr_name v) \<and> pr_unavailable v \<le> pr_authoritative_usable v"
          and v = v] decode_all)
next
  case (ODomain v)
  then show ?thesis using assms
    by (simp add: decode_change_def change_for_def Let_def
        decode_image_exact [where ok = "clean (sd_name v) \<and> clean (sd_description v)" and v = v] decode_all)
next
  case (OAttestation v)
  then show ?thesis
    by (simp add: decode_change_def change_for_def Let_def
        decode_image_exact [where ok = "clean_bounded (ca_source v)"
          and v = "v\<lparr>ca_source := take 512 (ca_source v)\<rparr>"] decode_all)
next
  case (OGrant v)
  then show ?thesis
    by (simp add: decode_change_def change_for_def Let_def
        decode_image_exact [where ok = "clean_bounded (gr_reason v)"
          and v = "v\<lparr>gr_reason := take 512 (gr_reason v)\<rparr>"] decode_all)
next
  case (OVerification v)
  then show ?thesis
    by (simp add: decode_change_def change_for_def Let_def
        decode_image_exact [where ok = "clean_bounded (vr_detail v)"
          and v = "v\<lparr>vr_detail := take 512 (vr_detail v)\<rparr>"] decode_all)
qed (simp_all add: decode_change_def change_for_def Let_def decode_image_def decode_total)

definition decoded_images :: "post_image list \<Rightarrow> (id128 \<times> object) list" where
  "decoded_images imgs = map (\<lambda>(ob, rel). (object_key ob, clip ob)) imgs"

lemma decode_changes_for:
  assumes "\<forall>(ob, rel) \<in> set imgs. object_sized ob"
  shows "decode_changes (map (\<lambda>(ob, rel). change_for ob rel) imgs) =
    (if \<forall>(ob, rel) \<in> set imgs. object_ok ob then Inr (decoded_images imgs) else Inl StCorrupt)"
  using assms
  by (induction imgs) (auto simp: decode_change_for decoded_images_def split: if_splits)

section \<open>Storing a sequence of objects\<close>

fun as_site :: "object \<Rightarrow> site_record option" where
  "as_site (OSite v) = Some v" | "as_site _ = None"

fun as_path :: "object \<Rightarrow> path_record option" where
  "as_path (OPath v) = Some v" | "as_path _ = None"

fun as_domain :: "object \<Rightarrow> shared_risk_domain option" where
  "as_domain (ODomain v) = Some v" | "as_domain _ = None"

fun as_grant :: "object \<Rightarrow> grant_record option" where
  "as_grant (OGrant v) = Some v" | "as_grant _ = None"

fun as_oversubscription :: "object \<Rightarrow> oversubscription_authority option" where
  "as_oversubscription (OOversubscription v) = Some v" | "as_oversubscription _ = None"

fun as_policy :: "object \<Rightarrow> policy option" where
  "as_policy (OPolicy v) = Some v" | "as_policy _ = None"

fun as_epoch :: "object \<Rightarrow> epoch option" where
  "as_epoch (OEpoch v) = Some v" | "as_epoch _ = None"

text \<open>The writes to one table, in order.\<close>

definition writes :: "(object \<Rightarrow> 'v option) \<Rightarrow> (id128 \<times> object) list \<Rightarrow> (id128 \<times> 'v) list" where
  "writes sel kos = List.map_filter (\<lambda>(k, ob). map_option (Pair k) (sel ob)) kos"

definition put_all :: "('k::linorder \<times> 'v) list \<Rightarrow> ('k, 'v) omap \<Rightarrow> ('k, 'v) omap" where
  "put_all kvs m = fold (\<lambda>(k, v). om_put k v) kvs m"

lemma put_all_simps [simp]:
  "put_all [] m = m" "put_all ((k, v) # kvs) m = put_all kvs (om_put k v m)"
  by (simp_all add: put_all_def)

lemma writes_simps [simp]:
  "writes sel [] = []"
  "writes sel ((k, ob) # kos) =
     (case sel ob of None \<Rightarrow> writes sel kos | Some v \<Rightarrow> (k, v) # writes sel kos)"
  by (auto simp: writes_def List.map_filter_simps split: option.splits)

lemma put_all_wf: "om_wf m \<Longrightarrow> om_wf (put_all kvs m)"
  unfolding put_all_def by (rule om.wf_puts)

lemma put_all_find:
  "om_wf m \<Longrightarrow> om_find k (put_all kvs m) =
     (case map_of (rev kvs) k of Some v \<Rightarrow> Some v | None \<Rightarrow> om_find k m)"
  unfolding put_all_def by (rule om.find_puts)

lemma in_writes: "(k, v) \<in> set (writes sel kos) \<longleftrightarrow> (\<exists>ob. (k, ob) \<in> set kos \<and> sel ob = Some v)"
  by (force simp: writes_def List.map_filter_def)

lemma store_object_not_ok [simp]: "store_object key ob a \<noteq> Inl StOk"
  by (cases ob) (auto simp: store_object_def Let_def)

lemma store_objects_effect:
  assumes "store_objects kos a = (StOk, a')"
  shows "au_sites a' = put_all (writes as_site kos) (au_sites a)"
    and "au_paths a' = put_all (writes as_path kos) (au_paths a)"
    and "au_domains a' = put_all (writes as_domain kos) (au_domains a)"
    and "au_grants a' = put_all (writes as_grant kos) (au_grants a)"
    and "au_oversubscriptions a' = put_all (writes as_oversubscription kos) (au_oversubscriptions a)"
    and "au_last_arbitration a' = au_last_arbitration a"
    and "au_policy a' = fold (\<lambda>(k, ob) p. case as_policy ob of None \<Rightarrow> p | Some v \<Rightarrow> v) kos (au_policy a)"
    and "au_epoch a' = fold (\<lambda>(k, ob) e. case as_epoch ob of None \<Rightarrow> e | Some v \<Rightarrow> v) kos (au_epoch a)"
  using assms
  by (induction kos a rule: store_objects.induct)
     (auto simp: store_object_def Let_def split: sum.splits object.splits if_splits)

section \<open>The structural invariant\<close>

text \<open>
  What every stored record satisfies because it was decoded: the record is filed under its
  own identity, its text is acceptable, and a path never has more unavailable than usable
  capacity.
\<close>

fun entry_ok :: "id128 \<Rightarrow> object \<Rightarrow> bool" where
  "entry_ok k (OSite v) \<longleftrightarrow> sr_id v = k \<and> clean (sr_name v)"
| "entry_ok k (OPath v) \<longleftrightarrow>
     pr_id v = k \<and> clean (pr_name v) \<and> pr_unavailable v \<le> pr_authoritative_usable v"
| "entry_ok k (ODomain v) \<longleftrightarrow> sd_id v = k"
| "entry_ok k (OAttestation v) \<longleftrightarrow> ca_id v = k"
| "entry_ok k (OGrant v) \<longleftrightarrow> gr_id v = k"
| "entry_ok k (OVerification v) \<longleftrightarrow> vr_id v = k"
| "entry_ok k (OOversubscription v) \<longleftrightarrow> oa_id v = k"
| "entry_ok k _ \<longleftrightarrow> True"

definition tables_wf :: "authority \<Rightarrow> bool" where
  "tables_wf a \<longleftrightarrow>
     om_wf (au_sites a) \<and> om_wf (au_paths a) \<and> om_wf (au_domains a) \<and> om_wf (au_attestations a) \<and>
     om_wf (au_grants a) \<and> om_wf (au_verifications a) \<and> om_wf (au_oversubscriptions a) \<and>
     om_wf (au_request_index a)"

definition entries_ok :: "authority \<Rightarrow> bool" where
  "entries_ok a \<longleftrightarrow>
     (\<forall>k v. om_find k (au_sites a) = Some v \<longrightarrow> entry_ok k (OSite v)) \<and>
     (\<forall>k v. om_find k (au_paths a) = Some v \<longrightarrow> entry_ok k (OPath v)) \<and>
     (\<forall>k v. om_find k (au_grants a) = Some v \<longrightarrow> entry_ok k (OGrant v)) \<and>
     (\<forall>k v. om_find k (au_oversubscriptions a) = Some v \<longrightarrow> entry_ok k (OOversubscription v))"

definition index_ok :: "authority \<Rightarrow> bool" where
  "index_ok a \<longleftrightarrow>
     (\<forall>k g. om_find k (au_grants a) = Some g \<longrightarrow> \<not> is_nil (gr_request g) \<longrightarrow>
        om_find (gr_request g) (au_request_index a) = Some k)"

definition structure_ok :: "authority \<Rightarrow> bool" where
  "structure_ok a \<longleftrightarrow> tables_wf a \<and> entries_ok a \<and> index_ok a"

lemma decode_image_Inr:
  "decode_image dec ident wrap change = Inr ob \<longleftrightarrow>
     (\<exists>v. dec (sc_image change) = Inr (v, []) \<and> (ident v = None \<or> ident v = Some (sc_key change)) \<and>
        ob = wrap v)"
  by (auto simp: decode_image_def require_end_def split: sum.splits prod.splits if_splits option.splits)

lemma decode_change_entry: "decode_change change = Inr ob \<Longrightarrow> entry_ok (sc_key change) ob"
  by (cases "sc_kind change")
     (auto simp: decode_change_def Let_def decode_image_Inr dest: decode_site_clean decode_path_clean)

lemma store_object_tables_wf: "tables_wf a \<Longrightarrow> store_object key ob a = Inr a' \<Longrightarrow> tables_wf a'"
  by (cases ob)
     (auto simp: store_object_def Let_def tables_wf_def om_put_wf split: if_splits option.splits)

lemma store_object_entries_ok:
  "tables_wf a \<Longrightarrow> entries_ok a \<Longrightarrow> entry_ok key ob \<Longrightarrow> store_object key ob a = Inr a' \<Longrightarrow> entries_ok a'"
  by (cases ob)
     (auto simp: store_object_def Let_def tables_wf_def entries_ok_def om_find_put split: if_splits option.splits)

lemma store_object_index_ok:
  "tables_wf a \<Longrightarrow> index_ok a \<Longrightarrow> store_object key ob a = Inr a' \<Longrightarrow> index_ok a'"
  by (cases ob)
     (fastforce simp: store_object_def Let_def tables_wf_def index_ok_def om_find_put
        split: if_splits option.splits)+

lemma store_object_structure:
  "structure_ok a \<Longrightarrow> entry_ok key ob \<Longrightarrow> store_object key ob a = Inr a' \<Longrightarrow> structure_ok a'"
  by (auto simp: structure_ok_def intro: store_object_tables_wf store_object_entries_ok store_object_index_ok)

lemma store_objects_structure:
  "structure_ok a \<Longrightarrow> \<forall>(k, ob) \<in> set kos. entry_ok k ob \<Longrightarrow> structure_ok (snd (store_objects kos a))"
  by (induction kos a rule: store_objects.induct)
     (auto split: sum.splits dest: store_object_structure)

lemma decode_changes_entries:
  "decode_changes changes = Inr kos \<Longrightarrow> \<forall>(k, ob) \<in> set kos. entry_ok k ob"
  by (induction changes arbitrary: kos) (auto simp: ebind_Inr dest: decode_change_entry)

lemma note_recovered_arbitration_sel [simp]:
  "au_config (note_recovered_arbitration arb a) = au_config a"
  "au_sites (note_recovered_arbitration arb a) = au_sites a"
  "au_paths (note_recovered_arbitration arb a) = au_paths a"
  "au_domains (note_recovered_arbitration arb a) = au_domains a"
  "au_attestations (note_recovered_arbitration arb a) = au_attestations a"
  "au_grants (note_recovered_arbitration arb a) = au_grants a"
  "au_verifications (note_recovered_arbitration arb a) = au_verifications a"
  "au_oversubscriptions (note_recovered_arbitration arb a) = au_oversubscriptions a"
  "au_request_index (note_recovered_arbitration arb a) = au_request_index a"
  by (simp_all add: note_recovered_arbitration_def)

lemma note_recovered_arbitration_max:
  "au_last_arbitration (note_recovered_arbitration arb a) = max arb (au_last_arbitration a)"
  by (auto simp: note_recovered_arbitration_def max_def)

lemma structure_ok_note [simp]: "structure_ok (note_recovered_arbitration arb a) = structure_ok a"
  by (simp add: structure_ok_def tables_wf_def entries_ok_def index_ok_def)

lemma apply_structure: "structure_ok a \<Longrightarrow> structure_ok (snd (apply_changes changes arb a))"
  using store_objects_structure [OF _ decode_changes_entries]
  by (fastforce simp: apply_changes_def split: sum.splits prod.splits)

lemma structure_new: "structure_ok (new_authority rnd cfg)"
  by (simp add: structure_ok_def tables_wf_def entries_ok_def index_ok_def new_authority_def Let_def
      om_wf_Cons)

section \<open>Applying a planned mutation\<close>

definition images_sized :: "post_image list \<Rightarrow> bool" where
  "images_sized imgs \<longleftrightarrow> (\<forall>(ob, rel) \<in> set imgs. object_sized ob)"

definition images_ok :: "post_image list \<Rightarrow> bool" where
  "images_ok imgs \<longleftrightarrow> (\<forall>(ob, rel) \<in> set imgs. object_ok ob)"

text \<open>The state after storing planned images, when storing them succeeds.\<close>

lemma apply_mutation_ok:
  assumes "apply_changes (mu_changes mu) arb a = (StOk, a')" and "images_sized (mu_images mu)"
  obtains b where "images_ok (mu_images mu)"
    and "store_objects (decoded_images (mu_images mu)) a = (StOk, b)"
    and "a' = note_recovered_arbitration arb b"
proof -
  have "decode_changes (mu_changes mu) =
      (if images_ok (mu_images mu) then Inr (decoded_images (mu_images mu)) else Inl StCorrupt)"
    using decode_changes_for assms(2) by (simp add: mu_changes_def images_sized_def images_ok_def)
  with assms(1) that show ?thesis
    by (auto simp: apply_changes_def split: if_splits prod.splits)
qed

text \<open>The last image of a key decides what a table holds for it.\<close>

lemma find_after_writes:
  assumes "om_wf m" and "om_find k (put_all kvs m) = Some v"
  shows "(k, v) \<in> set kvs \<or> om_find k m = Some v \<and> (\<forall>w. (k, w) \<notin> set kvs)"
proof (cases "map_of (rev kvs) k")
  case None
  then have "k \<notin> fst ` set kvs" by (simp add: map_of_eq_None_iff)
  then have "\<forall>w. (k, w) \<notin> set kvs" by force
  then show ?thesis using assms None by (simp add: put_all_find)
next
  case (Some w)
  then have "(k, w) \<in> set kvs" by (metis map_of_SomeD set_rev)
  then show ?thesis using assms Some by (simp add: put_all_find)
qed

lemma in_decoded_images:
  "(k, ob') \<in> set (decoded_images imgs) \<longleftrightarrow>
     (\<exists>ob rel. (ob, rel) \<in> set imgs \<and> k = object_key ob \<and> ob' = clip ob)"
  by (force simp: decoded_images_def)

lemma clip_eq_grant: "clip ob = OGrant v \<longleftrightarrow> (\<exists>g. ob = OGrant g \<and> v = g\<lparr>gr_reason := take 512 (gr_reason g)\<rparr>)"
  by (cases ob) auto

lemma clip_eq_plain:
  "clip ob = OPath p \<longleftrightarrow> ob = OPath p"
  "clip ob = ODomain d \<longleftrightarrow> ob = ODomain d"
  "clip ob = OOversubscription oa \<longleftrightarrow> ob = OOversubscription oa"
  "clip ob = OPolicy pol \<longleftrightarrow> ob = OPolicy pol"
  "clip ob = OEpoch e \<longleftrightarrow> ob = OEpoch e"
  by (cases ob; auto)+

lemmas clip_eq = clip_eq_grant clip_eq_plain clip_eq_grant [THEN eq_commute [THEN trans]]
  clip_eq_plain [THEN eq_commute [THEN trans]]

lemma as_Some:
  "as_site ob = Some s \<longleftrightarrow> ob = OSite s" "as_path ob = Some p \<longleftrightarrow> ob = OPath p"
  "as_grant ob = Some g \<longleftrightarrow> ob = OGrant g" "as_domain ob = Some d \<longleftrightarrow> ob = ODomain d"
  "as_oversubscription ob = Some oa \<longleftrightarrow> ob = OOversubscription oa"
  "as_policy ob = Some pol \<longleftrightarrow> ob = OPolicy pol" "as_epoch ob = Some e \<longleftrightarrow> ob = OEpoch e"
  by (cases ob; auto)+

lemma in_grant_writes:
  "(k, v) \<in> set (writes as_grant (decoded_images imgs)) \<longleftrightarrow>
     (\<exists>g rel. (OGrant g, rel) \<in> set imgs \<and> gr_id g = k \<and> v = g\<lparr>gr_reason := take 512 (gr_reason g)\<rparr>)"
  by (auto simp: in_writes in_decoded_images as_Some clip_eq)

lemma in_path_writes:
  "(k, v) \<in> set (writes as_path (decoded_images imgs)) \<longleftrightarrow> (\<exists>rel. (OPath v, rel) \<in> set imgs \<and> pr_id v = k)"
  by (auto simp: in_writes in_decoded_images as_Some clip_eq)

lemma grant_after_images:
  assumes "om_wf (au_grants a)" and "store_objects (decoded_images imgs) a = (StOk, b)"
    and "om_find k (au_grants b) = Some v"
  shows "(\<exists>g rel. (OGrant g, rel) \<in> set imgs \<and> gr_id g = k \<and> v = g\<lparr>gr_reason := take 512 (gr_reason g)\<rparr>) \<or>
         om_find k (au_grants a) = Some v \<and> (\<forall>g rel. (OGrant g, rel) \<in> set imgs \<longrightarrow> gr_id g \<noteq> k)"
proof -
  have "om_find k (put_all (writes as_grant (decoded_images imgs)) (au_grants a)) = Some v"
    using assms(3) store_objects_effect(4) [OF assms(2)] by simp
  from find_after_writes [OF assms(1) this] show ?thesis
    by (auto simp: in_grant_writes)
qed

lemma path_after_images:
  assumes "om_wf (au_paths a)" and "store_objects (decoded_images imgs) a = (StOk, b)"
    and "om_find k (au_paths b) = Some v"
  shows "(\<exists>rel. (OPath v, rel) \<in> set imgs \<and> pr_id v = k) \<or>
         om_find k (au_paths a) = Some v \<and> (\<forall>p rel. (OPath p, rel) \<in> set imgs \<longrightarrow> pr_id p \<noteq> k)"
proof -
  have "om_find k (put_all (writes as_path (decoded_images imgs)) (au_paths a)) = Some v"
    using assms(3) store_objects_effect(2) [OF assms(2)] by simp
  from find_after_writes [OF assms(1) this] show ?thesis
    by (auto simp: in_path_writes)
qed

end
