(* ===== verification/Ledger.thy ===== *)
theory Ledger
  imports Apply
begin

text \<open>
  The derived capacity of a path as natural numbers: the bucket totals are saturated sums
  over the grant table, the ledger closes, and a path that fits its ceiling is never reported
  as oversubscribed. \<open>path_fits\<close> is the abstract promise the planning operations keep.
\<close>

section \<open>Totals\<close>

text \<open>The amount held on a path by grants of one kind.\<close>

definition held_by :: "(grant_record \<Rightarrow> bool) \<Rightarrow> path_id \<Rightarrow> grant_record \<Rightarrow> nat" where
  "held_by Q path g =
     (if gb_path (gr_binding g) = path \<and> holds_capacity (gr_state g) \<and> Q g then unat (gr_amount g) else 0)"

definition held :: "(grant_record \<Rightarrow> bool) \<Rightarrow> authority \<Rightarrow> path_id \<Rightarrow> nat" where
  "held Q a path = om_sum (held_by Q path) (au_grants a)"

abbreviation is_committed :: "grant_record \<Rightarrow> bool" where
  "is_committed g \<equiv> gr_state g = GsActive \<or> gr_state g = GsDegraded"

abbreviation is_protected :: "grant_record \<Rightarrow> bool" where
  "is_protected g \<equiv> gr_class g = GcProtected"

text \<open>Still promised: holding capacity and not on the way out.\<close>

abbreviation promised_general :: "grant_record \<Rightarrow> bool" where
  "promised_general g \<equiv> gr_state g \<noteq> GsWithdrawing \<and> gr_class g = GcGeneral"

abbreviation promised_protected :: "grant_record \<Rightarrow> bool" where
  "promised_protected g \<equiv> gr_state g \<noteq> GsWithdrawing \<and> gr_class g = GcProtected"

lemma sat_min: "min amount_max (min amount_max x + y) = min amount_max (x + y)" for x y :: nat
  by simp

lemma totals_step:
  assumes "holds_capacity (gr_state g)"
  shows "unat (pt_committed (add_to_totals g t)) =
           min amount_max (unat (pt_committed t) + (if is_committed g then unat (gr_amount g) else 0))"
    and "unat (pt_withdrawing (add_to_totals g t)) =
           min amount_max (unat (pt_withdrawing t) + (if gr_state g = GsWithdrawing then unat (gr_amount g) else 0))"
    and "unat (pt_reserved (add_to_totals g t)) =
           min amount_max (unat (pt_reserved t) + (if gr_state g = GsReserved then unat (gr_amount g) else 0))"
    and "unat (pt_reclaimable (add_to_totals g t)) =
           min amount_max (unat (pt_reclaimable t) + (if is_reclaimable (gr_state g) then unat (gr_amount g) else 0))"
    and "unat (pt_protected_held (add_to_totals g t)) =
           min amount_max (unat (pt_protected_held t) + (if is_protected g then unat (gr_amount g) else 0))"
  using unat_le_max [of "pt_committed t"] unat_le_max [of "pt_withdrawing t"]
    unat_le_max [of "pt_reserved t"] unat_le_max [of "pt_reclaimable t"]
    unat_le_max [of "pt_protected_held t"]
  by (auto simp: add_to_totals_def Let_def unat_saturating_add min_absorb2)

lemma fold_saturates:
  assumes "\<And>g t. unat (sel (step g t)) = min amount_max (unat (sel t :: u64) + f g)"
  shows "unat (sel (fold step gs t)) = min amount_max (unat (sel t) + sum_list (map f gs))"
proof (induction gs arbitrary: t)
  case Nil
  then show ?case using unat_le_max [of "sel t"] by (simp add: min_absorb2)
next
  case (Cons g gs)
  show ?case by (simp add: Cons.IH assms add.assoc)
qed

lemma totals_for_sum:
  assumes "\<And>g t. holds_capacity (gr_state g) \<Longrightarrow>
      unat (sel (add_to_totals g t)) = min amount_max (unat (sel t :: u64) + (if Q g then unat (gr_amount g) else 0))"
    and "sel zero_totals = 0"
  shows "unat (sel (totals_for a path)) = min amount_max (held Q a path)"
proof -
  let ?step = "\<lambda>g t. if gb_path (gr_binding g) \<noteq> path \<or> \<not> holds_capacity (gr_state g) then t
                 else add_to_totals g t"
  have "unat (sel (?step g t)) = min amount_max (unat (sel t) + held_by Q path g)" for g t
    using unat_le_max [of "sel t"] by (auto simp: held_by_def assms(1) min_absorb2)
  then have "unat (sel (fold ?step gs t)) = min amount_max (unat (sel t) + sum_list (map (held_by Q path) gs))"
    for gs t by (rule fold_saturates)
  then show ?thesis using assms(2) by (simp add: totals_for_def held_def om_sum_def)
qed

lemma totals_for_held:
  "unat (pt_committed (totals_for a path)) = min amount_max (held is_committed a path)"
  "unat (pt_withdrawing (totals_for a path)) = min amount_max (held (\<lambda>g. gr_state g = GsWithdrawing) a path)"
  "unat (pt_reserved (totals_for a path)) = min amount_max (held (\<lambda>g. gr_state g = GsReserved) a path)"
  "unat (pt_reclaimable (totals_for a path)) = min amount_max (held (\<lambda>g. is_reclaimable (gr_state g)) a path)"
  "unat (pt_protected_held (totals_for a path)) = min amount_max (held is_protected a path)"
proof -
  have zero: "pt_committed zero_totals = 0" "pt_withdrawing zero_totals = 0" "pt_reserved zero_totals = 0"
    "pt_reclaimable zero_totals = 0" "pt_protected_held zero_totals = 0"
    by (simp_all add: zero_totals_def)
  show "unat (pt_committed (totals_for a path)) = min amount_max (held is_committed a path)"
    by (rule totals_for_sum [OF totals_step(1) zero(1)])
  show "unat (pt_withdrawing (totals_for a path)) = min amount_max (held (\<lambda>g. gr_state g = GsWithdrawing) a path)"
    by (rule totals_for_sum [OF totals_step(2) zero(2)])
  show "unat (pt_reserved (totals_for a path)) = min amount_max (held (\<lambda>g. gr_state g = GsReserved) a path)"
    by (rule totals_for_sum [OF totals_step(3) zero(3)])
  show "unat (pt_reclaimable (totals_for a path)) = min amount_max (held (\<lambda>g. is_reclaimable (gr_state g)) a path)"
    by (rule totals_for_sum [OF totals_step(4) zero(4)])
  show "unat (pt_protected_held (totals_for a path)) = min amount_max (held is_protected a path)"
    by (rule totals_for_sum [OF totals_step(5) zero(5)])
qed

text \<open>The buckets partition what is held.\<close>

lemma held_split:
  "held Q a path = held (\<lambda>g. Q g \<and> R g) a path + held (\<lambda>g. Q g \<and> \<not> R g) a path"
proof -
  have "held_by Q path = (\<lambda>g. held_by (\<lambda>g. Q g \<and> R g) path g + held_by (\<lambda>g. Q g \<and> \<not> R g) path g)"
    by (auto simp: held_by_def)
  then show ?thesis by (simp add: held_def om_sum_add)
qed

lemma held_cong:
  "(\<And>g. holds_capacity (gr_state g) \<Longrightarrow> Q g \<longleftrightarrow> R g) \<Longrightarrow> held Q a path = held R a path"
  unfolding held_def by (rule arg_cong [where f = "\<lambda>f. om_sum f _"]) (auto simp: held_by_def fun_eq_iff)

lemma held_mono:
  "(\<And>g. holds_capacity (gr_state g) \<Longrightarrow> Q g \<Longrightarrow> R g) \<Longrightarrow> held Q a path \<le> held R a path"
  unfolding held_def by (rule om_sum_le) (auto simp: held_by_def)

lemma grant_class_cases: "gr_class g = GcGeneral \<longleftrightarrow> gr_class g \<noteq> GcProtected"
  by (cases "gr_class g") simp_all

lemma held_committed_reserved:
  "held is_committed a path + held (\<lambda>g. gr_state g = GsReserved) a path =
   held promised_general a path + held promised_protected a path"
proof -
  have "held is_committed a path + held (\<lambda>g. gr_state g = GsReserved) a path =
      held (\<lambda>g. gr_state g \<noteq> GsWithdrawing) a path"
    by (subst held_split [of "\<lambda>g. gr_state g \<noteq> GsWithdrawing" a path "is_committed"])
       (auto simp: holds_capacity_iff intro!: arg_cong2 [where f = "(+)"] held_cong)
  also have "\<dots> = held promised_general a path + held promised_protected a path"
    by (subst held_split [of _ _ _ "\<lambda>g. gr_class g = GcGeneral"])
       (auto simp: grant_class_cases intro!: arg_cong2 [where f = "(+)"] held_cong)
  finally show ?thesis .
qed

section \<open>Floors and ceilings\<close>

lemma unat_path_basis: "unat (path_basis path) = unat (pr_authoritative_usable path) - unat (pr_unavailable path)"
  by (auto simp: path_basis_def unat_sub word_le_nat_alt word_less_nat_alt)

lemma protected_floor_eq: "protected_floor a path = rebalance_floor path (au_policy a)"
  by (simp add: protected_floor_def rebalance_floor_def Let_def)

definition floor_wanted :: "path_record \<Rightarrow> policy \<Rightarrow> nat" where
  "floor_wanted path pol = max (unat (po_protected_floor_units pol))
     (unat (fraction_bps (pr_authoritative_usable path) (po_protected_floor_bps pol)))"

lemma unat_rebalance_floor:
  "unat (rebalance_floor path pol) = min (floor_wanted path pol) (unat (path_basis path))"
  by (auto simp: rebalance_floor_def floor_wanted_def Let_def word_less_nat_alt unat_max_amount min_def)

lemma rebalance_floor_le:
  "unat (rebalance_floor path pol) \<le> unat (pr_authoritative_usable path) - unat (pr_unavailable path)"
  by (simp add: unat_rebalance_floor unat_path_basis)

lemma minimum_free_le: "unat (minimum_free a path) \<le> unat (path_basis path)"
  by (auto simp: minimum_free_def Let_def word_less_nat_alt not_less)

text \<open>An oversubscription authority that counts for a path under a policy at a time.\<close>

definition qualifies :: "authority \<Rightarrow> path_record \<Rightarrow> policy \<Rightarrow> u64 \<Rightarrow> oversubscription_authority \<Rightarrow> bool" where
  "qualifies a path pol now_ms oa \<longleftrightarrow>
     oa_path oa = pr_id path \<and> oa_ratio_bps oa > 10000 \<and> oa_epoch oa = au_epoch a \<and>
     oa_policy_generation oa = po_generation pol \<and> oa_path_generation oa = pr_generation path \<and>
     oa_capacity_generation oa = pr_capacity_generation path \<and>
     (now_ms = 0 \<or> is_live_at oa now_ms)"

definition best_bps :: "authority \<Rightarrow> path_record \<Rightarrow> policy \<Rightarrow> u64 \<Rightarrow> u32" where
  "best_bps a path pol now_ms =
     fold (\<lambda>oa best. if qualifies a path pol now_ms oa then max best (oa_ratio_bps oa) else best)
       (om_vals (au_oversubscriptions a)) 0"

lemma fold_max_le:
  "fold (\<lambda>x best. if Q x then max best (f x) else best) xs b \<le> (c :: 'a::linorder) \<longleftrightarrow>
     b \<le> c \<and> (\<forall>x \<in> set xs. Q x \<longrightarrow> f x \<le> c)"
  by (induction xs arbitrary: b) auto

lemma best_bps_le:
  "best_bps a path pol now_ms \<le> c \<longleftrightarrow>
     (\<forall>oa \<in> set (om_vals (au_oversubscriptions a)). qualifies a path pol now_ms oa \<longrightarrow> oa_ratio_bps oa \<le> c)"
  by (simp add: best_bps_def fold_max_le)

lemma rebalance_bps_best:
  "rebalance_bps a path pol now_ms = min (best_bps a path pol now_ms) (po_max_oversubscription_bps pol)"
  unfolding rebalance_bps_def best_bps_def
  by (intro arg_cong2 [where f = min] fold_cong refl ext) (auto simp: qualifies_def)

lemma live_bps_eq:
  assumes "om_find p (au_paths a) = Some rec" and "pr_id rec = p"
  shows "value_or_zero (live_oversubscription_bps a p now_ms) = rebalance_bps a rec (au_policy a) now_ms"
proof -
  have "fold (\<lambda>oa best.
                if oa_path oa \<noteq> p then best
                else if oa_ratio_bps oa \<le> 10000 then best
                else if now_ms \<noteq> 0 \<and> \<not> is_live_at oa now_ms then best
                else if oa_epoch oa \<noteq> au_epoch a then best
                else if oa_policy_generation oa \<noteq> po_generation (au_policy a) then best
                else if oa_path_generation oa \<noteq> pr_generation rec then best
                else if oa_capacity_generation oa \<noteq> pr_capacity_generation rec then best
                else max best (oa_ratio_bps oa)) (om_vals (au_oversubscriptions a)) 0
      = best_bps a rec (au_policy a) now_ms"
    unfolding best_bps_def using assms(2) by (intro fold_cong refl ext) (auto simp: qualifies_def)
  then show ?thesis using assms(1)
    by (simp add: live_oversubscription_bps_def value_or_zero_def rebalance_bps_best Let_def)
qed

lemma rebalance_bps_anytime: "rebalance_bps a path pol now_ms \<le> rebalance_bps a path pol 0"
proof -
  have "best_bps a path pol now_ms \<le> best_bps a path pol 0"
    unfolding best_bps_le [of a path pol now_ms]
    using best_bps_le [of a path pol 0 "best_bps a path pol 0"] by (auto simp: qualifies_def)
  then show ?thesis by (simp add: rebalance_bps_best min.coboundedI1)
qed

text \<open>What a path may carry at most: usable capacity plus the authorized extension.\<close>

definition ceiling_at :: "authority \<Rightarrow> path_record \<Rightarrow> policy \<Rightarrow> u64 \<Rightarrow> nat" where
  "ceiling_at a path pol now_ms =
     unat (saturating_add (pr_authoritative_usable path)
       (oversubscription_extension (pr_authoritative_usable path) (rebalance_bps a path pol now_ms)))"

lemma ceiling_at_ge: "unat (pr_authoritative_usable path) \<le> ceiling_at a path pol now_ms"
  using unat_le_max [of "pr_authoritative_usable path"] by (simp add: ceiling_at_def unat_saturating_add)

lemma ceiling_anytime: "ceiling_at a path pol now_ms \<le> ceiling_at a path pol 0"
  unfolding ceiling_at_def unat_saturating_add
  by (intro min.mono add_left_mono order_refl oversubscription_extension_mono rebalance_bps_anytime)

section \<open>Fitting\<close>

definition path_fits :: "authority \<Rightarrow> path_record \<Rightarrow> bool" where
  "path_fits a rec \<longleftrightarrow>
     pr_unavailable rec \<le> pr_authoritative_usable rec \<and>
     held promised_protected a (pr_id rec) \<le> unat (protected_floor a rec) \<and>
     held promised_general a (pr_id rec) + unat (protected_floor a rec) + unat (pr_unavailable rec)
       \<le> ceiling_at a rec (au_policy a) 0"

definition capacity_safe :: "authority \<Rightarrow> bool" where
  "capacity_safe a \<longleftrightarrow> (\<forall>p rec. om_find p (au_paths a) = Some rec \<longrightarrow> path_fits a rec)"

section \<open>The ledger\<close>

text \<open>The ledger of a path in natural numbers: its structural and its blocked obligations.\<close>

definition structural :: "path_totals \<Rightarrow> path_record \<Rightarrow> amount \<Rightarrow> nat" where
  "structural t rec fl =
     unat (pt_committed t) + unat (pt_reserved t) + (unat fl - unat (pt_protected_held t)) +
     unat (pr_unavailable rec)"

definition blocked :: "path_totals \<Rightarrow> path_record \<Rightarrow> amount \<Rightarrow> amount \<Rightarrow> nat" where
  "blocked t rec fl mf = structural t rec fl + unat (pt_withdrawing t) + unat mf"

lemma reclaimable_le_held:
  "unat (pt_reclaimable (totals_for a p)) \<le>
     unat (pt_committed (totals_for a p)) + unat (pt_withdrawing (totals_for a p)) +
     unat (pt_reserved (totals_for a p))"
proof -
  have "held (\<lambda>g. is_reclaimable (gr_state g)) a p \<le>
      held (\<lambda>g. is_reclaimable (gr_state g) \<and> is_committed g) a p +
      held (\<lambda>g. is_reclaimable (gr_state g) \<and> \<not> is_committed g) a p"
    by (subst held_split [of _ _ _ is_committed]) simp
  also have "\<dots> \<le> held is_committed a p +
      (held (\<lambda>g. gr_state g = GsWithdrawing) a p + held (\<lambda>g. gr_state g = GsReserved) a p)"
  proof (intro add_mono held_mono)
    show "held (\<lambda>g. is_reclaimable (gr_state g) \<and> \<not> is_committed g) a p \<le>
        held (\<lambda>g. gr_state g = GsWithdrawing) a p + held (\<lambda>g. gr_state g = GsReserved) a p"
      by (subst held_split [of _ _ _ "\<lambda>g. gr_state g = GsWithdrawing"])
         (intro add_mono held_mono; auto simp: is_reclaimable_def)
  qed simp
  finally show ?thesis unfolding totals_for_held by linarith
qed

lemma ledger_cases:
  assumes "om_find p (au_paths a) = Some rec" and "pr_unavailable rec \<le> pr_authoritative_usable rec"
  defines "t \<equiv> totals_for a p" and "fl \<equiv> protected_floor a rec" and "mf \<equiv> minimum_free a rec"
    and "ext \<equiv> oversubscription_extension (pr_authoritative_usable rec)
                 (value_or_zero (live_oversubscription_bps a p 0))"
  defines "basis \<equiv> unat (pr_authoritative_usable rec) + unat ext"
  shows "if basis \<le> amount_max \<and> blocked t rec fl mf \<le> amount_max
    then \<exists>l. ledger a p = Inr l \<and> verify_closure l = StOk \<and>
      cl_authoritative_usable l = pr_authoritative_usable rec \<and> cl_authorized_extension l = ext \<and>
      cl_committed l = pt_committed t \<and> cl_withdrawing l = pt_withdrawing t \<and>
      cl_reserved l = pt_reserved t \<and> cl_reclaimable l = pt_reclaimable t \<and>
      cl_unavailable l = pr_unavailable rec \<and>
      unat (cl_protected_headroom l) = unat fl - unat (pt_protected_held t) \<and>
      unat (cl_free l) = basis - structural t rec fl \<and>
      unat (cl_oversubscribed l) = structural t rec fl - basis \<and>
      unat (cl_allocatable l) = basis - blocked t rec fl mf
    else ledger a p = Inl StLimitExceeded"
proof -
  define hr where "hr = (if pt_protected_held t \<ge> fl then 0 else fl - pt_protected_held t)"
  have uhr: "unat hr = unat fl - unat (pt_protected_held t)"
    by (auto simp: hr_def unat_sub word_le_nat_alt not_le)
  define c r u w where "c = pt_committed t" and "r = pt_reserved t" and "u = pr_unavailable rec"
    and "w = pt_withdrawing t"
  have st: "structural t rec fl = unat c + unat r + unat hr + unat u"
    by (simp add: structural_def uhr c_def r_def u_def)
  define b where "b = pr_authoritative_usable rec + ext"
  note defs = t_def [symmetric] fl_def [symmetric] mf_def [symmetric] ext_def [symmetric]
    hr_def [symmetric] c_def [symmetric] r_def [symmetric] u_def [symmetric] w_def [symmetric]
  show ?thesis
  proof (cases "basis \<le> amount_max \<and> blocked t rec fl mf \<le> amount_max")
    case False
    then show ?thesis
      using assms(1,2)
      by (simp add: ledger_def Let_def defs ledger_basis_def checked_add_if blocked_def st basis_def
          unat_add_fits)
  next
    case True
    then have ub: "unat b = basis" unfolding b_def basis_def by (intro unat_add_fits) simp
    have s: "unat (c + r + hr + u) = structural t rec fl" "unat (c + r + hr + u + w) = structural t rec fl + unat w"
      "unat (c + r + hr + u + w + mf) = blocked t rec fl mf"
      using True by (simp_all add: blocked_def st w_def unat_add_fits)
    define l where "l = empty_ledger
        \<lparr>cl_authoritative_usable := pr_authoritative_usable rec, cl_committed := c,
         cl_withdrawing := w, cl_reserved := r, cl_protected_headroom := hr, cl_unavailable := u,
         cl_free := (if c + r + hr + u \<le> b then b - (c + r + hr + u) else 0),
         cl_allocatable := (if c + r + hr + u + w + mf < b then b - (c + r + hr + u + w + mf) else 0),
         cl_reclaimable := pt_reclaimable t,
         cl_oversubscribed := (if c + r + hr + u \<le> b then 0 else (c + r + hr + u) - b),
         cl_authorized_extension := ext\<rparr>"
    have uf: "unat (cl_free l) = basis - structural t rec fl"
      "unat (cl_oversubscribed l) = structural t rec fl - basis"
      "unat (cl_allocatable l) = basis - blocked t rec fl mf"
      by (auto simp: l_def unat_sub word_le_nat_alt word_less_nat_alt s ub not_less not_le)
    have rec_le: "unat (pt_reclaimable t) \<le> unat c + unat w + unat r"
      using reclaimable_le_held [of a p] by (simp add: t_def c_def w_def r_def)
    have closure: "verify_closure l = StOk"
    proof (rule verify_closure_intro)
      show "unat (cl_free l) + unat (cl_committed l) + unat (cl_reserved l) +
             unat (cl_protected_headroom l) + unat (cl_unavailable l) =
           unat (cl_authoritative_usable l) + unat (cl_authorized_extension l) + unat (cl_oversubscribed l)"
        unfolding uf by (simp add: l_def st basis_def)
      show "unat (cl_authoritative_usable l) + unat (cl_authorized_extension l) + unat (cl_oversubscribed l)
           \<le> amount_max"
        unfolding uf using True by (simp add: l_def blocked_def basis_def) arith
      show "unat (cl_committed l) + unat (cl_withdrawing l) + unat (cl_reserved l) \<le> amount_max"
        using True by (simp add: l_def blocked_def st w_def)
    qed (use rec_le in \<open>simp add: l_def\<close>)
    have adds: "checked_add (pr_authoritative_usable rec) ext = Inr b" "checked_add c r = Inr (c + r)"
      "checked_add (c + r) hr = Inr (c + r + hr)" "checked_add (c + r + hr) u = Inr (c + r + hr + u)"
      "checked_add (c + r + hr + u) w = Inr (c + r + hr + u + w)"
      "checked_add (c + r + hr + u + w) mf = Inr (c + r + hr + u + w + mf)"
      using True by (simp_all add: checked_add_if blocked_def st w_def basis_def b_def unat_add_fits)
    have nu: "\<not> pr_authoritative_usable rec < u" using assms(2) by (simp add: u_def not_less)
    have "ledger a p = (if verify_closure l \<noteq> StOk then Inl StConflicting else Inr l)"
      unfolding l_def
      by (cases "c + r + hr + u \<le> b"; cases "c + r + hr + u + w + mf < b")
         (simp_all add: ledger_def Let_def assms(1) defs nu ledger_basis_def adds empty_ledger_def)
    then have "ledger a p = Inr l" using closure by simp
    then show ?thesis using True closure uf
      by (auto simp: l_def uhr c_def r_def u_def w_def simp del: One_nat_def)
  qed
qed

text \<open>
  A path that fits is not oversubscribed, whatever is still draining from it.
\<close>

lemma structural_fits:
  assumes "path_fits a rec"
  shows "structural (totals_for a (pr_id rec)) rec (protected_floor a rec) \<le> ceiling_at a rec (au_policy a) 0"
proof -
  let ?p = "pr_id rec"
  have fits: "held promised_protected a ?p \<le> unat (protected_floor a rec)"
    "held promised_general a ?p + unat (protected_floor a rec) + unat (pr_unavailable rec)
       \<le> ceiling_at a rec (au_policy a) 0"
    using assms by (auto simp: path_fits_def)
  have "held promised_protected a ?p \<le> held is_protected a ?p" by (rule held_mono) simp
  moreover have "unat (protected_floor a rec) \<le> amount_max" by (rule unat_le_max)
  moreover have "ceiling_at a rec (au_policy a) 0 \<le> amount_max" unfolding ceiling_at_def by (rule unat_le_max)
  ultimately show ?thesis
    using fits held_committed_reserved [of a ?p] unfolding structural_def totals_for_held by linarith
qed

lemma fits_not_oversubscribed:
  assumes "om_find p (au_paths a) = Some rec" and "pr_id rec = p" and "path_fits a rec"
    and "ledger a p = Inr l"
  shows "cl_oversubscribed l = 0"
proof -
  have "pr_unavailable rec \<le> pr_authoritative_usable rec" using assms(3) by (simp add: path_fits_def)
  from ledger_cases [OF assms(1) this] assms(4)
  obtain "unat (cl_oversubscribed l) = structural (totals_for a p) rec (protected_floor a rec) -
      (unat (pr_authoritative_usable rec) + unat (oversubscription_extension (pr_authoritative_usable rec)
                 (value_or_zero (live_oversubscription_bps a p 0))))"
    by (auto split: if_splits)
  moreover have "structural (totals_for a p) rec (protected_floor a rec) \<le>
      unat (pr_authoritative_usable rec) + unat (oversubscription_extension (pr_authoritative_usable rec)
                 (value_or_zero (live_oversubscription_bps a p 0)))"
    using structural_fits [OF assms(3)] live_bps_eq [OF assms(1,2)]
    by (simp add: assms(2) ceiling_at_def unat_saturating_add)
  ultimately have "unat (cl_oversubscribed l) = 0" by simp
  then show ?thesis by (simp add: unat_eq_zero)
qed

end
