(* ===== verification/Steps.thy ===== *)
theory Steps
  imports Ledger
begin

text \<open>
  What the planned post-images of a request may be, and the step relation of the authority:
  a request is planned and the resulting mutation is applied in full. Every grant image other
  than a new proposal is a legal successor of the grant it replaces (\<open>legal_image\<close>); the
  later theories derive lifecycle, identity, release and verification properties from that.
\<close>

section \<open>Legal images\<close>

text \<open>What no operation changes about a grant.\<close>

definition same_grant :: "grant_record \<Rightarrow> grant_record \<Rightarrow> bool" where
  "same_grant g g' \<longleftrightarrow>
     gr_id g' = gr_id g \<and> gr_request g' = gr_request g \<and> gr_arbitration g' = gr_arbitration g \<and>
     gr_class g' = gr_class g \<and> gr_amount g' = gr_amount g \<and>
     gr_created_at_ms g' = gr_created_at_ms g \<and> gr_expires_at_ms g' = gr_expires_at_ms g \<and>
     gb_holder (gr_binding g') = gb_holder (gr_binding g) \<and>
     gb_path (gr_binding g') = gb_path (gr_binding g) \<and>
     gb_lease (gr_binding g') = gb_lease (gr_binding g)"

definition promised :: "grant_record \<Rightarrow> bool" where
  "promised g \<longleftrightarrow> holds_capacity (gr_state g) \<and> gr_state g \<noteq> GsWithdrawing"

definition is_reconcile :: "request \<Rightarrow> bool" where
  "is_reconcile rq \<longleftrightarrow> (\<exists>op target prin. rq = RqReconcileGrant op target prin)"

text \<open>The image turns a verification result into the grant's verification state.\<close>

definition verifies :: "request \<Rightarrow> grant_record \<Rightarrow> bool" where
  "verifies rq g \<longleftrightarrow>
     (\<exists>v. rq = RqVerifyGrant v \<and> gv_grant v = gr_id g \<and> gv_result v = VsVerified \<and>
        \<not> is_nil (gv_verifier v) \<and> \<not> is_nil (gv_id v))"

text \<open>The request reserves this grant, or reconciles it back to active.\<close>

definition promises :: "request \<Rightarrow> grant_record \<Rightarrow> bool" where
  "promises rq g \<longleftrightarrow>
     (\<exists>op. rq = RqReserveGrant op \<and> go_grant op = gr_id g \<and> gr_state g = GsEligible) \<or>
     (\<exists>op prin. rq = RqReconcileGrant op GsActive prin \<and> go_grant op = gr_id g)"

definition legal_image :: "request \<Rightarrow> grant_record \<Rightarrow> grant_record \<Rightarrow> bool \<Rightarrow> bool" where
  "legal_image rq g g' releases \<longleftrightarrow>
     same_grant g g' \<and>
     (gr_state g' = gr_state g \<or> can_transition (gr_state g) (gr_state g') \<or>
      is_reconcile rq \<and> \<not> is_terminal (gr_state g)) \<and>
     (if releases then \<not> holds_capacity (gr_state g')
      else holds_capacity (gr_state g) \<longrightarrow> holds_capacity (gr_state g')) \<and>
     (gr_verification g' = VsVerified \<longrightarrow> gr_verification g = VsVerified \<or> verifies rq g) \<and>
     (promised g' \<longrightarrow> promised g \<or> promises rq g)"

definition image_of_grant :: "authority \<Rightarrow> request \<Rightarrow> grant_record \<Rightarrow> bool \<Rightarrow> bool" where
  "image_of_grant a rq g' releases \<longleftrightarrow>
     (\<exists>g. om_find (gr_id g') (au_grants a) = Some g \<and> legal_image rq g g' releases)"

text \<open>A proposal introduces a grant under an unused identity.\<close>

definition new_grant :: "authority \<Rightarrow> request \<Rightarrow> grant_record \<Rightarrow> bool" where
  "new_grant a rq g' \<longleftrightarrow>
     (\<exists>p. rq = RqProposeGrant p \<and> gr_request g' = gp_request p \<and> gr_amount g' = gp_amount p) \<and>
     om_find (gr_id g') (au_grants a) = None \<and>
     om_find (gr_request g') (au_request_index a) = None \<and>
     gr_state g' = GsProposed \<and> gr_verification g' = VsUnverified \<and> gr_amount g' \<noteq> 0 \<and>
     \<not> is_nil (gr_request g') \<and>
     om_find (gb_path (gr_binding g')) (au_paths a) \<noteq> None \<and>
     om_find (gb_holder (gr_binding g')) (au_sites a) \<noteq> None"

lemma same_grant_refl [simp]: "same_grant g g"
  by (simp add: same_grant_def)

lemma structure_grant:
  assumes "structure_ok a" and "g \<in> set (om_vals (au_grants a))"
  shows "om_find (gr_id g) (au_grants a) = Some g"
proof -
  have wf: "om_wf (au_grants a)" using assms(1) by (simp add: structure_ok_def tables_wf_def)
  obtain k where "(k, g) \<in> set (au_grants a)" using assms(2) by (auto simp: om_vals_def)
  then have k: "om_find k (au_grants a) = Some g" using wf by (simp add: om_in_iff)
  then have "gr_id g = k" using assms(1) by (auto simp: structure_ok_def entries_ok_def)
  with k show ?thesis by simp
qed

lemma structure_grant_id:
  "structure_ok a \<Longrightarrow> om_find k (au_grants a) = Some g \<Longrightarrow> gr_id g = k"
  by (auto simp: structure_ok_def entries_ok_def)

lemma structure_path_id:
  "structure_ok a \<Longrightarrow> om_find k (au_paths a) = Some p \<Longrightarrow> pr_id p = k"
  by (auto simp: structure_ok_def entries_ok_def)

lemma image_of_grantI:
  assumes "structure_ok a" and "g \<in> set (om_vals (au_grants a))" and "legal_image rq g g' rel"
  shows "image_of_grant a rq g' rel"
  using structure_grant [OF assms(1,2)] assms(3)
  by (auto simp: image_of_grant_def legal_image_def same_grant_def)

section \<open>Images of the shared helpers\<close>

text \<open>An update that only moves the state down and leaves the verification.\<close>

definition demotes :: "grant_record \<Rightarrow> grant_record \<Rightarrow> bool" where
  "demotes g g' \<longleftrightarrow>
     same_grant g g' \<and>
     (gr_state g' = gr_state g \<or>
      holds_capacity (gr_state g) \<and> gr_state g \<noteq> GsWithdrawing \<and> gr_state g' = GsWithdrawing \<or>
      gr_state g = GsActive \<and> gr_state g' = GsDegraded) \<and>
     (gr_verification g' = gr_verification g \<or> gr_verification g' = VsUnverified)"

lemma demotes_legal: "demotes g g' \<Longrightarrow> legal_image rq g g' False"
  by (auto simp: demotes_def legal_image_def promised_def holds_capacity_iff can_transition_step
      grant_step_simps)

lemma demotes_active:
  "gr_state g = GsActive \<Longrightarrow>
     demotes g (g\<lparr>gr_state := GsDegraded, gr_updated_at_ms := now_ms, gr_reason := reason\<rparr>)"
  by (simp add: demotes_def same_grant_def)

lemma demotes_reserved:
  "gr_state g = GsReserved \<Longrightarrow>
     demotes g (g\<lparr>gr_state := GsWithdrawing, gr_updated_at_ms := now_ms, gr_reason := reason\<rparr>)"
  by (simp add: demotes_def same_grant_def)

lemma append_downgrades_image:
  "(ob, rel) \<in> set (append_downgrades a reason site path now_ms) \<Longrightarrow>
     \<exists>g g'. ob = OGrant g' \<and> \<not> rel \<and> g \<in> set (om_vals (au_grants a)) \<and> demotes g g'"
  by (auto simp: append_downgrades_def split: if_splits option.splits intro: demotes_active demotes_reserved)

lemma withdraw_to_fit_image:
  "(ob, rel) \<in> set (fst (withdraw_to_fit reason now_ms klass limit remaining gs)) \<Longrightarrow>
     \<exists>g. g \<in> set gs \<and> gr_class g = klass \<and> gr_state g \<noteq> GsWithdrawing \<and> \<not> rel \<and>
       ob = OGrant (g\<lparr>gr_state := GsWithdrawing, gr_reason := bounded reason, gr_updated_at_ms := now_ms\<rparr>)"
  by (induction reason now_ms klass limit remaining gs rule: withdraw_to_fit.induct)
     (auto split: if_splits prod.splits)

lemma withdraw_to_fit_list:
  "g' \<in> set (snd (withdraw_to_fit reason now_ms klass limit remaining gs)) \<Longrightarrow>
     \<exists>g \<in> set gs. g' = g \<or> g' = g\<lparr>gr_state := GsWithdrawing\<rparr>"
  by (induction reason now_ms klass limit remaining gs rule: withdraw_to_fit.induct)
     (auto split: if_splits prod.splits)

lemma rebind_grant_image:
  "(ob, rel) \<in> set (rebind_grant path pol now_ms reason rp rc g) \<Longrightarrow>
     \<exists>g'. ob = OGrant g' \<and> \<not> rel \<and> same_grant g g' \<and> gr_state g' = gr_state g \<and>
       gr_verification g' = gr_verification g \<and> gr_state g \<noteq> GsWithdrawing"
  by (auto simp: rebind_grant_def Let_def same_grant_def split: if_splits)

lemma holding_grants_set:
  "set (holding_grants a path) =
     {g \<in> set (om_vals (au_grants a)). gb_path (gr_binding g) = path \<and> holds_capacity (gr_state g)}"
  by (auto simp: holding_grants_def)

lemma rebalance_image:
  assumes "(ob, rel) \<in> set (rebalance_path a path pol now_ms reason rp rc)"
  shows "\<exists>g g'. ob = OGrant g' \<and> \<not> rel \<and> g \<in> set (holding_grants a (pr_id path)) \<and> demotes g g'"
proof -
  let ?h = "holding_grants a (pr_id path)"
  obtain out1 l1 where w1: "withdraw_to_fit reason now_ms GcProtected (rebalance_floor path pol)
      (authorized_amount GcProtected ?h) (rev ?h) = (out1, l1)" by fastforce
  obtain out2 l2 where w2: "withdraw_to_fit reason now_ms GcGeneral
      (rebalance_general_ceiling a path pol now_ms) (authorized_amount GcGeneral ?h) l1 = (out2, l2)"
    by fastforce
  have l1: "\<exists>g0 \<in> set ?h. g = g0 \<or> g = g0\<lparr>gr_state := GsWithdrawing\<rparr>" if "g \<in> set l1" for g
    using that withdraw_to_fit_list [of g reason now_ms GcProtected "rebalance_floor path pol"
        "authorized_amount GcProtected ?h" "rev ?h"] by (auto simp: w1)
  have l2: "\<exists>g0 \<in> set ?h. g = g0 \<or> g = g0\<lparr>gr_state := GsWithdrawing\<rparr>" if g: "g \<in> set l2" for g
  proof -
    have "\<exists>g0 \<in> set l1. g = g0 \<or> g = g0\<lparr>gr_state := GsWithdrawing\<rparr>"
      using g withdraw_to_fit_list [of g reason now_ms GcGeneral "rebalance_general_ceiling a path pol now_ms"
        "authorized_amount GcGeneral ?h" l1] by (auto simp: w2)
    with l1 show ?thesis by force
  qed
  have h: "holds_capacity (gr_state g)" if "g \<in> set ?h" for g
    using that by (simp add: holding_grants_set)
  from assms consider "(ob, rel) \<in> set out1" | "(ob, rel) \<in> set out2"
    | g where "g \<in> set l2" "(ob, rel) \<in> set (rebind_grant path pol now_ms reason rp rc g)"
    by (auto simp: rebalance_path_def w1 w2 Let_def split: if_splits)
  then show ?thesis
  proof cases
    case 1
    with withdraw_to_fit_image [of ob rel reason now_ms GcProtected "rebalance_floor path pol"
        "authorized_amount GcProtected ?h" "rev ?h"] w1 h show ?thesis
      by (force simp: demotes_def same_grant_def)
  next
    case 2
    with withdraw_to_fit_image [of ob rel reason now_ms GcGeneral "rebalance_general_ceiling a path pol now_ms"
        "authorized_amount GcGeneral ?h" l1] w2 l1 h show ?thesis
      by (force simp: demotes_def same_grant_def)
  next
    case 3
    then obtain g' where g': "ob = OGrant g'" "\<not> rel" "same_grant g g'" "gr_state g' = gr_state g"
      "gr_verification g' = gr_verification g" "gr_state g \<noteq> GsWithdrawing"
      using rebind_grant_image by blast
    with l2 [OF 3(1)] have "g \<in> set ?h" by auto
    with g' show ?thesis by (auto simp: demotes_def)
  qed
qed

section \<open>Images of every request\<close>

text \<open>What an image may be: a legal successor, a new proposal, or not a grant at all.\<close>

definition legal_post_image :: "authority \<Rightarrow> request \<Rightarrow> post_image \<Rightarrow> bool" where
  "legal_post_image a rq img \<longleftrightarrow>
     (case img of
        (OGrant g', rel) \<Rightarrow> image_of_grant a rq g' rel \<or> new_grant a rq g' \<and> \<not> rel
      | (ob, rel) \<Rightarrow> \<not> rel)"

lemma legal_demoted:
  assumes "structure_ok a"
    and "\<exists>g g'. ob = OGrant g' \<and> \<not> rel \<and> g \<in> set (om_vals (au_grants a)) \<and> demotes g g'"
  shows "legal_post_image a rq (ob, rel)"
proof -
  obtain g g' where g: "ob = OGrant g'" "\<not> rel" "g \<in> set (om_vals (au_grants a))" "demotes g g'"
    using assms(2) by blast
  then have "image_of_grant a rq g' False"
    using image_of_grantI [OF assms(1) g(3) demotes_legal] by blast
  with g show ?thesis by (simp add: legal_post_image_def)
qed

lemma legal_rebalance:
  "structure_ok a \<Longrightarrow> img \<in> set (rebalance_path a path pol now_ms reason rp rc) \<Longrightarrow> legal_post_image a rq img"
  using rebalance_image [of "fst img" "snd img"] legal_demoted [of a "fst img" "snd img"]
  by (force simp: holding_grants_set)

lemma legal_downgrades:
  "structure_ok a \<Longrightarrow> img \<in> set (append_downgrades a reason site path now_ms) \<Longrightarrow> legal_post_image a rq img"
  using append_downgrades_image [of "fst img" "snd img"] legal_demoted [of a "fst img" "snd img"] by force

lemma legal_plain [simp]:
  "legal_post_image a rq (OSite s, False)" "legal_post_image a rq (OPath p, False)"
  "legal_post_image a rq (ODomain d, False)" "legal_post_image a rq (OAttestation att, False)"
  "legal_post_image a rq (OVerification ver, False)" "legal_post_image a rq (OOversubscription oa, False)"
  "legal_post_image a rq (OPolicy pol, False)" "legal_post_image a rq (OEpoch e, False)"
  by (simp_all add: legal_post_image_def)

lemma legal_update:
  assumes "structure_ok a" and "om_find k (au_grants a) = Some g" and "legal_image rq g g' rel"
  shows "legal_post_image a rq (OGrant g', rel)"
  using assms structure_grant_id [OF assms(1,2)]
  by (auto simp: legal_post_image_def image_of_grant_def legal_image_def same_grant_def)

lemma legal_in_table:
  assumes "structure_ok a" and "g \<in> set (om_vals (au_grants a))" and "legal_image rq g g' rel"
  shows "legal_post_image a rq (OGrant g', rel)"
  using image_of_grantI [OF assms] by (simp add: legal_post_image_def)

lemmas image_defs = legal_image_def same_grant_def promised_def promises_def verifies_def is_reconcile_def

lemma mk_mutation_images [simp]:
  "mk_mutation arb imgs summary = Inr mu \<longleftrightarrow>
     mu = \<lparr>mu_images = imgs, mu_summary = summary, mu_arbitration = arb\<rparr>"
  by (auto simp: mk_mutation_def)

lemma holding_withdraw_legal:
  "holds_capacity (gr_state g) \<Longrightarrow> gr_state g \<noteq> GsWithdrawing \<Longrightarrow> same_grant g g' \<Longrightarrow>
     gr_state g' = GsWithdrawing \<Longrightarrow>
     gr_verification g' = gr_verification g \<or> gr_verification g' = VsUnverified \<Longrightarrow> legal_image rq g g' False"
  by (rule demotes_legal) (auto simp: demotes_def)

lemma legal_install_policy:
  assumes "structure_ok a" and "plan_install_policy a pol prin arb = Inr mu"
  shows "\<forall>img \<in> set (mu_images mu). legal_post_image a rq img"
  using assms by (auto simp: plan_install_policy_def split: if_splits intro: legal_rebalance)

lemma legal_bump_epoch:
  assumes "structure_ok a" and "plan_bump_epoch a ep prin arb = Inr mu"
  shows "\<forall>img \<in> set (mu_images mu). legal_post_image a rq img"
  using assms
  by (auto simp: plan_bump_epoch_def Let_def same_grant_def split: if_splits
      intro!: legal_in_table holding_withdraw_legal)

lemma legal_register_site:
  assumes "structure_ok a" and "plan_register_site a reg arb = Inr mu"
  shows "\<forall>img \<in> set (mu_images mu). legal_post_image a rq img"
  using assms
  by (auto simp: plan_register_site_def Let_def same_grant_def split: if_splits option.splits
      intro!: legal_in_table holding_withdraw_legal)

lemma legal_heartbeat:
  assumes "plan_heartbeat a hb arb = Inr mu"
  shows "\<forall>img \<in> set (mu_images mu). legal_post_image a rq img"
  using assms by (auto simp: plan_heartbeat_def split: if_splits option.splits)

lemma legal_set_site_state:
  assumes "structure_ok a" and "plan_set_site_state a site st reason now_ms arb = Inr mu"
  shows "\<forall>img \<in> set (mu_images mu). legal_post_image a rq img"
  using assms
  by (auto simp: plan_set_site_state_def Let_def split: if_splits option.splits intro: legal_downgrades)

lemma legal_register_path:
  assumes "structure_ok a" and "plan_register_path a reg arb = Inr mu"
  shows "\<forall>img \<in> set (mu_images mu). legal_post_image a rq img"
  using assms
  by (auto simp: plan_register_path_def domain_images_def Let_def split: if_splits option.splits
      intro: legal_rebalance)

lemma legal_set_path_state:
  assumes "structure_ok a" and "plan_set_path_state a path st reason now_ms arb = Inr mu"
  shows "\<forall>img \<in> set (mu_images mu). legal_post_image a rq img"
  using assms
  by (auto simp: plan_set_path_state_def Let_def split: if_splits option.splits
      intro: legal_downgrades legal_rebalance)

lemma legal_attest_capacity:
  assumes "structure_ok a" and "plan_attest_capacity a att arb = Inr mu"
  shows "\<forall>img \<in> set (mu_images mu). legal_post_image a rq img"
  using assms
  by (auto simp: plan_attest_capacity_def Let_def split: if_splits option.splits intro: legal_rebalance)

lemma legal_issue_oversubscription:
  assumes "plan_issue_oversubscription a oa arb = Inr mu"
  shows "\<forall>img \<in> set (mu_images mu). legal_post_image a rq img"
  using assms by (auto simp: plan_issue_oversubscription_def split: if_splits option.splits)

lemma legal_propose:
  assumes "structure_ok a" and "plan_propose_grant a p arb = Inr mu"
  shows "\<forall>img \<in> set (mu_images mu). legal_post_image a (RqProposeGrant p) img"
  using assms
  by (auto simp: plan_propose_grant_def Let_def legal_post_image_def new_grant_def structure_path_id
      split: if_splits option.splits)

lemma legal_evaluate:
  assumes "structure_ok a" and "plan_evaluate_grant a op arb = Inr mu"
  shows "\<forall>img \<in> set (mu_images mu). legal_post_image a rq img"
  using assms
  by (auto simp: plan_evaluate_grant_def Let_def image_defs can_transition_step grant_step_simps
      split: if_splits option.splits intro!: legal_update)

lemma legal_reserve:
  assumes "structure_ok a" and "plan_reserve_grant a op arb = Inr mu"
  shows "\<forall>img \<in> set (mu_images mu). legal_post_image a (RqReserveGrant op) img"
  using assms
  by (auto simp: plan_reserve_grant_def Let_def image_defs rebound_def can_transition_step grant_step_simps
      structure_grant_id split: if_splits option.splits sum.splits intro!: legal_update)

lemma legal_activate:
  assumes "structure_ok a" and "plan_activate_grant a op arb = Inr mu"
  shows "\<forall>img \<in> set (mu_images mu). legal_post_image a rq img"
  using assms
  by (auto simp: plan_activate_grant_def Let_def image_defs can_transition_step grant_step_simps
      split: if_splits option.splits intro!: legal_update)

lemma legal_degrade:
  assumes "structure_ok a" and "plan_degrade_grant a op arb = Inr mu"
  shows "\<forall>img \<in> set (mu_images mu). legal_post_image a rq img"
  using assms
  by (auto simp: plan_degrade_grant_def Let_def image_defs can_transition_step grant_step_simps
      split: if_splits option.splits intro!: legal_update)

lemma legal_withdraw:
  assumes "structure_ok a" and "plan_withdraw_grant a op arb = Inr mu"
  shows "\<forall>img \<in> set (mu_images mu). legal_post_image a rq img"
  using assms
  by (auto simp: plan_withdraw_grant_def Let_def image_defs can_transition_step grant_step_simps
      split: if_splits option.splits intro!: legal_update)

lemma legal_retire:
  assumes "structure_ok a" and "plan_retire_grant a op arb = Inr mu"
  shows "\<forall>img \<in> set (mu_images mu). legal_post_image a rq img"
  using assms
  by (auto simp: plan_retire_grant_def Let_def image_defs can_transition_step grant_step_simps
      split: if_splits option.splits intro!: legal_update)

lemma legal_cancel:
  assumes "structure_ok a" and "plan_cancel_grant a op arb = Inr mu"
  shows "\<forall>img \<in> set (mu_images mu). legal_post_image a rq img"
  using assms
  by (auto simp: plan_cancel_grant_def Let_def image_defs split: if_splits option.splits intro!: legal_update)

lemma legal_acknowledge:
  assumes "structure_ok a" and "plan_acknowledge_grant a ack arb = Inr mu"
  shows "\<forall>img \<in> set (mu_images mu). legal_post_image a rq img"
  using assms
  by (auto simp: plan_acknowledge_grant_def Let_def image_defs split: if_splits option.splits
      intro!: legal_update)

lemma legal_verify:
  assumes "structure_ok a" and "plan_verify_grant a v arb = Inr mu"
  shows "\<forall>img \<in> set (mu_images mu). legal_post_image a (RqVerifyGrant v) img"
  using assms
  by (auto simp: plan_verify_grant_def Let_def image_defs structure_grant_id split: if_splits option.splits
      intro!: legal_update)

lemma legal_reconcile:
  assumes "structure_ok a" and "plan_reconcile_grant a op target prin arb = Inr mu"
  shows "\<forall>img \<in> set (mu_images mu). legal_post_image a (RqReconcileGrant op target prin) img"
  using assms
  by (auto simp: plan_reconcile_grant_def Let_def image_defs rebound_def structure_grant_id
      split: if_splits option.splits intro!: legal_update)

lemma legal_tick_site:
  "structure_ok a \<Longrightarrow> img \<in> set (tick_site a now_ms site) \<Longrightarrow> legal_post_image a rq img"
  by (auto simp: tick_site_def Let_def split: if_splits intro: legal_downgrades)

lemma legal_tick_grant:
  "structure_ok a \<Longrightarrow> g \<in> set (om_vals (au_grants a)) \<Longrightarrow> img \<in> set (tick_grant now_ms g) \<Longrightarrow>
     legal_post_image a rq img"
  by (auto simp: tick_grant_def image_defs can_transition_step grant_step_simps split: if_splits
      intro!: legal_in_table)

lemma legal_tick:
  assumes "structure_ok a" and "plan_tick a now_ms arb = Inr mu"
  shows "\<forall>img \<in> set (mu_images mu). legal_post_image a rq img"
  using assms
  by (auto simp: plan_tick_def Let_def split: if_splits intro: legal_tick_site legal_tick_grant)

lemma plan_request_legal:
  assumes "structure_ok a" and "plan_request a rq arb = Inr mu"
  shows "\<forall>img \<in> set (mu_images mu). legal_post_image a rq img"
  using assms(2) unfolding plan_request_def
  by (cases rq)
     (simp_all only: request.case, (rule legal_install_policy [OF assms(1)] legal_bump_epoch [OF assms(1)]
        legal_register_site [OF assms(1)] legal_heartbeat legal_set_site_state [OF assms(1)]
        legal_register_path [OF assms(1)] legal_set_path_state [OF assms(1)]
        legal_attest_capacity [OF assms(1)] legal_issue_oversubscription legal_propose [OF assms(1)]
        legal_evaluate [OF assms(1)] legal_reserve [OF assms(1)] legal_activate [OF assms(1)]
        legal_degrade [OF assms(1)] legal_withdraw [OF assms(1)] legal_retire [OF assms(1)]
        legal_cancel [OF assms(1)] legal_acknowledge [OF assms(1)] legal_verify [OF assms(1)]
        legal_reconcile [OF assms(1)] legal_tick [OF assms(1)], assumption)+)

section \<open>Planned images can be encoded\<close>

lemma sized_grant [simp]: "object_sized (OGrant g)"
  by simp

lemma downgrades_sized: "images_sized (append_downgrades a reason site path now_ms)"
  using append_downgrades_image by (fastforce simp: images_sized_def)

lemma rebalance_sized: "images_sized (rebalance_path a path pol now_ms reason rp rc)"
  using rebalance_image by (fastforce simp: images_sized_def)

lemma images_sized_simps [simp]:
  "images_sized []" "images_sized ((ob, rel) # imgs) \<longleftrightarrow> object_sized ob \<and> images_sized imgs"
  "images_sized (imgs @ imgs') \<longleftrightarrow> images_sized imgs \<and> images_sized imgs'"
  "images_sized (concat (map f xs)) \<longleftrightarrow> (\<forall>x \<in> set xs. images_sized (f x))"
  by (auto simp: images_sized_def)

lemma clean_sized: "clean v \<Longrightarrow> length v < 4294967296"
  by (simp add: clean_def)

lemma valid_name_sized: "valid_name v \<Longrightarrow> length v < 4294967296"
  by (simp add: valid_name_def kMaxNameLength_def)

lemma structure_site: "structure_ok a \<Longrightarrow> om_find k (au_sites a) = Some s \<Longrightarrow> length (sr_name s) < 4294967296"
  by (auto simp: structure_ok_def entries_ok_def intro: clean_sized)

lemma structure_path: "structure_ok a \<Longrightarrow> om_find k (au_paths a) = Some p \<Longrightarrow> length (pr_name p) < 4294967296"
  by (auto simp: structure_ok_def entries_ok_def intro: clean_sized)

lemma structure_site_val:
  "structure_ok a \<Longrightarrow> s \<in> set (om_vals (au_sites a)) \<Longrightarrow> length (sr_name s) < 4294967296"
proof -
  assume a: "structure_ok a" "s \<in> set (om_vals (au_sites a))"
  then obtain k where "om_find k (au_sites a) = Some s"
    by (auto simp: om_vals_def structure_ok_def tables_wf_def om_in_iff)
  with a show ?thesis by (rule_tac structure_site)
qed

lemma typed_id_length [simp]: "length (typed_id_to_string prefix x) = length prefix + 37"
  by (simp add: typed_id_to_string_def to_canonical_def Let_def)

lemma tick_site_sized: "length (sr_name site) < 4294967296 \<Longrightarrow> images_sized (tick_site a now_ms site)"
  by (simp add: tick_site_def Let_def downgrades_sized)

lemma tick_grant_sized: "images_sized (tick_grant now_ms g)"
  by (simp add: tick_grant_def)

lemma plan_tick_sized:
  assumes "structure_ok a" and "plan_tick a now_ms arb = Inr mu"
  shows "images_sized (mu_images mu) \<and> mu_arbitration mu = arb"
  using assms(2) tick_site_sized [OF structure_site_val [OF assms(1)]] tick_grant_sized
  by (auto simp: plan_tick_def Let_def simp del: append_is_Nil_conv split: if_splits)

lemma plan_request_sized:
  assumes "structure_ok a" and "plan_request a rq arb = Inr mu"
  shows "images_sized (mu_images mu) \<and> mu_arbitration mu = arb"
proof (cases rq)
  case (RqRegisterSite reg)
  with assms show ?thesis
    by (auto simp: plan_request_def plan_register_site_def Let_def valid_name_sized structure_site
        split: if_splits option.splits)
next
  case (RqRegisterPath reg)
  with assms show ?thesis
    by (auto simp: plan_request_def plan_register_path_def domain_images_def fresh_path_def
        reregistered_path_def Let_def valid_name_sized rebalance_sized split: if_splits option.splits)
next
  case (RqTick now_ms)
  with assms show ?thesis using plan_tick_sized by (simp add: plan_request_def)
qed (use assms in \<open>auto simp: plan_request_def plan_install_policy_def plan_bump_epoch_def plan_heartbeat_def
    plan_set_site_state_def plan_set_path_state_def plan_attest_capacity_def
    plan_issue_oversubscription_def plan_propose_grant_def plan_evaluate_grant_def
    plan_reserve_grant_def plan_activate_grant_def plan_degrade_grant_def plan_withdraw_grant_def
    plan_retire_grant_def plan_cancel_grant_def plan_acknowledge_grant_def plan_verify_grant_def
    plan_reconcile_grant_def path_in_state_def attested_path_def Let_def rebalance_sized
    downgrades_sized structure_site structure_path
    split: if_splits option.splits sum.splits\<close>)

section \<open>Executing a request\<close>

text \<open>
  Planning a request and applying the mutation, as an embedding without a journal does it:
  the status and the state afterwards.
\<close>

definition execute :: "authority \<Rightarrow> request \<Rightarrow> arb_seq \<Rightarrow> status \<times> authority" where
  "execute a rq arb =
     (case plan_request a rq arb of
        Inl s \<Rightarrow> (s, a)
      | Inr mu \<Rightarrow> apply_changes (mu_changes mu) (mu_arbitration mu) a)"

inductive reachable :: "incarnation \<Rightarrow> authority_config \<Rightarrow> authority \<Rightarrow> bool"
  for rnd cfg where
  start: "reachable rnd cfg (new_authority rnd cfg)"
| request: "reachable rnd cfg a \<Longrightarrow> execute a rq arb = (StOk, a') \<Longrightarrow> reachable rnd cfg a'"

lemma execute_structure: "structure_ok a \<Longrightarrow> structure_ok (snd (execute a rq arb))"
  using apply_structure by (auto simp: execute_def split: sum.splits)

lemma reachable_structure: "reachable rnd cfg a \<Longrightarrow> structure_ok a"
proof (induction rule: reachable.induct)
  case (request a rq arb a')
  then show ?case using execute_structure [of a rq arb] by simp
qed (rule structure_new)

text \<open>No planning function fails with \<open>Ok\<close>, so an executed request was planned.\<close>

lemma allocatable_not_ok: "allocatable a p k now_ms \<noteq> Inl StOk"
  by (auto simp: allocatable_def Let_def ebind_def split: option.splits sum.splits)

lemma plan_request_not_ok: "plan_request a rq arb \<noteq> Inl StOk"
  using allocatable_not_ok
  by (cases rq)
     (auto simp: plan_request_def plan_install_policy_def plan_bump_epoch_def plan_register_site_def
        plan_heartbeat_def plan_set_site_state_def plan_register_path_def plan_set_path_state_def
        plan_attest_capacity_def plan_issue_oversubscription_def plan_propose_grant_def
        plan_evaluate_grant_def plan_reserve_grant_def plan_activate_grant_def plan_degrade_grant_def
        plan_withdraw_grant_def plan_retire_grant_def plan_cancel_grant_def plan_acknowledge_grant_def
        plan_verify_grant_def plan_reconcile_grant_def plan_tick_def mk_mutation_def Let_def
        split: option.splits sum.splits)

lemma execute_okE:
  assumes "structure_ok a" and "execute a rq arb = (StOk, a')"
  obtains mu b where "plan_request a rq arb = Inr mu" and "images_ok (mu_images mu)"
    and "store_objects (decoded_images (mu_images mu)) a = (StOk, b)"
    and "a' = note_recovered_arbitration arb b"
proof -
  obtain mu where mu: "plan_request a rq arb = Inr mu"
    using assms(2) plan_request_not_ok [of a rq arb]
    by (cases "plan_request a rq arb") (auto simp: execute_def)
  with plan_request_sized [OF assms(1)] have sized: "images_sized (mu_images mu)" "mu_arbitration mu = arb"
    by auto
  from mu assms(2) sized have "apply_changes (mu_changes mu) arb a = (StOk, a')"
    by (simp add: execute_def)
  from apply_mutation_ok [OF this sized(1)] mu that show ?thesis by metis
qed

lemma legal_image_reason [simp]:
  "legal_image rq g (g'\<lparr>gr_reason := r\<rparr>) rel \<longleftrightarrow> legal_image rq g g' rel"
  by (simp add: legal_image_def same_grant_def promised_def)

lemma new_grant_reason [simp]: "new_grant a rq (g'\<lparr>gr_reason := r\<rparr>) \<longleftrightarrow> new_grant a rq g'"
  by (simp add: new_grant_def)

text \<open>What a grant is after a request: untouched, a legal successor, or new.\<close>

lemma grant_after_request:
  assumes "structure_ok a" and "execute a rq arb = (StOk, a')" and "om_find k (au_grants a') = Some v"
  shows "om_find k (au_grants a) = Some v \<or>
         (\<exists>g rel. om_find k (au_grants a) = Some g \<and> legal_image rq g v rel) \<or>
         new_grant a rq v \<and> om_find k (au_grants a) = None"
proof -
  obtain mu b where mu: "plan_request a rq arb = Inr mu" and "images_ok (mu_images mu)"
    and st: "store_objects (decoded_images (mu_images mu)) a = (StOk, b)"
    and a': "a' = note_recovered_arbitration arb b"
    by (rule execute_okE [OF assms(1,2)])
  have "om_wf (au_grants a)" using assms(1) by (simp add: structure_ok_def tables_wf_def)
  from grant_after_images [OF this st, of k v] assms(3) a'
  consider "om_find k (au_grants a) = Some v"
    | g' rel where "(OGrant g', rel) \<in> set (mu_images mu)" "gr_id g' = k"
        "v = g'\<lparr>gr_reason := take 512 (gr_reason g')\<rparr>"
    by auto
  then show ?thesis
  proof cases
    case 2
    with plan_request_legal [OF assms(1) mu] have "image_of_grant a rq g' rel \<or> new_grant a rq g' \<and> \<not> rel"
      by (auto simp: legal_post_image_def)
    with 2 show ?thesis by (auto simp: image_of_grant_def new_grant_def)
  qed simp
qed

lemma grant_survives:
  assumes "structure_ok a" and "execute a rq arb = (StOk, a')" and "om_find k (au_grants a) = Some g"
  shows "\<exists>v. om_find k (au_grants a') = Some v"
proof -
  obtain mu b where "plan_request a rq arb = Inr mu" and "images_ok (mu_images mu)"
    and st: "store_objects (decoded_images (mu_images mu)) a = (StOk, b)"
    and a': "a' = note_recovered_arbitration arb b"
    by (rule execute_okE [OF assms(1,2)])
  have "om_wf (au_grants a)" using assms(1) by (simp add: structure_ok_def tables_wf_def)
  then show ?thesis using assms(3) a' store_objects_effect(4) [OF st]
    by (auto simp: put_all_find split: option.splits)
qed

text \<open>The grant of a key before and after a request.\<close>

lemma grant_step_cases:
  assumes "structure_ok a" and "execute a rq arb = (StOk, a')" and "om_find k (au_grants a) = Some g"
  obtains v where "om_find k (au_grants a') = Some v" and "v = g \<or> (\<exists>rel. legal_image rq g v rel)"
proof -
  obtain v where v: "om_find k (au_grants a') = Some v" using grant_survives [OF assms] by blast
  from grant_after_request [OF assms(1,2) v] assms(3) have "v = g \<or> (\<exists>rel. legal_image rq g v rel)"
    by auto
  with v that show ?thesis by blast
qed

end
