(* ===== verification/Rebalance.thy ===== *)
theory Rebalance
  imports Steps "HOL-Library.Multiset"
begin

text \<open>
  Rebalancing a path restores the fit: after the emitted withdrawals the promised amounts are
  within the protected floor and the general ceiling of the new path record and policy. The
  withdrawal loop stops as soon as the remaining promises fit.
\<close>

section \<open>The withdrawal loop\<close>

definition promised_in :: "grant_class \<Rightarrow> grant_record \<Rightarrow> nat" where
  "promised_in klass g =
     (if gr_state g \<noteq> GsWithdrawing \<and> gr_class g = klass then unat (gr_amount g) else 0)"

lemma withdraw_to_fit_within:
  "unat remaining = sum_list (map (promised_in klass) gs) \<Longrightarrow>
     sum_list (map (promised_in klass) (snd (withdraw_to_fit reason now_ms klass limit remaining gs)))
       \<le> unat limit"
proof (induction reason now_ms klass limit remaining gs rule: withdraw_to_fit.induct)
  case (1 reason now_ms klass limit remaining)
  then show ?case by simp
next
  case (2 reason now_ms klass limit remaining g gs)
  show ?case
  proof (cases "remaining \<le> limit")
    case True
    then show ?thesis using "2.prems" by (simp add: word_le_nat_alt)
  next
    case over: False
    show ?thesis
    proof (cases "gr_class g \<noteq> klass \<or> gr_state g = GsWithdrawing")
      case True
      then have "promised_in klass g = 0" by (auto simp: promised_in_def)
      with True over "2.IH"(1) "2.prems" show ?thesis by (auto split: prod.splits)
    next
      case False
      then have amt: "promised_in klass g = unat (gr_amount g)" by (simp add: promised_in_def)
      let ?rem = "if remaining > gr_amount g then remaining - gr_amount g else 0"
      have "unat ?rem = sum_list (map (promised_in klass) gs)"
        using "2.prems" amt by (auto simp: unat_sub word_le_nat_alt word_less_nat_alt)
      from "2.IH"(2) [OF over False this] False over show ?thesis
        by (auto simp: promised_in_def split: prod.splits)
    qed
  qed
qed

text \<open>The other class is not touched.\<close>

lemma withdraw_to_fit_other:
  "klass' \<noteq> klass \<Longrightarrow>
     map (promised_in klass') (snd (withdraw_to_fit reason now_ms klass limit remaining gs)) =
     map (promised_in klass') gs"
  by (induction reason now_ms klass limit remaining gs rule: withdraw_to_fit.induct)
     (auto simp: promised_in_def split: if_splits prod.splits)

text \<open>A grant of the list either stays as it is or is withdrawn by an emitted image.\<close>

lemma withdraw_to_fit_emits:
  "g \<in> set gs \<Longrightarrow>
     g \<in> set (snd (withdraw_to_fit reason now_ms klass limit remaining gs)) \<or>
     (OGrant (g\<lparr>gr_state := GsWithdrawing, gr_reason := bounded reason, gr_updated_at_ms := now_ms\<rparr>), False)
       \<in> set (fst (withdraw_to_fit reason now_ms klass limit remaining gs))"
  by (induction reason now_ms klass limit remaining gs rule: withdraw_to_fit.induct)
     (auto split: if_splits prod.splits)

lemma withdraw_to_fit_ids:
  "map gr_id (snd (withdraw_to_fit reason now_ms klass limit remaining gs)) = map gr_id gs"
  by (induction reason now_ms klass limit remaining gs rule: withdraw_to_fit.induct)
     (auto split: prod.splits)

text \<open>With distinct identities, a grant with an emitted image is withdrawn in the resulting list.\<close>

lemma withdraw_to_fit_emitted:
  "distinct (map gr_id gs) \<Longrightarrow>
   (OGrant g', rel) \<in> set (fst (withdraw_to_fit reason now_ms klass limit remaining gs)) \<Longrightarrow>
   g \<in> set (snd (withdraw_to_fit reason now_ms klass limit remaining gs)) \<Longrightarrow> gr_id g = gr_id g' \<Longrightarrow>
   gr_state g = GsWithdrawing"
proof (induction reason now_ms klass limit remaining gs rule: withdraw_to_fit.induct)
  case (1 reason now_ms klass limit remaining)
  then show ?case by simp
next
  case (2 reason now_ms klass limit remaining h gs)
  let ?rem = "if remaining > gr_amount h then remaining - gr_amount h else 0"
  have notin: "gr_id g' \<noteq> gr_id h"
    if "(OGrant g', rel) \<in> set (fst (withdraw_to_fit reason now_ms klass limit r gs))" for r
  proof -
    have "gr_id g' \<in> gr_id ` set gs"
      using withdraw_to_fit_image [OF that] by auto
    then show ?thesis using "2.prems"(1) by auto
  qed
  have other: "gr_id g'' \<noteq> gr_id h" if "g'' \<in> set (snd (withdraw_to_fit reason now_ms klass limit r gs))" for g'' r
  proof -
    have "gr_id g'' \<in> gr_id ` set gs"
      using that withdraw_to_fit_ids [of reason now_ms klass limit r gs] by (metis image_eqI list.set_map)
    then show ?thesis using "2.prems"(1) by auto
  qed
  show ?case
  proof (cases "remaining \<le> limit")
    case True
    then show ?thesis using "2.prems" by simp
  next
    case over: False
    show ?thesis
    proof (cases "gr_class h \<noteq> klass \<or> gr_state h = GsWithdrawing")
      case True
      then have out: "(OGrant g', rel) \<in> set (fst (withdraw_to_fit reason now_ms klass limit remaining gs))"
        using "2.prems"(2) over by (auto split: prod.splits)
      from True over "2.prems"(3) notin [OF out] "2.prems"(4)
      have "g \<in> set (snd (withdraw_to_fit reason now_ms klass limit remaining gs))"
        by (auto split: prod.splits)
      with True over out "2.IH"(1) "2.prems" show ?thesis by auto
    next
      case False
      have d: "distinct (map gr_id gs)" using "2.prems"(1) by simp
      from "2.prems"(3) False over
      consider "g = h\<lparr>gr_state := GsWithdrawing\<rparr>"
        | "g \<in> set (snd (withdraw_to_fit reason now_ms klass limit ?rem gs))"
        by (auto split: prod.splits)
      then show ?thesis
      proof cases
        case 2
        from "2.prems"(2) False over have
          "gr_id g' = gr_id h \<or> (OGrant g', rel) \<in> set (fst (withdraw_to_fit reason now_ms klass limit ?rem gs))"
          by (auto split: prod.splits)
        with other [OF 2] "2.prems"(4) have
          "(OGrant g', rel) \<in> set (fst (withdraw_to_fit reason now_ms klass limit ?rem gs))" by auto
        from "2.IH"(2) [OF over False d this 2 "2.prems"(4)] show ?thesis .
      qed simp
    qed
  qed
qed

section \<open>What rebalancing leaves\<close>

lemma sum_set_le_sum_list: "(\<Sum>x \<in> set xs. f x) \<le> sum_list (map f xs)" for f :: "'a \<Rightarrow> nat"
  by (induction xs) (auto simp: sum.insert_if)

lemma authorized_amount_sum:
  "unat (authorized_amount klass gs) = min amount_max (sum_list (map (promised_in klass) gs))"
proof -
  have "unat (if gr_state g = GsWithdrawing \<or> gr_class g \<noteq> klass then acc
        else saturating_add acc (gr_amount g)) = min amount_max (unat acc + promised_in klass g)" for g acc
    using unat_le_max [of acc] by (simp add: promised_in_def unat_saturating_add min_absorb2)
  from fold_saturates [where sel = id and step = "\<lambda>g acc. if gr_state g = GsWithdrawing \<or> gr_class g \<noteq> klass
      then acc else saturating_add acc (gr_amount g)" and f = "promised_in klass", simplified id_apply, OF this]
  show ?thesis by (simp add: authorized_amount_def)
qed

lemma sum_list_holding:
  "sum_list (map (promised_in klass) (holding_grants a p)) =
     held (\<lambda>g. gr_state g \<noteq> GsWithdrawing \<and> gr_class g = klass) a p"
proof -
  let ?P = "\<lambda>g. gb_path (gr_binding g) = p \<and> holds_capacity (gr_state g)"
  let ?xs = "om_vals (au_grants a)"
  have perm: "sum_list (map f (sort_key k xs)) = sum_list (map f xs)"
    for f :: "grant_record \<Rightarrow> nat" and k :: "grant_record \<Rightarrow> u64 \<times> id128" and xs
    by (metis mset_map mset_sort sum_mset_sum_list)
  have "sum_list (map (promised_in klass) (filter ?P xs)) =
      sum_list (map (held_by (\<lambda>g. gr_state g \<noteq> GsWithdrawing \<and> gr_class g = klass) p) xs)" for xs
    by (induction xs) (auto simp: promised_in_def held_by_def)
  then show ?thesis by (simp add: holding_grants_def perm held_def om_sum_def)
qed

lemma holding_ids_distinct:
  assumes "structure_ok a"
  shows "distinct (map gr_id (holding_grants a p))"
proof -
  have "gr_id v = k" if "(k, v) \<in> set (au_grants a)" for k v
    using that assms by (auto simp: structure_ok_def tables_wf_def entries_ok_def om_in_iff)
  then have "map gr_id (om_vals (au_grants a)) = map fst (au_grants a)"
    by (auto simp: om_vals_def)
  then have "distinct (map gr_id (om_vals (au_grants a)))"
    using assms om_wf_distinct [of "au_grants a"] by (simp add: structure_ok_def tables_wf_def)
  then show ?thesis
    by (auto simp: holding_grants_def distinct_map inj_on_def)
qed

text \<open>
  The grants a rebalance keeps, and what it says about all the others: they have an image,
  and every image they have withdraws them.
\<close>

lemma rebalance_keeps:
  fixes path :: path_record
  defines "p \<equiv> pr_id path"
  assumes str: "structure_ok a"
    and "held promised_protected a p \<le> amount_max" and "held promised_general a p \<le> amount_max"
  obtains kept where "(\<Sum>g \<in> set kept. promised_in GcProtected g) \<le> unat (rebalance_floor path pol)"
    and "(\<Sum>g \<in> set kept. promised_in GcGeneral g) \<le> unat (rebalance_general_ceiling a path pol now_ms)"
    and "\<And>g. g \<in> set (holding_grants a p) \<Longrightarrow> g \<notin> set kept \<Longrightarrow>
      (\<exists>g' rel. (OGrant g', rel) \<in> set (rebalance_path a path pol now_ms reason rp rc) \<and> gr_id g' = gr_id g) \<and>
      (\<forall>g' rel. (OGrant g', rel) \<in> set (rebalance_path a path pol now_ms reason rp rc) \<longrightarrow>
         gr_id g' = gr_id g \<longrightarrow> gr_state g' = GsWithdrawing)"
proof -
  let ?h = "holding_grants a p"
  let ?imgs = "rebalance_path a path pol now_ms reason rp rc"
  obtain out1 l1 where w1: "withdraw_to_fit reason now_ms GcProtected (rebalance_floor path pol)
      (authorized_amount GcProtected ?h) (rev ?h) = (out1, l1)" by fastforce
  obtain out2 l2 where w2: "withdraw_to_fit reason now_ms GcGeneral
      (rebalance_general_ceiling a path pol now_ms) (authorized_amount GcGeneral ?h) l1 = (out2, l2)"
    by fastforce
  have rem: "unat (authorized_amount klass ?h) = sum_list (map (promised_in klass) ?h)" for klass
    using assms(3,4) by (cases klass) (simp_all add: authorized_amount_sum sum_list_holding)
  have revsum: "sum_list (map f (rev xs)) = sum_list (map f xs)" for f :: "grant_record \<Rightarrow> nat" and xs
    by (simp add: rev_map [symmetric])
  have prot: "sum_list (map (promised_in GcProtected) l1) \<le> unat (rebalance_floor path pol)"
    using withdraw_to_fit_within [of "authorized_amount GcProtected ?h" GcProtected "rev ?h" reason now_ms
        "rebalance_floor path pol"] by (simp add: rem revsum w1)
  have prot2: "map (promised_in GcProtected) l2 = map (promised_in GcProtected) l1"
    using withdraw_to_fit_other [of GcProtected GcGeneral reason now_ms
        "rebalance_general_ceiling a path pol now_ms" "authorized_amount GcGeneral ?h" l1] by (simp add: w2)
  have "map (promised_in GcGeneral) l1 = map (promised_in GcGeneral) (rev ?h)"
    using withdraw_to_fit_other [of GcGeneral GcProtected reason now_ms "rebalance_floor path pol"
        "authorized_amount GcProtected ?h" "rev ?h"] by (simp add: w1)
  then have gen: "sum_list (map (promised_in GcGeneral) l2) \<le> unat (rebalance_general_ceiling a path pol now_ms)"
    using withdraw_to_fit_within [of "authorized_amount GcGeneral ?h" GcGeneral l1 reason now_ms
        "rebalance_general_ceiling a path pol now_ms"] by (simp only: w2 snd_conv rem revsum)
  have d1: "distinct (map gr_id (rev ?h))" using holding_ids_distinct [OF str] by (simp add: rev_map [symmetric])
  have "map gr_id l1 = map gr_id (rev ?h)"
    using withdraw_to_fit_ids [of reason now_ms GcProtected "rebalance_floor path pol"
        "authorized_amount GcProtected ?h" "rev ?h"] by (simp add: w1)
  then have d2: "distinct (map gr_id l1)" using d1 by simp
  have down: "gr_state x = GsWithdrawing"
    if "(OGrant g', rel) \<in> set out1 \<union> set out2" "x \<in> set l2" "gr_id x = gr_id g'" for g' rel x
  proof (cases "(OGrant g', rel) \<in> set out2")
    case True
    show ?thesis
      by (rule withdraw_to_fit_emitted [OF d2, of g' rel reason now_ms GcGeneral
            "rebalance_general_ceiling a path pol now_ms" "authorized_amount GcGeneral ?h"])
         (use True that w2 in simp_all)
  next
    case False
    from that(2) withdraw_to_fit_list [of x reason now_ms GcGeneral
            "rebalance_general_ceiling a path pol now_ms" "authorized_amount GcGeneral ?h" l1] w2
    obtain y where y: "y \<in> set l1" "x = y \<or> x = y\<lparr>gr_state := GsWithdrawing\<rparr>" by auto
    have "gr_state y = GsWithdrawing"
      by (rule withdraw_to_fit_emitted [OF d1, of g' rel reason now_ms GcProtected
            "rebalance_floor path pol" "authorized_amount GcProtected ?h"])
         (use False that y w1 in auto)
    with y show ?thesis by auto
  qed
  have sub: "set out1 \<union> set out2 \<subseteq> set ?imgs"
    by (auto simp: rebalance_path_def p_def [symmetric] w1 w2 Let_def)
  have imgs: "(ob, rel) \<in> set out1 \<union> set out2 \<or>
      (\<exists>x \<in> set l2. (ob, rel) \<in> set (rebind_grant path pol now_ms reason rp rc x))"
    if "(ob, rel) \<in> set ?imgs" for ob rel
    using that by (auto simp: rebalance_path_def p_def [symmetric] w1 w2 Let_def split: if_splits)
  have wd: "gr_state g' = GsWithdrawing" if "(OGrant g', rel) \<in> set out1 \<union> set out2" for g' rel
    using that withdraw_to_fit_image [of "OGrant g'" rel reason now_ms GcProtected "rebalance_floor path pol"
        "authorized_amount GcProtected ?h" "rev ?h"]
      withdraw_to_fit_image [of "OGrant g'" rel reason now_ms GcGeneral
        "rebalance_general_ceiling a path pol now_ms" "authorized_amount GcGeneral ?h" l1] w1 w2 by auto
  show thesis
  proof (rule that [of l2])
    show "(\<Sum>g \<in> set l2. promised_in GcProtected g) \<le> unat (rebalance_floor path pol)"
      using sum_set_le_sum_list [of "promised_in GcProtected" l2] prot prot2 by simp
    show "(\<Sum>g \<in> set l2. promised_in GcGeneral g) \<le> unat (rebalance_general_ceiling a path pol now_ms)"
      using sum_set_le_sum_list [of "promised_in GcGeneral" l2] gen by simp
    fix g assume g: "g \<in> set ?h" "g \<notin> set l2"
    have "(OGrant (g\<lparr>gr_state := GsWithdrawing, gr_reason := bounded reason, gr_updated_at_ms := now_ms\<rparr>), False)
        \<in> set out1 \<union> set out2"
      using g withdraw_to_fit_emits [of g "rev ?h" reason now_ms GcProtected "rebalance_floor path pol"
          "authorized_amount GcProtected ?h"]
        withdraw_to_fit_emits [of g l1 reason now_ms GcGeneral "rebalance_general_ceiling a path pol now_ms"
          "authorized_amount GcGeneral ?h"] w1 w2 by auto
    then obtain g0 where g0: "(OGrant g0, False) \<in> set out1 \<union> set out2" "gr_id g0 = gr_id g" by force
    have "gr_state g' = GsWithdrawing" if g': "(OGrant g', rel) \<in> set ?imgs" "gr_id g' = gr_id g" for g' rel
    proof (rule ccontr)
      assume live: "gr_state g' \<noteq> GsWithdrawing"
      with imgs [OF g'(1)] wd obtain x where
        x: "x \<in> set l2" "(OGrant g', rel) \<in> set (rebind_grant path pol now_ms reason rp rc x)" by blast
      from rebind_grant_image [OF x(2)] have "gr_id x = gr_id g'" "gr_state x = gr_state g'"
        by (auto simp: same_grant_def)
      with down [OF g0(1) x(1)] g0(2) g'(2) live show False by simp
    qed
    with g0 sub show "(\<exists>g' rel. (OGrant g', rel) \<in> set ?imgs \<and> gr_id g' = gr_id g) \<and>
      (\<forall>g' rel. (OGrant g', rel) \<in> set ?imgs \<longrightarrow> gr_id g' = gr_id g \<longrightarrow> gr_state g' = GsWithdrawing)"
      by blast
  qed
qed

section \<open>The promises after a rebalance\<close>

lemma writes_append [simp]: "writes sel (xs @ ys) = writes sel xs @ writes sel ys"
  by (simp add: writes_def List.map_filter_def)

lemma put_all_append [simp]: "put_all (xs @ ys) m = put_all ys (put_all xs m)"
  by (simp add: put_all_def)

lemma decoded_images_append [simp]:
  "decoded_images (xs @ ys) = decoded_images xs @ decoded_images ys"
  by (simp add: decoded_images_def)

text \<open>When the last images of a key all withdraw it, it is withdrawn.\<close>

lemma final_withdrawing:
  assumes "om_wf (au_grants a)" and "store_objects (decoded_images (pre @ suf)) a = (StOk, b)"
    and "(OGrant g0, rel0) \<in> set suf" and "gr_id g0 = k"
    and "\<And>g' rel. (OGrant g', rel) \<in> set suf \<Longrightarrow> gr_id g' = k \<Longrightarrow> gr_state g' = GsWithdrawing"
  shows "\<exists>v. om_find k (au_grants b) = Some v \<and> gr_state v = GsWithdrawing"
proof -
  let ?m = "put_all (writes as_grant (decoded_images pre)) (au_grants a)"
  let ?ws = "writes as_grant (decoded_images suf)"
  have "au_grants b = put_all ?ws ?m" using store_objects_effect(4) [OF assms(2)] by simp
  then have find: "om_find k (au_grants b) = (case map_of (rev ?ws) k of Some v \<Rightarrow> Some v | None \<Rightarrow> om_find k ?m)"
    using put_all_find [OF put_all_wf [OF assms(1)]] by simp
  have "\<exists>v. (k, v) \<in> set ?ws" using assms(3,4) by (auto simp: in_grant_writes)
  then obtain v where v: "map_of (rev ?ws) k = Some v"
    by (cases "map_of (rev ?ws) k") (auto simp: map_of_eq_None_iff, force)
  then have "(k, v) \<in> set ?ws" by (metis map_of_SomeD set_rev)
  then have "gr_state v = GsWithdrawing" using assms(5) by (auto simp: in_grant_writes)
  with v find show ?thesis by simp
qed

text \<open>
  A grant that is promised after legal images, none of which promises anything, was promised
  before with the same amount.
\<close>

lemma promised_before:
  assumes "structure_ok a" and "store_objects (decoded_images imgs) a = (StOk, b)"
    and "\<forall>img \<in> set imgs. legal_post_image a rq img" and "om_find k (au_grants b) = Some v" and "promised v"
  obtains g where "om_find k (au_grants a) = Some g" and "same_grant g v" and "promised g \<or> promises rq g"
proof -
  have wf: "om_wf (au_grants a)" using assms(1) by (simp add: structure_ok_def tables_wf_def)
  from grant_after_images [OF wf assms(2,4)]
  consider "om_find k (au_grants a) = Some v"
    | g' rel where "(OGrant g', rel) \<in> set imgs" "gr_id g' = k" "v = g'\<lparr>gr_reason := take 512 (gr_reason g')\<rparr>"
    by auto
  then show ?thesis
  proof cases
    case 1
    then show ?thesis using that assms(5) by simp
  next
    case 2
    then have "image_of_grant a rq g' rel \<or> new_grant a rq g'"
      using assms(3) by (auto simp: legal_post_image_def)
    moreover have "\<not> new_grant a rq g'"
      using 2(3) assms(5) by (auto simp: new_grant_def promised_def)
    ultimately obtain g where "om_find k (au_grants a) = Some g" "legal_image rq g v rel"
      using 2 by (auto simp: image_of_grant_def)
    with that assms(5) show ?thesis by (auto simp: legal_image_def)
  qed
qed

lemma held_le_kept:
  assumes "om_wf (au_grants b)" and "finite G"
    and "\<And>k v. om_find k (au_grants b) = Some v \<Longrightarrow> gb_path (gr_binding v) = p \<Longrightarrow> promised v \<Longrightarrow>
           gr_class v = klass \<Longrightarrow> \<exists>g \<in> G. gr_id g = k \<and> promised_in klass g = unat (gr_amount v)"
  shows "held (\<lambda>g. gr_state g \<noteq> GsWithdrawing \<and> gr_class g = klass) b p \<le> (\<Sum>g \<in> G. promised_in klass g)"
proof -
  let ?f = "held_by (\<lambda>g. gr_state g \<noteq> GsWithdrawing \<and> gr_class g = klass) p"
  let ?K = "{k \<in> om_keys (au_grants b). contrib ?f (om_find k (au_grants b)) \<noteq> 0}"
  have "\<exists>g. g \<in> G \<and> gr_id g = k \<and> promised_in klass g = contrib ?f (om_find k (au_grants b))"
    if "k \<in> ?K" for k
    using that assms(3) [of k]
    by (cases "om_find k (au_grants b)") (auto simp: held_by_def promised_def split: if_splits)
  then have "\<forall>k \<in> ?K. \<exists>g. g \<in> G \<and> gr_id g = k \<and> promised_in klass g = contrib ?f (om_find k (au_grants b))"
    by blast
  from bchoice [OF this] obtain w where w: "\<And>k. k \<in> ?K \<Longrightarrow> w k \<in> G \<and> gr_id (w k) = k \<and>
      promised_in klass (w k) = contrib ?f (om_find k (au_grants b))" by blast
  have inj: "inj_on w ?K" by (rule inj_on_inverseI [where g = gr_id]) (use w in blast)
  have "held (\<lambda>g. gr_state g \<noteq> GsWithdrawing \<and> gr_class g = klass) b p =
      (\<Sum>k \<in> ?K. contrib ?f (om_find k (au_grants b)))"
    unfolding held_def om_sum_keys [OF assms(1)]
    by (rule sum.mono_neutral_right) auto
  also have "\<dots> = (\<Sum>k \<in> ?K. promised_in klass (w k))" using w by (intro sum.cong) auto
  also have "\<dots> = (\<Sum>g \<in> w ` ?K. promised_in klass g)" by (simp only: sum.reindex [OF inj] comp_def)
  also have "\<dots> \<le> (\<Sum>g \<in> G. promised_in klass g)"
    using w assms(2) by (intro sum_mono2) auto
  finally show ?thesis .
qed

lemma rebalance_final:
  fixes path :: path_record
  defines "p \<equiv> pr_id path"
  assumes str: "structure_ok a" and st: "store_objects (decoded_images (pre @ suf)) a = (StOk, b)"
    and legal: "\<forall>img \<in> set (pre @ suf). legal_post_image a rq img" and nop: "\<And>g. \<not> promises rq g"
    and sub: "set (rebalance_path a path pol now_ms reason rp rc) \<subseteq> set suf"
    and only: "\<And>g' rel. (OGrant g', rel) \<in> set suf \<Longrightarrow> gb_path (gr_binding g') = p \<Longrightarrow>
      (OGrant g', rel) \<in> set (rebalance_path a path pol now_ms reason rp rc)"
    and bounds: "held promised_protected a p \<le> amount_max" "held promised_general a p \<le> amount_max"
  shows "held promised_protected b p \<le> unat (rebalance_floor path pol) \<and>
         held promised_general b p \<le> unat (rebalance_general_ceiling a path pol now_ms)"
proof -
  have wf: "om_wf (au_grants a)" using str by (simp add: structure_ok_def tables_wf_def)
  have wfb: "om_wf (au_grants b)" using store_objects_effect(4) [OF st] by (simp add: put_all_wf wf)
  obtain kept where sums: "(\<Sum>g \<in> set kept. promised_in GcProtected g) \<le> unat (rebalance_floor path pol)"
      "(\<Sum>g \<in> set kept. promised_in GcGeneral g) \<le> unat (rebalance_general_ceiling a path pol now_ms)"
    and others: "\<And>g. g \<in> set (holding_grants a p) \<Longrightarrow> g \<notin> set kept \<Longrightarrow>
      (\<exists>g' rel. (OGrant g', rel) \<in> set (rebalance_path a path pol now_ms reason rp rc) \<and> gr_id g' = gr_id g) \<and>
      (\<forall>g' rel. (OGrant g', rel) \<in> set (rebalance_path a path pol now_ms reason rp rc) \<longrightarrow>
         gr_id g' = gr_id g \<longrightarrow> gr_state g' = GsWithdrawing)"
    using rebalance_keeps [OF str bounds [unfolded p_def]] unfolding p_def by metis
  have key: "\<exists>g \<in> set kept. gr_id g = k \<and> promised_in klass g = unat (gr_amount v)"
    if v: "om_find k (au_grants b) = Some v" "gb_path (gr_binding v) = p" "promised v" "gr_class v = klass"
    for k v klass
  proof -
    obtain g where g: "om_find k (au_grants a) = Some g" "same_grant g v" "promised g"
      using promised_before [OF str st legal v(1,3)] nop by blast
    have id: "gr_id g = k" by (rule structure_grant_id [OF str g(1)])
    have gh: "g \<in> set (holding_grants a p)"
      using g v(2) om_find_vals [OF g(1)] by (auto simp: holding_grants_set promised_def same_grant_def)
    have "g \<in> set kept"
    proof (rule ccontr)
      assume "g \<notin> set kept"
      from others [OF gh this] obtain g0 rel0 where
        g0: "(OGrant g0, rel0) \<in> set (rebalance_path a path pol now_ms reason rp rc)" "gr_id g0 = gr_id g"
        and all: "\<And>g' rel. (OGrant g', rel) \<in> set (rebalance_path a path pol now_ms reason rp rc) \<Longrightarrow>
           gr_id g' = gr_id g \<Longrightarrow> gr_state g' = GsWithdrawing" by blast
      have bound: "gb_path (gr_binding g') = p" if g': "(OGrant g', rel) \<in> set suf" "gr_id g' = k" for g' rel
      proof -
        have "legal_post_image a rq (OGrant g', rel)" using legal g'(1) by auto
        then have "same_grant g g'" using g(1) g'(2)
          by (auto simp: legal_post_image_def image_of_grant_def new_grant_def legal_image_def)
        with g(2) v(2) show ?thesis by (simp add: same_grant_def)
      qed
      have "\<exists>v. om_find k (au_grants b) = Some v \<and> gr_state v = GsWithdrawing"
      proof (rule final_withdrawing [OF wf st])
        show "(OGrant g0, rel0) \<in> set suf" "gr_id g0 = k" using g0 sub id by auto
        show "gr_state g' = GsWithdrawing" if "(OGrant g', rel) \<in> set suf" "gr_id g' = k" for g' rel
          using all [OF only [OF that(1) bound [OF that]]] that(2) id by simp
      qed
      with v show False by (simp add: promised_def)
    qed
    with id g v show ?thesis by (auto simp: promised_in_def promised_def same_grant_def)
  qed
  have "held promised_protected b p \<le> (\<Sum>g \<in> set kept. promised_in GcProtected g)"
    "held promised_general b p \<le> (\<Sum>g \<in> set kept. promised_in GcGeneral g)"
    by (rule held_le_kept [OF wfb finite_set key], assumption+)+
  with sums show ?thesis by simp
qed

end
