(* ===== verification/Safety.thy ===== *)
theory Safety
  imports Rebalance
begin

text \<open>
  The capacity promise: in every state the authority reaches, the promised grants of every
  path fit its ceiling and its protected floor. Two operations can break the promise and are
  excluded by \<open>regular\<close>: reconciling a grant that is not promised back to active, and
  replacing an oversubscription authority under an identity already in use.
\<close>

section \<open>Regular requests\<close>

definition regular :: "authority \<Rightarrow> request \<Rightarrow> bool" where
  "regular a rq \<longleftrightarrow>
     (case rq of
        RqIssueOversubscription oa \<Rightarrow> om_find (oa_id oa) (au_oversubscriptions a) = None
      | RqReconcileGrant op target prin \<Rightarrow>
          target = GsActive \<longrightarrow>
          (case om_find (go_grant op) (au_grants a) of None \<Rightarrow> True | Some g \<Rightarrow> promised g)
      | _ \<Rightarrow> True)"

definition is_reserve :: "request \<Rightarrow> bool" where
  "is_reserve rq \<longleftrightarrow> (\<exists>op. rq = RqReserveGrant op)"

lemma regular_promises:
  assumes "structure_ok a" and "regular a rq" and "\<not> is_reserve rq"
    and "om_find k (au_grants a) = Some g" and "promises rq g"
  shows "promised g"
  using assms structure_grant_id [OF assms(1,4)]
  by (auto simp: promises_def regular_def is_reserve_def)

abbreviation promised_class :: "grant_class \<Rightarrow> grant_record \<Rightarrow> bool" where
  "promised_class klass g \<equiv> gr_state g \<noteq> GsWithdrawing \<and> gr_class g = klass"

lemma held_promised_le:
  assumes "structure_ok a" and "store_objects (decoded_images imgs) a = (StOk, b)"
    and "\<forall>img \<in> set imgs. legal_post_image a rq img" and "regular a rq" and "\<not> is_reserve rq"
  shows "held (promised_class klass) b p \<le> held (promised_class klass) a p"
proof -
  have wf: "om_wf (au_grants a)" using assms(1) by (simp add: structure_ok_def tables_wf_def)
  have wfb: "om_wf (au_grants b)" using store_objects_effect(4) [OF assms(2)] by (simp add: put_all_wf wf)
  have "contrib (held_by (promised_class klass) p) (om_find k (au_grants b)) \<le>
      contrib (held_by (promised_class klass) p) (om_find k (au_grants a))" for k
  proof (cases "om_find k (au_grants b)")
    case (Some v)
    show ?thesis
    proof (cases "promised v")
      case True
      obtain g where g: "om_find k (au_grants a) = Some g" "same_grant g v" "promised g \<or> promises rq g"
        by (rule promised_before [OF assms(1-3) Some True])
      with regular_promises [OF assms(1,4,5)] have "promised g" by blast
      with g Some show ?thesis by (auto simp: held_by_def promised_def same_grant_def)
    next
      case False
      then show ?thesis using Some by (auto simp: held_by_def promised_def)
    qed
  qed simp
  then show ?thesis unfolding held_def by (rule om_sum_mono [OF wf wfb])
qed

section \<open>What requests leave unchanged\<close>

lemma no_writes:
  "\<forall>(ob, rel) \<in> set imgs. sel (clip ob) = None \<Longrightarrow> writes sel (decoded_images imgs) = []"
  by (induction imgs) (auto simp: decoded_images_def)

lemma fold_unchanged:
  "\<forall>(ob, rel) \<in> set imgs. sel (clip ob) = None \<Longrightarrow>
     fold (\<lambda>(k, ob) p. case sel ob of None \<Rightarrow> p | Some v \<Rightarrow> v) (decoded_images imgs) x = x"
  by (induction imgs) (auto simp: decoded_images_def)

lemma as_clip [simp]:
  "as_path (clip ob) = as_path ob" "as_oversubscription (clip ob) = as_oversubscription ob"
  "as_policy (clip ob) = as_policy ob" "as_epoch (clip ob) = as_epoch ob" "as_domain (clip ob) = as_domain ob"
  by (cases ob; simp)+

lemma paths_unchanged:
  "store_objects (decoded_images imgs) a = (StOk, b) \<Longrightarrow>
   \<forall>(ob, rel) \<in> set imgs. as_path ob = None \<Longrightarrow> au_paths b = au_paths a"
  using store_objects_effect(2) no_writes [of imgs as_path] by simp

lemma oversubscriptions_unchanged:
  "store_objects (decoded_images imgs) a = (StOk, b) \<Longrightarrow>
   \<forall>(ob, rel) \<in> set imgs. as_oversubscription ob = None \<Longrightarrow>
   au_oversubscriptions b = au_oversubscriptions a"
  using store_objects_effect(5) no_writes [of imgs as_oversubscription] by simp

lemma policy_unchanged:
  "store_objects (decoded_images imgs) a = (StOk, b) \<Longrightarrow>
   \<forall>(ob, rel) \<in> set imgs. as_policy ob = None \<Longrightarrow> au_policy b = au_policy a"
  using store_objects_effect(7) fold_unchanged [of imgs as_policy] by simp

lemma epoch_unchanged:
  "store_objects (decoded_images imgs) a = (StOk, b) \<Longrightarrow>
   \<forall>(ob, rel) \<in> set imgs. as_epoch ob = None \<Longrightarrow> au_epoch b = au_epoch a"
  using store_objects_effect(8) fold_unchanged [of imgs as_epoch] by simp

section \<open>Ceilings\<close>

lemma ceiling_cong:
  "au_oversubscriptions b = au_oversubscriptions a \<Longrightarrow> au_epoch b = au_epoch a \<Longrightarrow>
     ceiling_at b path pol now_ms = ceiling_at a path pol now_ms"
  unfolding ceiling_at_def rebalance_bps_def by (simp only:)

lemma fits_from_limits:
  assumes "pr_unavailable path \<le> pr_authoritative_usable path"
    and "n \<le> unat (rebalance_general_ceiling a path pol now_ms)"
  shows "n + unat (rebalance_floor path pol) + unat (pr_unavailable path) \<le> ceiling_at a path pol now_ms"
proof -
  define fl where "fl = rebalance_floor path pol"
  define mf where "mf = (let wanted = max_amount (po_min_free_units pol)
            (fraction_bps (pr_authoritative_usable path) (po_min_free_bps pol))
      in if wanted > path_basis path then path_basis path else wanted)"
  define c where "c = saturating_add (pr_authoritative_usable path)
            (oversubscription_extension (pr_authoritative_usable path) (rebalance_bps a path pol now_ms))"
  define u where "u = pr_unavailable path"
  define av where "av = (if c > u then c - u else 0)"
  define gd where "gd = (let g = saturating_add fl mf in if g > av then av else g)"
  have uc: "unat c = ceiling_at a path pol now_ms" by (simp add: c_def ceiling_at_def)
  have "unat (pr_authoritative_usable path) \<le> unat c" using ceiling_at_ge by (simp add: uc)
  moreover have "unat u \<le> unat (pr_authoritative_usable path)"
    using assms(1) by (simp add: u_def word_le_nat_alt)
  moreover have "unat fl \<le> unat (pr_authoritative_usable path) - unat u"
    using rebalance_floor_le by (simp add: fl_def u_def)
  ultimately have base: "unat fl + unat u \<le> unat c" by linarith
  have uav: "unat av = unat c - unat u"
    by (auto simp: av_def unat_sub word_le_nat_alt word_less_nat_alt)
  have ugd: "unat gd = min (unat av) (min amount_max (unat fl + unat mf))"
    by (auto simp: gd_def Let_def word_less_nat_alt unat_saturating_add min_def)
  have "rebalance_general_ceiling a path pol now_ms = (if av > gd then av - gd else 0)"
    by (simp add: rebalance_general_ceiling_def Let_def fl_def mf_def c_def u_def av_def gd_def)
  then have "unat (rebalance_general_ceiling a path pol now_ms) = unat av - unat gd"
    by (auto simp: unat_sub word_le_nat_alt word_less_nat_alt)
  with assms(2) have "n \<le> unat av - unat gd" by simp
  moreover have "unat fl \<le> unat av" using base by (simp add: uav)
  moreover have "unat fl \<le> amount_max" by (rule unat_le_max)
  ultimately have "n + unat fl + unat u \<le> unat c"
    using base by (auto simp: ugd uav min_def split: if_splits)
  then show ?thesis by (simp add: uc fl_def u_def)
qed

section \<open>Requests about sites and grants\<close>

text \<open>An object that is neither a path nor anything a ceiling depends on.\<close>

definition keeps_ceiling :: "object \<Rightarrow> bool" where
  "keeps_ceiling ob \<longleftrightarrow> as_oversubscription ob = None \<and> as_policy ob = None \<and> as_epoch ob = None"

lemma demoted_keeps:
  "\<exists>g g'. ob = OGrant g' \<and> P g g' \<Longrightarrow> keeps_ceiling ob \<and> as_path ob = None"
  by (auto simp: keeps_ceiling_def)

lemma downgrades_keep:
  "(ob, rel) \<in> set (append_downgrades a reason site path now_ms) \<Longrightarrow> keeps_ceiling ob \<and> as_path ob = None"
  by (drule append_downgrades_image) (auto simp: keeps_ceiling_def)

lemma rebalance_keep:
  "(ob, rel) \<in> set (rebalance_path a path pol now_ms reason rp rc) \<Longrightarrow> keeps_ceiling ob \<and> as_path ob = None"
  by (drule rebalance_image) (auto simp: keeps_ceiling_def)

lemma keeps_ceiling_simps [simp]:
  "keeps_ceiling (OSite v1)" "keeps_ceiling (OGrant v2)" "keeps_ceiling (OVerification v3)"
  "keeps_ceiling (OPath v4)" "keeps_ceiling (ODomain v5)" "keeps_ceiling (OAttestation v6)"
  by (simp_all add: keeps_ceiling_def)

lemma safe_bounds:
  assumes "capacity_safe a" and "om_find p (au_paths a) = Some rec" and "pr_id rec = p"
  shows "held (promised_class klass) a p \<le> amount_max"
proof -
  have "path_fits a rec" using assms(1,2) by (auto simp: capacity_safe_def)
  moreover have "ceiling_at a rec (au_policy a) 0 \<le> amount_max" unfolding ceiling_at_def by (rule unat_le_max)
  moreover have "unat (protected_floor a rec) \<le> amount_max" by (rule unat_le_max)
  ultimately show ?thesis using assms(3) by (cases klass) (auto simp: path_fits_def)
qed

lemma fits_kept:
  assumes "path_fits a rec" and "au_policy b = au_policy a" and "au_epoch b = au_epoch a"
    and "au_oversubscriptions b = au_oversubscriptions a"
    and "\<And>klass. held (promised_class klass) b (pr_id rec) \<le> held (promised_class klass) a (pr_id rec)"
  shows "path_fits b rec"
proof -
  have "protected_floor b rec = protected_floor a rec" by (simp add: protected_floor_eq assms(2))
  moreover have "ceiling_at b rec (au_policy b) 0 = ceiling_at a rec (au_policy a) 0"
    using ceiling_cong [OF assms(4,3)] by (simp add: assms(2))
  ultimately show ?thesis
    using assms(1) assms(5) [of GcGeneral] assms(5) [of GcProtected] by (simp add: path_fits_def)
qed

lemma ceiling_inputs:
  assumes "store_objects (decoded_images imgs) a = (StOk, b)" and "\<forall>(ob, rel) \<in> set imgs. keeps_ceiling ob"
  shows "au_policy b = au_policy a" and "au_epoch b = au_epoch a"
    and "au_oversubscriptions b = au_oversubscriptions a"
  using assms(2)
  by (auto intro!: policy_unchanged [OF assms(1)] epoch_unchanged [OF assms(1)]
      oversubscriptions_unchanged [OF assms(1)] simp: keeps_ceiling_def)

text \<open>Every path other than the changed ones still fits.\<close>

lemma fits_elsewhere:
  assumes "structure_ok a" and "capacity_safe a" and "store_objects (decoded_images imgs) a = (StOk, b)"
    and "\<forall>img \<in> set imgs. legal_post_image a rq img" and "regular a rq" and "\<not> is_reserve rq"
    and "\<forall>(ob, rel) \<in> set imgs. keeps_ceiling ob"
    and "om_find p (au_paths b) = Some rec" and "\<forall>(ob, rel) \<in> set imgs. ob \<noteq> OPath rec"
  shows "path_fits b rec"
proof -
  have "om_wf (au_paths a)" using assms(1) by (simp add: structure_ok_def tables_wf_def)
  from path_after_images [OF this assms(3,8)] assms(9) have "om_find p (au_paths a) = Some rec" by auto
  then have "path_fits a rec" using assms(2) by (auto simp: capacity_safe_def)
  then show ?thesis
    by (rule fits_kept) (use ceiling_inputs [OF assms(3,7)] held_promised_le [OF assms(1,3-6)] in auto)
qed

lemma safe_plain:
  assumes "structure_ok a" and "capacity_safe a" and "store_objects (decoded_images imgs) a = (StOk, b)"
    and "\<forall>img \<in> set imgs. legal_post_image a rq img" and "regular a rq" and "\<not> is_reserve rq"
    and "\<forall>(ob, rel) \<in> set imgs. keeps_ceiling ob \<and> as_path ob = None"
  shows "capacity_safe b"
  unfolding capacity_safe_def
  by (intro allI impI, rule fits_elsewhere [OF assms(1-6)]) (use assms(7) in auto)

text \<open>The requests whose images are sites, grants and verifications only.\<close>

definition plain_request :: "request \<Rightarrow> bool" where
  "plain_request rq \<longleftrightarrow>
     (case rq of
        RqInstallPolicy pol prin \<Rightarrow> False
      | RqBumpEpoch ep prin \<Rightarrow> False
      | RqRegisterPath reg \<Rightarrow> False
      | RqSetPathState path st reason now_ms \<Rightarrow> False
      | RqAttestCapacity att \<Rightarrow> False
      | RqIssueOversubscription oa \<Rightarrow> False
      | _ \<Rightarrow> True)"

lemma tick_site_keep:
  "(ob, rel) \<in> set (tick_site a now_ms site) \<Longrightarrow> keeps_ceiling ob \<and> as_path ob = None"
  by (auto simp: tick_site_def Let_def split: if_splits dest: downgrades_keep)

lemma tick_grant_keep:
  "(ob, rel) \<in> set (tick_grant now_ms g) \<Longrightarrow> keeps_ceiling ob \<and> as_path ob = None"
  by (auto simp: tick_grant_def split: if_splits)

lemma plain_images:
  assumes "plain_request rq" and "plan_request a rq arb = Inr mu"
  shows "\<forall>(ob, rel) \<in> set (mu_images mu). keeps_ceiling ob \<and> as_path ob = None"
proof (cases rq)
  case (RqTick now_ms)
  then have "mu_images mu = concat (map (tick_site a now_ms) (om_vals (au_sites a))) @
      concat (map (tick_grant now_ms) (om_vals (au_grants a)))"
    using assms(2) by (auto simp: plan_request_def plan_tick_def Let_def split: if_splits)
  then show ?thesis using tick_site_keep tick_grant_keep by fastforce
qed (use assms in \<open>auto simp: plain_request_def plan_request_def plan_register_site_def plan_heartbeat_def
    plan_set_site_state_def plan_propose_grant_def plan_evaluate_grant_def
    plan_reserve_grant_def plan_activate_grant_def plan_degrade_grant_def plan_withdraw_grant_def
    plan_retire_grant_def plan_cancel_grant_def plan_acknowledge_grant_def plan_verify_grant_def
    plan_reconcile_grant_def Let_def
    split: if_splits option.splits sum.splits dest: downgrades_keep\<close>)

section \<open>Reserving\<close>

text \<open>What the allocatable amount leaves room for.\<close>

lemma allocatable_general:
  assumes "om_find p (au_paths a) = Some rec" and "pr_id rec = p"
    and "allocatable a p GcGeneral now_ms = Inr av" and "av \<noteq> 0"
  shows "held (promised_class GcGeneral) a p + held (promised_class GcProtected) a p +
      held (\<lambda>g. gr_state g = GsWithdrawing) a p + unat (protected_floor a rec) + unat (minimum_free a rec) +
      unat av + unat (pr_unavailable rec) \<le> ceiling_at a rec (au_policy a) now_ms"
proof -
  define c where "c = saturating_add (pr_authoritative_usable rec)
     (oversubscription_extension (pr_authoritative_usable rec)
       (value_or_zero (live_oversubscription_bps a p now_ms)))"
  have uc: "unat c = ceiling_at a rec (au_policy a) now_ms"
    using live_bps_eq [OF assms(1,2)] by (simp add: c_def ceiling_at_def)
  let ?t = "totals_for a p"
  obtain x1 x2 x3 x4 where x: "checked_add (pt_committed ?t) (pt_reserved ?t) = Inr x1"
      "checked_add x1 (pt_withdrawing ?t) = Inr x2" "checked_add x2 (protected_floor a rec) = Inr x3"
      "checked_add x3 (minimum_free a rec) = Inr x4"
    and c: "pr_unavailable rec < c"
    and av: "av = (if x4 < c - pr_unavailable rec then c - pr_unavailable rec - x4 else 0)"
    using assms(1,3,4)
    by (auto simp: allocatable_def Let_def ebind_Inr c_def [symmetric] not_le split: if_splits)
  have lt: "x4 < c - pr_unavailable rec" using av assms(4) by (auto split: if_splits)
  have "unat (c - pr_unavailable rec) = unat c - unat (pr_unavailable rec)"
    using c by (simp add: unat_sub word_le_nat_alt word_less_nat_alt)
  moreover have "unat av = unat (c - pr_unavailable rec) - unat x4"
    using av lt by (simp add: unat_sub word_le_nat_alt word_less_nat_alt)
  moreover have "unat x4 < unat (c - pr_unavailable rec)" using lt by (simp add: word_less_nat_alt)
  ultimately have "unat x4 + unat av + unat (pr_unavailable rec) \<le> unat c"
    using c by (simp add: word_less_nat_alt)
  moreover have "unat x4 = unat (pt_committed ?t) + unat (pt_reserved ?t) + unat (pt_withdrawing ?t) +
      unat (protected_floor a rec) + unat (minimum_free a rec)"
    using x [THEN checked_add_unat] by simp
  moreover have "0 < unat av" using assms(4) by (simp add: unat_gt_0)
  moreover have "unat c \<le> amount_max" by (rule unat_le_max)
  ultimately show ?thesis
    using held_committed_reserved [of a p] unfolding totals_for_held uc [symmetric] by linarith
qed

lemma allocatable_protected:
  assumes "om_find p (au_paths a) = Some rec" and "allocatable a p GcProtected now_ms = Inr av" and "av \<noteq> 0"
  shows "held (promised_class GcProtected) a p + unat av \<le> unat (protected_floor a rec)"
proof -
  let ?t = "totals_for a p"
  have av: "\<not> pt_protected_held ?t > protected_floor a rec" "av = protected_floor a rec - pt_protected_held ?t"
    using assms(1,2) by (auto simp: allocatable_def Let_def split: if_splits)
  then have "unat av + unat (pt_protected_held ?t) = unat (protected_floor a rec)"
    by (simp add: unat_sub word_less_nat_alt word_le_nat_alt not_less)
  moreover have "0 < unat av" using assms(3) by (simp add: unat_gt_0)
  moreover have "unat (protected_floor a rec) \<le> amount_max" by (rule unat_le_max)
  moreover have "held (promised_class GcProtected) a p \<le> held is_protected a p" by (rule held_mono) simp
  ultimately show ?thesis unfolding totals_for_held by linarith
qed

lemma reserve_plan:
  assumes "plan_reserve_grant a op arb = Inr mu"
  obtains g g' path av where "om_find (go_grant op) (au_grants a) = Some g" and "gr_state g = GsEligible"
    and "om_find (gb_path (gr_binding g)) (au_paths a) = Some path"
    and "allocatable a (pr_id path) (gr_class g) (go_now_ms op) = Inr av" and "gr_amount g \<le> av"
    and "mu_images mu = [(OGrant g', False)]" and "same_grant g g'" and "gr_state g' = GsReserved"
  using assms
  by (fastforce simp: plan_reserve_grant_def Let_def same_grant_def rebound_def not_less
      split: if_splits option.splits sum.splits)

lemma om_sum_put:
  assumes "om_wf m" and "f v \<le> contrib f (om_find k m) + d"
  shows "om_sum f (om_put k v m) \<le> om_sum f m + d"
  by (rule om_sum_bump [OF assms(1) om_put_wf [OF assms(1)], of k]) (use assms in \<open>auto simp: om_find_put\<close>)

lemma held_promised_reserve:
  assumes "structure_ok a" and "om_find k (au_grants a) = Some g" and "same_grant g g'"
    and "store_objects (decoded_images [(OGrant g', False)]) a = (StOk, b)"
  shows "held (promised_class klass) b p \<le> held (promised_class klass) a p +
    (if p = gb_path (gr_binding g) \<and> klass = gr_class g then unat (gr_amount g) else 0)"
proof -
  have wf: "om_wf (au_grants a)" using assms(1) by (simp add: structure_ok_def tables_wf_def)
  have k: "gr_id g' = k" using structure_grant_id [OF assms(1,2)] assms(3) by (simp add: same_grant_def)
  have "au_grants b = om_put k (g'\<lparr>gr_reason := take 512 (gr_reason g')\<rparr>) (au_grants a)"
    using store_objects_effect(4) [OF assms(4)] by (simp add: decoded_images_def k)
  then show ?thesis
    unfolding held_def
    by (simp only:, intro om_sum_put [OF wf]) (use assms(3) in \<open>auto simp: held_by_def same_grant_def\<close>)
qed

lemma safe_reserve:
  assumes "structure_ok a" and "capacity_safe a" and "plan_reserve_grant a op arb = Inr mu"
    and st: "store_objects (decoded_images (mu_images mu)) a = (StOk, b)"
  shows "capacity_safe b"
  unfolding capacity_safe_def
proof (intro allI impI)
  fix p rec assume rec: "om_find p (au_paths b) = Some rec"
  obtain g g' path av where g: "om_find (go_grant op) (au_grants a) = Some g" "gr_state g = GsEligible"
    and path: "om_find (gb_path (gr_binding g)) (au_paths a) = Some path"
    and av: "allocatable a (pr_id path) (gr_class g) (go_now_ms op) = Inr av" "gr_amount g \<le> av"
    and imgs: "mu_images mu = [(OGrant g', False)]" and same: "same_grant g g'"
    by (rule reserve_plan [OF assms(3)])
  have st': "store_objects (decoded_images [(OGrant g', False)]) a = (StOk, b)" using st imgs by simp
  have paths: "au_paths b = au_paths a" using paths_unchanged [OF st'] by simp
  have keep: "au_policy b = au_policy a" "au_epoch b = au_epoch a"
    "au_oversubscriptions b = au_oversubscriptions a"
    using ceiling_inputs [OF st'] by simp_all
  have reca: "om_find p (au_paths a) = Some rec" using rec paths by simp
  then have fits: "path_fits a rec" and id: "pr_id rec = p"
    using assms(1,2) structure_path_id by (auto simp: capacity_safe_def)
  note le = held_promised_reserve [OF assms(1) g(1) same st']
  show "path_fits b rec"
  proof (cases "p = gb_path (gr_binding g) \<and> gr_amount g \<noteq> 0")
    case False
    then have "held (promised_class klass) b p \<le> held (promised_class klass) a p" for klass
      using le [of klass p] by (auto split: if_splits)
    with fits keep id show ?thesis by (intro fits_kept [OF fits]) simp_all
  next
    case True
    then have pp: "path = rec" "pr_id path = p" using path reca id by auto
    have av0: "av \<noteq> 0" and avle: "unat (gr_amount g) \<le> unat av"
      using True av(2) by (auto simp: word_le_nat_alt unat_eq_zero)
    have fl: "protected_floor b rec = protected_floor a rec" by (simp add: protected_floor_eq keep)
    have ce: "ceiling_at b rec (au_policy b) 0 = ceiling_at a rec (au_policy a) 0"
      using ceiling_cong [OF keep(3,2)] by (simp add: keep(1))
    show ?thesis
    proof (cases "gr_class g")
      case GcGeneral
      then have "held (promised_class GcGeneral) a p + unat (protected_floor a rec) + unat av +
          unat (pr_unavailable rec) \<le> ceiling_at a rec (au_policy a) (go_now_ms op)"
        using allocatable_general [OF reca id, of "go_now_ms op" av] av(1) av0 pp by simp
      with ceiling_anytime [of a rec "au_policy a" "go_now_ms op"] avle le [of GcGeneral p] le [of GcProtected p]
        fits fl ce id GcGeneral True show ?thesis by (simp add: path_fits_def)
    next
      case GcProtected
      then have "held (promised_class GcProtected) a p + unat av \<le> unat (protected_floor a rec)"
        using allocatable_protected [OF reca] av(1) av0 pp by simp
      with avle le [of GcGeneral p] le [of GcProtected p] fits fl ce id GcProtected True show ?thesis
        by (simp add: path_fits_def)
    qed
  qed
qed

section \<open>Changing a path, the policy or the epoch\<close>

lemma fits_rebalanced:
  assumes "pr_unavailable rec \<le> pr_authoritative_usable rec"
    and "au_policy b = pol" and "au_epoch b = au_epoch a" and "au_oversubscriptions b = au_oversubscriptions a"
    and "held promised_protected b (pr_id rec) \<le> unat (rebalance_floor rec pol)"
    and "held promised_general b (pr_id rec) \<le> unat (rebalance_general_ceiling a rec pol now_ms)"
  shows "path_fits b rec"
proof -
  have fl: "protected_floor b rec = rebalance_floor rec pol" by (simp add: protected_floor_eq assms(2))
  have "held promised_general b (pr_id rec) + unat (rebalance_floor rec pol) + unat (pr_unavailable rec)
      \<le> ceiling_at a rec pol now_ms"
    by (rule fits_from_limits [OF assms(1,6)])
  also have "\<dots> \<le> ceiling_at a rec pol 0" by (rule ceiling_anytime)
  also have "\<dots> = ceiling_at b rec (au_policy b) 0"
    unfolding assms(2) by (rule ceiling_cong [OF assms(4,3), symmetric])
  finally show ?thesis using assms(1,5) fl by (simp add: path_fits_def)
qed

text \<open>A request that replaces one existing path record and rebalances that path.\<close>

lemma safe_path_change:
  fixes path :: path_record
  assumes "structure_ok a" and "capacity_safe a"
    and "store_objects (decoded_images imgs) a = (StOk, b)"
    and "\<forall>img \<in> set imgs. legal_post_image a rq img" and "regular a rq" and "\<not> is_reserve rq"
    and "\<And>g. \<not> promises rq g"
    and imgs: "imgs = pre @ rebalance_path a path (au_policy a) now_ms reason rp rc"
    and pre: "\<forall>(ob, rel) \<in> set pre. keeps_ceiling ob \<and> (as_path ob = None \<or> ob = OPath path)"
    and old: "om_find (pr_id path) (au_paths a) = Some current"
    and unav: "pr_unavailable path \<le> pr_authoritative_usable path"
  shows "capacity_safe b"
  unfolding capacity_safe_def
proof (intro allI impI)
  fix p rec assume rec: "om_find p (au_paths b) = Some rec"
  have keep: "\<forall>(ob, rel) \<in> set imgs. keeps_ceiling ob"
    using pre rebalance_keep by (fastforce simp: imgs)
  have same: "au_policy b = au_policy a" "au_epoch b = au_epoch a"
    "au_oversubscriptions b = au_oversubscriptions a"
    using ceiling_inputs [OF assms(3) keep] by simp_all
  have id: "pr_id current = pr_id path" by (rule structure_path_id [OF assms(1) old])
  show "path_fits b rec"
  proof (cases "rec = path")
    case False
    then have "\<forall>(ob, rel) \<in> set imgs. ob \<noteq> OPath rec"
      using pre rebalance_keep by (fastforce simp: imgs)
    then show ?thesis using fits_elsewhere [OF assms(1-6) keep rec] by simp
  next
    case True
    have "held promised_protected b (pr_id path) \<le> unat (rebalance_floor path (au_policy a)) \<and>
         held promised_general b (pr_id path) \<le> unat (rebalance_general_ceiling a path (au_policy a) now_ms)"
      by (rule rebalance_final [OF assms(1) assms(3) [unfolded imgs] assms(4) [unfolded imgs] assms(7)])
         (use safe_bounds [OF assms(2) old id] in auto)
    with True same unav show ?thesis by (intro fits_rebalanced [where now_ms = now_ms]) auto
  qed
qed

text \<open>Every grant names a registered path and a registered holder.\<close>

definition refs_ok :: "authority \<Rightarrow> bool" where
  "refs_ok a \<longleftrightarrow>
     (\<forall>k g. om_find k (au_grants a) = Some g \<longrightarrow>
        om_find (gb_path (gr_binding g)) (au_paths a) \<noteq> None \<and>
        om_find (gb_holder (gr_binding g)) (au_sites a) \<noteq> None)"

lemma held_none:
  assumes "om_wf (au_grants a)"
    and "\<And>k g. om_find k (au_grants a) = Some g \<Longrightarrow> gb_path (gr_binding g) = p \<Longrightarrow> \<not> (holds_capacity (gr_state g) \<and> Q g)"
  shows "held Q a p = 0"
proof -
  have "held_by Q p g = 0" if g: "g \<in> set (om_vals (au_grants a))" for g
  proof -
    obtain k where "om_find k (au_grants a) = Some g"
      using g assms(1) by (auto simp: om_vals_def om_in_iff)
    then show ?thesis using assms(2) by (auto simp: held_by_def)
  qed
  then show ?thesis by (simp add: held_def om_sum_def sum_list_eq_0_iff)
qed

lemma safe_register_path:
  assumes "structure_ok a" and "capacity_safe a" and "refs_ok a"
    and "plan_register_path a reg arb = Inr mu"
    and st: "store_objects (decoded_images (mu_images mu)) a = (StOk, b)"
  shows "capacity_safe b"
proof -
  let ?rq = "RqRegisterPath reg"
  have legal: "\<forall>img \<in> set (mu_images mu). legal_post_image a ?rq img"
    by (rule legal_register_path [OF assms(1,4)])
  have misc: "regular a ?rq" "\<not> is_reserve ?rq" "\<And>g. \<not> promises ?rq g"
    by (simp_all add: regular_def is_reserve_def promises_def)
  have wf: "om_wf (au_grants a)" using assms(1) by (simp add: structure_ok_def tables_wf_def)
  let ?new = "fresh_path reg"
  let ?dom = "domain_images a (registered_domain (preg_descriptor reg))"
  have dom: "\<forall>(ob, rel) \<in> set ?dom. \<exists>d. ob = ODomain d" by (simp add: domain_images_def)
  have new: "pr_id ?new = pdesc_id (preg_descriptor reg)" "pr_authoritative_usable ?new = 0" "pr_unavailable ?new = 0"
    by (simp_all add: fresh_path_def Let_def)
  have upd: "pr_id (reregistered_path reg c) = pr_id c"
    "pr_authoritative_usable (reregistered_path reg c) = pr_authoritative_usable c"
    "pr_unavailable (reregistered_path reg c) = pr_unavailable c" for c
    by (simp_all add: reregistered_path_def Let_def)
  from assms(4) consider
    (fresh) "om_find (pr_id ?new) (au_paths a) = None" "mu_images mu = ?dom @ [(OPath ?new, False)]"
    | (old) current where "om_find (pdesc_id (preg_descriptor reg)) (au_paths a) = Some current"
        "mu_images mu = (?dom @ [(OPath (reregistered_path reg current), False)]) @
          rebalance_path a (reregistered_path reg current) (au_policy a) (preg_now_ms reg)
            ''path generation changed'' False True"
    by (auto simp: plan_register_path_def new(1) Let_def split: if_splits option.splits)
  then show ?thesis
  proof cases
    case fresh
    have keep: "\<forall>(ob, rel) \<in> set (mu_images mu). keeps_ceiling ob" using fresh(2) dom by auto
    have none: "held Q a (pr_id ?new) = 0" for Q
      by (rule held_none [OF wf]) (use assms(3) fresh(1) in \<open>fastforce simp: refs_ok_def\<close>)
    show ?thesis unfolding capacity_safe_def
    proof (intro allI impI)
      fix p rec assume rec: "om_find p (au_paths b) = Some rec"
      show "path_fits b rec"
      proof (cases "rec = ?new")
        case False
        then have "\<forall>(ob, rel) \<in> set (mu_images mu). ob \<noteq> OPath rec" using fresh(2) dom by auto
        then show ?thesis using fits_elsewhere [OF assms(1,2) st legal misc(1,2) keep rec] by simp
      next
        case True
        have "held (promised_class klass) b (pr_id ?new) = 0" for klass
          using held_promised_le [OF assms(1) st legal misc(1,2), of klass "pr_id ?new"] none by simp
        then show ?thesis using True new(2,3) rebalance_floor_le [of ?new "au_policy b"]
          by (simp add: path_fits_def protected_floor_eq)
      qed
    qed
  next
    case old
    let ?upd = "reregistered_path reg current"
    have find: "om_find (pr_id ?upd) (au_paths a) = Some current"
      using old(1) structure_path_id [OF assms(1) old(1)] by (simp add: upd)
    show ?thesis
    proof (rule safe_path_change [OF assms(1,2) st legal misc old(2) _ find])
      show "\<forall>(ob, rel) \<in> set (?dom @ [(OPath ?upd, False)]). keeps_ceiling ob \<and> (as_path ob = None \<or> ob = OPath ?upd)"
        using dom by auto
      show "pr_unavailable ?upd \<le> pr_authoritative_usable ?upd"
        using assms(2) old(1) by (auto simp: upd capacity_safe_def path_fits_def)
    qed
  qed
qed

lemma safe_attest:
  assumes "structure_ok a" and "capacity_safe a" and "plan_attest_capacity a att arb = Inr mu"
    and st: "store_objects (decoded_images (mu_images mu)) a = (StOk, b)"
  shows "capacity_safe b"
proof -
  let ?rq = "RqAttestCapacity att"
  have legal: "\<forall>img \<in> set (mu_images mu). legal_post_image a ?rq img"
    by (rule legal_attest_capacity [OF assms(1,3)])
  have misc: "regular a ?rq" "\<not> is_reserve ?rq" "\<And>g. \<not> promises ?rq g"
    by (simp_all add: regular_def is_reserve_def promises_def)
  obtain current where cur: "om_find (ca_path att) (au_paths a) = Some current"
    and imgs: "mu_images mu = [(OAttestation att, False), (OPath (attested_path current att), False)] @
      rebalance_path a (attested_path current att) (au_policy a) (ca_observed_at_ms att)
        ''authoritative capacity changed'' False True"
    using assms(3) by (auto simp: plan_attest_capacity_def Let_def split: if_splits option.splits)
  have old: "om_find (pr_id (attested_path current att)) (au_paths a) = Some current"
    using cur structure_path_id [OF assms(1) cur] by (simp add: attested_path_def)
  have unav: "pr_unavailable (attested_path current att) \<le> pr_authoritative_usable (attested_path current att)"
    by (simp add: attested_path_def not_less)
  show ?thesis
    by (rule safe_path_change [OF assms(1,2) st legal misc imgs _ old unav]) simp
qed

text \<open>Moving a path to a state that carries traffic frees its unavailable share.\<close>

lemma fits_available:
  assumes "path_fits a current" and "pr_unavailable path = 0"
    and "pr_id path = pr_id current" and "pr_authoritative_usable path = pr_authoritative_usable current"
    and "pr_generation path = pr_generation current"
    and "pr_capacity_generation path = pr_capacity_generation current"
  shows "path_fits a path"
proof -
  have "floor_wanted path (au_policy a) = floor_wanted current (au_policy a)"
    by (simp add: floor_wanted_def assms(4))
  then have "unat (protected_floor a current) \<le> unat (protected_floor a path)"
    "unat (protected_floor a path) \<le> unat (protected_floor a current) + unat (pr_unavailable current)"
    by (auto simp: protected_floor_eq unat_rebalance_floor unat_path_basis assms(2,4) min_def)
  moreover have "ceiling_at a path (au_policy a) 0 = ceiling_at a current (au_policy a) 0"
    unfolding ceiling_at_def rebalance_bps_def assms(3-6) by (rule refl)
  ultimately show ?thesis using assms(1,2) by (simp add: path_fits_def assms(3))
qed

lemma safe_set_path_state:
  assumes "structure_ok a" and "capacity_safe a" and "plan_set_path_state a path st reason now_ms arb = Inr mu"
    and sto: "store_objects (decoded_images (mu_images mu)) a = (StOk, b)"
  shows "capacity_safe b"
proof -
  let ?rq = "RqSetPathState path st reason now_ms"
  have legal: "\<forall>img \<in> set (mu_images mu). legal_post_image a ?rq img"
    by (rule legal_set_path_state [OF assms(1,3)])
  have misc: "regular a ?rq" "\<not> is_reserve ?rq" "\<And>g. \<not> promises ?rq g"
    by (simp_all add: regular_def is_reserve_def promises_def)
  obtain current pre where cur: "om_find path (au_paths a) = Some current"
    and pre: "\<forall>(ob, rel) \<in> set pre. keeps_ceiling ob \<and> (as_path ob = None \<or> ob = OPath (path_in_state current st now_ms))"
    and imgs: "mu_images mu = pre @ (if st = PsDown \<or> st = PsFenced \<or> st = PsMaintenance
        then rebalance_path a (path_in_state current st now_ms) (au_policy a) now_ms
               ''path capacity withdrawn'' False False else [])"
  proof -
    obtain current where cur: "om_find path (au_paths a) = Some current"
      using assms(3) by (auto simp: plan_set_path_state_def split: option.splits)
    let ?pre = "(OPath (path_in_state current st now_ms), False) #
        (if st = PsDown \<or> st = PsFenced \<or> st = PsMaintenance \<or> st = PsDraining
         then append_downgrades a (text_or reason (''path moved to '' @ path_state_name st)) None (Some path) now_ms
         else [])"
    show thesis
      by (rule that [of current ?pre])
         (use cur assms(3) downgrades_keep in \<open>fastforce simp: plan_set_path_state_def Let_def\<close>)+
  qed
  let ?upd = "path_in_state current st now_ms"
  have id: "pr_id current = path" by (rule structure_path_id [OF assms(1) cur])
  have unav: "pr_unavailable ?upd \<le> pr_authoritative_usable ?upd"
    by (simp add: path_in_state_def split: path_state.split)
  show ?thesis
  proof (cases "st = PsDown \<or> st = PsFenced \<or> st = PsMaintenance")
    case True
    show ?thesis
      by (rule safe_path_change [OF assms(1,2) sto legal misc _ pre])
         (use True imgs cur id unav in \<open>auto simp: path_in_state_def\<close>)
  next
    case False
    have keep: "\<forall>(ob, rel) \<in> set (mu_images mu). keeps_ceiling ob" using pre imgs False by auto
    have zero: "pr_unavailable ?upd = 0"
      using False by (simp add: path_in_state_def split: path_state.split)
    have fits: "path_fits a ?upd"
      by (rule fits_available [of a current])
         (use assms(2) cur zero in \<open>auto simp: capacity_safe_def path_in_state_def\<close>)
    show ?thesis unfolding capacity_safe_def
    proof (intro allI impI)
      fix p rec assume rec: "om_find p (au_paths b) = Some rec"
      show "path_fits b rec"
      proof (cases "rec = ?upd")
        case True
        then show ?thesis
          using fits_kept [OF fits ceiling_inputs [OF sto keep]] held_promised_le [OF assms(1) sto legal misc(1,2)]
          by simp
      next
        case other: False
        then have "\<forall>(ob, rel) \<in> set (mu_images mu). ob \<noteq> OPath rec" using pre imgs False by auto
        then show ?thesis using fits_elsewhere [OF assms(1,2) sto legal misc(1,2) keep rec] by simp
      qed
    qed
  qed
qed

lemma safe_issue_oversubscription:
  assumes "structure_ok a" and "capacity_safe a" and "plan_issue_oversubscription a oa arb = Inr mu"
    and fresh: "om_find (oa_id oa) (au_oversubscriptions a) = None"
    and st: "store_objects (decoded_images (mu_images mu)) a = (StOk, b)"
  shows "capacity_safe b"
proof -
  have imgs: "mu_images mu = [(OOversubscription oa, False)]"
    using assms(3) by (auto simp: plan_issue_oversubscription_def split: if_splits option.splits)
  have wf: "om_wf (au_oversubscriptions a)" using assms(1) by (simp add: structure_ok_def tables_wf_def)
  have sub: "set (om_vals (au_oversubscriptions a)) \<subseteq> set (om_vals (om_put (oa_id oa) oa (au_oversubscriptions a)))"
  proof
    fix x assume "x \<in> set (om_vals (au_oversubscriptions a))"
    then obtain k where "om_find k (au_oversubscriptions a) = Some x"
      using wf by (auto simp: om_vals_def om_in_iff)
    then have "om_find k (om_put (oa_id oa) oa (au_oversubscriptions a)) = Some x"
      using fresh wf by (auto simp: om_find_put)
    then show "x \<in> set (om_vals (om_put (oa_id oa) oa (au_oversubscriptions a)))" by (rule om_find_vals)
  qed
  have b: "au_oversubscriptions b = om_put (oa_id oa) oa (au_oversubscriptions a)" "au_paths b = au_paths a"
    "au_grants b = au_grants a" "au_policy b = au_policy a" "au_epoch b = au_epoch a"
    using store_objects_effect [OF st] by (simp_all add: imgs decoded_images_def)
  have "best_bps a rec (au_policy a) 0 \<le> best_bps b rec (au_policy a) 0" for rec
    unfolding best_bps_le [of a] using best_bps_le [of b rec "au_policy a" 0 "best_bps b rec (au_policy a) 0"] sub b
    by (auto simp: qualifies_def)
  then have "rebalance_bps a rec (au_policy a) 0 \<le> rebalance_bps b rec (au_policy a) 0" for rec
    unfolding rebalance_bps_best by (intro min.mono) auto
  then have ceil: "ceiling_at a rec (au_policy a) 0 \<le> ceiling_at b rec (au_policy b) 0" for rec
    unfolding ceiling_at_def unat_saturating_add b(4)
    by (intro min.mono add_left_mono order_refl oversubscription_extension_mono)
  have held: "held Q b p = held Q a p" for Q p by (simp add: held_def b)
  have "protected_floor b rec = protected_floor a rec" for rec by (simp add: protected_floor_eq b)
  then show ?thesis using assms(2) ceil
    by (fastforce simp: capacity_safe_def path_fits_def b(2) held intro: order_trans)
qed

lemma safe_bump_epoch:
  assumes "structure_ok a" and "capacity_safe a" and "plan_bump_epoch a ep prin arb = Inr mu"
    and st: "store_objects (decoded_images (mu_images mu)) a = (StOk, b)"
  shows "capacity_safe b"
proof -
  have wf: "om_wf (au_grants a)" using assms(1) by (simp add: structure_ok_def tables_wf_def)
  have wfb: "om_wf (au_grants b)" using store_objects_effect(4) [OF st] by (simp add: put_all_wf wf)
  have wd: "gr_state g' = GsWithdrawing" if "(OGrant g', rel) \<in> set (mu_images mu)" for g' rel
    using that assms(3) by (auto simp: plan_bump_epoch_def Let_def split: if_splits)
  have ex: "\<exists>g' rel. (OGrant g', rel) \<in> set (mu_images mu) \<and> gr_id g' = gr_id g"
    if "g \<in> set (om_vals (au_grants a))" "promised g" for g
  proof -
    let ?g' = "g\<lparr>gr_state := GsWithdrawing,
      gr_reason := bounded (''authority epoch advanced to '' @ u64_to_string ep)\<rparr>"
    have "(OGrant ?g', False) \<in> set (mu_images mu)"
      using that assms(3) by (auto simp: plan_bump_epoch_def Let_def promised_def split: if_splits)
    then show ?thesis by (intro exI [of _ ?g'] exI [of _ False]) simp
  qed
  have none: "held (promised_class klass) b p = 0" for klass p
  proof (rule held_none [OF wfb])
    fix k v assume v: "om_find k (au_grants b) = Some v"
    from grant_after_images [OF wf st v]
    have "gr_state v = GsWithdrawing \<or> \<not> promised v"
    proof
      assume "\<exists>g rel. (OGrant g, rel) \<in> set (mu_images mu) \<and> gr_id g = k \<and>
          v = g\<lparr>gr_reason := take 512 (gr_reason g)\<rparr>"
      then show ?thesis using wd by auto
    next
      assume same: "om_find k (au_grants a) = Some v \<and>
          (\<forall>g rel. (OGrant g, rel) \<in> set (mu_images mu) \<longrightarrow> gr_id g \<noteq> k)"
      then have "gr_id v = k" "v \<in> set (om_vals (au_grants a))"
        using structure_grant_id [OF assms(1)] om_find_vals by auto
      with ex [of v] same show ?thesis by blast
    qed
    then show "\<not> (holds_capacity (gr_state v) \<and> promised_class klass v)" by (auto simp: promised_def)
  qed
  have paths: "au_paths b = au_paths a"
    using assms(3) by (intro paths_unchanged [OF st]) (auto simp: plan_bump_epoch_def Let_def split: if_splits)
  show ?thesis unfolding capacity_safe_def
  proof (intro allI impI)
    fix p rec assume "om_find p (au_paths b) = Some rec"
    then have "pr_unavailable rec \<le> pr_authoritative_usable rec"
      using assms(2) paths by (auto simp: capacity_safe_def path_fits_def)
    then show "path_fits b rec"
      using none ceiling_at_ge [of rec b "au_policy b" 0] rebalance_floor_le [of rec "au_policy b"]
      by (simp add: path_fits_def protected_floor_eq word_le_nat_alt)
  qed
qed

lemma safe_install_policy:
  assumes "structure_ok a" and "capacity_safe a" and "plan_install_policy a pol prin arb = Inr mu"
    and st: "store_objects (decoded_images (mu_images mu)) a = (StOk, b)"
  shows "capacity_safe b"
proof -
  let ?rq = "RqInstallPolicy pol prin"
  let ?reb = "\<lambda>path. rebalance_path a path pol 0 ''policy generation changed'' True False"
  let ?suf = "concat (map ?reb (om_vals (au_paths a)))"
  have legal: "\<forall>img \<in> set (mu_images mu). legal_post_image a ?rq img"
    by (rule legal_install_policy [OF assms(1,3)])
  have nop: "\<And>g. \<not> promises ?rq g" by (simp add: promises_def)
  have imgs: "mu_images mu = [(OPolicy pol, False)] @ ?suf"
    using assms(3) by (auto simp: plan_install_policy_def split: if_splits)
  have suf: "keeps_ceiling ob \<and> as_path ob = None" if "(ob, rel) \<in> set ?suf" for ob rel
    using that rebalance_keep by (fastforce split: if_splits)
  have paths: "au_paths b = au_paths a"
    by (rule paths_unchanged [OF st]) (use suf in \<open>fastforce simp: imgs\<close>)
  have same: "au_epoch b = au_epoch a" "au_oversubscriptions b = au_oversubscriptions a"
    by (rule epoch_unchanged [OF st] oversubscriptions_unchanged [OF st];
        use suf in \<open>fastforce simp: imgs keeps_ceiling_def\<close>)+
  have "fold (\<lambda>(k, ob) p. case as_policy ob of None \<Rightarrow> p | Some v \<Rightarrow> v) (decoded_images ?suf) pol = pol"
    by (rule fold_unchanged) (use suf in \<open>fastforce simp: keeps_ceiling_def\<close>)
  then have pol: "au_policy b = pol"
    using store_objects_effect(7) [OF st] by (simp add: imgs decoded_images_def)
  show ?thesis unfolding capacity_safe_def
  proof (intro allI impI)
    fix p rec assume "om_find p (au_paths b) = Some rec"
    then have rec: "om_find p (au_paths a) = Some rec" by (simp add: paths)
    have id: "pr_id rec = p" by (rule structure_path_id [OF assms(1) rec])
    have only: "(OGrant g', rel) \<in> set (?reb rec)"
      if img: "(OGrant g', rel) \<in> set ?suf" "gb_path (gr_binding g') = pr_id rec" for g' rel
    proof -
      obtain q where q: "q \<in> set (om_vals (au_paths a))" "(OGrant g', rel) \<in> set (?reb q)"
        using img(1) by auto
      obtain j where j: "om_find j (au_paths a) = Some q"
        using q(1) assms(1) by (auto simp: om_vals_def structure_ok_def tables_wf_def om_in_iff)
      have "gb_path (gr_binding g') = pr_id q"
        using rebalance_image [OF q(2)] by (auto simp: holding_grants_set demotes_def same_grant_def)
      with img(2) j rec id structure_path_id [OF assms(1) j] have "q = rec" by simp
      with q(2) show ?thesis by simp
    qed
    have "held promised_protected b (pr_id rec) \<le> unat (rebalance_floor rec pol) \<and>
         held promised_general b (pr_id rec) \<le> unat (rebalance_general_ceiling a rec pol 0)"
      by (rule rebalance_final [OF assms(1) st [unfolded imgs] legal [unfolded imgs] nop _ only])
         (use om_find_vals [OF rec] safe_bounds [OF assms(2) rec id] id in auto)
    moreover have "pr_unavailable rec \<le> pr_authoritative_usable rec"
      using assms(2) rec by (auto simp: capacity_safe_def path_fits_def)
    ultimately show "path_fits b rec" using pol same by (intro fits_rebalanced) auto
  qed
qed

section \<open>References stay valid\<close>

lemma table_survives: "om_wf m \<Longrightarrow> om_find k m \<noteq> None \<Longrightarrow> om_find k (put_all kvs m) \<noteq> None"
  by (auto simp: put_all_find split: option.splits)

lemma refs_images:
  assumes "structure_ok a" and "refs_ok a" and "store_objects (decoded_images imgs) a = (StOk, b)"
    and "\<forall>img \<in> set imgs. legal_post_image a rq img"
  shows "refs_ok b"
proof -
  have wf: "om_wf (au_paths a)" "om_wf (au_sites a)" "om_wf (au_grants a)"
    using assms(1) by (simp_all add: structure_ok_def tables_wf_def)
  have keep: "om_find k (au_paths a) \<noteq> None \<Longrightarrow> om_find k (au_paths b) \<noteq> None"
    "om_find k (au_sites a) \<noteq> None \<Longrightarrow> om_find k (au_sites b) \<noteq> None" for k
    using table_survives [OF wf(1)] table_survives [OF wf(2)] store_objects_effect(1,2) [OF assms(3)] by simp_all
  show ?thesis unfolding refs_ok_def
  proof (intro allI impI)
    fix k v assume v: "om_find k (au_grants b) = Some v"
    from grant_after_images [OF wf(3) assms(3) v]
    have "om_find (gb_path (gr_binding v)) (au_paths a) \<noteq> None \<and>
        om_find (gb_holder (gr_binding v)) (au_sites a) \<noteq> None"
    proof
      assume "\<exists>g rel. (OGrant g, rel) \<in> set imgs \<and> gr_id g = k \<and> v = g\<lparr>gr_reason := take 512 (gr_reason g)\<rparr>"
      then obtain g rel where g: "legal_post_image a rq (OGrant g, rel)" "gr_binding v = gr_binding g"
        using assms(4) by force
      then show ?thesis using assms(2)
        by (auto simp: legal_post_image_def image_of_grant_def refs_ok_def legal_image_def same_grant_def new_grant_def)
    qed (use assms(2) in \<open>auto simp: refs_ok_def\<close>)
    with keep show "om_find (gb_path (gr_binding v)) (au_paths b) \<noteq> None \<and>
        om_find (gb_holder (gr_binding v)) (au_sites b) \<noteq> None" by blast
  qed
qed

lemma refs_ok_note [simp]: "refs_ok (note_recovered_arbitration arb b) = refs_ok b"
  by (simp add: refs_ok_def)

lemma refs_after:
  assumes "structure_ok a" and "refs_ok a" and "execute a rq arb = (StOk, a')"
  shows "refs_ok a'"
proof -
  obtain mu b where mu: "plan_request a rq arb = Inr mu" and "images_ok (mu_images mu)"
    and st: "store_objects (decoded_images (mu_images mu)) a = (StOk, b)"
    and a': "a' = note_recovered_arbitration arb b"
    by (rule execute_okE [OF assms(1,3)])
  show ?thesis using refs_images [OF assms(1,2) st plan_request_legal [OF assms(1) mu]] by (simp add: a')
qed

section \<open>The promise\<close>

lemma capacity_safe_note [simp]: "capacity_safe (note_recovered_arbitration arb b) = capacity_safe b"
proof -
  have "held Q (note_recovered_arbitration arb b) p = held Q b p" for Q p by (simp add: held_def)
  moreover have "protected_floor (note_recovered_arbitration arb b) rec = protected_floor b rec" for rec
    by (simp add: protected_floor_eq)
  moreover have "ceiling_at (note_recovered_arbitration arb b) rec pol t = ceiling_at b rec pol t" for rec pol t
    by (rule ceiling_cong) simp_all
  ultimately show ?thesis by (simp add: capacity_safe_def path_fits_def)
qed

lemma safe_execute:
  assumes "structure_ok a" and "refs_ok a" and "capacity_safe a" and "regular a rq"
    and "execute a rq arb = (StOk, a')"
  shows "capacity_safe a'"
proof -
  obtain mu b where mu: "plan_request a rq arb = Inr mu" and "images_ok (mu_images mu)"
    and st: "store_objects (decoded_images (mu_images mu)) a = (StOk, b)"
    and a': "a' = note_recovered_arbitration arb b"
    by (rule execute_okE [OF assms(1,5)])
  have "capacity_safe b"
  proof (cases "plain_request rq \<and> \<not> is_reserve rq")
    case True
    then show ?thesis
      using safe_plain [OF assms(1,3) st plan_request_legal [OF assms(1) mu] assms(4)] plain_images [OF _ mu] by blast
  next
    case False
    with mu assms(1-4) st show ?thesis
      by (cases rq)
         (auto simp: plan_request_def plain_request_def is_reserve_def regular_def
            intro: safe_install_policy safe_bump_epoch safe_register_path safe_set_path_state safe_attest
              safe_issue_oversubscription safe_reserve)
  qed
  with a' show ?thesis by simp
qed

inductive regular_run :: "incarnation \<Rightarrow> authority_config \<Rightarrow> authority \<Rightarrow> bool"
  for rnd cfg where
  start: "regular_run rnd cfg (new_authority rnd cfg)"
| request: "regular_run rnd cfg a \<Longrightarrow> regular a rq \<Longrightarrow> execute a rq arb = (StOk, a') \<Longrightarrow> regular_run rnd cfg a'"

lemma regular_run_invariant:
  "regular_run rnd cfg a \<Longrightarrow> structure_ok a \<and> refs_ok a \<and> capacity_safe a"
proof (induction rule: regular_run.induct)
  case start
  show ?case
    using structure_new by (simp add: refs_ok_def capacity_safe_def new_authority_def Let_def)
next
  case (request a rq arb a')
  then show ?case
    using execute_structure [of a rq arb] refs_after [of a rq arb a'] safe_execute [of a rq arb a'] by auto
qed

text \<open>What the invariants mean for one path.\<close>

lemma promise_holds:
  assumes "structure_ok a" and "capacity_safe a" and "om_find p (au_paths a) = Some rec"
  shows "held promised_general a p + held promised_protected a p + unat (pr_unavailable rec) \<le>
           unat (pr_authoritative_usable rec) +
           unat (oversubscription_extension (pr_authoritative_usable rec)
             (value_or_zero (live_oversubscription_bps a p 0))) \<and>
         held promised_protected a p \<le> unat (protected_floor a rec) \<and>
         (\<forall>l. ledger a p = Inr l \<longrightarrow> cl_oversubscribed l = 0)"
proof -
  have id: "pr_id rec = p" by (rule structure_path_id [OF assms(1,3)])
  have fits: "path_fits a rec" using assms(2,3) by (auto simp: capacity_safe_def)
  then have "held promised_general a p + held promised_protected a p + unat (pr_unavailable rec) \<le>
      ceiling_at a rec (au_policy a) 0"
    using id by (simp add: path_fits_def)
  also have "\<dots> \<le> unat (pr_authoritative_usable rec) + unat (oversubscription_extension
      (pr_authoritative_usable rec) (value_or_zero (live_oversubscription_bps a p 0)))"
    by (simp add: ceiling_at_def unat_saturating_add live_bps_eq [OF assms(3) id])
  finally show ?thesis
    using fits id fits_not_oversubscribed [OF assms(3) id fits] by (auto simp: path_fits_def)
qed

end
