(* ===== verification/Example.thy ===== *)
theory Example
  imports Safety
begin

text \<open>
  A concrete run of the authority, used to show that the hypotheses of the properties can
  hold: two sites and a path are registered, capacity is attested, and a grant is proposed,
  evaluated, reserved and activated.
\<close>

section \<open>Executing without bytes\<close>

lemma execute_planned:
  assumes "structure_ok a" and "plan_request a rq arb = Inr mu" and "images_ok (mu_images mu)"
    and "store_objects (decoded_images (mu_images mu)) a = (StOk, b)"
    and "note_recovered_arbitration arb b = a'"
  shows "execute a rq arb = (StOk, a')"
proof -
  have "images_sized (mu_images mu)" "mu_arbitration mu = arb"
    using plan_request_sized [OF assms(1,2)] by auto
  then have "decode_changes (mu_changes mu) = Inr (decoded_images (mu_images mu))"
    using decode_changes_for [of "mu_images mu"] assms(3)
    by (simp add: mu_changes_def images_sized_def images_ok_def)
  with assms(2,4,5) \<open>mu_arbitration mu = arb\<close> show ?thesis by (simp add: execute_def apply_changes_def)
qed

lemma execute_structure_ok: "structure_ok a \<Longrightarrow> execute a rq arb = (s, a') \<Longrightarrow> structure_ok a'"
  using execute_structure [of a rq arb] by simp

text \<open>The same as a condition that evaluates.\<close>

definition executes_to :: "authority \<Rightarrow> request \<Rightarrow> arb_seq \<Rightarrow> authority \<Rightarrow> bool" where
  "executes_to a rq arb a' \<longleftrightarrow>
     (case plan_request a rq arb of
        Inl s \<Rightarrow> False
      | Inr mu \<Rightarrow> images_ok (mu_images mu) \<and>
          (case store_objects (decoded_images (mu_images mu)) a of
             (s, b) \<Rightarrow> s = StOk \<and> note_recovered_arbitration arb b = a'))"

lemma executes_toD: "structure_ok a \<Longrightarrow> executes_to a rq arb a' \<Longrightarrow> execute a rq arb = (StOk, a')"
  by (auto simp: executes_to_def split: sum.splits prod.splits intro: execute_planned)

section \<open>The run\<close>

definition demo_inc :: incarnation where
  "demo_inc = Id128 0 99"

definition demo0 :: authority where
  "demo0 = new_authority demo_inc (default_config demo_inc)"

definition demo_site_record :: "u64 \<Rightarrow> site_record" where
  "demo_site_record n =
     \<lparr>sr_id = Id128 0 n, sr_name = ''s'', sr_incarnation = Id128 1 n, sr_generation = 1, sr_epoch = 1,
      sr_state = SsUp, sr_advertised_capacity = 0, sr_registered_at_ms = 5, sr_last_heartbeat_ms = 5,
      sr_missed_heartbeats = 0, sr_fence_reason = [], sr_provenance = PvLive\<rparr>"

definition demo_site :: "u64 \<Rightarrow> request" where
  "demo_site n = RqRegisterSite
     \<lparr>sreg_descriptor = \<lparr>sdesc_id = Id128 0 n, sdesc_name = ''s'', sdesc_advertised_capacity = 0\<rparr>,
      sreg_incarnation = Id128 1 n, sreg_epoch = 1, sreg_now_ms = 5\<rparr>"

definition demo_path :: request where
  "demo_path = RqRegisterPath
     \<lparr>preg_descriptor = \<lparr>pdesc_id = Id128 0 7, pdesc_name = ''p'', pdesc_edge = Id128 0 3,
        pdesc_shared_risk_domain = nil_id, pdesc_endpoint_a = Id128 0 1, pdesc_endpoint_b = Id128 0 2\<rparr>,
      preg_path_generation = 1, preg_state = PsUp, preg_advertised = 0, preg_observed = 0,
      preg_now_ms = 5\<rparr>"

definition demo_path_record :: path_record where
  "demo_path_record =
     \<lparr>pr_id = Id128 0 7, pr_name = ''p'', pr_edge = Id128 0 3,
      pr_shared_risk_domain = sd_id default_domain,
      pr_endpoint_a = Id128 0 1, pr_endpoint_b = Id128 0 2, pr_generation = 1,
      pr_capacity_generation = 0, pr_state = PsUp, pr_advertised = 0, pr_observed = 0,
      pr_authoritative_usable = 0, pr_unavailable = 0, pr_updated_at_ms = 5, pr_provenance = PvLive\<rparr>"

definition demo_attestation :: capacity_attestation where
  "demo_attestation =
     \<lparr>ca_id = Id128 0 4, ca_path = Id128 0 7, ca_path_generation = 1, ca_capacity_generation = 1,
      ca_usable = 1000, ca_advertised = 1000, ca_observed = 1000, ca_issuer = demo_inc, ca_epoch = 1,
      ca_principal = Id128 0 5, ca_observed_at_ms = 6, ca_evidence = digest_of (replicate 32 1),
      ca_source = []\<rparr>"

definition demo_proposal :: grant_proposal where
  "demo_proposal =
     \<lparr>gp_request = Id128 0 6, gp_holder = Id128 0 1, gp_holder_incarnation = Id128 1 1,
      gp_holder_generation = 0, gp_path = Id128 0 7, gp_amount = 400, gp_grant_class = GcGeneral,
      gp_duration_ms = 1000, gp_now_ms = 7, gp_reason = [], gp_grant_id = Id128 0 9,
      gp_lease = Id128 0 8\<rparr>"

definition demo_operation :: "u64 \<Rightarrow> grant_operation" where
  "demo_operation now_ms =
     \<lparr>go_grant = Id128 0 9, go_request = nil_id, go_actor = Id128 0 1, go_actor_incarnation = Id128 1 1,
      go_actor_generation = 0, go_epoch = 1, go_path_generation = 1, go_capacity_generation = 1,
      go_policy_generation = 1, go_lease = Id128 0 8, go_now_ms = now_ms, go_reason = []\<rparr>"

definition demo_grant :: "grant_state \<Rightarrow> u64 \<Rightarrow> grant_record" where
  "demo_grant st now_ms =
     \<lparr>gr_id = Id128 0 9, gr_request = Id128 0 6, gr_arbitration = 5,
      gr_binding = \<lparr>gb_holder = Id128 0 1, gb_holder_incarnation = Id128 1 1, gb_holder_generation = 1,
        gb_path = Id128 0 7, gb_path_generation = 1, gb_capacity_generation = 1,
        gb_policy_generation = 1, gb_epoch = 1, gb_lease = Id128 0 8\<rparr>,
      gr_class = GcGeneral, gr_amount = 400, gr_state = st, gr_verification = VsUnverified,
      gr_acknowledged = False, gr_ack_count = 0, gr_created_at_ms = 7, gr_updated_at_ms = now_ms,
      gr_expires_at_ms = 1007, gr_reason = [], gr_provenance = PvLive, gr_historical = False,
      gr_ambiguous = False\<rparr>"

definition demo1 :: authority where
  "demo1 = demo0\<lparr>au_sites := [(Id128 0 1, demo_site_record 1)], au_last_arbitration := 1\<rparr>"

definition demo2 :: authority where
  "demo2 = demo1\<lparr>au_sites := [(Id128 0 1, demo_site_record 1), (Id128 0 2, demo_site_record 2)],
     au_last_arbitration := 2\<rparr>"

definition demo3 :: authority where
  "demo3 = demo2\<lparr>au_paths := [(Id128 0 7, demo_path_record)], au_last_arbitration := 3\<rparr>"

definition demo4 :: authority where
  "demo4 = demo3\<lparr>au_attestations := [(Id128 0 4, demo_attestation)],
     au_paths := [(Id128 0 7, attested_path demo_path_record demo_attestation)],
     au_last_arbitration := 4\<rparr>"

definition demo_with :: "grant_record \<Rightarrow> arb_seq \<Rightarrow> authority" where
  "demo_with g arb = demo4\<lparr>au_grants := [(Id128 0 9, g)],
     au_request_index := [(Id128 0 6, Id128 0 9)], au_last_arbitration := arb\<rparr>"

lemma demo_config [simp]:
  "au_config demo0 = default_config demo_inc" "au_config demo1 = default_config demo_inc"
  "au_config demo2 = default_config demo_inc" "au_config demo3 = default_config demo_inc"
  "au_config demo4 = default_config demo_inc" "au_config (demo_with g arb) = default_config demo_inc"
  by (simp_all add: demo_with_def demo4_def demo3_def demo2_def demo1_def demo0_def new_authority_def
      default_config_def conservative_default_def generation_is_nil_def demo_inc_def is_nil_def Let_def)

lemma default_config_sel [simp]:
  "ac_policy (default_config i) = conservative_default" "ac_epoch (default_config i) = 1"
  "ac_max_sites (default_config i) = 4096" "ac_max_paths (default_config i) = 65536"
  "ac_max_domains (default_config i) = 4096" "ac_max_grants (default_config i) = 2 ^ 20"
  "ac_max_attestations (default_config i) = 2 ^ 16"
  by (simp_all add: default_config_def)

lemma conservative_default_sel [simp]:
  "po_generation conservative_default = 1" "po_max_lease_duration_ms conservative_default = 3600000"
  "po_max_grants_per_path conservative_default = 1024" "po_max_grants_per_site conservative_default = 4096"
  "po_max_oversubscription_bps conservative_default = 0" "po_protected_floor_bps conservative_default = 1000"
  "po_protected_floor_units conservative_default = 0" "po_min_free_bps conservative_default = 0"
  "po_min_free_units conservative_default = 0" "po_max_srd_concentration_bps conservative_default = 10000"
  "\<not> po_require_verification_for_active conservative_default"
  by (simp_all add: conservative_default_def)

lemma demo0_tables [simp]:
  "au_sites demo0 = []" "au_paths demo0 = []" "au_grants demo0 = []" "au_attestations demo0 = []"
  "au_oversubscriptions demo0 = []" "au_request_index demo0 = []" "au_last_arbitration demo0 = 0"
  "au_domains demo0 = [(sd_id default_domain, default_domain)]"
  by (simp_all add: demo0_def new_authority_def Let_def)

lemmas demo_states = demo1_def demo2_def demo3_def demo4_def demo_with_def

lemmas demo_eval = executes_to_def plan_request_def mk_mutation_def is_nil_def valid_name_def kMaxNameLength_def
  generation_is_nil_def demo_inc_def nil_id_def less_id128_def
  images_ok_def clean_def clean_bounded_def is_valid_utf8_def byte_of_char_def
  decoded_images_def store_object_def table_full_def note_recovered_arbitration_def Let_def

lemma demo0_structure: "structure_ok demo0"
  unfolding demo0_def by (rule structure_new)

lemma demo_step1: "execute demo0 (demo_site 1) 1 = (StOk, demo1)"
  by (rule executes_toD [OF demo0_structure])
     (simp_all add: demo_site_def demo_site_record_def plan_register_site_def demo_states demo_eval)

lemmas demo1_structure = execute_structure_ok [OF demo0_structure demo_step1]

lemma demo_step2: "execute demo1 (demo_site 2) 2 = (StOk, demo2)"
  by (rule executes_toD [OF demo1_structure])
     (simp_all add: demo_site_def demo_site_record_def plan_register_site_def demo_states demo_eval)

lemmas demo2_structure = execute_structure_ok [OF demo1_structure demo_step2]

lemma demo_step3: "execute demo2 demo_path 3 = (StOk, demo3)"
  by (rule executes_toD [OF demo2_structure])
     (simp_all add: demo_path_def demo_path_record_def plan_register_path_def fresh_path_def
        registered_domain_def domain_images_def default_domain_def demo_states demo_eval)

lemmas demo3_structure = execute_structure_ok [OF demo2_structure demo_step3]

lemma demo_step4: "execute demo3 (RqAttestCapacity demo_attestation) 4 = (StOk, demo4)"
  by (rule executes_toD [OF demo3_structure])
     (simp add: demo_path_record_def demo_attestation_def attested_path_def plan_attest_capacity_def
        digest_is_zero_def list_all_iff rebalance_path_def holding_grants_def om_vals_def demo_states demo_eval)

lemmas demo4_structure = execute_structure_ok [OF demo3_structure demo_step4]

lemma demo_step5:
  "execute demo4 (RqProposeGrant demo_proposal) 5 = (StOk, demo_with (demo_grant GsProposed 7) 5)"
  by (rule executes_toD [OF demo4_structure])
     (simp add: demo_path_record_def demo_attestation_def attested_path_def plan_propose_grant_def
        demo_proposal_def demo_grant_def demo_site_record_def derive_grant_id_def bounded_def
        kMaxReasonText_def demo_states demo_eval)

lemmas demo5_structure = execute_structure_ok [OF demo4_structure demo_step5]

lemmas demo_grant_eval = demo_path_record_def demo_attestation_def attested_path_def demo_operation_def
  demo_grant_def demo_site_record_def check_binding_def requires_current_binding_def
  site_accepts_new_reservations_def path_accepts_new_reservations_def

lemma demo_limits: "\<not> (4096 :: u32) \<le> 1" "\<not> (1024 :: u32) \<le> 1"
  by (simp_all add: word_le_nat_alt)

lemma demo_step6:
  "execute (demo_with (demo_grant GsProposed 7) 5) (RqEvaluateGrant (demo_operation 8)) 6 =
     (StOk, demo_with (demo_grant GsEligible 8) 6)"
  by (rule executes_toD [OF demo5_structure])
     (simp add: demo_grant_eval plan_evaluate_grant_def evaluation_refusal_def om_vals_def demo_limits demo_states demo_eval)

lemmas demo6_structure = execute_structure_ok [OF demo5_structure demo_step6]

lemma demo_fraction: "fraction_bps 1000 1000 = 100" "fraction_bps 1000 0 = 0"
  by (simp_all add: fraction_bps_def checked_mul_def checked_add_def kAmountMax_def Let_def)

lemma demo_step7:
  "execute (demo_with (demo_grant GsEligible 8) 6) (RqReserveGrant (demo_operation 9)) 7 =
     (StOk, demo_with (demo_grant GsReserved 9) 7)"
  by (rule executes_toD [OF demo6_structure])
     (simp add: demo_grant_eval plan_reserve_grant_def allocatable_def totals_for_def om_vals_def
        zero_totals_def protected_floor_def minimum_free_def path_basis_def max_amount_def demo_fraction
        live_oversubscription_bps_def value_or_zero_def saturating_add_def kAmountMax_def checked_add_def
        check_concentration_def rebound_def demo_states demo_eval)

lemmas demo7_structure = execute_structure_ok [OF demo6_structure demo_step7]

lemma demo_step8:
  "execute (demo_with (demo_grant GsReserved 9) 7) (RqActivateGrant (demo_operation 10)) 8 =
     (StOk, demo_with (demo_grant GsActive 10) 8)"
  by (rule executes_toD [OF demo7_structure])
     (simp add: demo_grant_eval plan_activate_grant_def demo_states demo_eval)

lemmas demo8_structure = execute_structure_ok [OF demo7_structure demo_step8]

end
