(* ===== verification/Release.thy ===== *)
theory Release
  imports Safety
begin

text \<open>
  Mutations that are applied in part. A journal replays an unfinished mutation without the
  changes that release capacity; here is what that leaves: nothing held is freed, and the
  capacity promise is kept as the whole mutation would have kept it.
\<close>

section \<open>Part of a mutation\<close>

text \<open>Applying part of the images of a planned mutation.\<close>

lemma filter_changes:
  "filter P (map (\<lambda>(ob, rel). change_for ob rel) imgs) =
   map (\<lambda>(ob, rel). change_for ob rel) (filter (\<lambda>(ob, rel). P (change_for ob rel)) imgs)"
  by (induction imgs) auto

lemma part_applied:
  assumes "structure_ok a" and "plan_request a rq arb = Inr mu"
    and "apply_changes (filter P (mu_changes mu)) arb' a = (StOk, a')"
  obtains b where "store_objects (decoded_images (filter (\<lambda>(ob, rel). P (change_for ob rel)) (mu_images mu))) a = (StOk, b)"
    and "a' = note_recovered_arbitration arb' b"
proof -
  let ?imgs = "filter (\<lambda>(ob, rel). P (change_for ob rel)) (mu_images mu)"
  let ?mu = "mu\<lparr>mu_images := ?imgs\<rparr>"
  have "mu_changes ?mu = filter P (mu_changes mu)" by (simp add: mu_changes_def filter_changes)
  then have "apply_changes (mu_changes ?mu) arb' a = (StOk, a')" using assms(3) by simp
  moreover have "images_sized (mu_images ?mu)"
    using plan_request_sized [OF assms(1,2)] by (auto simp: images_sized_def)
  ultimately obtain b where "images_ok (mu_images ?mu)"
    and "store_objects (decoded_images (mu_images ?mu)) a = (StOk, b)"
    and "a' = note_recovered_arbitration arb' b"
    by (rule apply_mutation_ok)
  with that show ?thesis by simp
qed

lemma releases_change_for [simp]: "sc_releases_capacity (change_for ob rel) = rel"
  by (cases ob) (simp_all add: change_for_def)

lemma unflagged_held:
  assumes str: "structure_ok a" and "plan_request a rq arb = Inr mu"
    and "apply_changes (filter (\<lambda>c. \<not> sc_releases_capacity c) (mu_changes mu)) arb' a = (StOk, a')"
  shows "held (\<lambda>_. True) a p \<le> held (\<lambda>_. True) a' p"
proof -
  let ?imgs = "filter (\<lambda>(ob, rel). \<not> rel) (mu_images mu)"
  obtain b where st: "store_objects (decoded_images ?imgs) a = (StOk, b)"
    and a': "a' = note_recovered_arbitration arb' b"
    using part_applied [OF str assms(2,3)] by (auto simp: case_prod_beta)
  have wf: "om_wf (au_grants a)" using str by (simp add: structure_ok_def tables_wf_def)
  have wfb: "om_wf (au_grants b)" using store_objects_effect(4) [OF st] by (simp add: put_all_wf wf)
  have "contrib (held_by (\<lambda>_. True) p) (om_find k (au_grants a)) \<le>
      contrib (held_by (\<lambda>_. True) p) (om_find k (au_grants b))" for k
  proof (cases "om_find k (au_grants a)")
    case (Some g)
    then have "om_find k (au_grants b) \<noteq> None"
      using store_objects_effect(4) [OF st] table_survives [OF wf] by simp
    then obtain v where v: "om_find k (au_grants b) = Some v" by blast
    from grant_after_images [OF wf st v] show ?thesis
    proof
      assume "\<exists>g' rel. (OGrant g', rel) \<in> set ?imgs \<and> gr_id g' = k \<and> v = g'\<lparr>gr_reason := take 512 (gr_reason g')\<rparr>"
      then obtain g' where g': "(OGrant g', False) \<in> set (mu_images mu)" "gr_id g' = k"
        "v = g'\<lparr>gr_reason := take 512 (gr_reason g')\<rparr>" by auto
      with plan_request_legal [OF str assms(2)] Some have "legal_image rq g g' False"
        by (auto simp: legal_post_image_def image_of_grant_def new_grant_def)
      with g' Some v show ?thesis by (auto simp: held_by_def legal_image_def same_grant_def)
    next
      assume "om_find k (au_grants a) = Some v \<and> (\<forall>g rel. (OGrant g, rel) \<in> set ?imgs \<longrightarrow> gr_id g \<noteq> k)"
      then show ?thesis using v by simp
    qed
  qed simp
  then show ?thesis unfolding held_def a' by (simp add: om_sum_mono [OF wfb wf])
qed

section \<open>Requests that release\<close>

lemma rebalance_unflagged: "(ob, rel) \<in> set (rebalance_path a path pol now_ms reason rp rc) \<Longrightarrow> \<not> rel"
  using rebalance_image by blast

lemma downgrades_unflagged: "(ob, rel) \<in> set (append_downgrades a reason site path now_ms) \<Longrightarrow> \<not> rel"
  using append_downgrades_image by blast

text \<open>Only requests that leave ceilings and promises alone carry changes that release.\<close>

lemma flagged_plain:
  assumes "plan_request a rq arb = Inr mu" and "(ob, True) \<in> set (mu_images mu)"
  shows "plain_request rq \<and> \<not> is_reserve rq"
  using assms
  by (cases rq)
     (auto simp: plain_request_def is_reserve_def plan_request_def plan_install_policy_def plan_bump_epoch_def
        plan_register_path_def plan_set_path_state_def plan_attest_capacity_def plan_issue_oversubscription_def
        plan_reserve_grant_def domain_images_def Let_def
        split: if_splits option.splits sum.splits dest: rebalance_unflagged downgrades_unflagged)

text \<open>Without the changes that release, a mutation is still applied as a whole.\<close>

definition same_shape :: "authority \<Rightarrow> authority \<Rightarrow> bool" where
  "same_shape a b \<longleftrightarrow> (\<exists>gs. b = a\<lparr>au_grants := gs\<rparr> \<and> map fst gs = map fst (au_grants a))"

lemma same_shape_refl: "same_shape a a"
  unfolding same_shape_def by (rule exI [of _ "au_grants a"]) simp

lemma om_find_shape: "map fst m = map fst m' \<Longrightarrow> (om_find k m = None) = (om_find k m' = None)"
  unfolding om_find_None by (metis list.set_map om_keys_def)

lemma om_put_shape: "map fst m = map fst m' \<Longrightarrow> map fst (om_put k v m) = map fst (om_put k v' m')"
proof (induction m arbitrary: m')
  case (Cons x m)
  then obtain y n where "m' = y # n" "fst y = fst x" "map fst m = map fst n" by (cases m') auto
  with Cons.IH [of n] show ?case by (cases x; cases y) auto
qed simp

lemma om_put_present: "om_wf m \<Longrightarrow> om_find k m \<noteq> None \<Longrightarrow> map fst (om_put k v m) = map fst m"
  using om_put_same [of m k] om_put_shape [OF refl, of k v m] by (metis not_None_eq)

lemma store_shape:
  assumes "same_shape a b" and "store_object key ob a = Inr a'"
  shows "\<exists>b'. store_object key ob b = Inr b' \<and> same_shape a' b'"
proof -
  obtain gs where b: "b = a\<lparr>au_grants := gs\<rparr>" and keys: "map fst gs = map fst (au_grants a)"
    using assms(1) by (auto simp: same_shape_def)
  have full: "table_full n key gs = table_full n key (au_grants a)" for n
    using om_find_shape [OF keys] keys by (metis length_map table_full_def)
  let ?gs = "case ob of OGrant v \<Rightarrow> om_put key v gs | _ \<Rightarrow> gs"
  have "store_object key ob b = Inr (a'\<lparr>au_grants := ?gs\<rparr>)"
    using assms(2) full by (cases ob) (auto simp: store_object_def b Let_def split: if_splits)
  moreover have "map fst ?gs = map fst (au_grants a')"
    using assms(2) keys om_put_shape [OF keys, of key]
    by (cases ob) (auto simp: store_object_def Let_def split: if_splits)
  ultimately show ?thesis unfolding same_shape_def by blast
qed

definition indexed :: "id128 \<Rightarrow> object \<Rightarrow> authority \<Rightarrow> bool" where
  "indexed key ob a \<longleftrightarrow>
     (\<exists>g. ob = OGrant g \<and> om_find key (au_grants a) \<noteq> None \<and>
        (is_nil (gr_request g) \<or> om_find (gr_request g) (au_request_index a) = Some key))"

lemma drop_shape:
  assumes "same_shape a b" and "tables_wf a" and "indexed key ob a" and "store_object key ob a = Inr a'"
  shows "same_shape a' b"
proof -
  obtain g where g: "ob = OGrant g" "om_find key (au_grants a) \<noteq> None"
    "is_nil (gr_request g) \<or> om_find (gr_request g) (au_request_index a) = Some key"
    using assms(3) by (auto simp: indexed_def)
  have "om_wf (au_grants a)" "om_wf (au_request_index a)" using assms(2) by (simp_all add: tables_wf_def)
  note put = om_put_present [OF this(1) g(2), of g] om_put_same [OF this(2)]
  have "a' = a\<lparr>au_grants := om_put key g (au_grants a)\<rparr>"
    using assms(4) g put(2) by (auto simp: store_object_def Let_def split: if_splits option.splits)
  moreover obtain gs where "b = a\<lparr>au_grants := gs\<rparr>" "map fst gs = map fst (au_grants a)"
    using assms(1) by (auto simp: same_shape_def)
  ultimately show ?thesis unfolding same_shape_def using put(1) by (intro exI [of _ gs]) simp
qed

lemma indexed_store:
  assumes "tables_wf a" and "indexed key ob a" and "store_object key' ob' a = Inr a'"
  shows "indexed key ob a'"
  using assms
  by (cases ob') (auto simp: indexed_def store_object_def tables_wf_def om_find_put Let_def split: if_splits option.splits)

lemma store_part:
  assumes "same_shape a b" and "tables_wf a" and "store_objects (decoded_images imgs) a = (StOk, a')"
    and "\<forall>(ob, rel) \<in> set imgs. rel \<longrightarrow> indexed (object_key ob) (clip ob) a"
  shows "\<exists>b'. store_objects (decoded_images (filter (\<lambda>(ob, rel). \<not> rel) imgs)) b = (StOk, b')"
  using assms
proof (induction imgs arbitrary: a b)
  case (Cons img imgs)
  obtain ob rel where img: "img = (ob, rel)" by fastforce
  obtain a1 where a1: "store_object (object_key ob) (clip ob) a = Inr a1"
    and rest: "store_objects (decoded_images imgs) a1 = (StOk, a')"
    using Cons.prems(3) by (auto simp: img decoded_images_def split: sum.splits)
  have wf: "tables_wf a1" by (rule store_object_tables_wf [OF Cons.prems(2) a1])
  have idx: "\<forall>(ob, rel) \<in> set imgs. rel \<longrightarrow> indexed (object_key ob) (clip ob) a1"
    using Cons.prems(4) indexed_store [OF Cons.prems(2) _ a1] by auto
  show ?case
  proof (cases rel)
    case True
    then have "same_shape a1 b"
      using drop_shape [OF Cons.prems(1,2) _ a1] Cons.prems(4) by (simp add: img)
    with Cons.IH [OF this wf rest idx] True show ?thesis by (simp add: img)
  next
    case False
    obtain b1 where "store_object (object_key ob) (clip ob) b = Inr b1" "same_shape a1 b1"
      using store_shape [OF Cons.prems(1) a1] by blast
    with Cons.IH [OF _ wf rest idx] False show ?thesis by (simp add: img decoded_images_def)
  qed
qed (simp add: decoded_images_def)

lemma part_applies:
  assumes str: "structure_ok a" and mu: "plan_request a rq arb = Inr mu"
    and "apply_changes (mu_changes mu) arb' a = (StOk, a')"
  obtains b where "apply_changes (filter (\<lambda>c. \<not> sc_releases_capacity c) (mu_changes mu)) arb' a = (StOk, b)"
proof -
  let ?imgs = "filter (\<lambda>(ob, rel). \<not> rel) (mu_images mu)"
  have sized: "images_sized (mu_images mu)" using plan_request_sized [OF str mu] by simp
  obtain a1 where ok: "images_ok (mu_images mu)"
    and st: "store_objects (decoded_images (mu_images mu)) a = (StOk, a1)"
    by (rule apply_mutation_ok [OF assms(3) sized])
  have "indexed (object_key ob) (clip ob) a" if "(ob, True) \<in> set (mu_images mu)" for ob
  proof -
    have "legal_post_image a rq (ob, True)" using plan_request_legal [OF str mu] that by blast
    then obtain g' g where g': "ob = OGrant g'" and g: "om_find (gr_id g') (au_grants a) = Some g" "same_grant g g'"
      by (cases ob) (auto simp: legal_post_image_def image_of_grant_def legal_image_def)
    then have "is_nil (gr_request g') \<or> om_find (gr_request g') (au_request_index a) = Some (gr_id g')"
      using str unfolding structure_ok_def index_ok_def same_grant_def by metis
    with g' g show ?thesis by (simp add: indexed_def)
  qed
  then obtain b where b: "store_objects (decoded_images ?imgs) a = (StOk, b)"
    using store_part [OF same_shape_refl _ st] str by (fastforce simp: structure_ok_def)
  have part: "filter (\<lambda>c. \<not> sc_releases_capacity c) (mu_changes mu) = map (\<lambda>(ob, rel). change_for ob rel) ?imgs"
    by (simp add: mu_changes_def filter_changes)
  have "decode_changes (map (\<lambda>(ob, rel). change_for ob rel) ?imgs) = Inr (decoded_images ?imgs)"
    by (subst decode_changes_for) (use ok sized in \<open>auto simp: images_ok_def images_sized_def\<close>)
  with b that show ?thesis by (simp add: apply_changes_def part)
qed

text \<open>The invariants survive applying a mutation without the changes that release.\<close>

lemma part_safe:
  assumes str: "structure_ok a" and "refs_ok a" and "capacity_safe a" and "regular a rq"
    and mu: "plan_request a rq arb = Inr mu"
    and "apply_changes (filter (\<lambda>c. \<not> sc_releases_capacity c) (mu_changes mu)) arb a = (StOk, a')"
  shows "structure_ok a'" and "refs_ok a'" and "capacity_safe a'"
proof -
  let ?imgs = "filter (\<lambda>(ob, rel). \<not> rel) (mu_images mu)"
  show "structure_ok a'"
    using apply_structure [OF str, of "filter (\<lambda>c. \<not> sc_releases_capacity c) (mu_changes mu)" arb] assms(6) by simp
  obtain b where st: "store_objects (decoded_images ?imgs) a = (StOk, b)"
    and a': "a' = note_recovered_arbitration arb b"
    using part_applied [OF str mu assms(6)] by (auto simp: case_prod_beta)
  have legal: "\<forall>img \<in> set ?imgs. legal_post_image a rq img"
    using plan_request_legal [OF str mu] by auto
  then show "refs_ok a'" using refs_images [OF str assms(2) st] by (simp add: a')
  show "capacity_safe a'"
  proof (cases "\<exists>ob. (ob, True) \<in> set (mu_images mu)")
    case True
    then have "plain_request rq \<and> \<not> is_reserve rq" using flagged_plain [OF mu] by blast
    with safe_plain [OF str assms(3) st legal assms(4)] plain_images [OF _ mu] show ?thesis
      by (auto simp: a')
  next
    case False
    then have "filter (\<lambda>c. \<not> sc_releases_capacity c) (mu_changes mu) = mu_changes mu"
      by (auto simp: mu_changes_def filter_id_conv)
    then have "execute a rq arb = (StOk, a')"
      using assms(6) mu plan_request_sized [OF str mu] by (simp add: execute_def)
    then show ?thesis by (rule safe_execute [OF assms(1-4)])
  qed
qed

end
