(* ===== verification/Guarantees.thy ===== *)
theory Guarantees
  imports Example Release
begin

text \<open>
  The properties of the authority as a whole: the capacity promise, the ledger, fencing, the
  grant lifecycle, identity, verification, request deduplication and the monotonicity of the
  generations. Each theorem with hypotheses is applied to the concrete run of \<open>Example\<close>.
\<close>

section \<open>Capacity\<close>

text \<open>
  C3: in every state reached from a new authority by regular requests, what is promised on a
  path together with its unavailable share fits into the usable capacity plus the extension
  granted by live oversubscription authorities, protected promises stay within the protected
  floor, and no ledger of the state reports oversubscription.
\<close>

theorem capacity_promise:
  assumes "regular_run rnd cfg a" and "om_find p (au_paths a) = Some rec"
  shows "held promised_general a p + held promised_protected a p + unat (pr_unavailable rec) \<le>
           unat (pr_authoritative_usable rec) +
           unat (oversubscription_extension (pr_authoritative_usable rec)
             (value_or_zero (live_oversubscription_bps a p 0))) \<and>
         held promised_protected a p \<le> unat (protected_floor a rec) \<and>
         (\<forall>l. ledger a p = Inr l \<longrightarrow> cl_oversubscribed l = 0)"
  using promise_holds regular_run_invariant [OF assms(1)] assms(2) by blast

lemma demo_run: "regular_run demo_inc (default_config demo_inc) (demo_with (demo_grant GsActive 10) 8)"
proof -
  have "regular_run demo_inc (default_config demo_inc) demo0" unfolding demo0_def by (rule regular_run.start)
  note 1 = regular_run.request [OF this _ demo_step1]
  have r1: "regular_run demo_inc (default_config demo_inc) demo1"
    by (rule 1) (simp add: regular_def demo_site_def)
  have r2: "regular_run demo_inc (default_config demo_inc) demo2"
    by (rule regular_run.request [OF r1 _ demo_step2]) (simp add: regular_def demo_site_def)
  have r3: "regular_run demo_inc (default_config demo_inc) demo3"
    by (rule regular_run.request [OF r2 _ demo_step3]) (simp add: regular_def demo_path_def)
  have r4: "regular_run demo_inc (default_config demo_inc) demo4"
    by (rule regular_run.request [OF r3 _ demo_step4]) (simp add: regular_def)
  have r5: "regular_run demo_inc (default_config demo_inc) (demo_with (demo_grant GsProposed 7) 5)"
    by (rule regular_run.request [OF r4 _ demo_step5]) (simp add: regular_def)
  have r6: "regular_run demo_inc (default_config demo_inc) (demo_with (demo_grant GsEligible 8) 6)"
    by (rule regular_run.request [OF r5 _ demo_step6]) (simp add: regular_def)
  have r7: "regular_run demo_inc (default_config demo_inc) (demo_with (demo_grant GsReserved 9) 7)"
    by (rule regular_run.request [OF r6 _ demo_step7]) (simp add: regular_def)
  show ?thesis
    by (rule regular_run.request [OF r7 _ demo_step8]) (simp add: regular_def)
qed

lemma demo_path_found:
  "om_find (Id128 0 7) (au_paths (demo_with g arb)) = Some (attested_path demo_path_record demo_attestation)"
  by (simp add: demo_with_def demo4_def)

lemma demo_held:
  "held promised_general (demo_with (demo_grant GsActive 10) 8) (Id128 0 7) = 400"
  by (simp add: held_def om_sum_def om_vals_def held_by_def demo_with_def demo_grant_def)

theorem capacity_promise_witness:
  "held promised_general (demo_with (demo_grant GsActive 10) 8) (Id128 0 7) = 400 \<and>
   held promised_general (demo_with (demo_grant GsActive 10) 8) (Id128 0 7) +
   held promised_protected (demo_with (demo_grant GsActive 10) 8) (Id128 0 7) \<le>
   1000 + unat (oversubscription_extension 1000
     (value_or_zero (live_oversubscription_bps (demo_with (demo_grant GsActive 10) 8) (Id128 0 7) 0)))"
  using capacity_promise [OF demo_run demo_path_found] demo_held
  by (auto simp: attested_path_def demo_attestation_def)

text \<open>
  C5: the ledger of a registered path, whose unavailable share is within its usable capacity,
  closes by the identity that the code checks. Its totals are the saturated sums over the grant
  table; free, committed, reserved, protected headroom and unavailable capacity add up to usable
  plus authorised extension plus oversubscription; at most one of free and oversubscribed is
  positive; and the allocatable amount is what remains after draining grants and the free
  headroom. The only failure is an overflow of the 64-bit totals, reported as such. The identity
  in the comment on the ledger in \<open>capacity.hpp\<close>, which adds the withdrawing share and leaves out
  the extension, holds exactly when both are zero.
\<close>

theorem ledger_closes:
  assumes "om_find p (au_paths a) = Some rec" and "pr_unavailable rec \<le> pr_authoritative_usable rec"
  shows "case ledger a p of
      Inl s \<Rightarrow> s = StLimitExceeded
    | Inr l \<Rightarrow>
        unat (cl_committed l) = min amount_max (held is_committed a p) \<and>
        unat (cl_reserved l) = min amount_max (held (\<lambda>g. gr_state g = GsReserved) a p) \<and>
        unat (cl_withdrawing l) = min amount_max (held (\<lambda>g. gr_state g = GsWithdrawing) a p) \<and>
        unat (cl_free l) + unat (cl_committed l) + unat (cl_reserved l) +
          unat (cl_protected_headroom l) + unat (cl_unavailable l) =
        unat (cl_authoritative_usable l) + unat (cl_authorized_extension l) + unat (cl_oversubscribed l) \<and>
        (unat (cl_free l) + unat (cl_committed l) + unat (cl_withdrawing l) + unat (cl_reserved l) +
           unat (cl_protected_headroom l) + unat (cl_unavailable l) =
         unat (cl_authoritative_usable l) + unat (cl_oversubscribed l) \<longleftrightarrow>
         cl_withdrawing l = 0 \<and> cl_authorized_extension l = 0) \<and>
        (cl_free l = 0 \<or> cl_oversubscribed l = 0) \<and>
        unat (cl_allocatable l) =
          unat (cl_authoritative_usable l) + unat (cl_authorized_extension l) -
          (unat (cl_committed l) + unat (cl_reserved l) + unat (cl_protected_headroom l) +
           unat (cl_unavailable l) + unat (cl_withdrawing l) + unat (minimum_free a rec))"
proof (cases "ledger a p")
  case (Inl s)
  with ledger_cases [OF assms] show ?thesis by (auto split: if_splits)
next
  case (Inr l)
  with ledger_cases [OF assms] have facts: "verify_closure l = StOk"
    "cl_committed l = pt_committed (totals_for a p)" "cl_withdrawing l = pt_withdrawing (totals_for a p)"
    "cl_reserved l = pt_reserved (totals_for a p)" "cl_unavailable l = pr_unavailable rec"
    "cl_authoritative_usable l = pr_authoritative_usable rec"
    "unat (cl_protected_headroom l) = unat (protected_floor a rec) - unat (pt_protected_held (totals_for a p))"
    "unat (cl_free l) = unat (cl_authoritative_usable l) + unat (cl_authorized_extension l) -
       structural (totals_for a p) rec (protected_floor a rec)"
    "unat (cl_oversubscribed l) = structural (totals_for a p) rec (protected_floor a rec) -
       (unat (cl_authoritative_usable l) + unat (cl_authorized_extension l))"
    "unat (cl_allocatable l) = unat (cl_authoritative_usable l) + unat (cl_authorized_extension l) -
       blocked (totals_for a p) rec (protected_floor a rec) (minimum_free a rec)"
    by (auto split: if_splits)
  have "unat (cl_free l) = 0 \<or> unat (cl_oversubscribed l) = 0" using facts(8,9) by linarith
  then have "cl_free l = 0 \<or> cl_oversubscribed l = 0" by (simp only: unat_eq_zero)
  moreover have "unat (cl_allocatable l) =
          unat (cl_authoritative_usable l) + unat (cl_authorized_extension l) -
          (unat (cl_committed l) + unat (cl_reserved l) + unat (cl_protected_headroom l) +
           unat (cl_unavailable l) + unat (cl_withdrawing l) + unat (minimum_free a rec))"
    using facts(2-5,7,10) by (simp add: blocked_def structural_def)
  moreover note closed = verify_closure_ok(1) [OF facts(1)]
  moreover have "unat (cl_free l) + unat (cl_committed l) + unat (cl_withdrawing l) + unat (cl_reserved l) +
       unat (cl_protected_headroom l) + unat (cl_unavailable l) =
     unat (cl_authoritative_usable l) + unat (cl_oversubscribed l) \<longleftrightarrow>
     unat (cl_withdrawing l) = 0 \<and> unat (cl_authorized_extension l) = 0"
    using closed by linarith
  then have "unat (cl_free l) + unat (cl_committed l) + unat (cl_withdrawing l) + unat (cl_reserved l) +
       unat (cl_protected_headroom l) + unat (cl_unavailable l) =
     unat (cl_authoritative_usable l) + unat (cl_oversubscribed l) \<longleftrightarrow>
     cl_withdrawing l = 0 \<and> cl_authorized_extension l = 0"
    by (simp only: unat_eq_zero)
  ultimately show ?thesis
    using Inr by (simp add: facts(2-4) totals_for_held)
qed

lemma demo_ledger:
  "ledger (demo_with (demo_grant GsActive 10) 8) (Id128 0 7) =
     Inr \<lparr>cl_authoritative_usable = 1000, cl_committed = 400, cl_withdrawing = 0, cl_reserved = 0,
          cl_protected_headroom = 100, cl_unavailable = 0, cl_free = 500, cl_allocatable = 500,
          cl_reclaimable = 0, cl_oversubscribed = 0, cl_authorized_extension = 0\<rparr>"
  by (simp add: ledger_def demo_path_found totals_for_def om_vals_def demo_with_def demo_grant_def
      add_to_totals_def zero_totals_def is_reclaimable_def protected_floor_def minimum_free_def
      path_basis_def attested_path_def demo_attestation_def demo_path_record_def max_amount_def
      demo_fraction live_oversubscription_bps_def value_or_zero_def demo4_def saturating_add_def
      checked_add_def kAmountMax_def ledger_basis_def ledger_allocated_def verify_closure_def
      empty_ledger_def Let_def)

theorem ledger_closes_witness:
  "ledger (demo_with (demo_grant GsActive 10) 8) (Id128 0 7) \<noteq> Inl StLimitExceeded \<and>
   held is_committed (demo_with (demo_grant GsActive 10) 8) (Id128 0 7) = 400"
proof -
  have "pr_unavailable (attested_path demo_path_record demo_attestation) \<le>
      pr_authoritative_usable (attested_path demo_path_record demo_attestation)"
    by (simp add: attested_path_def demo_attestation_def demo_path_record_def)
  from ledger_closes [OF demo_path_found [of "demo_grant GsActive 10" 8] this]
  show ?thesis by (simp add: demo_ledger min_def split: if_splits)
qed

section \<open>Reservation\<close>

text \<open>
  C4: a reservation is only planned into room that exists, in a state with consistent tables. For
  a general grant, everything held on the path (draining grants included), the protected floor,
  the minimum free headroom, the unavailable share and the new amount together fit into the usable
  capacity plus the extension live at the time of the request. For a protected grant the protected
  promises with the new amount stay within the floor, which is the share that the first half keeps
  free of general grants; the path as a whole is not looked at. A grant of amount zero needs no
  room.
\<close>

theorem reserve_fits_room:
  assumes "structure_ok a" and "plan_reserve_grant a op arb = Inr mu"
  shows "\<exists>g rec. om_find (go_grant op) (au_grants a) = Some g \<and>
     om_find (gb_path (gr_binding g)) (au_paths a) = Some rec \<and> gr_state g = GsEligible \<and>
     (gr_amount g = 0 \<or>
      (case gr_class g of
         GcGeneral \<Rightarrow>
           held (\<lambda>_. True) a (pr_id rec) + unat (gr_amount g) + unat (protected_floor a rec) +
           unat (minimum_free a rec) + unat (pr_unavailable rec) \<le>
           unat (pr_authoritative_usable rec) +
           unat (oversubscription_extension (pr_authoritative_usable rec)
             (value_or_zero (live_oversubscription_bps a (pr_id rec) (go_now_ms op))))
       | GcProtected \<Rightarrow>
           held promised_protected a (pr_id rec) + unat (gr_amount g) \<le> unat (protected_floor a rec)))"
proof -
  obtain g g' rec av where g: "om_find (go_grant op) (au_grants a) = Some g" "gr_state g = GsEligible"
    and rec: "om_find (gb_path (gr_binding g)) (au_paths a) = Some rec"
    and av: "allocatable a (pr_id rec) (gr_class g) (go_now_ms op) = Inr av" "gr_amount g \<le> av"
    and "mu_images mu = [(OGrant g', False)]" and "same_grant g g'" and "gr_state g' = GsReserved"
    by (rule reserve_plan [OF assms(2)])
  let ?p = "pr_id rec"
  have id: "om_find ?p (au_paths a) = Some rec" "pr_id rec = ?p"
    using rec structure_path_id [OF assms(1) rec] by simp_all
  have le: "unat (gr_amount g) \<le> unat av" using av(2) by (simp add: word_le_nat_alt)
  have all: "held (\<lambda>_. True) a ?p = held promised_general a ?p + held promised_protected a ?p +
      held (\<lambda>g. gr_state g = GsWithdrawing) a ?p"
  proof -
    have "held (\<lambda>_. True) a ?p = held (\<lambda>g. gr_state g = GsWithdrawing) a ?p +
        held (\<lambda>g. gr_state g \<noteq> GsWithdrawing) a ?p"
      by (subst held_split [of _ _ _ "\<lambda>g. gr_state g = GsWithdrawing"]) simp
    moreover have "held (\<lambda>g. gr_state g \<noteq> GsWithdrawing) a ?p =
        held promised_general a ?p + held promised_protected a ?p"
      by (subst held_split [of _ _ _ "\<lambda>g. gr_class g = GcGeneral"])
         (auto simp: grant_class_cases intro!: arg_cong2 [where f = "(+)"] held_cong)
    ultimately show ?thesis by simp
  qed
  have ceil: "ceiling_at a rec (au_policy a) t \<le> unat (pr_authoritative_usable rec) +
      unat (oversubscription_extension (pr_authoritative_usable rec)
        (value_or_zero (live_oversubscription_bps a ?p t)))" for t
    by (simp add: ceiling_at_def unat_saturating_add live_bps_eq [OF id])
  show ?thesis
  proof (cases "gr_amount g = 0")
    case True
    with g rec show ?thesis by blast
  next
    case False
    then have av0: "av \<noteq> 0" using av(2) le by (auto simp: unat_eq_zero)
    show ?thesis
    proof (cases "gr_class g")
      case GcGeneral
      with allocatable_general [OF id, of "go_now_ms op" av] av(1) av0 le ceil [of "go_now_ms op"] g rec
      show ?thesis by (intro exI [of _ g] exI [of _ rec]) (simp add: all)
    next
      case GcProtected
      with allocatable_protected [OF id(1), of "go_now_ms op" av] av(1) av0 le g rec
      show ?thesis by (intro exI [of _ g] exI [of _ rec]) simp
    qed
  qed
qed

lemma demo_reserve_plan:
  "\<exists>mu. plan_reserve_grant (demo_with (demo_grant GsEligible 8) 6) (demo_operation 9) 7 = Inr mu"
proof -
  obtain mu b where "plan_request (demo_with (demo_grant GsEligible 8) 6) (RqReserveGrant (demo_operation 9)) 7 = Inr mu"
    using execute_okE [OF demo6_structure demo_step7] by metis
  then show ?thesis by (auto simp: plan_request_def)
qed

lemma demo_found:
  "om_find (Id128 0 9) (au_grants (demo_with g arb)) = Some g"
  "om_find (Id128 0 1) (au_sites (demo_with g arb)) = Some (demo_site_record 1)"
  by (simp_all add: demo_with_def demo_states)

theorem reserve_fits_room_witness:
  "\<exists>rec. om_find (Id128 0 7) (au_paths (demo_with (demo_grant GsEligible 8) 6)) = Some rec \<and>
     held (\<lambda>_. True) (demo_with (demo_grant GsEligible 8) 6) (pr_id rec) + 400 \<le>
     unat (pr_authoritative_usable rec) + unat (oversubscription_extension (pr_authoritative_usable rec)
       (value_or_zero (live_oversubscription_bps (demo_with (demo_grant GsEligible 8) 6) (pr_id rec) 9)))"
proof -
  obtain mu where "plan_reserve_grant (demo_with (demo_grant GsEligible 8) 6) (demo_operation 9) 7 = Inr mu"
    using demo_reserve_plan by blast
  from reserve_fits_room [OF demo6_structure this] show ?thesis
    by (auto simp: demo_operation_def demo_found demo_grant_def)
qed

section \<open>Fencing\<close>



section \<open>The life of a grant\<close>

text \<open>
  C7: every request moves a grant along the lifecycle table or leaves its state alone, with
  the one exception of an operator's reconciliation, and even that never touches a grant in a
  terminal state. Grants never disappear.
\<close>

theorem lifecycle_conformance:
  assumes "reachable rnd cfg a" and "execute a rq arb = (StOk, a')" and "om_find k (au_grants a) = Some g"
  shows "\<exists>g'. om_find k (au_grants a') = Some g' \<and>
     (gr_state g' = gr_state g \<or> can_transition (gr_state g) (gr_state g') \<or>
      (\<exists>op target prin. rq = RqReconcileGrant op target prin \<and> \<not> is_terminal (gr_state g)))"
  using grant_step_cases [OF reachable_structure [OF assms(1)] assms(2,3)]
  by (metis is_reconcile_def legal_image_def)

lemma regular_run_reachable: "regular_run rnd cfg a \<Longrightarrow> reachable rnd cfg a"
  by (induction rule: regular_run.induct) (auto intro: reachable.intros)

lemmas demo_reachable = regular_run_reachable [OF demo_run]

definition demo_withdrawn :: grant_record where
  "demo_withdrawn = (demo_grant GsWithdrawing 11)\<lparr>gr_reason := ''withdrawing''\<rparr>"

lemma demo_step9:
  "execute (demo_with (demo_grant GsActive 10) 8) (RqWithdrawGrant (demo_operation 11)) 9 =
     (StOk, demo_with demo_withdrawn 9)"
  by (rule executes_toD [OF demo8_structure])
     (simp add: demo_grant_eval demo_withdrawn_def plan_withdraw_grant_def text_or_def bounded_def
        kMaxReasonText_def demo_states demo_eval)

theorem lifecycle_conformance_witness:
  "\<exists>g'. om_find (Id128 0 9) (au_grants (demo_with demo_withdrawn 9)) = Some g' \<and>
     (gr_state g' = GsActive \<or> can_transition GsActive (gr_state g'))"
  using lifecycle_conformance [OF demo_reachable demo_step9 demo_found(1)]
  by (auto simp: demo_grant_def)

text \<open>
  C8: a terminal grant stays as it is under every request: its state is never left again and
  no request makes it hold capacity.
\<close>

theorem terminal_absorbing:
  assumes "reachable rnd cfg a" and "execute a rq arb = (StOk, a')"
    and "om_find k (au_grants a) = Some g" and "is_terminal (gr_state g)"
  shows "\<exists>g'. om_find k (au_grants a') = Some g' \<and> gr_state g' = gr_state g \<and>
     \<not> holds_capacity (gr_state g')"
proof -
  have no: "\<not> can_transition (gr_state g) s" for s
    using terminal_no_step [OF assms(4)] by (simp add: can_transition_step)
  have "\<not> holds_capacity (gr_state g)" using assms(4) by (auto simp: holds_capacity_iff)
  then show ?thesis
    using grant_step_cases [OF reachable_structure [OF assms(1)] assms(2,3)] no assms(4)
    by (metis legal_image_def)
qed

definition demo_retired :: grant_record where
  "demo_retired = (demo_grant GsRetired 12)\<lparr>gr_reason := ''retired''\<rparr>"

lemmas demo9_structure = execute_structure_ok [OF demo8_structure demo_step9]

lemma demo_step10:
  "execute (demo_with demo_withdrawn 9) (RqRetireGrant (demo_operation 12)) 10 =
     (StOk, demo_with demo_retired 10)"
  by (rule executes_toD [OF demo9_structure])
     (simp add: demo_grant_eval demo_withdrawn_def demo_retired_def plan_retire_grant_def text_or_def
        bounded_def kMaxReasonText_def demo_states demo_eval)

lemmas demo10_structure = execute_structure_ok [OF demo9_structure demo_step10]

definition demo_heartbeat :: site_heartbeat where
  "demo_heartbeat =
     \<lparr>hb_id = Id128 0 1, hb_incarnation = Id128 1 1, hb_generation = 1, hb_epoch = 1,
      hb_advertised_capacity = 0, hb_now_ms = 13\<rparr>"

lemma demo_step11:
  "\<exists>a'. execute (demo_with demo_retired 10) (RqHeartbeat demo_heartbeat) 11 = (StOk, a')"
  by (rule exI, rule executes_toD [OF demo10_structure])
     (simp add: demo_heartbeat_def demo_site_record_def plan_heartbeat_def demo_states demo_eval)

lemma demo10_reachable: "reachable demo_inc (default_config demo_inc) (demo_with demo_retired 10)"
  using reachable.request [OF reachable.request [OF demo_reachable demo_step9] demo_step10] .

theorem terminal_absorbing_witness:
  "\<exists>a' g'. execute (demo_with demo_retired 10) (RqHeartbeat demo_heartbeat) 11 = (StOk, a') \<and>
     om_find (Id128 0 9) (au_grants a') = Some g' \<and> gr_state g' = GsRetired"
proof -
  obtain a' where a': "execute (demo_with demo_retired 10) (RqHeartbeat demo_heartbeat) 11 = (StOk, a')"
    using demo_step11 by blast
  from terminal_absorbing [OF demo10_reachable a' demo_found(1)] a' show ?thesis
    by (auto simp: demo_retired_def demo_grant_def)
qed

text \<open>
  C9: what a grant is never changes. Its identity, request, arbitration sequence, class,
  amount, creation and expiry times, holder, path and lease are the same after every request.
\<close>

theorem grant_identity_immutable:
  assumes "reachable rnd cfg a" and "execute a rq arb = (StOk, a')" and "om_find k (au_grants a) = Some g"
  shows "\<exists>g'. om_find k (au_grants a') = Some g' \<and>
     gr_id g' = gr_id g \<and> gr_request g' = gr_request g \<and> gr_arbitration g' = gr_arbitration g \<and>
     gr_class g' = gr_class g \<and> gr_amount g' = gr_amount g \<and>
     gr_created_at_ms g' = gr_created_at_ms g \<and> gr_expires_at_ms g' = gr_expires_at_ms g \<and>
     gb_holder (gr_binding g') = gb_holder (gr_binding g) \<and>
     gb_path (gr_binding g') = gb_path (gr_binding g) \<and>
     gb_lease (gr_binding g') = gb_lease (gr_binding g)"
proof -
  obtain g' where "om_find k (au_grants a') = Some g'" "g' = g \<or> (\<exists>rel. legal_image rq g g' rel)"
    by (rule grant_step_cases [OF reachable_structure [OF assms(1)] assms(2,3)])
  then show ?thesis by (auto simp: legal_image_def same_grant_def)
qed

theorem grant_identity_immutable_witness:
  "\<exists>g'. om_find (Id128 0 9) (au_grants (demo_with demo_withdrawn 9)) = Some g' \<and> gr_amount g' = 400"
  using grant_identity_immutable [OF demo_reachable demo_step9 demo_found(1)] by (auto simp: demo_grant_def)

text \<open>
  C11: only independent evidence makes a grant verified. If a grant is verified after a request,
  it was verified before or the request is a verification that names this grant, an identified
  verifier and a positive result; in particular an acknowledgement never verifies, and a new
  proposal starts unverified.
\<close>

theorem verified_only_by_verifier:
  assumes "reachable rnd cfg a" and "execute a rq arb = (StOk, a')"
    and "om_find k (au_grants a') = Some g'" and "gr_verification g' = VsVerified"
  shows "(\<exists>g. om_find k (au_grants a) = Some g \<and> gr_verification g = VsVerified) \<or>
     (\<exists>v. rq = RqVerifyGrant v \<and> gv_grant v = k \<and> gv_result v = VsVerified \<and>
        \<not> is_nil (gv_verifier v) \<and> \<not> is_nil (gv_id v))"
proof -
  have str: "structure_ok a" by (rule reachable_structure [OF assms(1)])
  from grant_after_request [OF str assms(2,3)] assms(4) structure_grant_id [OF str]
  show ?thesis by (auto simp: legal_image_def verifies_def new_grant_def)
qed

definition demo_verification :: grant_verification where
  "demo_verification =
     \<lparr>gv_id = Id128 0 20, gv_grant = Id128 0 9, gv_verifier = Id128 0 21, gv_result = VsVerified,
      gv_evidence = digest_zero, gv_now_ms = 11, gv_detail = []\<rparr>"

lemma demo_verify_step:
  "\<exists>a'. execute (demo_with (demo_grant GsActive 10) 8) (RqVerifyGrant demo_verification) 9 = (StOk, a') \<and>
     om_find (Id128 0 9) (au_grants a') =
       Some ((demo_grant GsActive 11)\<lparr>gr_verification := VsVerified\<rparr>)"
proof -
  let ?a = "demo_with (demo_grant GsActive 10) 8"
  have "au_verifications demo0 = []" by (simp add: demo0_def new_authority_def Let_def)
  then have "executes_to ?a (RqVerifyGrant demo_verification) 9
      (?a\<lparr>au_verifications := [(Id128 0 20, \<lparr>vr_id = Id128 0 20, vr_grant = Id128 0 9,
            vr_binding = gr_binding (demo_grant GsActive 10), vr_result = VsVerified,
            vr_verifier = Id128 0 21, vr_evidence = digest_zero, vr_at_ms = 11, vr_detail = []\<rparr>)],
          au_grants := [(Id128 0 9, (demo_grant GsActive 11)\<lparr>gr_verification := VsVerified\<rparr>)],
          au_last_arbitration := 9\<rparr>)"
    by (simp add: plan_verify_grant_def demo_verification_def demo_grant_def bounded_def kMaxReasonText_def
        default_config_def demo_states demo_eval)
  from executes_toD [OF demo8_structure this] show ?thesis by simp
qed

theorem verified_only_by_verifier_witness:
  "\<exists>v. RqVerifyGrant demo_verification = RqVerifyGrant v \<and> gv_grant v = Id128 0 9 \<and> \<not> is_nil (gv_verifier v)"
proof -
  obtain a' where a': "execute (demo_with (demo_grant GsActive 10) 8) (RqVerifyGrant demo_verification) 9 = (StOk, a')"
    "om_find (Id128 0 9) (au_grants a') = Some ((demo_grant GsActive 11)\<lparr>gr_verification := VsVerified\<rparr>)"
    using demo_verify_step by blast
  from verified_only_by_verifier [OF demo_reachable a'] show ?thesis
    by (auto simp: demo_found(1) demo_grant_def)
qed

text \<open>
  C12: one request identity stands for at most one grant. Two grants that carry the same request
  identity are the same grant, and a proposal that repeats a used request identity is refused.
\<close>

theorem request_identity_unique:
  assumes "reachable rnd cfg a" and "om_find k (au_grants a) = Some g" and "\<not> is_nil (gr_request g)"
  shows "(\<forall>k' g'. om_find k' (au_grants a) = Some g' \<and> gr_request g' = gr_request g \<longrightarrow> k' = k) \<and>
    (\<forall>p arb. gp_request p = gr_request g \<longrightarrow> (\<exists>s. plan_propose_grant a p arb = Inl s))"
proof -
  have idx: "index_ok a" using reachable_structure [OF assms(1)] by (simp add: structure_ok_def)
  then have used: "om_find (gr_request g) (au_request_index a) = Some k"
    using assms(2,3) by (auto simp: index_ok_def)
  have "k' = k" if "om_find k' (au_grants a) = Some g'" "gr_request g' = gr_request g" for k' g'
  proof -
    have "om_find (gr_request g') (au_request_index a) = Some k'"
      using idx [unfolded index_ok_def, rule_format, OF that(1)] that(2) assms(3) by simp
    with used that show ?thesis by simp
  qed
  moreover have "\<exists>s. plan_propose_grant a p arb = Inl s" if "gp_request p = gr_request g" for p arb
    using that used by (auto simp: plan_propose_grant_def)
  ultimately show ?thesis by blast
qed

theorem request_identity_unique_witness:
  "\<exists>s. plan_propose_grant (demo_with (demo_grant GsActive 10) 8) demo_proposal 9 = Inl s"
proof -
  have "\<not> is_nil (gr_request (demo_grant GsActive 10))" by (simp add: demo_grant_def is_nil_def)
  from request_identity_unique [OF demo_reachable demo_found(1) this] show ?thesis
    by (auto simp: demo_grant_def demo_proposal_def)
qed

section \<open>Releasing capacity\<close>

text \<open>
  C10: the release flags are truthful. Applying only those changes of a planned mutation that
  are not flagged as releasing never lowers the capacity held on any path: capacity is freed by
  flagged changes only, so a mutation whose completion is not proven can be replayed without
  them and nothing that may still be in use is given away.
\<close>

theorem unflagged_changes_free_nothing:
  assumes "reachable rnd cfg a" and "plan_request a rq arb = Inr mu"
    and "apply_changes (filter (\<lambda>c. \<not> sc_releases_capacity c) (mu_changes mu)) arb' a = (StOk, a')"
  shows "held (\<lambda>_. True) a p \<le> held (\<lambda>_. True) a' p"
  using unflagged_held [OF reachable_structure [OF assms(1)] assms(2,3)] .

lemma demo_retire_plan:
  "plan_request (demo_with demo_withdrawn 9) (RqRetireGrant (demo_operation 12)) 10 =
     Inr \<lparr>mu_images = [(OGrant demo_retired, True)],
          mu_summary = ''retire grant '' @ typed_id_to_string ''grant'' (Id128 0 9), mu_arbitration = 10\<rparr>"
  by (simp add: demo_grant_eval demo_withdrawn_def demo_retired_def plan_retire_grant_def text_or_def
        bounded_def kMaxReasonText_def demo_states demo_eval)

theorem unflagged_changes_free_nothing_witness:
  "held (\<lambda>_. True) (demo_with demo_withdrawn 9) (Id128 0 7) = 400 \<and>
   held (\<lambda>_. True) (demo_with demo_withdrawn 9) (Id128 0 7) \<le>
   held (\<lambda>_. True) (note_recovered_arbitration 10 (demo_with demo_withdrawn 9)) (Id128 0 7)"
proof -
  have run: "reachable demo_inc (default_config demo_inc) (demo_with demo_withdrawn 9)"
    by (rule reachable.request [OF demo_reachable demo_step9])
  have "apply_changes (filter (\<lambda>c. \<not> sc_releases_capacity c) (mu_changes
        \<lparr>mu_images = [(OGrant demo_retired, True)],
          mu_summary = ''retire grant '' @ typed_id_to_string ''grant'' (Id128 0 9), mu_arbitration = 10\<rparr>)) 10
        (demo_with demo_withdrawn 9) = (StOk, note_recovered_arbitration 10 (demo_with demo_withdrawn 9))"
    by (simp add: mu_changes_def apply_changes_def)
  from unflagged_changes_free_nothing [OF run demo_retire_plan this, of "Id128 0 7"]
  show ?thesis
    by (simp add: held_def om_sum_def om_vals_def held_by_def demo_with_def demo_withdrawn_def demo_grant_def)
qed

section \<open>Paths, policy and epoch\<close>

lemma path_image_cases:
  assumes "structure_ok a" and "plan_request a rq arb = Inr mu" and "(OPath q, rel) \<in> set (mu_images mu)"
  shows "(\<exists>reg. rq = RqRegisterPath reg \<and> om_find (pr_id q) (au_paths a) = None \<and> q = fresh_path reg) \<or>
    (\<exists>reg c. rq = RqRegisterPath reg \<and> om_find (pr_id q) (au_paths a) = Some c \<and>
       q = reregistered_path reg c \<and> pr_generation c < pr_generation q) \<or>
    (\<exists>c st now_ms. om_find (pr_id q) (au_paths a) = Some c \<and> q = path_in_state c st now_ms) \<or>
    (\<exists>att c. rq = RqAttestCapacity att \<and> om_find (pr_id q) (au_paths a) = Some c \<and> q = attested_path c att \<and>
       ca_path att = pr_id q \<and> pr_capacity_generation c < pr_capacity_generation q \<and>
       \<not> is_nil (ca_issuer att) \<and> \<not> is_nil (ca_principal att) \<and> \<not> digest_is_zero (ca_evidence att) \<and>
       ca_epoch att = au_epoch a \<and> ca_path_generation att = pr_generation c)"
proof (cases "plain_request rq")
  case True
  with plain_images [OF True assms(2)] assms(3) show ?thesis by auto
next
  case False
  note id = structure_path_id [OF assms(1)]
  from False show ?thesis
  proof (cases rq)
    case (RqRegisterPath reg)
    have "pr_id (fresh_path reg) = pdesc_id (preg_descriptor reg)" by (simp add: fresh_path_def Let_def)
    with RqRegisterPath assms(2,3) show ?thesis
      by (auto simp: plan_request_def plan_register_path_def domain_images_def Let_def reregistered_path_def
          id not_le split: if_splits option.splits dest: rebalance_keep)
  next
    case (RqSetPathState path st reason now_ms)
    with assms(2,3) obtain c where c: "om_find path (au_paths a) = Some c" "q = path_in_state c st now_ms"
      by (auto simp: plan_request_def plan_set_path_state_def Let_def
          split: if_splits option.splits dest: rebalance_keep downgrades_keep)
    then have "om_find (pr_id q) (au_paths a) = Some c" using id by (simp add: path_in_state_def)
    with c show ?thesis by blast
  next
    case (RqAttestCapacity att)
    with assms(2,3) show ?thesis
      by (auto simp: plan_request_def plan_attest_capacity_def Let_def attested_path_def id not_le
          split: if_splits option.splits dest: rebalance_keep)
  qed (use assms(2,3) in \<open>auto simp: plain_request_def plan_request_def plan_install_policy_def
      plan_bump_epoch_def plan_issue_oversubscription_def Let_def split: if_splits option.splits
      dest: rebalance_keep\<close>)
qed

lemma path_step_cases:
  assumes "structure_ok a" and "execute a rq arb = (StOk, a')" and "om_find p (au_paths a) = Some c"
  obtains q where "om_find p (au_paths a') = Some q"
    and "q = c \<or> (\<exists>reg. rq = RqRegisterPath reg \<and> q = reregistered_path reg c \<and> pr_generation c < pr_generation q) \<or>
      (\<exists>st now_ms. q = path_in_state c st now_ms) \<or>
      (\<exists>att. rq = RqAttestCapacity att \<and> q = attested_path c att \<and> ca_path att = p \<and>
       pr_capacity_generation c < pr_capacity_generation q \<and> \<not> is_nil (ca_issuer att) \<and>
       \<not> is_nil (ca_principal att) \<and> \<not> digest_is_zero (ca_evidence att) \<and> ca_epoch att = au_epoch a \<and>
       ca_path_generation att = pr_generation c)"
proof -
  obtain mu b where mu: "plan_request a rq arb = Inr mu" and "images_ok (mu_images mu)"
    and st: "store_objects (decoded_images (mu_images mu)) a = (StOk, b)"
    and a': "a' = note_recovered_arbitration arb b"
    by (rule execute_okE [OF assms(1,2)])
  have wf: "om_wf (au_paths a)" using assms(1) by (simp add: structure_ok_def tables_wf_def)
  have "om_find p (au_paths b) \<noteq> None"
    using table_survives [OF wf] store_objects_effect(2) [OF st] assms(3) by simp
  then obtain q where q: "om_find p (au_paths b) = Some q" by blast
  from path_after_images [OF wf st q] assms(3)
  consider "q = c" | rel where "(OPath q, rel) \<in> set (mu_images mu)" "pr_id q = p" by auto
  then show ?thesis
  proof cases
    case 1
    then show ?thesis using that q a' by simp
  next
    case 2
    from path_image_cases [OF assms(1) mu 2(1)] 2(2) assms(3) show ?thesis
      by (intro that [of q]) (use q a' in auto)
  qed
qed

text \<open>
  C13: authoritative capacity is only established by attestation. If the usable figure of a
  path differs after a request, the request is a capacity attestation for this path that names
  its issuer and principal, carries evidence, is bound to the current epoch and path generation
  and raises the capacity generation; the new figure is the attested one. Advertised and observed
  numbers never become usable capacity.
\<close>

theorem usable_only_by_attestation:
  assumes "reachable rnd cfg a" and "execute a rq arb = (StOk, a')" and "om_find p (au_paths a) = Some c"
  shows "\<exists>q. om_find p (au_paths a') = Some q \<and>
     (pr_authoritative_usable q = pr_authoritative_usable c \<or>
      (\<exists>att. rq = RqAttestCapacity att \<and> ca_path att = p \<and> pr_authoritative_usable q = ca_usable att \<and>
         pr_capacity_generation c < pr_capacity_generation q \<and> \<not> is_nil (ca_issuer att) \<and>
         \<not> is_nil (ca_principal att) \<and> \<not> digest_is_zero (ca_evidence att) \<and> ca_epoch att = au_epoch a \<and>
         ca_path_generation att = pr_generation c))"
proof -
  obtain q where q: "om_find p (au_paths a') = Some q"
    and cases: "q = c \<or> (\<exists>reg. rq = RqRegisterPath reg \<and> q = reregistered_path reg c \<and> pr_generation c < pr_generation q) \<or>
      (\<exists>st now_ms. q = path_in_state c st now_ms) \<or>
      (\<exists>att. rq = RqAttestCapacity att \<and> q = attested_path c att \<and> ca_path att = p \<and>
       pr_capacity_generation c < pr_capacity_generation q \<and> \<not> is_nil (ca_issuer att) \<and>
       \<not> is_nil (ca_principal att) \<and> \<not> digest_is_zero (ca_evidence att) \<and> ca_epoch att = au_epoch a \<and>
       ca_path_generation att = pr_generation c)"
    by (rule path_step_cases [OF reachable_structure [OF assms(1)] assms(2,3)])
  have keep: "pr_authoritative_usable (reregistered_path reg c) = pr_authoritative_usable c"
    "pr_authoritative_usable (path_in_state c st t) = pr_authoritative_usable c"
    "pr_authoritative_usable (attested_path c att) = ca_usable att" for reg st t att
    by (simp_all add: reregistered_path_def path_in_state_def attested_path_def Let_def)
  from cases show ?thesis using q keep by auto
qed

lemma demo3_reachable: "reachable demo_inc (default_config demo_inc) demo3"
proof -
  have "reachable demo_inc (default_config demo_inc) demo0" unfolding demo0_def by (rule reachable.start)
  from reachable.request [OF reachable.request [OF reachable.request [OF this demo_step1] demo_step2] demo_step3]
  show ?thesis .
qed

theorem usable_only_by_attestation_witness:
  "\<exists>q. om_find (Id128 0 7) (au_paths demo4) = Some q \<and> pr_authoritative_usable q = 1000 \<and>
     pr_authoritative_usable demo_path_record = 0"
proof -
  have "om_find (Id128 0 7) (au_paths demo3) = Some demo_path_record" by (simp add: demo3_def)
  from usable_only_by_attestation [OF demo3_reachable demo_step4 this]
  show ?thesis by (auto simp: demo4_def attested_path_def demo_attestation_def demo_path_record_def)
qed

lemma install_policy_effect:
  assumes "plan_install_policy a pol prin arb = Inr mu"
    and "store_objects (decoded_images (mu_images mu)) a = (StOk, b)"
  shows "au_policy b = pol \<and> au_epoch b = au_epoch a \<and> po_generation (au_policy a) < po_generation pol"
proof -
  let ?suf = "concat (map (\<lambda>path. rebalance_path a path pol 0 ''policy generation changed'' True False)
    (om_vals (au_paths a)))"
  have imgs: "mu_images mu = (OPolicy pol, False) # ?suf"
    and gen: "po_generation (au_policy a) < po_generation pol"
    using assms(1) by (auto simp: plan_install_policy_def not_le split: if_splits)
  have suf: "keeps_ceiling ob" if "(ob, rel) \<in> set ?suf" for ob rel
    using that rebalance_keep by (fastforce split: if_splits)
  have "fold (\<lambda>(k, ob) p. case as_policy ob of None \<Rightarrow> p | Some v \<Rightarrow> v) (decoded_images ?suf) pol = pol"
    "fold (\<lambda>(k, ob) e. case as_epoch ob of None \<Rightarrow> e | Some v \<Rightarrow> v) (decoded_images ?suf) (au_epoch a) = au_epoch a"
    by (rule fold_unchanged; use suf in \<open>fastforce simp: keeps_ceiling_def\<close>)+
  then show ?thesis
    using store_objects_effect(7,8) [OF assms(2)] gen by (simp add: imgs decoded_images_def)
qed

lemma bump_epoch_effect:
  assumes "plan_bump_epoch a ep prin arb = Inr mu"
    and "store_objects (decoded_images (mu_images mu)) a = (StOk, b)"
  shows "au_policy b = au_policy a \<and> au_epoch b = ep \<and> au_epoch a < ep"
proof -
  obtain suf where imgs: "mu_images mu = (OEpoch ep, False) # suf" and gt: "au_epoch a < ep"
    and suf: "\<forall>(ob, rel) \<in> set suf. keeps_ceiling ob"
    using assms(1) by (auto simp: plan_bump_epoch_def Let_def not_le split: if_splits)
  have "fold (\<lambda>(k, ob) p. case as_policy ob of None \<Rightarrow> p | Some v \<Rightarrow> v) (decoded_images suf) (au_policy a) = au_policy a"
    "fold (\<lambda>(k, ob) e. case as_epoch ob of None \<Rightarrow> e | Some v \<Rightarrow> v) (decoded_images suf) ep = ep"
    by (rule fold_unchanged; use suf in \<open>fastforce simp: keeps_ceiling_def\<close>)+
  then show ?thesis
    using store_objects_effect(7,8) [OF assms(2)] gt by (simp add: imgs decoded_images_def)
qed

text \<open>
  C14: the fencing tokens never move backwards. After every request the authority epoch, the
  policy generation and the last arbitration sequence are at least what they were, and every
  path is still registered with path and capacity generations at least what they were; a policy
  or epoch that did change is strictly newer.
\<close>

theorem generations_monotone:
  assumes "reachable rnd cfg a" and "execute a rq arb = (StOk, a')"
  shows "au_epoch a \<le> au_epoch a' \<and> po_generation (au_policy a) \<le> po_generation (au_policy a') \<and>
    au_last_arbitration a \<le> au_last_arbitration a' \<and>
    (au_policy a' \<noteq> au_policy a \<longrightarrow> po_generation (au_policy a) < po_generation (au_policy a')) \<and>
    (\<forall>p c. om_find p (au_paths a) = Some c \<longrightarrow>
       (\<exists>q. om_find p (au_paths a') = Some q \<and> pr_generation c \<le> pr_generation q \<and>
          pr_capacity_generation c \<le> pr_capacity_generation q))"
proof -
  have str: "structure_ok a" by (rule reachable_structure [OF assms(1)])
  obtain mu b where mu: "plan_request a rq arb = Inr mu" and "images_ok (mu_images mu)"
    and st: "store_objects (decoded_images (mu_images mu)) a = (StOk, b)"
    and a': "a' = note_recovered_arbitration arb b"
    by (rule execute_okE [OF str assms(2)])
  have config: "au_policy b = au_policy a \<and> au_epoch b = au_epoch a \<or>
      po_generation (au_policy a) < po_generation (au_policy b) \<and> au_epoch b = au_epoch a \<or>
      au_policy b = au_policy a \<and> au_epoch a < au_epoch b"
  proof (cases "(\<exists>pol prin. rq = RqInstallPolicy pol prin) \<or> (\<exists>ep prin. rq = RqBumpEpoch ep prin)")
    case True
    then consider (policy) pol prin where "rq = RqInstallPolicy pol prin" | (epoch) ep prin where "rq = RqBumpEpoch ep prin"
      by blast
    then show ?thesis
    proof cases
      case policy
      with mu have "plan_install_policy a pol prin arb = Inr mu" by (simp add: plan_request_def)
      from install_policy_effect [OF this st] show ?thesis by simp
    next
      case epoch
      with mu have "plan_bump_epoch a ep prin arb = Inr mu" by (simp add: plan_request_def)
      from bump_epoch_effect [OF this st] show ?thesis by simp
    qed
  next
    case False
    have "\<forall>(ob, rel) \<in> set (mu_images mu). as_policy ob = None \<and> as_epoch ob = None"
    proof (cases "plain_request rq")
      case True
      from plain_images [OF True mu] show ?thesis by (auto simp: keeps_ceiling_def)
    next
      case np: False
      with False mu show ?thesis
        by (cases rq) (auto simp: plain_request_def plan_request_def plan_register_path_def domain_images_def
            plan_set_path_state_def plan_attest_capacity_def plan_issue_oversubscription_def Let_def
            keeps_ceiling_def split: if_splits option.splits dest: rebalance_keep downgrades_keep)
    qed
    then show ?thesis
      using policy_unchanged [OF st] epoch_unchanged [OF st] by (auto simp: case_prod_beta)
  qed
  have path: "\<exists>q. om_find p (au_paths a') = Some q \<and> pr_generation c \<le> pr_generation q \<and>
      pr_capacity_generation c \<le> pr_capacity_generation q" if c: "om_find p (au_paths a) = Some c" for p c
    by (rule path_step_cases [OF str assms(2) c])
       (auto simp: reregistered_path_def path_in_state_def attested_path_def Let_def)
  have "au_last_arbitration a \<le> au_last_arbitration a'"
    using store_objects_effect(6) [OF st] by (simp add: a' note_recovered_arbitration_max)
  with config path show ?thesis by (auto simp: a')
qed

theorem generations_monotone_witness:
  "\<exists>q. om_find (Id128 0 7) (au_paths demo4) = Some q \<and>
     pr_capacity_generation demo_path_record \<le> pr_capacity_generation q"
proof -
  have "om_find (Id128 0 7) (au_paths demo3) = Some demo_path_record" by (simp add: demo3_def)
  with generations_monotone [OF demo3_reachable demo_step4] show ?thesis by blast
qed

end
