(* ===== verification/Digest.thy ===== *)
theory Digest
  imports Wire
begin

unbundle bit_operations_syntax

text \<open>
  Checksums and digests (\<open>src/digest.cpp\<close>, \<open>include/isf/digest.hpp\<close>): the table-driven
  CRC-32C and the incremental SHA-256. The table is shown to compute the bitwise definition
  of the polynomial, the checksum is shown to see every change of up to four neighbouring
  bytes, and feeding the hasher piece by piece is shown to give the digest of the padded
  message.
\<close>

section \<open>CRC-32C\<close>

definition kPoly :: u32 where
  "kPoly = 0x82F63B78"

definition crc_bit :: "u32 \<Rightarrow> u32" where
  "crc_bit crc = (if crc AND 1 \<noteq> 0 then drop_bit 1 crc XOR kPoly else drop_bit 1 crc)"

definition kCrc32cTable :: "u32 list" where
  "kCrc32cTable = map (\<lambda>i. (crc_bit ^^ 8) (of_nat i)) [0..<256]"

definition crc_step :: "byte \<Rightarrow> u32 \<Rightarrow> u32" where
  "crc_step b crc = kCrc32cTable ! unat ((crc XOR ucast b) AND 0xFF) XOR drop_bit 8 crc"

definition crc32c :: "byte list \<Rightarrow> u32" where
  "crc32c data = fold crc_step data 0xFFFFFFFF XOR 0xFFFFFFFF"

text \<open>The incremental checksum keeps only the running word.\<close>

definition crc_reset :: u32 where
  "crc_reset = 0xFFFFFFFF"

definition crc_update :: "byte list \<Rightarrow> u32 \<Rightarrow> u32" where
  "crc_update data state = fold crc_step data state"

definition crc_value :: "u32 \<Rightarrow> u32" where
  "crc_value state = state XOR 0xFFFFFFFF"

section \<open>SHA-256\<close>

definition kSha256K :: "u32 list" where
  "kSha256K =
     concat
      [[0x428A2F98, 0x71374491, 0xB5C0FBCF, 0xE9B5DBA5, 0x3956C25B, 0x59F111F1, 0x923F82A4],
       [0xAB1C5ED5, 0xD807AA98, 0x12835B01, 0x243185BE, 0x550C7DC3, 0x72BE5D74, 0x80DEB1FE],
       [0x9BDC06A7, 0xC19BF174, 0xE49B69C1, 0xEFBE4786, 0x0FC19DC6, 0x240CA1CC, 0x2DE92C6F],
       [0x4A7484AA, 0x5CB0A9DC, 0x76F988DA, 0x983E5152, 0xA831C66D, 0xB00327C8, 0xBF597FC7],
       [0xC6E00BF3, 0xD5A79147, 0x06CA6351, 0x14292967, 0x27B70A85, 0x2E1B2138, 0x4D2C6DFC],
       [0x53380D13, 0x650A7354, 0x766A0ABB, 0x81C2C92E, 0x92722C85, 0xA2BFE8A1, 0xA81A664B],
       [0xC24B8B70, 0xC76C51A3, 0xD192E819, 0xD6990624, 0xF40E3585, 0x106AA070, 0x19A4C116],
       [0x1E376C08, 0x2748774C, 0x34B0BCB5, 0x391C0CB3, 0x4ED8AA4A, 0x5B9CCA4F, 0x682E6FF3],
       [0x748F82EE, 0x78A5636F, 0x84C87814, 0x8CC70208, 0x90BEFFFA, 0xA4506CEB, 0xBEF9A3F7],
       [0xC67178F2]]"

definition rotr :: "u32 \<Rightarrow> nat \<Rightarrow> u32" where
  "rotr x n = drop_bit n x OR push_bit (32 - n) x"

definition big_endian_u32 :: "byte list \<Rightarrow> nat \<Rightarrow> u32" where
  "big_endian_u32 p k =
     push_bit 24 (ucast (p ! k)) OR push_bit 16 (ucast (p ! (k + 1))) OR
     push_bit 8 (ucast (p ! (k + 2))) OR ucast (p ! (k + 3))"

record sha256 =
  sh_state :: "u32 list"
  sh_buffer :: "byte list"
  sh_buffered :: nat
  sh_total :: u64

definition sha_reset :: sha256 where
  "sha_reset =
     \<lparr>sh_state = [0x6a09e667, 0xbb67ae85, 0x3c6ef372, 0xa54ff53a,
                  0x510e527f, 0x9b05688c, 0x1f83d9ab, 0x5be0cd19],
      sh_buffer = replicate 64 0, sh_buffered = 0, sh_total = 0\<rparr>"

text \<open>The message schedule: sixteen words of the block, extended to sixty-four.\<close>

definition sha_extend :: "nat \<Rightarrow> u32 list \<Rightarrow> u32 list" where
  "sha_extend i w =
     (let s0 = rotr (w ! (i - 15)) 7 XOR rotr (w ! (i - 15)) 18 XOR drop_bit 3 (w ! (i - 15));
          s1 = rotr (w ! (i - 2)) 17 XOR rotr (w ! (i - 2)) 19 XOR drop_bit 10 (w ! (i - 2))
      in w @ [w ! (i - 16) + s0 + w ! (i - 7) + s1])"

definition sha_schedule :: "byte list \<Rightarrow> u32 list" where
  "sha_schedule block = fold sha_extend [16..<64] (map (\<lambda>i. big_endian_u32 block (i * 4)) [0..<16])"

text \<open>One round on the eight working variables.\<close>

definition sha_round :: "u32 list \<Rightarrow> nat \<Rightarrow> u32 list \<Rightarrow> u32 list" where
  "sha_round w i v =
     (let a = v ! 0; b = v ! 1; c = v ! 2; d = v ! 3; e = v ! 4; f = v ! 5; g = v ! 6; h = v ! 7;
          s1 = rotr e 6 XOR rotr e 11 XOR rotr e 25;
          ch = (e AND f) XOR (NOT e AND g);
          temp1 = h + s1 + ch + kSha256K ! i + w ! i;
          s0 = rotr a 2 XOR rotr a 13 XOR rotr a 22;
          maj = (a AND b) XOR (a AND c) XOR (b AND c);
          temp2 = s0 + maj
      in [temp1 + temp2, a, b, c, d + temp1, e, f, g])"

definition sha_compress :: "byte list \<Rightarrow> u32 list \<Rightarrow> u32 list" where
  "sha_compress block state =
     map2 (+) state (fold (sha_round (sha_schedule block)) [0..<64] state)"

text \<open>The loop over whole blocks of the input; what is left is shorter than a block.\<close>

fun sha_blocks :: "byte list \<Rightarrow> u32 list \<Rightarrow> u32 list \<times> byte list" where
  "sha_blocks data state =
     (if length data \<ge> 64 then sha_blocks (drop 64 data) (sha_compress (take 64 data) state)
      else (state, data))"

declare sha_blocks.simps [simp del]

lemma sha_blocks_short [simp]: "length data < 64 \<Longrightarrow> sha_blocks data state = (state, data)"
  by (simp add: sha_blocks.simps)

definition sha_update :: "byte list \<Rightarrow> sha256 \<Rightarrow> sha256" where
  "sha_update data s =
     (let total = sh_total s + of_nat (length data);
          n = (if sh_buffered s \<noteq> 0 then min (length data) (64 - sh_buffered s) else 0);
          buffer = take (sh_buffered s) (sh_buffer s) @ take n data @ drop (sh_buffered s + n) (sh_buffer s);
          buffered = sh_buffered s + n;
          full = (sh_buffered s \<noteq> 0 \<and> buffered = 64);
          state = (if full then sha_compress buffer (sh_state s) else sh_state s);
          buffered = (if full then 0 else buffered);
          (state, rest) = sha_blocks (drop n data) state
      in \<lparr>sh_state = state,
          sh_buffer = (if rest \<noteq> [] then rest @ drop (length rest) buffer else buffer),
          sh_buffered = (if rest \<noteq> [] then length rest else buffered),
          sh_total = total\<rparr>)"

text \<open>
  The padding loop of \<open>finish\<close>. The hasher never holds a full buffer between calls; the bound
  in the guard only makes the recursion total on states that cannot occur.
\<close>

lemma sha_update_byte_buffered:
  assumes "sh_buffered s < 64"
  shows "sh_buffered (sha_update [b] s) = (if sh_buffered s = 63 then 0 else sh_buffered s + 1)"
proof (cases "sh_buffered s = 0")
  case False
  with assms have "min (length [b]) (64 - sh_buffered s) = 1" by simp
  with False show ?thesis by (simp add: sha_update_def Let_def)
qed (simp add: sha_update_def Let_def)

lemma pad_measure_step:
  assumes "b \<noteq> 56" and "b < 64"
  shows "(120 - (if b = 63 then 0 else b + 1)) mod 64 < (120 - b) mod (64 :: nat)"
  using assms by (cases "b < 57") (auto simp: mod_if)

function sha_pad :: "sha256 \<Rightarrow> sha256" where
  "sha_pad s = (if sh_buffered s = 56 \<or> sh_buffered s \<ge> 64 then s else sha_pad (sha_update [0] s))"
  by auto

termination
proof (relation "measure (\<lambda>s. (120 - sh_buffered s) mod 64)")
  fix s :: sha256
  assume "\<not> (sh_buffered s = 56 \<or> 64 \<le> sh_buffered s)"
  then show "(sha_update [0] s, s) \<in> measure (\<lambda>s. (120 - sh_buffered s) mod 64)"
    using pad_measure_step [of "sh_buffered s"] sha_update_byte_buffered [of s 0] by simp
qed simp

declare sha_pad.simps [simp del]

definition sha_finish :: "sha256 \<Rightarrow> digest256" where
  "sha_finish s =
     (let bit_length = sh_total s * 8;
          s = sha_update [0x80] s;
          s = sha_pad s;
          length_bytes = map (\<lambda>i. ucast (drop_bit (56 - i * 8) bit_length AND 0xFF)) [0..<8];
          s = sha_update length_bytes s
      in digest_of (concat (map (\<lambda>w. [ucast (drop_bit 24 w AND 0xFF), ucast (drop_bit 16 w AND 0xFF),
           ucast (drop_bit 8 w AND 0xFF), ucast (w AND 0xFF)]) (sh_state s))))"

definition digest_of_bytes :: "byte list \<Rightarrow> digest256" where
  "digest_of_bytes data = sha_finish (sha_update data sha_reset)"

text \<open>The text of a digest, and the hash of the containers.\<close>

definition lower_hex :: "nat \<Rightarrow> char" where
  "lower_hex n = char_of (if n < 10 then 48 + n else 97 + (n - 10))"

definition hex_nibble :: "char \<Rightarrow> nat option" where
  "hex_nibble c =
     (let v = (of_char c :: nat)
      in if 48 \<le> v \<and> v \<le> 57 then Some (v - 48)
         else if 97 \<le> v \<and> v \<le> 102 then Some (10 + (v - 97))
         else if 65 \<le> v \<and> v \<le> 70 then Some (10 + (v - 65))
         else None)"

definition digest_to_hex :: "digest256 \<Rightarrow> string" where
  "digest_to_hex d =
     concat (map (\<lambda>b. [lower_hex (unat (drop_bit 4 b)), lower_hex (unat (b AND 0x0F))]) (digest_bytes d))"

definition digest_to_string :: "digest256 \<Rightarrow> string" where
  "digest_to_string d = ''sha256:'' @ digest_to_hex d"

fun hex_pairs :: "string \<Rightarrow> byte list option" where
  "hex_pairs (c # c' # cs) =
     (case (hex_nibble c, hex_nibble c') of
        (Some high, Some low) \<Rightarrow>
          map_option (\<lambda>bs. (push_bit 4 (of_nat high) OR of_nat low) # bs) (hex_pairs cs)
      | _ \<Rightarrow> None)"
| "hex_pairs _ = Some []"

definition digest_parse :: "string \<Rightarrow> digest256 expected" where
  "digest_parse s =
     (let body = (if length s > 7 \<and> take 7 s = ''sha256:'' then drop 7 s else s)
      in if length body \<noteq> 64 then Inl StInvalid
         else case hex_pairs body of None \<Rightarrow> Inl StInvalid | Some bs \<Rightarrow> Inr (digest_of bs))"

definition fnv1a64 :: "string \<Rightarrow> u64" where
  "fnv1a64 s = fold (\<lambda>c hash. (hash XOR of_nat (of_char c)) * 0x100000001B3) s 0xCBF29CE484222325"


section \<open>Facts: the checksum\<close>

lemma crc_bit_odd: "crc_bit c = (if bit c 0 then drop_bit 1 c XOR kPoly else drop_bit 1 c)"
  by (simp add: crc_bit_def and_one_eq bit_0 odd_iff_mod_2_eq_one mod2_eq_if)

lemma bit_crc_bit: "bit (crc_bit c) n \<longleftrightarrow> (bit c (Suc n) \<noteq> (bit c 0 \<and> bit kPoly n))"
  by (auto simp: crc_bit_odd bit_simps)

lemma crc_bit_xor: "crc_bit (x XOR y) = crc_bit x XOR crc_bit y"
  by (rule bit_word_eqI) (auto simp: bit_crc_bit bit_xor_iff)

lemma crc_bits_xor: "(crc_bit ^^ n) (x XOR y) = (crc_bit ^^ n) x XOR (crc_bit ^^ n) y"
  by (induction n) (simp_all add: crc_bit_xor)

text \<open>The top bit of the polynomial is set, so a step loses no information.\<close>

lemma crc_bit_inj: "crc_bit x = crc_bit y \<longleftrightarrow> x = y"
proof
  assume eq: "crc_bit x = crc_bit y"
  have out: "\<not> bit x 32" "\<not> bit y 32" using bit_imp_le_length [of x 32] bit_imp_le_length [of y 32] by auto
  have top: "bit kPoly 31" by (simp add: kPoly_def)
  have b0: "bit x 0 = bit y 0"
    using eq bit_crc_bit [of x 31] bit_crc_bit [of y 31] top out by auto
  have "bit x (Suc n) = bit y (Suc n)" for n
    using eq bit_crc_bit [of x n] bit_crc_bit [of y n] b0 by auto
  with b0 show "x = y" by (intro bit_word_eqI) (metis not0_implies_Suc)
qed simp

lemma crc_bits_inj: "(crc_bit ^^ n) x = (crc_bit ^^ n) y \<longleftrightarrow> x = y"
  by (induction n) (simp_all add: crc_bit_inj)

text \<open>A word whose low bits are clear is only shifted.\<close>

lemma crc_bits_shift: "(\<forall>i < n. \<not> bit c i) \<Longrightarrow> (crc_bit ^^ n) c = drop_bit n c"
proof (induction n)
  case (Suc n)
  then have "(crc_bit ^^ n) c = drop_bit n c" and "\<not> bit c n" by auto
  then have "crc_bit ((crc_bit ^^ n) c) = drop_bit 1 (drop_bit n c)"
    by (simp add: crc_bit_odd bit_drop_bit_eq)
  then show ?case by (simp add: drop_bit_drop_bit)
qed simp

lemma byte_bit: "bit (b :: byte) n \<Longrightarrow> n < 8"
  using bit_imp_le_length [of b n] by simp

lemma crc_table_entry: "i < 256 \<Longrightarrow> kCrc32cTable ! i = (crc_bit ^^ 8) (of_nat i)"
  by (simp add: kCrc32cTable_def)

text \<open>One table lookup does eight steps of the polynomial division.\<close>

lemma crc_step_bits: "crc_step b crc = (crc_bit ^^ 8) (crc XOR ucast b)"
proof -
  let ?x = "crc XOR ucast b"
  let ?lo = "?x AND mask 8"
  let ?hi = "?x AND NOT (mask 8)"
  have ff: "0xFF = (mask 8 :: u32)" by (simp add: mask_eq_exp_minus_1)
  have "?lo = take_bit 8 ?x" by (simp only: take_bit_eq_mask)
  then have lo: "unat ?lo < 256"
    using take_bit_nat_less_exp [of 8 "unat ?x"] by (simp only: unsigned_take_bit_eq) simp
  have split: "?x = ?lo XOR ?hi" by (rule bit_word_eqI) (auto simp: bit_simps)
  have "(crc_bit ^^ 8) ?hi = drop_bit 8 ?hi"
    by (rule crc_bits_shift) (auto simp: bit_simps)
  moreover have "drop_bit 8 ?hi = drop_bit 8 crc"
    by (rule bit_word_eqI) (auto simp: bit_simps dest: byte_bit bit_imp_le_length)
  ultimately have "(crc_bit ^^ 8) ?x = (crc_bit ^^ 8) ?lo XOR drop_bit 8 crc"
    using crc_bits_xor [of 8 ?lo ?hi] split by simp
  then show ?thesis
    unfolding crc_step_def ff crc_table_entry [OF lo] by (simp only: of_nat_unat ucast_id)
qed


text \<open>The word that up to four bytes make, the first byte lowest.\<close>

primrec crc_word :: "byte list \<Rightarrow> u32" where
  "crc_word [] = 0"
| "crc_word (b # bs) = ucast b XOR push_bit 8 (crc_word bs)"

lemma crc_word_bound: "bit (crc_word bs) n \<Longrightarrow> n < 8 * length bs"
proof (induction bs arbitrary: n)
  case (Cons b bs)
  show ?case
  proof (cases "n < 8")
    case False
    with Cons.prems have "bit (crc_word bs) (n - 8)" by (auto simp: bit_simps dest: byte_bit)
    with Cons.IH False show ?thesis by fastforce
  qed simp
qed simp

lemma crc_word_shift:
  assumes "length bs \<le> 3"
  shows "drop_bit 8 (push_bit 8 (crc_word bs)) = crc_word bs"
proof (rule bit_word_eqI)
  fix n
  have "bit (crc_word bs) n \<Longrightarrow> n < 24" using crc_word_bound [of bs n] assms by linarith
  then show "bit (drop_bit 8 (push_bit 8 (crc_word bs))) n \<longleftrightarrow> bit (crc_word bs) n"
    by (auto simp: bit_simps)
qed

lemma crc_steps_bits:
  "length bs \<le> 4 \<Longrightarrow> fold crc_step bs crc = (crc_bit ^^ (8 * length bs)) (crc XOR crc_word bs)"
proof (induction bs arbitrary: crc)
  case (Cons b bs)
  have "(crc_bit ^^ 8) (push_bit 8 (crc_word bs)) = crc_word bs"
    using Cons.prems crc_word_shift [of bs] by (subst crc_bits_shift) (auto simp: bit_simps)
  then have "crc_step b crc XOR crc_word bs = (crc_bit ^^ 8) (crc XOR crc_word (b # bs))"
    by (simp only: crc_step_bits crc_bits_xor crc_word.simps xor.assoc)
  moreover have "fold crc_step (b # bs) crc = (crc_bit ^^ (8 * length bs)) (crc_step b crc XOR crc_word bs)"
    using Cons by simp
  moreover have "(crc_bit ^^ (8 * length bs)) ((crc_bit ^^ 8) x) = (crc_bit ^^ (8 * length (b # bs))) x" for x
  proof -
    have "8 * length (b # bs) = 8 * length bs + 8" by simp
    then show ?thesis by (simp only: funpow_add comp_apply)
  qed
  ultimately show ?case by metis
qed simp

lemma ucast_byte_inj:
  assumes "(ucast (b :: byte) :: u32) = ucast c"
  shows "b = c"
proof (rule bit_word_eqI)
  fix n assume "n < LENGTH(8)"
  moreover have "bit (ucast b :: u32) n \<longleftrightarrow> bit (ucast c :: u32) n" by (simp only: assms)
  ultimately show "bit b n \<longleftrightarrow> bit c n" by (simp add: bit_simps)
qed

lemma crc_word_inj:
  "length bs = length cs \<Longrightarrow> length bs \<le> 4 \<Longrightarrow> crc_word bs = crc_word cs \<Longrightarrow> bs = cs"
proof (induction bs cs rule: list_induct2)
  case (Cons b bs c cs)
  have low: "take_bit 8 (crc_word (x # xs)) = ucast x" for x xs
    by (rule bit_word_eqI) (auto simp: bit_simps dest: byte_bit)
  have high: "drop_bit 8 (crc_word (x # xs)) = crc_word xs" if "length xs \<le> 3" for x xs
  proof -
    have "drop_bit 8 (crc_word (x # xs)) = drop_bit 8 (push_bit 8 (crc_word xs))"
      by (rule bit_word_eqI) (auto simp: bit_simps dest: byte_bit)
    then show ?thesis using crc_word_shift [OF that] by simp
  qed
  have "crc_word bs = crc_word cs"
    using high [of bs b] high [of cs c] Cons.hyps Cons.prems by (simp del: crc_word.simps)
  moreover have "b = c"
  proof -
    have "(ucast b :: u32) = ucast c" using low [of b bs] low [of c cs] Cons.prems(2) by (simp del: crc_word.simps)
    then show ?thesis by (rule ucast_byte_inj)
  qed
  ultimately show ?case using Cons by simp
qed simp

lemma xor_cancel: "x XOR z = y XOR z \<longleftrightarrow> x = (y :: u32)"
proof
  assume "x XOR z = y XOR z"
  then have "(x XOR z) XOR z = (y XOR z) XOR z" by simp
  then show "x = y" by (simp add: xor.assoc)
qed simp

lemma crc_step_inj: "crc_step b x = crc_step b y \<longleftrightarrow> x = y"
proof -
  have "x XOR ucast b = y XOR ucast b \<longleftrightarrow> x = y"
    by (rule xor_cancel)
  then show ?thesis by (simp add: crc_step_bits crc_bits_inj)
qed

lemma crc_steps_inj: "fold crc_step bs x = fold crc_step bs y \<longleftrightarrow> x = y"
  by (induction bs arbitrary: x y) (simp_all add: crc_step_inj)


lemma crc_burst_detected:
  assumes "length xs = length ys" and "length xs \<le> 4" and "xs \<noteq> ys"
  shows "crc32c (pre @ xs @ post) \<noteq> crc32c (pre @ ys @ post)"
proof
  assume "crc32c (pre @ xs @ post) = crc32c (pre @ ys @ post)"
  then have "fold crc_step xs (fold crc_step pre 0xFFFFFFFF) = fold crc_step ys (fold crc_step pre 0xFFFFFFFF)"
    by (simp add: crc32c_def xor_cancel crc_steps_inj)
  then have "fold crc_step pre 0xFFFFFFFF XOR crc_word xs = fold crc_step pre 0xFFFFFFFF XOR crc_word ys"
    using assms(1,2) by (simp add: crc_steps_bits crc_bits_inj)
  then have "crc_word xs = crc_word ys" by (metis xor_cancel xor.commute)
  with crc_word_inj assms show False by blast
qed


section \<open>Facts: the hasher\<close>

text \<open>The padded message of the definition: a one bit, zeros, and the bit length.\<close>

definition sha_zeros :: "nat \<Rightarrow> nat" where
  "sha_zeros n = (120 - n mod 64) mod 64"

definition sha_length_bytes :: "u64 \<Rightarrow> byte list" where
  "sha_length_bytes bits = map (\<lambda>i. ucast (drop_bit (56 - i * 8) bits AND 0xFF)) [0..<8]"

definition sha_padded :: "byte list \<Rightarrow> byte list" where
  "sha_padded bs = bs @ [0x80] @ replicate (sha_zeros (length bs + 1)) 0 @ sha_length_bytes (of_nat (length bs) * 8)"

definition sha_output :: "u32 list \<Rightarrow> digest256" where
  "sha_output state = digest_of (concat (map (\<lambda>w. [ucast (drop_bit 24 w AND 0xFF), ucast (drop_bit 16 w AND 0xFF),
     ucast (drop_bit 8 w AND 0xFF), ucast (w AND 0xFF)]) state))"

definition sha256_reference :: "byte list \<Rightarrow> digest256" where
  "sha256_reference bs = sha_output (fst (sha_blocks (sha_padded bs) (sh_state sha_reset)))"

text \<open>The hasher has absorbed a message: whole blocks are compressed, the rest is buffered.\<close>

definition absorbed :: "byte list \<Rightarrow> sha256 \<Rightarrow> bool" where
  "absorbed bs s \<longleftrightarrow>
     length (sh_buffer s) = 64 \<and> sh_buffered s < 64 \<and> sh_total s = of_nat (length bs) \<and>
     sha_blocks bs (sh_state sha_reset) = (sh_state s, take (sh_buffered s) (sh_buffer s))"

lemma sha_blocks_long:
  "64 \<le> length xs \<Longrightarrow> sha_blocks xs st = sha_blocks (drop 64 xs) (sha_compress (take 64 xs) st)"
  by (simp add: sha_blocks.simps [of xs st])

lemma sha_blocks_append:
  "sha_blocks (xs @ ys) st = (case sha_blocks xs st of (st', r) \<Rightarrow> sha_blocks (r @ ys) st')"
proof (induction xs st rule: sha_blocks.induct)
  case (1 xs st)
  show ?case
  proof (cases "64 \<le> length xs")
    case True
    then have "64 \<le> length (xs @ ys)" by simp
    from sha_blocks_long [OF this, of st] sha_blocks_long [OF True, of st] 1 [OF True] True
    show ?thesis by simp
  qed simp
qed

lemma sha_blocks_rest: "length (snd (sha_blocks xs st)) = length xs mod 64"
proof (induction xs st rule: sha_blocks.induct)
  case (1 xs st)
  show ?case
  proof (cases "64 \<le> length xs")
    case True
    with 1 [OF True] sha_blocks_long [OF True, of st] show ?thesis by (simp add: le_mod_geq)
  qed simp
qed

lemma absorbed_buffered: "absorbed bs s \<Longrightarrow> sh_buffered s = length bs mod 64"
  using sha_blocks_rest [of bs "sh_state sha_reset"] by (simp add: absorbed_def)

lemma absorbed_reset: "absorbed [] sha_reset"
  by (simp add: absorbed_def) (simp add: sha_reset_def)

lemma absorbed_update:
  assumes "absorbed bs s"
  shows "absorbed (bs @ data) (sha_update data s)"
proof -
  define b where "b = sh_buffered s"
  define r where "r = take b (sh_buffer s)"
  have buf: "length (sh_buffer s) = 64" "b < 64" "length r = b"
    and blocks: "sha_blocks bs (sh_state sha_reset) = (sh_state s, r)"
    and total: "sh_total s = of_nat (length bs)"
    using assms by (auto simp: absorbed_def b_def r_def)
  have step: "sha_blocks (bs @ data) (sh_state sha_reset) = sha_blocks (r @ data) (sh_state s)"
    by (simp only: sha_blocks_append [of bs data] blocks prod.case)
  have rest: "length (snd (sha_blocks xs st)) < 64" for xs st by (simp add: sha_blocks_rest)
  consider (empty) "b = 0" | (part) "b \<noteq> 0" "length data < 64 - b" | (full) "b \<noteq> 0" "64 - b \<le> length data"
    by linarith
  then show ?thesis
  proof cases
    case empty
    obtain st rs where sb: "sha_blocks data (sh_state s) = (st, rs)" by (cases "sha_blocks data (sh_state s)")
    with rest [of data "sh_state s"] have "length rs < 64" by simp
    with empty buf sb step show ?thesis
      by (auto simp: absorbed_def sha_update_def Let_def b_def [symmetric] total)
  next
    case part
    then have "min (length data) (64 - b) = length data" "b + length data \<noteq> 64" "b + length data < 64" by auto
    with part buf step show ?thesis
      by (simp add: absorbed_def sha_update_def Let_def b_def [symmetric] total r_def)
  next
    case full
    define n where "n = 64 - b"
    obtain st rs where sb: "sha_blocks (drop n data) (sha_compress (r @ take n data) (sh_state s)) = (st, rs)"
      by (cases "sha_blocks (drop n data) (sha_compress (r @ take n data) (sh_state s))")
    then have "length rs < 64" using rest by (metis snd_conv)
    moreover have "sha_blocks (r @ data) (sh_state s) = (st, rs)"
      using full buf sb sha_blocks_long [of "r @ data" "sh_state s"] by (simp add: n_def)
    moreover have "min (length data) (64 - b) = n" "b + n = 64" using full buf by (auto simp: n_def)
    ultimately show ?thesis
      using full buf sb step
      by (auto simp: absorbed_def sha_update_def Let_def b_def [symmetric] r_def [symmetric] total)
  qed
qed

lemma sha_zeros_cases: "sha_zeros n = (if n mod 64 \<le> 56 then 56 - n mod 64 else 120 - n mod 64)"
proof (cases "n mod 64 \<le> 56")
  case True
  then have "120 - n mod 64 = 64 + (56 - n mod 64)" by simp
  then have "sha_zeros n = (64 + (56 - n mod 64)) mod 64" by (simp only: sha_zeros_def)
  also have "\<dots> = 56 - n mod 64" by (simp only: mod_add_self1) simp
  finally show ?thesis using True by simp
next
  case False
  then have "120 - n mod 64 < 64" by simp
  with False show ?thesis by (simp add: sha_zeros_def)
qed

lemma sha_zeros_step: "sha_zeros n = (if n mod 64 = 56 then 0 else Suc (sha_zeros (n + 1)))"
proof -
  have "n mod 64 < 64" by simp
  moreover have "(n + 1) mod 64 = (if n mod 64 = 63 then 0 else n mod 64 + 1)" by (auto simp: mod_Suc)
  ultimately show ?thesis unfolding sha_zeros_cases by (auto split: if_splits)
qed

lemma absorbed_pad: "absorbed bs s \<Longrightarrow> absorbed (bs @ replicate (sha_zeros (length bs)) 0) (sha_pad s)"
proof (induction s arbitrary: bs rule: sha_pad.induct)
  case (1 s)
  note b = absorbed_buffered [OF 1(2)]
  show ?case
  proof (cases "sh_buffered s = 56 \<or> sh_buffered s \<ge> 64")
    case True
    then have "sh_buffered s = 56" using 1(2) by (auto simp: absorbed_def)
    with 1(2) b show ?thesis by (simp add: sha_pad.simps [of s] sha_zeros_step [of "length bs"])
  next
    case False
    from 1(1) [OF False absorbed_update [OF 1(2)]]
    have "absorbed (bs @ 0 # replicate (sha_zeros (length bs + 1)) 0) (sha_pad (sha_update [0] s))" by simp
    moreover have "sha_zeros (length bs) = Suc (sha_zeros (length bs + 1))"
      using False b sha_zeros_step [of "length bs"] by auto
    ultimately show ?thesis using False by (simp add: sha_pad.simps [of s])
  qed
qed

lemma absorbed_state: "absorbed bs s \<Longrightarrow> sh_state s = fst (sha_blocks bs (sh_state sha_reset))"
  by (simp add: absorbed_def)

lemma sha_finish_reference: "absorbed bs s \<Longrightarrow> sha_finish s = sha256_reference bs"
proof -
  assume a: "absorbed bs s"
  let ?p = "bs @ [0x80]"
  have "absorbed ?p (sha_update [0x80] s)" by (rule absorbed_update [OF a])
  from absorbed_pad [OF this]
  have "absorbed (?p @ replicate (sha_zeros (length ?p)) 0) (sha_pad (sha_update [0x80] s))" .
  from absorbed_update [OF this, of "sha_length_bytes (sh_total s * 8)"]
  have "absorbed (sha_padded bs) (sha_update (sha_length_bytes (sh_total s * 8)) (sha_pad (sha_update [0x80] s)))"
    using a by (simp add: sha_padded_def absorbed_def)
  from absorbed_state [OF this] show ?thesis
    by (simp add: sha_finish_def Let_def sha256_reference_def sha_output_def sha_length_bytes_def)
qed


section \<open>The guarantees of the checksum and the digest\<close>

text \<open>
  The table-driven checksum computes the bitwise definition: every byte is added to the
  low end of the running word, which is then divided by the polynomial one bit at a time; and
  feeding the incremental checksum piece by piece gives the checksum of the whole.
\<close>

theorem crc_table_correct:
  "crc32c data = fold (\<lambda>b crc. (crc_bit ^^ 8) (crc XOR ucast b)) data 0xFFFFFFFF XOR 0xFFFFFFFF \<and>
   crc_value (fold crc_update pieces crc_reset) = crc32c (concat pieces)"
proof
  have "crc_step = (\<lambda>b crc. (crc_bit ^^ 8) (crc XOR ucast b))" by (intro ext crc_step_bits)
  then show "crc32c data = fold (\<lambda>b crc. (crc_bit ^^ 8) (crc XOR ucast b)) data 0xFFFFFFFF XOR 0xFFFFFFFF"
    by (simp add: crc32c_def)
  have "fold crc_update pieces st = fold crc_step (concat pieces) st" for st
    by (induction pieces arbitrary: st) (simp_all add: crc_update_def)
  then show "crc_value (fold crc_update pieces crc_reset) = crc32c (concat pieces)"
    by (simp add: crc_value_def crc_reset_def crc32c_def)
qed

text \<open>
  C35: the checksum sees every change that is confined to at most four neighbouring bytes,
  wherever it falls in the data.
\<close>

theorem crc_detects_bursts:
  assumes "length xs = length ys" and "length xs \<le> 4" and "xs \<noteq> ys"
  shows "crc32c (pre @ xs @ post) \<noteq> crc32c (pre @ ys @ post)"
  using assms by (rule crc_burst_detected)

theorem crc_detects_bursts_witness:
  "crc32c ([7, 9] @ [1, 2, 3, 4] @ [5]) \<noteq> crc32c ([7, 9] @ [4, 3, 2, 1] @ [5])"
  by (rule crc_detects_bursts) simp_all

text \<open>
  C36: the incremental hasher implements SHA-256 as defined on the whole padded message,
  however the message is cut into updates: buffering, block boundaries and the padding loop
  never show in the digest.
\<close>

theorem sha_streaming_correct:
  "sha_finish (fold sha_update pieces sha_reset) = sha256_reference (concat pieces)"
proof -
  have "absorbed bs s \<Longrightarrow> absorbed (bs @ concat pieces) (fold sha_update pieces s)" for bs s
  proof (induction pieces arbitrary: bs s)
    case (Cons p ps)
    from Cons.IH [OF absorbed_update [OF Cons.prems]] show ?case by simp
  qed simp
  from this [OF absorbed_reset] show ?thesis by (simp add: sha_finish_reference)
qed


section \<open>Facts: the text of a digest\<close>

lemma hex_nibble_lower: "n < 16 \<Longrightarrow> hex_nibble (lower_hex n) = Some n"
proof -
  assume n: "n < 16"
  have "\<forall>n \<in> set [0..<16]. hex_nibble (lower_hex n) = Some n"
    by (simp add: upt_rec hex_nibble_def lower_hex_def Let_def)
  with n show ?thesis by simp
qed

lemma lower_hex_letter: "n < 16 \<Longrightarrow> lower_hex n \<noteq> CHR ''s''"
  using hex_nibble_lower [of n] by (auto simp: hex_nibble_def Let_def split: if_splits)

lemma byte_nibbles:
  "unat (drop_bit 4 (b :: byte)) < 16" "unat (b AND 0x0F) < 16"
  "push_bit 4 (drop_bit 4 b) OR (b AND 0x0F) = b"
proof -
  have "unat b < 256" using unsigned_less [of b] by simp
  then show "unat (drop_bit 4 b) < 16" by (simp add: drop_bit_eq_div unat_div)
  have m: "b AND 0x0F = take_bit 4 b" by (simp add: take_bit_eq_mask mask_eq_exp_minus_1)
  then show "unat (b AND 0x0F) < 16" by (simp add: take_bit_eq_mod unat_mod)
  have "push_bit 4 (drop_bit 4 b) OR take_bit 4 b = b" by (rule bit_eqI) (auto simp: bit_simps)
  with m show "push_bit 4 (drop_bit 4 b) OR (b AND 0x0F) = b" by simp
qed

lemma hex_pairs_concat:
  "hex_pairs (concat (map (\<lambda>b. [lower_hex (unat (drop_bit 4 b)), lower_hex (unat (b AND 0x0F))]) bs)) = Some bs"
  by (induction bs) (simp_all add: hex_nibble_lower byte_nibbles)

lemma digest_to_hex_length: "length (digest_to_hex d) = 64"
  using Rep_digest256 [of d] by (simp add: digest_to_hex_def length_concat comp_def sum_list_triv digest_bytes_def)

text \<open>
  Digests survive their textual form. Parsing the hexadecimal text of a digest, with or
  without the algorithm prefix, gives the digest back.
\<close>

theorem digest_text_roundtrip:
  "digest_parse (digest_to_hex d) = Inr d \<and> digest_parse (digest_to_string d) = Inr d"
proof -
  have d: "hex_pairs (digest_to_hex d) = Some (digest_bytes d)" by (simp add: digest_to_hex_def hex_pairs_concat)
  have "digest_of (digest_bytes d) = d"
    using Rep_digest256 [of d] by (simp add: digest_of_def digest_bytes_def Rep_digest256_inverse)
  moreover have "take 7 (digest_to_hex d) \<noteq> ''sha256:''"
  proof -
    obtain b bs where "digest_bytes d = b # bs" using Rep_digest256 [of d] by (cases "digest_bytes d") (auto simp: digest_bytes_def)
    then show ?thesis by (simp add: digest_to_hex_def lower_hex_letter byte_nibbles)
  qed
  ultimately show ?thesis
    using digest_to_hex_length [of d] d by (simp add: digest_parse_def digest_to_string_def Let_def)
qed

end
