(* ===== verification/Codec.thy ===== *)
theory Codec
  imports Apply Digest
begin

text \<open>
  What a client of an encoder and decoder pair relies on, and what follows for counted
  sequences of encoded items: the tables of a snapshot, the changes of an intent, the lists of
  a reply. The interface is a locale; the record codecs of \<open>Model\<close> and the change codec of
  \<open>Authority\<close> are its instances.
\<close>

section \<open>The interface\<close>

text \<open>
  Decoding the encoding of an acceptable item gives the item back and leaves what follows, and
  an item takes at least one byte, which is what the readers' bound on counts rests on.
\<close>

locale codec =
  fixes enc :: "'a \<Rightarrow> byte list"
    and dec :: "'a reader"
    and ok :: "'a \<Rightarrow> bool"
  assumes dec_enc: "ok v \<Longrightarrow> dec (enc v @ rest) = Inr (v, rest)"
    and enc_nonempty: "enc v \<noteq> []"
begin

lemma times: "\<forall>v \<in> set vs. ok v \<Longrightarrow> r_times (length vs) dec (concat (map enc vs) @ rest) = Inr (vs, rest)"
  by (induction vs) (simp_all add: rbind_ok dec_enc rreturn_def)

lemma count_le: "length vs \<le> length (concat (map enc vs))"
proof (induction vs)
  case (Cons v vs)
  have "enc v \<noteq> []" by (rule enc_nonempty)
  then have "1 \<le> length (enc v)" by (cases "enc v") auto
  with Cons show ?case by simp
qed simp

lemma counted:
  assumes "\<forall>v \<in> set vs. ok v" and "length vs < 2 ^ 32" and "length vs \<le> max_container lim"
  shows "r_list lim dec (w_list enc vs @ rest) = Inr (vs, rest)"
proof -
  have n: "unat (of_nat (length vs) :: u32) = length vs"
    using assms(2) by (simp add: unat_of_nat)
  have "r_container_count lim (w_list enc vs @ rest) = Inr (of_nat (length vs), concat (map enc vs) @ rest)"
    using assms(3) count_le [of vs]
    by (simp add: r_container_count_def w_list_def rbind_ok r_u32_w n)
  then show ?thesis using times [OF assms(1)] by (simp add: r_list_def rbind_ok n)
qed

lemma enc_inj: "ok v \<Longrightarrow> ok w \<Longrightarrow> enc v @ r = enc w @ r' \<Longrightarrow> v = w \<and> r = r'"
  using dec_enc by (metis Inr_inject Pair_inject)

end


section \<open>The instances\<close>

text \<open>
  The object is read back exactly as it is: its text is acceptable to a reader with the usual
  text limit and its free text is short enough not to be cut.
\<close>

definition restorable :: "wire_limits \<Rightarrow> object \<Rightarrow> bool" where
  "restorable lim ob \<longleftrightarrow> max_string lim = 4096 \<and> object_sized ob \<and> object_ok ob \<and> clip ob = ob"

definition change_fits :: "wire_limits \<Rightarrow> state_change \<Rightarrow> bool" where
  "change_fits lim ch \<longleftrightarrow> length (sc_image ch) < 2 ^ 32 \<and> length (sc_image ch) \<le> max_bytes lim"

lemma w_id128_nonempty: "w_id128 i \<noteq> []"
  using w_lengths(6) [of i] by (metis list.size(3) zero_neq_numeral)

lemma encode_nonempty:
  "encode_site v1 \<noteq> []" "encode_path v2 \<noteq> []" "encode_domain v3 \<noteq> []" "encode_attestation v4 \<noteq> []"
  "encode_grant v5 \<noteq> []" "encode_verification v6 \<noteq> []" "encode_oversubscription v7 \<noteq> []"
  by (simp_all add: encode_site_def encode_path_def encode_domain_def encode_attestation_def
      encode_grant_def encode_verification_def encode_oversubscription_def w_id128_nonempty)

lemma clip_text:
  "clip (OSite v) = OSite v \<Longrightarrow> v\<lparr>sr_fence_reason := take 512 (sr_fence_reason v)\<rparr> = v"
  "clip (OAttestation w) = OAttestation w \<Longrightarrow> w\<lparr>ca_source := take 512 (ca_source w)\<rparr> = w"
  "clip (OGrant g) = OGrant g \<Longrightarrow> g\<lparr>gr_reason := take 512 (gr_reason g)\<rparr> = g"
  "clip (OVerification r) = OVerification r \<Longrightarrow> r\<lparr>vr_detail := take 512 (vr_detail r)\<rparr> = r"
  by simp_all

interpretation site_codec: codec encode_site "decode_site lim" "\<lambda>v. restorable lim (OSite v)" for lim
  by unfold_locales
     (auto simp: restorable_def decode_site_encode encode_nonempty simp del: clip.simps dest: clip_text)

interpretation path_codec: codec encode_path "decode_path lim" "\<lambda>v. restorable lim (OPath v)" for lim
  by unfold_locales (auto simp: restorable_def decode_path_encode encode_nonempty)

interpretation domain_codec: codec encode_domain "decode_domain lim" "\<lambda>v. restorable lim (ODomain v)" for lim
  by unfold_locales (auto simp: restorable_def decode_domain_encode encode_nonempty)

interpretation attestation_codec:
  codec encode_attestation "decode_attestation lim" "\<lambda>v. restorable lim (OAttestation v)" for lim
  by unfold_locales
     (auto simp: restorable_def decode_attestation_encode encode_nonempty simp del: clip.simps dest: clip_text)

interpretation grant_codec: codec encode_grant "decode_grant lim" "\<lambda>v. restorable lim (OGrant v)" for lim
  by unfold_locales
     (auto simp: restorable_def decode_grant_encode_iff encode_nonempty simp del: clip.simps dest: clip_text)

interpretation verification_codec:
  codec encode_verification "decode_verification lim" "\<lambda>v. restorable lim (OVerification v)" for lim
  by unfold_locales
     (auto simp: restorable_def decode_verification_encode encode_nonempty simp del: clip.simps dest: clip_text)

interpretation oversubscription_codec:
  codec encode_oversubscription decode_oversubscription "\<lambda>v. True"
  by unfold_locales (auto simp: decode_oversubscription_encode encode_nonempty)

lemma object_kind_index: "object_kind_all ! (object_kind_code k - 1) = k"
  "1 \<le> object_kind_code k" "object_kind_code k \<le> object_kind_code OkAuthorityMeta"
  by (cases k; simp add: object_kind_all_def)+

lemma decode_state_change_encode:
  assumes "change_fits lim v"
  shows "decode_state_change lim (encode_state_change v @ rest) = Inr (v, rest)"
proof -
  have "object_kind_code OkAuthorityMeta < 256" by simp
  then have "object_kind_code (sc_kind v) < 256" using object_kind_index(3) [of "sc_kind v"] by linarith
  then have "unat (of_nat (object_kind_code (sc_kind v)) :: u8) = object_kind_code (sc_kind v)"
    by (simp add: unat_of_nat)
  then show ?thesis
    using assms object_kind_index [of "sc_kind v"]
    by (auto simp: decode_state_change_def encode_state_change_def change_fits_def w_enum_def rbind_ok
        append_assoc r_u8_w r_id128_w r_boolean_w r_bytes_w rreturn_def not_less not_le)
qed

interpretation change_codec: codec encode_state_change "decode_state_change lim" "change_fits lim" for lim
proof
  show "decode_state_change lim (encode_state_change v @ rest) = Inr (v, rest)" if "change_fits lim v" for v rest
    using that by (rule decode_state_change_encode)
  show "encode_state_change v \<noteq> []" for v by (simp add: encode_state_change_def w_enum_def w_u8_def)
qed

end
