(* ===== verification/Store.thy ===== *)
theory Store
  imports Codec
begin

text \<open>
  The durable log (\<open>src/store.cpp\<close>, \<open>include/isf/store.hpp\<close>). A log file is a 128 byte
  header and a sequence of records; a record is a 56 byte header with a checksum of the
  payload, the payload, and a hash that chains it to its predecessors. A store is the state of
  the \<open>Store\<close> class together with the three files it can touch: the log and the two siblings of
  a compaction. What the operating system may answer (a file that cannot be created, a short
  write, a failed sync) is a parameter of the operations, so every error return is a branch.
  Byte counts are natural numbers; the sizes in play are those of byte vectors in memory.
\<close>

section \<open>Formats\<close>

datatype record_type = RtIntent | RtCommit | RtSnapshot | RtCleanShutdown | RtEpochMarker | RtAbort

fun record_type_code :: "record_type \<Rightarrow> nat" where
  "record_type_code RtIntent = 1"
| "record_type_code RtCommit = 2"
| "record_type_code RtSnapshot = 3"
| "record_type_code RtCleanShutdown = 4"
| "record_type_code RtEpochMarker = 5"
| "record_type_code RtAbort = 6"

definition record_type_all :: "record_type list" where
  "record_type_all = [RtIntent, RtCommit, RtSnapshot, RtCleanShutdown, RtEpochMarker, RtAbort]"

definition record_type_name :: "record_type \<Rightarrow> string" where
  "record_type_name t =
     (case t of RtIntent \<Rightarrow> ''INTENT'' | RtCommit \<Rightarrow> ''COMMIT'' | RtSnapshot \<Rightarrow> ''SNAPSHOT''
      | RtCleanShutdown \<Rightarrow> ''CLEAN_SHUTDOWN'' | RtEpochMarker \<Rightarrow> ''EPOCH_MARKER'' | RtAbort \<Rightarrow> ''ABORT'')"

datatype recovery_fidelity =
  RfExact | RfTornTailTruncated | RfDegradedTruncated | RfAmbiguousIntentResolved | RfCorrupt
  | RfIncompatible | RfMissing

definition recovery_fidelity_name :: "recovery_fidelity \<Rightarrow> string" where
  "recovery_fidelity_name f =
     (case f of RfExact \<Rightarrow> ''EXACT'' | RfTornTailTruncated \<Rightarrow> ''TORN_TAIL_TRUNCATED''
      | RfDegradedTruncated \<Rightarrow> ''DEGRADED_TRUNCATED''
      | RfAmbiguousIntentResolved \<Rightarrow> ''AMBIGUOUS_INTENT_RESOLVED''
      | RfCorrupt \<Rightarrow> ''CORRUPT'' | RfIncompatible \<Rightarrow> ''INCOMPATIBLE'' | RfMissing \<Rightarrow> ''MISSING'')"

definition kFileMagic :: u32 where "kFileMagic = 0x4953464C"
definition kRecordMagic :: u32 where "kRecordMagic = 0x49534652"
definition kRecordHeaderVersion :: u16 where "kRecordHeaderVersion = 1"
definition kEndianMarker :: u32 where "kEndianMarker = 0x01020304"
definition kStoreFormatVersion :: u32 where "kStoreFormatVersion = 1"
definition kStoreFileHeaderBytes :: nat where "kStoreFileHeaderBytes = 128"
definition kStoreRecordHeaderBytes :: nat where "kStoreRecordHeaderBytes = 56"
definition kStoreChainBytes :: nat where "kStoreChainBytes = 32"

text \<open>The integers of a header at an offset.\<close>

definition get_u16 :: "nat \<Rightarrow> byte list \<Rightarrow> u16" where
  "get_u16 k bs = ucast (drop k bs ! 0) OR push_bit 8 (ucast (drop k bs ! 1))"

definition get_u32 :: "nat \<Rightarrow> byte list \<Rightarrow> u32" where
  "get_u32 k bs = le_word 4 (drop k bs)"

definition get_u64 :: "nat \<Rightarrow> byte list \<Rightarrow> u64" where
  "get_u64 k bs = le_word 8 (drop k bs)"

definition all_zero :: "byte list \<Rightarrow> bool" where
  "all_zero bs \<longleftrightarrow> list_all (\<lambda>b. b = 0) bs"

text \<open>The header of a log file: magic, version, length, byte order, creation time, identity.\<close>

definition file_header :: "id128 \<Rightarrow> byte list" where
  "file_header sid =
     (let h = w_u32 kFileMagic @ w_u32 kStoreFormatVersion @ w_u32 (of_nat kStoreFileHeaderBytes) @
              w_u32 kEndianMarker @ w_u64 0 @ w_u64 (id_hi sid) @ w_u64 (id_lo sid) @ replicate 84 0
      in h @ w_u32 (crc32c h))"

record log_record =
  lr_type :: record_type
  lr_intent :: u64
  lr_at :: u64
  lr_origin :: incarnation
  lr_payload :: "byte list"

definition record_header :: "u64 \<Rightarrow> log_record \<Rightarrow> byte list" where
  "record_header seq r =
     w_u32 kRecordMagic @ w_u16 kRecordHeaderVersion @ w_enum record_type_code (lr_type r) @ w_u8 0 @
     w_u32 (of_nat (length (lr_payload r))) @ w_u32 (crc32c (lr_payload r)) @
     w_u64 seq @ w_u64 (lr_intent r) @ w_u64 (lr_at r) @
     w_u64 (id_hi (lr_origin r)) @ w_u64 (id_lo (lr_origin r))"

definition chain_hash :: "digest256 \<Rightarrow> byte list \<Rightarrow> byte list \<Rightarrow> digest256" where
  "chain_hash previous header payload =
     sha_finish (sha_update payload (sha_update header (sha_update (digest_bytes previous) sha_reset)))"

definition record_chain :: "digest256 \<Rightarrow> u64 \<Rightarrow> log_record \<Rightarrow> digest256" where
  "record_chain chain seq r = chain_hash chain (record_header seq r) (lr_payload r)"

definition record_image :: "digest256 \<Rightarrow> u64 \<Rightarrow> log_record \<Rightarrow> byte list" where
  "record_image chain seq r =
     record_header seq r @ lr_payload r @ digest_bytes (record_chain chain seq r)"

section \<open>Payloads\<close>

definition store_limits :: wire_limits where
  "store_limits = \<lparr>max_bytes = 16777216, max_string = 4096, max_container = 1048576, max_nesting = 8\<rparr>"

definition encode_intent_payload :: "u64 \<Rightarrow> arb_seq \<Rightarrow> state_change list \<Rightarrow> byte list" where
  "encode_intent_payload intent arb changes =
     w_u64 intent @ w_u64 arb @ w_list encode_state_change changes"

definition decode_intent_payload :: "byte list \<Rightarrow> (u64 \<times> arb_seq \<times> state_change list) expected" where
  "decode_intent_payload payload =
     ebind (rbind r_u64 (\<lambda>intent. rbind r_u64 (\<lambda>arb. rbind r_u32 (\<lambda>count.
       if unat count > 1048576 then rfail StLimitExceeded
       else rbind (r_times (unat count) (decode_state_change store_limits)) (\<lambda>changes.
         rreturn (intent, arb, changes))))) payload) (\<lambda>(v, rest).
     if require_end rest \<noteq> StOk then Inl StInvalid else Inr v)"

section \<open>Replay results\<close>

datatype replay_kind = RkSnapshot authority_snapshot | RkChanges "state_change list" arb_seq

record replay_action =
  ra_kind :: replay_kind
  ra_at :: u64
  ra_intent :: u64
  ra_origin :: incarnation
  ra_committed :: bool
  ra_ambiguous :: bool
  ra_aborted :: bool

record recovery_report =
  rr_fidelity :: recovery_fidelity
  rr_store_id :: id128
  rr_format_version :: u32
  rr_records_read :: nat
  rr_bytes_read :: nat
  rr_dropped_tail_bytes :: nat
  rr_ambiguous_intents :: nat
  rr_suppressed_releases :: nat
  rr_snapshots_seen :: nat
  rr_aborted_intents :: nat
  rr_chain_head :: digest256
  rr_truncated_on_open :: bool
  rr_resolution_written_on_open :: bool

definition servable :: "recovery_report \<Rightarrow> bool" where
  "servable r \<longleftrightarrow> rr_fidelity r \<noteq> RfCorrupt \<and> rr_fidelity r \<noteq> RfIncompatible"

definition empty_report :: recovery_report where
  "empty_report =
     \<lparr>rr_fidelity = RfMissing, rr_store_id = nil_id, rr_format_version = 0, rr_records_read = 0,
      rr_bytes_read = 0, rr_dropped_tail_bytes = 0, rr_ambiguous_intents = 0, rr_suppressed_releases = 0,
      rr_snapshots_seen = 0,
      rr_aborted_intents = 0, rr_chain_head = digest_zero, rr_truncated_on_open = False,
      rr_resolution_written_on_open = False\<rparr>"

record replay_result =
  rp_report :: recovery_report
  rp_actions :: "replay_action list"
  rp_epoch :: epoch
  rp_last_incarnation :: incarnation

record store_options =
  so_max_log_bytes :: nat
  so_max_records :: nat
  so_max_record_bytes :: nat
  so_compact_threshold_bytes :: nat
  so_compact_threshold_records :: nat
  so_truncate_unreadable_tail :: bool
  so_durable_writes :: bool

definition default_store_options :: store_options where
  "default_store_options =
     \<lparr>so_max_log_bytes = 67108864, so_max_records = 1048576, so_max_record_bytes = 16777216,
      so_compact_threshold_bytes = 8388608, so_compact_threshold_records = 65536,
      so_truncate_unreadable_tail = True, so_durable_writes = True\<rparr>"

definition options_for_tests :: store_options where
  "options_for_tests =
     \<lparr>so_max_log_bytes = 1048576, so_max_records = 8192, so_max_record_bytes = 1048576,
      so_compact_threshold_bytes = 262144, so_compact_threshold_records = 1024,
      so_truncate_unreadable_tail = True, so_durable_writes = True\<rparr>"


section \<open>Scanning a log\<close>

record scan_state =
  ss_chain :: digest256
  ss_sequence :: u64
  ss_open :: "u64 option"
  ss_actions :: "replay_action list"
  ss_epoch :: epoch
  ss_last_incarnation :: incarnation
  ss_snapshots :: nat
  ss_records :: nat
  ss_bytes :: nat

definition scan_start :: scan_state where
  "scan_start =
     \<lparr>ss_chain = digest_zero, ss_sequence = 1, ss_open = None, ss_actions = [], ss_epoch = 0,
      ss_last_incarnation = nil_id, ss_snapshots = 0, ss_records = 0, ss_bytes = 0\<rparr>"

text \<open>
  The integrity checks on the record at the front of the unread bytes. A refusal says how the
  scan ends: a torn or zero-filled tail is dropped, anything else makes the log unservable.
\<close>

definition check_record ::
    "store_options \<Rightarrow> scan_state \<Rightarrow> byte list \<Rightarrow> recovery_fidelity + (log_record \<times> digest256)" where
  "check_record opts s data =
     (let remaining = length data
      in if remaining < kStoreRecordHeaderBytes then
           Inl (if all_zero data then RfDegradedTruncated else RfTornTailTruncated)
         else if get_u32 0 data \<noteq> kRecordMagic then
           Inl (if all_zero data then RfDegradedTruncated else RfCorrupt)
         else if get_u16 4 data \<noteq> kRecordHeaderVersion then Inl RfIncompatible
         else
           let type_value = unat (data ! 6);
               payload_len = unat (get_u32 8 data);
               record_bytes = kStoreRecordHeaderBytes + payload_len + kStoreChainBytes
           in if type_value < record_type_code RtIntent \<or> type_value > record_type_code RtAbort then Inl RfCorrupt
              else if payload_len > so_max_record_bytes opts then Inl RfCorrupt
              else if record_bytes > remaining then
                Inl (if all_zero data then RfDegradedTruncated else RfTornTailTruncated)
              else
                let header = take kStoreRecordHeaderBytes data;
                    payload = take payload_len (drop kStoreRecordHeaderBytes data);
                    stored_chain = take kStoreChainBytes (drop (kStoreRecordHeaderBytes + payload_len) data);
                    last_record = (record_bytes = remaining);
                    computed = chain_hash (ss_chain s) header payload
                in if crc32c payload \<noteq> get_u32 12 data then
                     Inl (if all_zero data \<or> last_record then RfTornTailTruncated else RfCorrupt)
                   else if digest_bytes computed \<noteq> stored_chain then Inl RfCorrupt
                   else if get_u64 16 data \<noteq> ss_sequence s then Inl RfCorrupt
                   else Inr (\<lparr>lr_type = record_type_all ! (type_value - 1), lr_intent = get_u64 24 data,
                              lr_at = get_u64 32 data,
                              lr_origin = Id128 (get_u64 40 data) (get_u64 48 data),
                              lr_payload = payload\<rparr>, computed))"

definition set_last :: "('a \<Rightarrow> 'a) \<Rightarrow> 'a list \<Rightarrow> 'a list" where
  "set_last f xs = (if xs = [] then [] else butlast xs @ [f (last xs)])"

text \<open>What a valid record does to the replay; the flag is false when the record does not fit.\<close>

definition process_record :: "store_options \<Rightarrow> log_record \<Rightarrow> scan_state \<Rightarrow> scan_state \<times> bool" where
  "process_record opts r s =
     (let s = (if is_nil (lr_origin r) then s else s\<lparr>ss_last_incarnation := lr_origin r\<rparr>);
          closes = (\<lambda>f. if ss_open s \<noteq> Some (lr_intent r) then (s, False)
                        else (s\<lparr>ss_actions := set_last f (ss_actions s), ss_open := None\<rparr>, True))
      in case lr_type r of
          RtIntent \<Rightarrow>
            if ss_open s \<noteq> None then (s, False)
            else (case decode_intent_payload (lr_payload r) of
                Inl _ \<Rightarrow> (s, False)
              | Inr (intent, arb, changes) \<Rightarrow>
                  if intent \<noteq> lr_intent r then (s, False)
                  else (s\<lparr>ss_actions := ss_actions s @
                            [\<lparr>ra_kind = RkChanges changes arb, ra_at = lr_at r, ra_intent = lr_intent r,
                              ra_origin = lr_origin r, ra_committed = False, ra_ambiguous = False,
                              ra_aborted = False\<rparr>],
                          ss_open := Some (lr_intent r)\<rparr>, True))
        | RtCommit \<Rightarrow> closes (\<lambda>a. a\<lparr>ra_committed := True\<rparr>)
        | RtAbort \<Rightarrow> closes (\<lambda>a. a\<lparr>ra_committed := True, ra_aborted := True\<rparr>)
        | RtSnapshot \<Rightarrow>
            (case decode_snapshot \<lparr>max_bytes = so_max_record_bytes opts, max_string = 4096,
                                   max_container = 1048576, max_nesting = 8\<rparr> (lr_payload r) of
               Inl _ \<Rightarrow> (s, False)
             | Inr (snap, rest) \<Rightarrow>
                 if require_end rest \<noteq> StOk then (s, False)
                 else (s\<lparr>ss_actions := ss_actions s @
                           [\<lparr>ra_kind = RkSnapshot snap, ra_at = lr_at r, ra_intent = lr_intent r,
                             ra_origin = lr_origin r, ra_committed = True, ra_ambiguous = False,
                             ra_aborted = False\<rparr>],
                         ss_snapshots := ss_snapshots s + 1\<rparr>, True))
        | RtCleanShutdown \<Rightarrow>
            (case r_u64 (lr_payload r) of Inl _ \<Rightarrow> (s, False) | Inr _ \<Rightarrow> (s, True))
        | RtEpochMarker \<Rightarrow>
            (case r_u64 (lr_payload r) of Inl _ \<Rightarrow> (s, False)
             | Inr (v, _) \<Rightarrow> (s\<lparr>ss_epoch := v\<rparr>, True)))"

definition advance_scan :: "log_record \<Rightarrow> digest256 \<Rightarrow> scan_state \<Rightarrow> scan_state" where
  "advance_scan r chain s =
     s\<lparr>ss_chain := chain, ss_sequence := ss_sequence s + 1, ss_records := ss_records s + 1,
       ss_bytes := ss_bytes s + (kStoreRecordHeaderBytes + length (lr_payload r) + kStoreChainBytes)\<rparr>"

text \<open>The scan loop: the final state, how it ended, and the bytes past the last valid record.\<close>

function scan ::
    "store_options \<Rightarrow> byte list \<Rightarrow> scan_state \<Rightarrow> scan_state \<times> recovery_fidelity \<times> byte list" where
  "scan opts data s =
     (if data = [] then (s, RfExact, [])
      else case check_record opts s data of
          Inl f \<Rightarrow> (s, f, data)
        | Inr (r, chain) \<Rightarrow>
            (case process_record opts r s of (s', ok) \<Rightarrow>
              if \<not> ok then (s', RfCorrupt, data)
              else scan opts
                (drop (kStoreRecordHeaderBytes + length (lr_payload r) + kStoreChainBytes) data)
                (advance_scan r chain s')))"
  by pat_completeness auto

termination
  by (relation "measure (\<lambda>(opts, data, s). length data)") (auto simp: kStoreRecordHeaderBytes_def)

declare scan.simps [simp del]

definition mark_ambiguous :: "replay_action \<Rightarrow> replay_action" where
  "mark_ambiguous act =
     (case ra_kind act of
        RkChanges _ _ \<Rightarrow> if ra_committed act then act else act\<lparr>ra_ambiguous := True\<rparr>
      | RkSnapshot _ \<Rightarrow> act)"


section \<open>The store\<close>

text \<open>The log and the two siblings a compaction uses, as byte strings.\<close>

record disk =
  dk_primary :: "byte list option"
  dk_fresh :: "byte list option"
  dk_previous :: "byte list option"

text \<open>
  The answers of the file system: whether a call of each kind succeeds, and how many bytes a
  write or a read that breaks off transfers before it does. The tests for the log and its two
  siblings that settle a compaction are answered one by one; \<open>FsExists\<close> is the test before reading.
\<close>

datatype fs_call =
  FsHasFresh | FsHasPrevious | FsHasPrimary | FsExists | FsRead | FsFread | FsCreate | FsWrite | FsSync | FsReopen | FsTruncate | FsPromote | FsRestore | FsMoveAside
  | FsRemoveFresh | FsRemovePrevious

record fs =
  fs_ok :: "fs_call \<Rightarrow> bool"
  fs_short :: nat

text \<open>
  The store. \<open>st_beyond\<close> are the bytes of the log file behind the place of the next write, which is
  normally its end. \<open>st_synced\<close> counts the bytes of the log that are known to be on the medium: what
  was written after the last synchronisation may still be in a buffer, and a crash may lose it.
\<close>

record store =
  st_open :: bool
  st_path :: string
  st_options :: store_options
  st_sequence :: u64
  st_log_bytes :: nat
  st_record_count :: nat
  st_chain :: digest256
  st_durable :: bool
  st_disk :: disk
  st_beyond :: "byte list"
  st_synced :: nat

definition new_store :: "disk \<Rightarrow> store" where
  "new_store d =
     \<lparr>st_open = False, st_path = [], st_options = default_store_options, st_sequence = 1,
      st_log_bytes = 0, st_record_count = 0, st_chain = digest_zero, st_durable = True, st_disk = d,
      st_beyond = [], st_synced = 0\<rparr>"

definition primary_bytes :: "store \<Rightarrow> byte list" where
  "primary_bytes st = (case dk_primary (st_disk st) of None \<Rightarrow> [] | Some c \<Rightarrow> c)"

text \<open>
  Reading the log: \<open>None\<close> when it is refused, else whether a log exists and what was read of it. A
  failing test for existence counts as absence, and a read that breaks off counts as the end.
\<close>

definition read_whole_file :: "fs \<Rightarrow> nat \<Rightarrow> byte list option \<Rightarrow> (bool \<times> byte list) option" where
  "read_whole_file fs read_cap file =
     (case file of
        None \<Rightarrow> Some (False, [])
      | Some data \<Rightarrow>
          if \<not> fs_ok fs FsExists then Some (False, [])
          else if \<not> fs_ok fs FsRead \<or> length data > read_cap then None
          else Some (True, if fs_ok fs FsFread then data else take (fs_short fs) data))"

definition settle_compaction_artifacts :: "fs \<Rightarrow> disk \<Rightarrow> status \<times> disk" where
  "settle_compaction_artifacts fs d =
     (let has_fresh = (dk_fresh d \<noteq> None \<and> fs_ok fs FsHasFresh);
          has_previous = (dk_previous d \<noteq> None \<and> fs_ok fs FsHasPrevious);
          has_primary = (dk_primary d \<noteq> None \<and> fs_ok fs FsHasPrimary)
      in if \<not> has_primary \<and> has_fresh then
           if \<not> fs_ok fs FsPromote then (StUnavailable, d)
           else (StOk, \<lparr>dk_primary = dk_fresh d, dk_fresh = None,
                        dk_previous = (if fs_ok fs FsRemovePrevious then None else dk_previous d)\<rparr>)
         else
           let d = (if has_primary \<and> has_fresh \<and> fs_ok fs FsRemoveFresh then d\<lparr>dk_fresh := None\<rparr> else d)
           in if has_primary \<and> has_previous then
                (StOk, if fs_ok fs FsRemovePrevious then d\<lparr>dk_previous := None\<rparr> else d)
              else if \<not> has_primary \<and> has_previous then
                if \<not> fs_ok fs FsRestore then (StUnavailable, d)
                else (StOk, d\<lparr>dk_primary := dk_previous d, dk_previous := None\<rparr>)
              else (StOk, d))"

definition append_primary :: "byte list \<Rightarrow> store \<Rightarrow> store" where
  "append_primary bs st =
     (let before = take (length (primary_bytes st) - length (st_beyond st)) (primary_bytes st);
          beyond = drop (length bs) (st_beyond st)
      in st\<lparr>st_disk := (st_disk st)\<lparr>dk_primary := Some (before @ bs @ beyond)\<rparr>, st_beyond := beyond,
            st_synced := min (st_synced st) (length before)\<rparr>)"

definition write_record :: "fs \<Rightarrow> bool \<Rightarrow> log_record \<Rightarrow> store \<Rightarrow> status \<times> store" where
  "write_record fs count_toward_limits r st =
     (let payload = lr_payload r;
          record_bytes = kStoreRecordHeaderBytes + length payload + kStoreChainBytes
      in if \<not> st_open st then (StUnavailable, st)
         else if length payload > so_max_record_bytes (st_options st) then (StLimitExceeded, st)
         else if count_toward_limits \<and>
                 (st_log_bytes st > so_max_log_bytes (st_options st) \<or>
                  record_bytes > so_max_log_bytes (st_options st) - st_log_bytes st) then (StLimitExceeded, st)
         else if count_toward_limits \<and> st_record_count st \<ge> so_max_records (st_options st) then
           (StLimitExceeded, st)
         else
           let image = record_image (st_chain st) (st_sequence st) r
           in if \<not> fs_ok fs FsWrite then
                (StUnavailable, append_primary (take (min (fs_short fs) (length image - 1)) image) st)
              else
                (StOk, (append_primary image st)\<lparr>
                   st_chain := record_chain (st_chain st) (st_sequence st) r,
                   st_sequence := st_sequence st + 1,
                   st_log_bytes := st_log_bytes st + record_bytes,
                   st_record_count := st_record_count st + 1\<rparr>))"

definition intent_record :: "u64 \<Rightarrow> arb_seq \<Rightarrow> state_change list \<Rightarrow> u64 \<Rightarrow> incarnation \<Rightarrow> log_record" where
  "intent_record intent arb changes at origin =
     \<lparr>lr_type = RtIntent, lr_intent = intent, lr_at = at, lr_origin = origin,
      lr_payload = encode_intent_payload intent arb changes\<rparr>"

definition commit_record :: "u64 \<Rightarrow> u64 \<Rightarrow> log_record" where
  "commit_record intent at =
     \<lparr>lr_type = RtCommit, lr_intent = intent, lr_at = at, lr_origin = nil_id, lr_payload = w_u64 intent\<rparr>"

definition abort_record :: "u64 \<Rightarrow> u64 \<Rightarrow> log_record" where
  "abort_record intent at =
     \<lparr>lr_type = RtAbort, lr_intent = intent, lr_at = at, lr_origin = nil_id, lr_payload = w_u64 intent\<rparr>"

definition shutdown_record :: "u64 \<Rightarrow> log_record" where
  "shutdown_record at =
     \<lparr>lr_type = RtCleanShutdown, lr_intent = 0, lr_at = at, lr_origin = nil_id, lr_payload = w_u64 at\<rparr>"

definition snapshot_record :: "authority_snapshot \<Rightarrow> u64 \<Rightarrow> incarnation \<Rightarrow> log_record" where
  "snapshot_record snap at origin =
     \<lparr>lr_type = RtSnapshot, lr_intent = 0, lr_at = at, lr_origin = origin, lr_payload = encode_snapshot snap\<rparr>"

definition append_intent ::
    "fs \<Rightarrow> u64 \<Rightarrow> arb_seq \<Rightarrow> state_change list \<Rightarrow> u64 \<Rightarrow> incarnation \<Rightarrow> store \<Rightarrow> status \<times> store" where
  "append_intent fs intent arb changes at origin = write_record fs True (intent_record intent arb changes at origin)"

definition append_commit :: "fs \<Rightarrow> u64 \<Rightarrow> u64 \<Rightarrow> store \<Rightarrow> status \<times> store" where
  "append_commit fs intent at = write_record fs True (commit_record intent at)"

definition append_abort :: "fs \<Rightarrow> u64 \<Rightarrow> u64 \<Rightarrow> store \<Rightarrow> status \<times> store" where
  "append_abort fs intent at = write_record fs True (abort_record intent at)"

definition append_clean_shutdown :: "fs \<Rightarrow> u64 \<Rightarrow> store \<Rightarrow> status \<times> store" where
  "append_clean_shutdown fs at = write_record fs True (shutdown_record at)"

definition append_snapshot :: "fs \<Rightarrow> authority_snapshot \<Rightarrow> u64 \<Rightarrow> incarnation \<Rightarrow> store \<Rightarrow> status \<times> store" where
  "append_snapshot fs snap at origin = write_record fs True (snapshot_record snap at origin)"

text \<open>
  \<open>sync_file\<close> empties the buffer and brings the file to the medium; a store without durable writes
  only empties the buffer when it is flushed.
\<close>

definition sync_file :: "fs \<Rightarrow> store \<Rightarrow> status \<times> store" where
  "sync_file fs st =
     (if fs_ok fs FsSync then (StOk, st\<lparr>st_synced := length (primary_bytes st)\<rparr>) else (StUnavailable, st))"

definition store_flush :: "fs \<Rightarrow> store \<Rightarrow> status \<times> store" where
  "store_flush fs st =
     (if \<not> st_open st then (StUnavailable, st)
      else if \<not> st_durable st then (if fs_ok fs FsSync then StOk else StUnavailable, st)
      else sync_file fs st)"

definition store_close :: "fs \<Rightarrow> store \<Rightarrow> store" where
  "store_close fs st = (if st_open st then (snd (sync_file fs st))\<lparr>st_open := False\<rparr> else st)"

definition needs_compaction :: "store \<Rightarrow> bool" where
  "needs_compaction st \<longleftrightarrow>
     st_log_bytes st \<ge> so_compact_threshold_bytes (st_options st) \<or>
     st_record_count st \<ge> so_compact_threshold_records (st_options st)"


section \<open>Opening\<close>

definition header_refusal :: "byte list \<Rightarrow> recovery_fidelity option" where
  "header_refusal data =
     (if get_u32 0 data \<noteq> kFileMagic then Some RfCorrupt
      else if get_u32 12 data \<noteq> kEndianMarker then Some RfIncompatible
      else if get_u32 4 data \<noteq> kStoreFormatVersion then Some RfIncompatible
      else if get_u32 8 data \<noteq> of_nat kStoreFileHeaderBytes then Some RfIncompatible
      else if crc32c (take 124 data) \<noteq> get_u32 124 data then Some RfCorrupt
      else None)"

text \<open>A missing log, or one shorter than its header, is started afresh.\<close>

definition create_log :: "fs \<Rightarrow> id128 \<Rightarrow> store \<Rightarrow> replay_result expected \<times> store" where
  "create_log fs sid st =
     (let header = file_header sid;
          put = (\<lambda>c. st\<lparr>st_disk := (st_disk st)\<lparr>dk_primary := Some c\<rparr>, st_beyond := [], st_synced := 0\<rparr>)
      in if \<not> fs_ok fs FsCreate then (Inl StUnavailable, st)
         else if \<not> fs_ok fs FsWrite then
           (Inl StUnavailable, put (take (min (fs_short fs) (length header - 1)) header))
         else if \<not> fs_ok fs FsSync then (Inl StUnavailable, put header)
         else if \<not> fs_ok fs FsReopen then (Inl StUnavailable, put header)
         else (Inr \<lparr>rp_report = empty_report\<lparr>rr_store_id := sid, rr_format_version := kStoreFormatVersion\<rparr>,
                    rp_actions = [], rp_epoch = 0, rp_last_incarnation = nil_id\<rparr>,
               (put header)\<lparr>st_open := True, st_synced := length header, st_sequence := 1, st_log_bytes := kStoreFileHeaderBytes,
                            st_record_count := 0\<rparr>))"

definition report_of :: "byte list \<Rightarrow> scan_state \<times> recovery_fidelity \<times> byte list \<Rightarrow> recovery_report" where
  "report_of data res =
     (case res of (s, f, rest) \<Rightarrow>
       \<lparr>rr_fidelity = (if f = RfExact \<and> ss_open s \<noteq> None then RfAmbiguousIntentResolved else f),
        rr_store_id = Id128 (get_u64 24 data) (get_u64 32 data),
        rr_format_version = get_u32 4 data,
        rr_records_read = ss_records s, rr_bytes_read = ss_bytes s,
        rr_dropped_tail_bytes =
          (if f = RfTornTailTruncated \<or> f = RfDegradedTruncated then length rest else 0),
        rr_ambiguous_intents =
          length (filter (\<lambda>a. ra_ambiguous (mark_ambiguous a)) (ss_actions s)),
        rr_suppressed_releases = 0, rr_snapshots_seen = ss_snapshots s, rr_aborted_intents = 0,
        rr_chain_head = ss_chain s, rr_truncated_on_open = False,
        rr_resolution_written_on_open = False\<rparr>)"

definition result_of :: "byte list \<Rightarrow> scan_state \<times> recovery_fidelity \<times> byte list \<Rightarrow> replay_result" where
  "result_of data res =
     \<lparr>rp_report = report_of data res, rp_actions = map mark_ambiguous (ss_actions (fst res)),
      rp_epoch = ss_epoch (fst res), rp_last_incarnation = ss_last_incarnation (fst res)\<rparr>"

text \<open>The log ended with an unfinished intent: it is closed in the log before anything is served.\<close>

definition resolve_open_intent ::
    "fs \<Rightarrow> u64 option \<Rightarrow> replay_result \<Rightarrow> store \<Rightarrow> replay_result expected \<times> store" where
  "resolve_open_intent fs opened res st =
     (case opened of
        None \<Rightarrow> (Inr res, st)
      | Some intent \<Rightarrow>
          (case append_abort fs intent 0 st of (closed, st) \<Rightarrow>
             if closed \<noteq> StOk then (Inl StUnavailable, store_close fs st)
             else
               case store_flush fs st of (flushed, st) \<Rightarrow>
                 if flushed \<noteq> StOk then (Inl flushed, store_close fs st)
                 else (Inr (res\<lparr>rp_report := (rp_report res)\<lparr>rr_aborted_intents := rr_aborted_intents (rp_report res) + 1,
                                rr_resolution_written_on_open := True\<rparr>\<rparr>), st)))"

definition replay_log ::
    "fs \<Rightarrow> byte list \<Rightarrow> store \<Rightarrow> replay_result expected \<times> store" where
  "replay_log fs data st =
     (let opts = st_options st;
          found = scan opts (drop kStoreFileHeaderBytes data) scan_start;
          s = fst found;
          rest = snd (snd found);
          res = result_of data found;
          valid = take (length data - length rest) data
      in if \<not> servable (rp_report res) then (Inr res, st)
         else if rest \<noteq> [] \<and> \<not> so_truncate_unreadable_tail opts then (Inl StUnavailable, st)
         else if rest \<noteq> [] \<and> \<not> fs_ok fs FsTruncate then (Inl StUnavailable, st)
         else
           let st = (if rest \<noteq> [] then st\<lparr>st_disk := (st_disk st)\<lparr>dk_primary := Some valid\<rparr>, st_beyond := []\<rparr>
                     else st\<lparr>st_beyond := drop (length valid) (primary_bytes st)\<rparr>);
               res = (if rest \<noteq> [] then res\<lparr>rp_report := (rp_report res)\<lparr>rr_truncated_on_open := True\<rparr>\<rparr> else res)
           in if length valid > 9223372036854775807 then (Inl StLimitExceeded, st)
              else if \<not> fs_ok fs FsReopen then (Inl StUnavailable, st)
              else resolve_open_intent fs (ss_open s) res
                (st\<lparr>st_open := True, st_synced := length valid, st_chain := ss_chain s, st_sequence := ss_sequence s,
                    st_log_bytes := length valid, st_record_count := ss_records s\<rparr>))"

definition store_open ::
    "fs \<Rightarrow> id128 \<Rightarrow> string \<Rightarrow> store_options \<Rightarrow> store \<Rightarrow> replay_result expected \<times> store" where
  "store_open fs sid path opts st =
     (if path = [] then (Inl StInvalid, st)
      else if so_max_record_bytes opts = 0 \<or> so_max_log_bytes opts = 0 \<or> so_max_records opts = 0 then
        (Inl StInvalid, st)
      else if st_open st then (Inl StBusy, st)
      else
        case settle_compaction_artifacts fs (st_disk st) of (settled, d) \<Rightarrow>
          let st = st\<lparr>st_disk := d\<rparr>
          in if settled \<noteq> StOk then (Inl settled, st)
             else
               let ready = st\<lparr>st_path := path, st_options := opts, st_durable := so_durable_writes opts,
                              st_chain := digest_zero\<rparr>
               in (case read_whole_file fs (so_max_log_bytes opts + so_max_record_bytes opts + 4096) (dk_primary d) of
                     None \<Rightarrow> (Inl StUnavailable, st)
                   | Some (existed, data) \<Rightarrow>
                       if \<not> existed \<or> length data < kStoreFileHeaderBytes then create_log fs sid ready
                       else (case header_refusal data of
                           Some f \<Rightarrow>
                             (Inr \<lparr>rp_report = empty_report\<lparr>rr_fidelity := f,
                                      rr_format_version :=
                                        (if get_u32 0 data \<noteq> kFileMagic \<or> get_u32 12 data \<noteq> kEndianMarker
                                         then 0 else get_u32 4 data)\<rparr>,
                                   rp_actions = [], rp_epoch = 0, rp_last_incarnation = nil_id\<rparr>, ready)
                         | None \<Rightarrow> replay_log fs data ready)))"

section \<open>Compaction\<close>

definition compacted_log :: "id128 \<Rightarrow> log_record \<Rightarrow> byte list" where
  "compacted_log sid r = file_header sid @ record_image digest_zero 1 r"

definition store_compact ::
    "fs \<Rightarrow> id128 \<Rightarrow> authority_snapshot \<Rightarrow> u64 \<Rightarrow> incarnation \<Rightarrow> store \<Rightarrow> status \<times> store" where
  "store_compact fs sid snap at origin st =
     (let r = snapshot_record snap at origin;
          d = st_disk st;
          image = compacted_log sid r;
          cleaned = (\<lambda>left. if fs_ok fs FsRemoveFresh then None else left);
          failed = (\<lambda>left. (StUnavailable, st\<lparr>st_disk := d\<lparr>dk_fresh := cleaned left\<rparr>\<rparr>));
          on = (\<lambda>d. (store_close fs st)\<lparr>st_disk := d\<rparr>)
      in if st_path st = [] then (StUnavailable, st)
         else if length (lr_payload r) > so_max_record_bytes (st_options st) then (StLimitExceeded, st)
         else if \<not> fs_ok fs FsCreate then failed (dk_fresh d)
         else if \<not> fs_ok fs FsWrite then failed (Some (take (min (fs_short fs) (length image - 1)) image))
         else if \<not> fs_ok fs FsSync then failed (Some image)
         else
           let d = d\<lparr>dk_fresh := Some image,
                     dk_previous := (if fs_ok fs FsRemovePrevious then None else dk_previous d)\<rparr>;
               had_primary = (dk_primary d \<noteq> None \<and> fs_ok fs FsHasPrimary)
           in if had_primary \<and> \<not> fs_ok fs FsMoveAside then (StUnavailable, on d)
              else
                let d = (if had_primary then d\<lparr>dk_previous := dk_primary d, dk_primary := None\<rparr> else d)
                in if \<not> fs_ok fs FsPromote then
                     (StUnavailable, on (if had_primary \<and> fs_ok fs FsRestore
                                         then d\<lparr>dk_primary := dk_previous d, dk_previous := None\<rparr> else d))
                   else
                     let d = d\<lparr>dk_primary := Some image, dk_fresh := None,
                               dk_previous := (if fs_ok fs FsRemovePrevious then None else dk_previous d)\<rparr>
                     in if \<not> fs_ok fs FsReopen then (StUnavailable, (on d)\<lparr>st_synced := length image\<rparr>)
                        else (StOk, (on d)\<lparr>st_open := True, st_beyond := [], st_synced := length image,
                            st_chain := record_chain digest_zero 1 r, st_sequence := 2,
                            st_log_bytes := kStoreFileHeaderBytes + kStoreRecordHeaderBytes +
                              length (lr_payload r) + kStoreChainBytes,
                            st_record_count := 1\<rparr>))"

text \<open>
  The disks that the same compaction passes through, one after each of its calls to the file
  system, as far as it gets. Of the new log, \<open>n\<close> bytes are on the medium when the machine stops
  before the file is synchronised.
\<close>

definition compact_trace ::
    "fs \<Rightarrow> id128 \<Rightarrow> authority_snapshot \<Rightarrow> u64 \<Rightarrow> incarnation \<Rightarrow> nat \<Rightarrow> store \<Rightarrow> disk list" where
  "compact_trace fs sid snap at origin n st =
     (let r = snapshot_record snap at origin;
          image = compacted_log sid r;
          unless = (\<lambda>c d d'. if fs_ok fs c then d' else d);
          start = st_disk st;
          removed = unless FsRemoveFresh start (start\<lparr>dk_fresh := None\<rparr>);
          created = removed\<lparr>dk_fresh := Some []\<rparr>;
          partly = removed\<lparr>dk_fresh := Some (take n image)\<rparr>;
          broken = removed\<lparr>dk_fresh := Some (take (min (fs_short fs) (length image - 1)) image)\<rparr>;
          written = removed\<lparr>dk_fresh := Some image\<rparr>;
          cleaned = (\<lambda>d. unless FsRemoveFresh d (d\<lparr>dk_fresh := None\<rparr>));
          cleared = unless FsRemovePrevious written (written\<lparr>dk_previous := None\<rparr>);
          had_primary = (dk_primary start \<noteq> None \<and> fs_ok fs FsHasPrimary);
          aside = (if had_primary then cleared\<lparr>dk_previous := dk_primary cleared, dk_primary := None\<rparr> else cleared);
          restored = (if had_primary \<and> fs_ok fs FsRestore
                      then aside\<lparr>dk_primary := dk_previous aside, dk_previous := None\<rparr> else aside);
          promoted = aside\<lparr>dk_primary := Some image, dk_fresh := None\<rparr>;
          finished = unless FsRemovePrevious promoted (promoted\<lparr>dk_previous := None\<rparr>)
      in if st_path st = [] \<or> length (lr_payload r) > so_max_record_bytes (st_options st) then [start]
         else if \<not> fs_ok fs FsCreate then [start, removed]
         else if \<not> fs_ok fs FsWrite then [start, removed, created, partly, broken, cleaned broken]
         else if \<not> fs_ok fs FsSync then [start, removed, created, partly, written, cleaned written]
         else
           [start, removed, created, partly, written, cleared] @
           (if had_primary \<and> \<not> fs_ok fs FsMoveAside then []
            else if \<not> fs_ok fs FsPromote then [aside, restored]
            else [aside, promoted, finished]))"

lemma compact_trace_last:
  "last (compact_trace fs sid snap at origin n st) = st_disk (snd (store_compact fs sid snap at origin st))"
  by (cases "st_disk st"; cases "fs_ok fs FsHasPrimary"; cases "dk_primary (st_disk st)") (auto simp: compact_trace_def store_compact_def Let_def)

end
