(* ===== verification/Protocol.thy ===== *)
theory Protocol
  imports Store
begin

text \<open>
  Messages (\<open>src/protocol.cpp\<close>, \<open>include/isf/protocol.hpp\<close>): message types, frames and the
  incremental frame decoder, the request and reply envelopes, and one encoder and decoder per
  message body. A decoder is a reader that must consume the whole payload.
\<close>

section \<open>Message types\<close>

text \<open>
  The type of a message is a 16-bit number cast to the enumeration, so a received message may
  carry a number that names no enumerator: \<open>MtOther\<close>.
\<close>

datatype message_type =
    MtInvalid | MtHello | MtHelloAck | MtErrorReply | MtStatusRequest
  | MtSiteRegister | MtSiteHeartbeat | MtSiteSetState | MtPathRegister | MtPathSetState
  | MtCapacityAttest | MtOversubscribe | MtPolicyInstall | MtEpochBump | MtGrantPropose
  | MtGrantEvaluate | MtGrantReserve | MtGrantActivate | MtGrantDegrade | MtGrantWithdraw
  | MtGrantRetire | MtGrantCancel | MtGrantAcknowledge | MtGrantVerify | MtGrantReconcile
  | MtListSites | MtListPaths | MtListGrants | MtLedgerRequest | MtDigestRequest
  | MtSnapshotRequest | MtTickRequest | MtShutdownRequest | MtMutationReply | MtStatusReply
  | MtSitesReply | MtPathsReply | MtGrantsReply | MtLedgerReply | MtDigestReply
  | MtSnapshotReply | MtShutdownReply
  | MtOther u16

definition message_types :: "(message_type \<times> u16 \<times> string) list" where
  "message_types =
     [(MtInvalid, 0, ''INVALID''), (MtHello, 1, ''HELLO''),
      (MtHelloAck, 2, ''HELLO_ACK''), (MtErrorReply, 3, ''ERROR''),
      (MtStatusRequest, 10, ''STATUS_REQUEST''), (MtSiteRegister, 20, ''SITE_REGISTER''),
      (MtSiteHeartbeat, 21, ''SITE_HEARTBEAT''), (MtSiteSetState, 22, ''SITE_SET_STATE''),
      (MtPathRegister, 30, ''PATH_REGISTER''), (MtPathSetState, 31, ''PATH_SET_STATE''),
      (MtCapacityAttest, 32, ''CAPACITY_ATTEST''), (MtOversubscribe, 33, ''OVERSUBSCRIBE''),
      (MtPolicyInstall, 40, ''POLICY_INSTALL''), (MtEpochBump, 41, ''EPOCH_BUMP''),
      (MtGrantPropose, 50, ''GRANT_PROPOSE''), (MtGrantEvaluate, 51, ''GRANT_EVALUATE''),
      (MtGrantReserve, 52, ''GRANT_RESERVE''), (MtGrantActivate, 53, ''GRANT_ACTIVATE''),
      (MtGrantDegrade, 54, ''GRANT_DEGRADE''), (MtGrantWithdraw, 55, ''GRANT_WITHDRAW''),
      (MtGrantRetire, 56, ''GRANT_RETIRE''), (MtGrantCancel, 57, ''GRANT_CANCEL''),
      (MtGrantAcknowledge, 58, ''GRANT_ACKNOWLEDGE''), (MtGrantVerify, 59, ''GRANT_VERIFY''),
      (MtGrantReconcile, 60, ''GRANT_RECONCILE''), (MtListSites, 70, ''LIST_SITES''),
      (MtListPaths, 71, ''LIST_PATHS''), (MtListGrants, 72, ''LIST_GRANTS''),
      (MtLedgerRequest, 73, ''LEDGER_REQUEST''), (MtDigestRequest, 74, ''DIGEST_REQUEST''),
      (MtSnapshotRequest, 75, ''SNAPSHOT_REQUEST''), (MtTickRequest, 76, ''TICK_REQUEST''),
      (MtShutdownRequest, 77, ''SHUTDOWN_REQUEST''), (MtMutationReply, 100, ''MUTATION_REPLY''),
      (MtStatusReply, 101, ''STATUS_REPLY''), (MtSitesReply, 102, ''SITES_REPLY''),
      (MtPathsReply, 103, ''PATHS_REPLY''), (MtGrantsReply, 104, ''GRANTS_REPLY''),
      (MtLedgerReply, 105, ''LEDGER_REPLY''), (MtDigestReply, 106, ''DIGEST_REPLY''),
      (MtSnapshotReply, 107, ''SNAPSHOT_REPLY''), (MtShutdownReply, 108, ''SHUTDOWN_REPLY'')]"

definition message_type_code :: "message_type \<Rightarrow> u16" where
  "message_type_code t =
     (case t of MtOther n \<Rightarrow> n
      | _ \<Rightarrow> (case find (\<lambda>e. fst e = t) message_types of Some e \<Rightarrow> fst (snd e) | None \<Rightarrow> 0))"

definition message_type_of :: "u16 \<Rightarrow> message_type" where
  "message_type_of n =
     (case find (\<lambda>e. fst (snd e) = n) message_types of Some e \<Rightarrow> fst e | None \<Rightarrow> MtOther n)"

definition message_type_name :: "message_type \<Rightarrow> string" where
  "message_type_name t =
     (case find (\<lambda>e. fst e = t) message_types of Some e \<Rightarrow> snd (snd e) | None \<Rightarrow> ''INVALID'')"

definition message_type_is_request :: "message_type \<Rightarrow> bool" where
  "message_type_is_request t \<longleftrightarrow>
     t = MtHello \<or>
     message_type_code MtStatusRequest \<le> message_type_code t \<and>
     message_type_code t \<le> message_type_code MtShutdownRequest"

definition message_type_is_reply :: "message_type \<Rightarrow> bool" where
  "message_type_is_reply t \<longleftrightarrow>
     t = MtHelloAck \<or> t = MtErrorReply \<or>
     message_type_code MtMutationReply \<le> message_type_code t \<and>
     message_type_code t \<le> message_type_code MtShutdownReply"

section \<open>Frames\<close>

definition kFrameMagic :: u32 where "kFrameMagic = 0x31465349"
definition kFrameHeaderBytes :: nat where "kFrameHeaderBytes = 16"
definition kDefaultMaxFrameBytes :: nat where "kDefaultMaxFrameBytes = 1048576"
definition kAbsoluteMaxFrameBytes :: nat where "kAbsoluteMaxFrameBytes = 67108864"
definition kWireProtocolVersion :: u16 where "kWireProtocolVersion = 1"

datatype frame_error =
    FeOk | FeShortHeader | FeBadMagic | FeLengthTooLarge | FeLengthZero | FeChecksumMismatch
  | FeUnexpectedFlags | FeTruncatedPayload | FeClosed | FeTimedOut | FeIoError

definition frame_error_name :: "frame_error \<Rightarrow> string" where
  "frame_error_name e =
     (case e of FeOk \<Rightarrow> ''OK'' | FeShortHeader \<Rightarrow> ''SHORT_HEADER'' | FeBadMagic \<Rightarrow> ''BAD_MAGIC''
      | FeLengthTooLarge \<Rightarrow> ''LENGTH_TOO_LARGE'' | FeLengthZero \<Rightarrow> ''LENGTH_ZERO''
      | FeChecksumMismatch \<Rightarrow> ''CHECKSUM_MISMATCH'' | FeUnexpectedFlags \<Rightarrow> ''UNEXPECTED_FLAGS''
      | FeTruncatedPayload \<Rightarrow> ''TRUNCATED_PAYLOAD'' | FeClosed \<Rightarrow> ''CLOSED''
      | FeTimedOut \<Rightarrow> ''TIMED_OUT'' | FeIoError \<Rightarrow> ''IO_ERROR'')"

definition encode_frame :: "byte list \<Rightarrow> byte list" where
  "encode_frame payload =
     w_u32 kFrameMagic @ w_u32 (of_nat (length payload)) @ w_u32 (crc32c payload) @ w_u32 0 @ payload"

record frame_decoder =
  fd_max_frame_bytes :: nat
  fd_buffer :: "byte list"
  fd_cursor :: nat
  fd_last_error :: frame_error
  fd_failed :: bool

definition new_decoder :: "nat \<Rightarrow> frame_decoder" where
  "new_decoder max_frame =
     \<lparr>fd_max_frame_bytes = max_frame, fd_buffer = [], fd_cursor = 0, fd_last_error = FeOk, fd_failed = False\<rparr>"

definition fd_buffered :: "frame_decoder \<Rightarrow> nat" where
  "fd_buffered d = length (fd_buffer d) - fd_cursor d"

definition fd_push :: "byte list \<Rightarrow> frame_decoder \<Rightarrow> status \<times> frame_decoder" where
  "fd_push data d =
     (if fd_failed d then (StCorrupt, d)
      else
        let d = (if fd_cursor d > 0 then d\<lparr>fd_buffer := drop (fd_cursor d) (fd_buffer d), fd_cursor := 0\<rparr> else d);
            bound = (fd_max_frame_bytes d + kFrameHeaderBytes) * 2
        in if length data > bound then
             (StLimitExceeded, d\<lparr>fd_failed := True, fd_last_error := FeLengthTooLarge\<rparr>)
           else
             let d = d\<lparr>fd_buffer := fd_buffer d @ data\<rparr>
             in if length (fd_buffer d) > bound then
                  (StLimitExceeded, d\<lparr>fd_failed := True, fd_last_error := FeLengthTooLarge\<rparr>)
                else (StOk, d))"

definition fd_next :: "frame_decoder \<Rightarrow> byte list expected \<times> frame_decoder" where
  "fd_next d =
     (let available = length (fd_buffer d) - fd_cursor d;
          header = drop (fd_cursor d) (fd_buffer d);
          fail = (\<lambda>status err. (Inl status, d\<lparr>fd_failed := True, fd_last_error := err\<rparr>))
      in if fd_failed d then (Inl StCorrupt, d)
         else if available < kFrameHeaderBytes then (Inl StNotFound, d)
         else if get_u32 0 header \<noteq> kFrameMagic then fail StInvalid FeBadMagic
         else if get_u32 12 header \<noteq> 0 then fail StInvalid FeUnexpectedFlags
         else if unat (get_u32 4 header) > fd_max_frame_bytes d then fail StLimitExceeded FeLengthTooLarge
         else
           let len = unat (get_u32 4 header);
               payload = take len (drop kFrameHeaderBytes header)
           in if available < kFrameHeaderBytes + len then (Inl StNotFound, d)
              else if crc32c payload \<noteq> get_u32 8 header then fail StCorrupt FeChecksumMismatch
              else
                let cursor = fd_cursor d + (kFrameHeaderBytes + len)
                in (Inr payload,
                    if cursor = length (fd_buffer d) then d\<lparr>fd_buffer := [], fd_cursor := 0\<rparr>
                    else d\<lparr>fd_cursor := cursor\<rparr>))"

definition fd_reset :: "frame_decoder \<Rightarrow> frame_decoder" where
  "fd_reset d = d\<lparr>fd_buffer := [], fd_cursor := 0, fd_last_error := FeOk, fd_failed := False\<rparr>"

section \<open>Envelopes\<close>

definition message_limits :: wire_limits where
  "message_limits =
     \<lparr>max_bytes = kDefaultMaxFrameBytes, max_string = 4096, max_container = 65536, max_nesting = 8\<rparr>"

text \<open>A body is read to its end; anything left over is refused.\<close>

definition whole :: "'a reader \<Rightarrow> byte list \<Rightarrow> 'a expected" where
  "whole r payload = ebind (r payload) (\<lambda>(v, rest). if require_end rest \<noteq> StOk then Inl StInvalid else Inr v)"

record wire_request =
  wr_protocol_version :: u16
  wr_type :: message_type
  wr_session_seq :: u64
  wr_id :: request_id
  wr_payload :: "byte list"

record wire_response =
  ws_protocol_version :: u16
  ws_type :: message_type
  ws_session_seq :: u64
  ws_id :: request_id
  ws_status :: status
  ws_detail :: string
  ws_payload :: "byte list"

definition status_all :: "status list" where
  "status_all = map fst kStatusNames"

fun position :: "'a \<Rightarrow> 'a list \<Rightarrow> nat" where
  "position x [] = 0"
| "position x (y # ys) = (if x = y then 0 else Suc (position x ys))"

definition status_code :: "status \<Rightarrow> nat" where
  "status_code s = position s status_all"

definition recovery_fidelity_all :: "recovery_fidelity list" where
  "recovery_fidelity_all =
     [RfExact, RfTornTailTruncated, RfDegradedTruncated, RfAmbiguousIntentResolved, RfCorrupt, RfIncompatible, RfMissing]"

definition recovery_fidelity_code :: "recovery_fidelity \<Rightarrow> nat" where
  "recovery_fidelity_code f = position f recovery_fidelity_all"

definition encode_request :: "wire_request \<Rightarrow> byte list" where
  "encode_request v =
     w_u16 (wr_protocol_version v) @ w_u16 (message_type_code (wr_type v)) @ w_u64 (wr_session_seq v) @
     w_id128 (wr_id v) @ w_bytes (wr_payload v)"

definition read_request :: "wire_limits \<Rightarrow> wire_request reader" where
  "read_request lim =
     rbind r_u16 (\<lambda>version.
     rbind r_u16 (\<lambda>type.
     if \<not> message_type_is_request (message_type_of type) then rfail StInvalid else
     rbind r_u64 (\<lambda>seq.
     rbind r_id128 (\<lambda>id.
     rbind (r_bytes lim) (\<lambda>body.
     rreturn \<lparr>wr_protocol_version = version, wr_type = message_type_of type, wr_session_seq = seq,
       wr_id = id, wr_payload = body\<rparr>)))))"

definition decode_request :: "wire_limits \<Rightarrow> byte list \<Rightarrow> wire_request expected" where
  "decode_request lim payload = whole (read_request lim) payload"

definition encode_response :: "wire_response \<Rightarrow> byte list" where
  "encode_response v =
     w_u16 (ws_protocol_version v) @ w_u16 (message_type_code (ws_type v)) @ w_u64 (ws_session_seq v) @
     w_id128 (ws_id v) @ w_enum status_code (ws_status v) @ w_str (ws_detail v) @ w_bytes (ws_payload v)"

definition read_response :: "wire_limits \<Rightarrow> wire_response reader" where
  "read_response lim =
     rbind r_u16 (\<lambda>version.
     rbind r_u16 (\<lambda>type.
     if \<not> message_type_is_reply (message_type_of type) then rfail StInvalid else
     rbind r_u64 (\<lambda>seq.
     rbind r_id128 (\<lambda>id.
     rbind (r_enum status_all) (\<lambda>st.
     rbind (r_str lim) (\<lambda>detail.
     rbind (r_bytes lim) (\<lambda>body.
     rreturn \<lparr>ws_protocol_version = version, ws_type = message_type_of type, ws_session_seq = seq,
       ws_id = id, ws_status = st, ws_detail = detail, ws_payload = body\<rparr>)))))))"

definition decode_response :: "wire_limits \<Rightarrow> byte list \<Rightarrow> wire_response expected" where
  "decode_response lim payload = whole (read_response lim) payload"

section \<open>Message bodies\<close>

record status_report =
  sp_version_major :: u32
  sp_version_minor :: u32
  sp_version_patch :: u32
  sp_wire_protocol :: u16
  sp_incarnation :: id128
  sp_epoch :: u64
  sp_policy :: policy
  sp_store_fidelity :: recovery_fidelity
  sp_store_id :: id128
  sp_store_format_version :: u32
  sp_store_records :: u64
  sp_store_bytes :: u64
  sp_ambiguous_intents :: u64
  sp_store_servable :: bool
  sp_store_truncated_on_open :: bool
  sp_uptime_ms :: u64
  sp_mutations_applied :: u64
  sp_mutations_refused :: u64
  sp_mutations_failed :: u64
  sp_connections_accepted :: u64
  sp_frames_decoded :: u64
  sp_frames_rejected :: u64
  sp_duplicate_requests :: u64
  sp_stale_requests :: u64
  sp_sites :: u64
  sp_paths :: u64
  sp_grants :: u64
  sp_aggregate :: capacity_ledger
  sp_state_digest :: digest256
  sp_detail :: string

record mutation_report =
  mr_arbitration :: arb_seq
  mr_primary_kind :: "object_kind option"
  mr_primary_key :: id128
  mr_total_changes :: u32
  mr_truncated :: bool
  mr_changes :: "state_change list"

record list_filter =
  lf_include_terminal :: bool
  lf_limit :: u32
  lf_path :: path_id
  lf_site :: site_id

record ledger_report =
  lg_path :: path_id
  lg_ledger :: capacity_ledger

record digest_report =
  dr_state_digest :: digest256
  dr_policy_digest :: string
  dr_last_arbitration :: u64
  dr_sites :: u64
  dr_paths :: u64
  dr_grants :: u64

record hello_request =
  hq_protocol_version :: u16
  hq_client_nonce :: id128
  hq_client_kind :: string
  hq_max_frame_bytes :: u32

record hello_reply =
  hr_protocol_version :: u16
  hr_session :: id128
  hr_server_incarnation :: incarnation
  hr_epoch :: epoch
  hr_max_frame_bytes :: u32
  hr_store_fidelity :: recovery_fidelity
  hr_store_servable :: bool
  hr_durable_writes :: bool
  hr_format_version :: u32

definition encode_hello_request :: "hello_request \<Rightarrow> byte list" where
  "encode_hello_request v =
     w_u16 (hq_protocol_version v) @ w_id128 (hq_client_nonce v) @ w_str (hq_client_kind v) @
     w_u32 (hq_max_frame_bytes v)"

definition read_hello_request :: "hello_request reader" where
  "read_hello_request =
     rbind r_u16 (\<lambda>version.
     rbind r_id128 (\<lambda>nonce.
     rbind (r_str message_limits) (\<lambda>kind.
     rbind r_u32 (\<lambda>max_frame.
     rreturn \<lparr>hq_protocol_version = version, hq_client_nonce = nonce, hq_client_kind = kind,
       hq_max_frame_bytes = max_frame\<rparr>))))"

definition decode_hello_request :: "byte list \<Rightarrow> hello_request expected" where
  "decode_hello_request payload = whole read_hello_request payload"

definition encode_hello_reply :: "hello_reply \<Rightarrow> byte list" where
  "encode_hello_reply v =
     w_u16 (hr_protocol_version v) @ w_id128 (hr_session v) @ w_id128 (hr_server_incarnation v) @
     w_u64 (hr_epoch v) @ w_u32 (hr_max_frame_bytes v) @ w_enum recovery_fidelity_code (hr_store_fidelity v) @
     w_boolean (hr_store_servable v) @ w_boolean (hr_durable_writes v) @ w_u32 (hr_format_version v)"

definition read_hello_reply :: "hello_reply reader" where
  "read_hello_reply =
     rbind r_u16 (\<lambda>version.
     rbind r_id128 (\<lambda>session.
     rbind r_id128 (\<lambda>inc.
     rbind r_u64 (\<lambda>ep.
     rbind r_u32 (\<lambda>max_frame.
     rbind (r_enum recovery_fidelity_all) (\<lambda>fidelity.
     rbind r_boolean (\<lambda>srv.
     rbind r_boolean (\<lambda>durable.
     rbind r_u32 (\<lambda>format.
     rreturn \<lparr>hr_protocol_version = version, hr_session = session, hr_server_incarnation = inc,
       hr_epoch = ep, hr_max_frame_bytes = max_frame, hr_store_fidelity = fidelity, hr_store_servable
       = srv, hr_durable_writes = durable, hr_format_version = format\<rparr>)))))))))"

definition decode_hello_reply :: "byte list \<Rightarrow> hello_reply expected" where
  "decode_hello_reply payload = whole read_hello_reply payload"

definition encode_site_registration :: "site_registration \<Rightarrow> byte list" where
  "encode_site_registration v =
     w_id128 (sdesc_id (sreg_descriptor v)) @ w_str (sdesc_name (sreg_descriptor v)) @ w_u64 (sdesc_advertised_capacity (sreg_descriptor v)) @
     w_id128 (sreg_incarnation v) @ w_u64 (sreg_epoch v) @ w_u64 (sreg_now_ms v)"

definition read_site_registration :: "site_registration reader" where
  "read_site_registration =
     rbind r_id128 (\<lambda>id.
     rbind (r_str message_limits) (\<lambda>name.
     rbind r_u64 (\<lambda>advertised.
     rbind r_id128 (\<lambda>inc.
     rbind r_u64 (\<lambda>ep.
     rbind r_u64 (\<lambda>now.
     rreturn \<lparr>sreg_descriptor = \<lparr>sdesc_id = id, sdesc_name = name, sdesc_advertised_capacity = advertised\<rparr>,
       sreg_incarnation = inc, sreg_epoch = ep, sreg_now_ms = now\<rparr>))))))"

definition decode_site_registration :: "byte list \<Rightarrow> site_registration expected" where
  "decode_site_registration payload = whole read_site_registration payload"

definition encode_heartbeat :: "site_heartbeat \<Rightarrow> byte list" where
  "encode_heartbeat v =
     w_id128 (hb_id v) @ w_id128 (hb_incarnation v) @ w_u64 (hb_generation v) @
     w_u64 (hb_epoch v) @ w_u64 (hb_advertised_capacity v) @ w_u64 (hb_now_ms v)"

definition read_heartbeat :: "site_heartbeat reader" where
  "read_heartbeat =
     rbind r_id128 (\<lambda>id.
     rbind r_id128 (\<lambda>inc.
     rbind r_u64 (\<lambda>gen.
     rbind r_u64 (\<lambda>ep.
     rbind r_u64 (\<lambda>advertised.
     rbind r_u64 (\<lambda>now.
     rreturn \<lparr>hb_id = id, hb_incarnation = inc, hb_generation = gen, hb_epoch = ep,
       hb_advertised_capacity = advertised, hb_now_ms = now\<rparr>))))))"

definition decode_heartbeat :: "byte list \<Rightarrow> site_heartbeat expected" where
  "decode_heartbeat payload = whole read_heartbeat payload"

definition encode_path_registration :: "path_registration \<Rightarrow> byte list" where
  "encode_path_registration v =
     w_id128 (pdesc_id (preg_descriptor v)) @ w_str (pdesc_name (preg_descriptor v)) @ w_id128 (pdesc_edge (preg_descriptor v)) @
     w_id128 (pdesc_shared_risk_domain (preg_descriptor v)) @ w_id128 (pdesc_endpoint_a (preg_descriptor v)) @ w_id128 (pdesc_endpoint_b (preg_descriptor v)) @
     w_u64 (preg_path_generation v) @ w_enum path_state_code (preg_state v) @ w_u64 (preg_advertised v) @
     w_u64 (preg_observed v) @ w_u64 (preg_now_ms v)"

definition read_path_registration :: "path_registration reader" where
  "read_path_registration =
     rbind r_id128 (\<lambda>id.
     rbind (r_str message_limits) (\<lambda>name.
     rbind r_id128 (\<lambda>edge.
     rbind r_id128 (\<lambda>dom.
     rbind r_id128 (\<lambda>a.
     rbind r_id128 (\<lambda>b.
     rbind r_u64 (\<lambda>gen.
     rbind (r_enum path_state_all) (\<lambda>state.
     rbind r_u64 (\<lambda>advertised.
     rbind r_u64 (\<lambda>observed.
     rbind r_u64 (\<lambda>now.
     rreturn \<lparr>preg_descriptor = \<lparr>pdesc_id = id, pdesc_name = name, pdesc_edge = edge,
         pdesc_shared_risk_domain = dom, pdesc_endpoint_a = a, pdesc_endpoint_b = b\<rparr>,
       preg_path_generation = gen, preg_state = state, preg_advertised = advertised,
       preg_observed = observed, preg_now_ms = now\<rparr>)))))))))))"

definition decode_path_registration :: "byte list \<Rightarrow> path_registration expected" where
  "decode_path_registration payload = whole read_path_registration payload"

definition encode_grant_proposal :: "grant_proposal \<Rightarrow> byte list" where
  "encode_grant_proposal v =
     w_id128 (gp_request v) @ w_id128 (gp_holder v) @ w_id128 (gp_holder_incarnation v) @
     w_u64 (gp_holder_generation v) @ w_id128 (gp_path v) @ w_u64 (gp_amount v) @
     w_enum grant_class_code (gp_grant_class v) @ w_u64 (gp_duration_ms v) @ w_u64 (gp_now_ms v) @
     w_str (gp_reason v) @ w_id128 (gp_grant_id v) @ w_id128 (gp_lease v)"

definition read_grant_proposal :: "grant_proposal reader" where
  "read_grant_proposal =
     rbind r_id128 (\<lambda>request.
     rbind r_id128 (\<lambda>holder.
     rbind r_id128 (\<lambda>inc.
     rbind r_u64 (\<lambda>gen.
     rbind r_id128 (\<lambda>path.
     rbind r_u64 (\<lambda>amnt.
     rbind (r_enum grant_class_all) (\<lambda>klass.
     rbind r_u64 (\<lambda>duration.
     rbind r_u64 (\<lambda>now.
     rbind (r_str message_limits) (\<lambda>reason.
     rbind r_id128 (\<lambda>grant.
     rbind r_id128 (\<lambda>lease.
     rreturn \<lparr>gp_request = request, gp_holder = holder, gp_holder_incarnation = inc,
       gp_holder_generation = gen, gp_path = path, gp_amount = amnt, gp_grant_class = klass,
       gp_duration_ms = duration, gp_now_ms = now, gp_reason = reason, gp_grant_id = grant, gp_lease =
       lease\<rparr>))))))))))))"

definition decode_grant_proposal :: "byte list \<Rightarrow> grant_proposal expected" where
  "decode_grant_proposal payload = whole read_grant_proposal payload"

definition encode_grant_operation :: "grant_operation \<Rightarrow> byte list" where
  "encode_grant_operation v =
     w_id128 (go_grant v) @ w_id128 (go_request v) @ w_id128 (go_actor v) @
     w_id128 (go_actor_incarnation v) @ w_u64 (go_actor_generation v) @ w_u64 (go_epoch v) @
     w_u64 (go_path_generation v) @ w_u64 (go_capacity_generation v) @ w_u64 (go_policy_generation v) @
     w_id128 (go_lease v) @ w_u64 (go_now_ms v) @ w_str (go_reason v)"

definition read_grant_operation :: "grant_operation reader" where
  "read_grant_operation =
     rbind r_id128 (\<lambda>grant.
     rbind r_id128 (\<lambda>request.
     rbind r_id128 (\<lambda>actor.
     rbind r_id128 (\<lambda>inc.
     rbind r_u64 (\<lambda>gen.
     rbind r_u64 (\<lambda>ep.
     rbind r_u64 (\<lambda>path_gen.
     rbind r_u64 (\<lambda>cap_gen.
     rbind r_u64 (\<lambda>pol_gen.
     rbind r_id128 (\<lambda>lease.
     rbind r_u64 (\<lambda>now.
     rbind (r_str message_limits) (\<lambda>reason.
     rreturn \<lparr>go_grant = grant, go_request = request, go_actor = actor, go_actor_incarnation = inc,
       go_actor_generation = gen, go_epoch = ep, go_path_generation = path_gen, go_capacity_generation
       = cap_gen, go_policy_generation = pol_gen, go_lease = lease, go_now_ms = now, go_reason =
       reason\<rparr>))))))))))))"

definition decode_grant_operation :: "byte list \<Rightarrow> grant_operation expected" where
  "decode_grant_operation payload = whole read_grant_operation payload"

definition encode_acknowledgement :: "grant_acknowledgement \<Rightarrow> byte list" where
  "encode_acknowledgement v =
     w_id128 (gk_grant v) @ w_id128 (gk_actor v) @ w_id128 (gk_actor_incarnation v) @
     w_u64 (gk_epoch v) @ w_u64 (gk_now_ms v)"

definition read_acknowledgement :: "grant_acknowledgement reader" where
  "read_acknowledgement =
     rbind r_id128 (\<lambda>grant.
     rbind r_id128 (\<lambda>actor.
     rbind r_id128 (\<lambda>inc.
     rbind r_u64 (\<lambda>ep.
     rbind r_u64 (\<lambda>now.
     rreturn \<lparr>gk_grant = grant, gk_actor = actor, gk_actor_incarnation = inc, gk_epoch = ep,
       gk_now_ms = now\<rparr>)))))"

definition decode_acknowledgement :: "byte list \<Rightarrow> grant_acknowledgement expected" where
  "decode_acknowledgement payload = whole read_acknowledgement payload"

definition encode_verification_message :: "grant_verification \<Rightarrow> byte list" where
  "encode_verification_message v =
     w_id128 (gv_id v) @ w_id128 (gv_grant v) @ w_id128 (gv_verifier v) @
     w_enum verification_state_code (gv_result v) @ w_digest (gv_evidence v) @ w_u64 (gv_now_ms v) @
     w_str (gv_detail v)"

definition read_verification_message :: "grant_verification reader" where
  "read_verification_message =
     rbind r_id128 (\<lambda>id.
     rbind r_id128 (\<lambda>grant.
     rbind r_id128 (\<lambda>verifier.
     rbind (r_enum verification_state_all) (\<lambda>result.
     rbind r_digest (\<lambda>evidence.
     rbind r_u64 (\<lambda>now.
     rbind (r_str message_limits) (\<lambda>detail.
     rreturn \<lparr>gv_id = id, gv_grant = grant, gv_verifier = verifier, gv_result = result, gv_evidence =
       evidence, gv_now_ms = now, gv_detail = detail\<rparr>)))))))"

definition decode_verification_message :: "byte list \<Rightarrow> grant_verification expected" where
  "decode_verification_message payload = whole read_verification_message payload"

fun encode_site_state_request :: "site_id \<times> site_state \<times> string \<times> u64 \<Rightarrow> byte list" where
  "encode_site_state_request (site, state, reason, now) =
     w_id128 site @ w_enum site_state_code state @ w_str reason @
     w_u64 now"

definition read_site_state_request :: "(site_id \<times> site_state \<times> string \<times> u64) reader" where
  "read_site_state_request =
     rbind r_id128 (\<lambda>site.
     rbind (r_enum site_state_all) (\<lambda>state.
     rbind (r_str message_limits) (\<lambda>reason.
     rbind r_u64 (\<lambda>now.
     rreturn (site, state, reason, now)))))"

definition decode_site_state_request :: "byte list \<Rightarrow> (site_id \<times> site_state \<times> string \<times> u64) expected" where
  "decode_site_state_request payload = whole read_site_state_request payload"

fun encode_path_state_request :: "path_id \<times> path_state \<times> string \<times> u64 \<Rightarrow> byte list" where
  "encode_path_state_request (path, state, reason, now) =
     w_id128 path @ w_enum path_state_code state @ w_str reason @
     w_u64 now"

definition read_path_state_request :: "(path_id \<times> path_state \<times> string \<times> u64) reader" where
  "read_path_state_request =
     rbind r_id128 (\<lambda>path.
     rbind (r_enum path_state_all) (\<lambda>state.
     rbind (r_str message_limits) (\<lambda>reason.
     rbind r_u64 (\<lambda>now.
     rreturn (path, state, reason, now)))))"

definition decode_path_state_request :: "byte list \<Rightarrow> (path_id \<times> path_state \<times> string \<times> u64) expected" where
  "decode_path_state_request payload = whole read_path_state_request payload"

fun encode_policy_install_request :: "policy \<times> principal_id \<Rightarrow> byte list" where
  "encode_policy_install_request (pol, prin) =
     encode_policy pol @ w_id128 prin"

definition read_policy_install_request :: "(policy \<times> principal_id) reader" where
  "read_policy_install_request =
     rbind decode_policy (\<lambda>pol.
     rbind r_id128 (\<lambda>prin.
     rreturn (pol, prin)))"

definition decode_policy_install_request :: "byte list \<Rightarrow> (policy \<times> principal_id) expected" where
  "decode_policy_install_request payload = whole read_policy_install_request payload"

fun encode_epoch_bump_request :: "epoch \<times> principal_id \<Rightarrow> byte list" where
  "encode_epoch_bump_request (ep, prin) =
     w_u64 ep @ w_id128 prin"

definition read_epoch_bump_request :: "(epoch \<times> principal_id) reader" where
  "read_epoch_bump_request =
     rbind r_u64 (\<lambda>ep.
     rbind r_id128 (\<lambda>prin.
     rreturn (ep, prin)))"

definition decode_epoch_bump_request :: "byte list \<Rightarrow> (epoch \<times> principal_id) expected" where
  "decode_epoch_bump_request payload = whole read_epoch_bump_request payload"

text \<open>The operation travels as a nested byte string that is decoded on its own.\<close>

definition encode_reconcile_request :: "grant_operation \<times> grant_state \<times> principal_id \<Rightarrow> byte list" where
  "encode_reconcile_request v =
     w_bytes (encode_grant_operation (fst v)) @ w_enum grant_state_code (fst (snd v)) @ w_id128 (snd (snd v))"

definition read_reconcile_request :: "(grant_operation \<times> grant_state \<times> principal_id) reader" where
  "read_reconcile_request =
     rbind (r_bytes message_limits) (\<lambda>base.
     case decode_grant_operation base of
       Inl s \<Rightarrow> rfail s
     | Inr op \<Rightarrow>
         rbind (r_enum grant_state_all) (\<lambda>target.
         rbind r_id128 (\<lambda>prin.
         rreturn (op, target, prin))))"

definition decode_reconcile_request ::
    "byte list \<Rightarrow> (grant_operation \<times> grant_state \<times> principal_id) expected" where
  "decode_reconcile_request payload = whole read_reconcile_request payload"

definition encode_list_filter :: "list_filter \<Rightarrow> byte list" where
  "encode_list_filter v =
     w_boolean (lf_include_terminal v) @ w_u32 (lf_limit v) @ w_id128 (lf_path v) @ w_id128 (lf_site v)"

definition read_list_filter :: "list_filter reader" where
  "read_list_filter =
     rbind r_boolean (\<lambda>include.
     rbind r_u32 (\<lambda>limit.
     if unat limit > 65536 then rfail StLimitExceeded else
     rbind r_id128 (\<lambda>path.
     rbind r_id128 (\<lambda>site.
     rreturn \<lparr>lf_include_terminal = include, lf_limit = limit, lf_path = path, lf_site = site\<rparr>))))"

definition decode_list_filter :: "byte list \<Rightarrow> list_filter expected" where
  "decode_list_filter payload = whole read_list_filter payload"

text \<open>
  The primary kind of a report is any ordinal up to the last kind; ordinal 0, which names no
  kind, passes the check of the decoder and is \<open>None\<close>.
\<close>

definition primary_kind_code :: "object_kind option \<Rightarrow> nat" where
  "primary_kind_code k = (case k of None \<Rightarrow> 0 | Some kind \<Rightarrow> object_kind_code kind)"

definition primary_kind_all :: "object_kind option list" where
  "primary_kind_all = None # map Some object_kind_all"

definition encode_mutation_report :: "mutation_report \<Rightarrow> byte list" where
  "encode_mutation_report v =
     w_u64 (mr_arbitration v) @ w_enum primary_kind_code (mr_primary_kind v) @ w_id128 (mr_primary_key v) @
     w_u32 (mr_total_changes v) @ w_boolean (mr_truncated v) @ w_list encode_state_change (mr_changes v)"

definition read_mutation_report :: "wire_limits \<Rightarrow> mutation_report reader" where
  "read_mutation_report lim =
     rbind r_u64 (\<lambda>arb.
     rbind (r_enum primary_kind_all) (\<lambda>kind.
     rbind r_id128 (\<lambda>key.
     rbind r_u32 (\<lambda>total_changes.
     rbind r_boolean (\<lambda>truncated.
     rbind (r_container_count lim) (\<lambda>count.
     if unat count > 8192 then rfail StLimitExceeded else
     rbind (r_times (unat count) (decode_state_change lim)) (\<lambda>changes.
     rreturn \<lparr>mr_arbitration = arb, mr_primary_kind = kind, mr_primary_key = key,
       mr_total_changes = total_changes, mr_truncated = truncated, mr_changes = changes\<rparr>)))))))"

definition decode_mutation_report :: "wire_limits \<Rightarrow> byte list \<Rightarrow> mutation_report expected" where
  "decode_mutation_report lim payload = whole (read_mutation_report lim) payload"

text \<open>The eleven amounts of a ledger, which two reports carry.\<close>

definition w_ledger :: "capacity_ledger \<Rightarrow> byte list" where
  "w_ledger l =
     w_u64 (cl_authoritative_usable l) @ w_u64 (cl_committed l) @ w_u64 (cl_withdrawing l) @
     w_u64 (cl_reserved l) @ w_u64 (cl_protected_headroom l) @ w_u64 (cl_unavailable l) @
     w_u64 (cl_free l) @ w_u64 (cl_allocatable l) @ w_u64 (cl_reclaimable l) @
     w_u64 (cl_oversubscribed l) @ w_u64 (cl_authorized_extension l)"

definition r_ledger :: "capacity_ledger reader" where
  "r_ledger =
     rbind r_u64 (\<lambda>usable.
     rbind r_u64 (\<lambda>comm.
     rbind r_u64 (\<lambda>wdr.
     rbind r_u64 (\<lambda>resv.
     rbind r_u64 (\<lambda>headroom.
     rbind r_u64 (\<lambda>unav.
     rbind r_u64 (\<lambda>fr.
     rbind r_u64 (\<lambda>alloc.
     rbind r_u64 (\<lambda>recl.
     rbind r_u64 (\<lambda>over.
     rbind r_u64 (\<lambda>ext.
     rreturn \<lparr>cl_authoritative_usable = usable, cl_committed = comm, cl_withdrawing = wdr, cl_reserved = resv, cl_protected_headroom = headroom, cl_unavailable = unav, cl_free = fr, cl_allocatable = alloc, cl_reclaimable = recl, cl_oversubscribed = over, cl_authorized_extension = ext\<rparr>)))))))))))"

definition encode_status_report :: "status_report \<Rightarrow> byte list" where
  "encode_status_report v =
     w_u32 (sp_version_major v) @ w_u32 (sp_version_minor v) @ w_u32 (sp_version_patch v) @
     w_u16 (sp_wire_protocol v) @ w_id128 (sp_incarnation v) @ w_u64 (sp_epoch v) @
     encode_policy (sp_policy v) @ w_enum recovery_fidelity_code (sp_store_fidelity v) @ w_id128 (sp_store_id v) @
     w_u32 (sp_store_format_version v) @ w_u64 (sp_store_records v) @ w_u64 (sp_store_bytes v) @
     w_u64 (sp_ambiguous_intents v) @ w_boolean (sp_store_servable v) @ w_boolean (sp_store_truncated_on_open v) @
     w_u64 (sp_uptime_ms v) @ w_u64 (sp_mutations_applied v) @ w_u64 (sp_mutations_refused v) @
     w_u64 (sp_mutations_failed v) @ w_u64 (sp_connections_accepted v) @ w_u64 (sp_frames_decoded v) @
     w_u64 (sp_frames_rejected v) @ w_u64 (sp_duplicate_requests v) @ w_u64 (sp_stale_requests v) @
     w_u64 (sp_sites v) @ w_u64 (sp_paths v) @ w_u64 (sp_grants v) @ w_ledger (sp_aggregate v) @
     w_digest (sp_state_digest v) @ w_str (sp_detail v)"

definition read_status_report :: "status_report reader" where
  "read_status_report =
     rbind r_u32 (\<lambda>major.
     rbind r_u32 (\<lambda>minor.
     rbind r_u32 (\<lambda>patch.
     rbind r_u16 (\<lambda>wire.
     rbind r_id128 (\<lambda>inc.
     rbind r_u64 (\<lambda>ep.
     rbind decode_policy (\<lambda>pol.
     rbind (r_enum recovery_fidelity_all) (\<lambda>fidelity.
     rbind r_id128 (\<lambda>store_id.
     rbind r_u32 (\<lambda>format.
     rbind r_u64 (\<lambda>records.
     rbind r_u64 (\<lambda>bts.
     rbind r_u64 (\<lambda>ambiguous.
     rbind r_boolean (\<lambda>srv.
     rbind r_boolean (\<lambda>truncated.
     rbind r_u64 (\<lambda>uptime.
     rbind r_u64 (\<lambda>applied.
     rbind r_u64 (\<lambda>refused.
     rbind r_u64 (\<lambda>failed.
     rbind r_u64 (\<lambda>accepted.
     rbind r_u64 (\<lambda>decoded.
     rbind r_u64 (\<lambda>rejected.
     rbind r_u64 (\<lambda>dup.
     rbind r_u64 (\<lambda>stale.
     rbind r_u64 (\<lambda>n_sites.
     rbind r_u64 (\<lambda>n_paths.
     rbind r_u64 (\<lambda>n_grants.
     rbind r_ledger (\<lambda>agg.
     rbind r_digest (\<lambda>dig.
     rbind (r_str message_limits) (\<lambda>detail.
     rreturn \<lparr>sp_version_major = major, sp_version_minor = minor, sp_version_patch = patch,
       sp_wire_protocol = wire, sp_incarnation = inc, sp_epoch = ep, sp_policy = pol,
       sp_store_fidelity = fidelity, sp_store_id = store_id, sp_store_format_version = format,
       sp_store_records = records, sp_store_bytes = bts, sp_ambiguous_intents = ambiguous,
       sp_store_servable = srv, sp_store_truncated_on_open = truncated, sp_uptime_ms = uptime,
       sp_mutations_applied = applied, sp_mutations_refused = refused, sp_mutations_failed = failed,
       sp_connections_accepted = accepted, sp_frames_decoded = decoded, sp_frames_rejected = rejected,
       sp_duplicate_requests = dup, sp_stale_requests = stale, sp_sites = n_sites, sp_paths = n_paths,
       sp_grants = n_grants, sp_aggregate = agg, sp_state_digest = dig, sp_detail = detail\<rparr>))))))))))))))))))))))))))))))"

definition decode_status_report :: "byte list \<Rightarrow> status_report expected" where
  "decode_status_report payload = whole read_status_report payload"

definition encode_record_list :: "('a \<Rightarrow> byte list) \<Rightarrow> 'a list \<Rightarrow> byte list" where
  "encode_record_list enc items = w_list enc items"

definition encode_site_list :: "site_record list \<Rightarrow> byte list" where
  "encode_site_list = encode_record_list encode_site"

definition decode_site_list :: "byte list \<Rightarrow> site_record list expected" where
  "decode_site_list payload = whole (r_list message_limits (decode_site message_limits)) payload"

definition encode_path_list :: "path_record list \<Rightarrow> byte list" where
  "encode_path_list = encode_record_list encode_path"

definition decode_path_list :: "byte list \<Rightarrow> path_record list expected" where
  "decode_path_list payload = whole (r_list message_limits (decode_path message_limits)) payload"

definition encode_grant_list :: "grant_record list \<Rightarrow> byte list" where
  "encode_grant_list = encode_record_list encode_grant"

definition decode_grant_list :: "byte list \<Rightarrow> grant_record list expected" where
  "decode_grant_list payload = whole (r_list message_limits (decode_grant message_limits)) payload"

definition encode_ledger_report :: "ledger_report \<Rightarrow> byte list" where
  "encode_ledger_report v = w_id128 (lg_path v) @ w_ledger (lg_ledger v)"

definition read_ledger_report :: "ledger_report reader" where
  "read_ledger_report =
     rbind r_id128 (\<lambda>path. rbind r_ledger (\<lambda>l. rreturn \<lparr>lg_path = path, lg_ledger = l\<rparr>))"

definition decode_ledger_report :: "byte list \<Rightarrow> ledger_report expected" where
  "decode_ledger_report payload = whole read_ledger_report payload"

definition encode_digest_report :: "digest_report \<Rightarrow> byte list" where
  "encode_digest_report v =
     w_digest (dr_state_digest v) @ w_str (dr_policy_digest v) @ w_u64 (dr_last_arbitration v) @
     w_u64 (dr_sites v) @ w_u64 (dr_paths v) @ w_u64 (dr_grants v)"

definition read_digest_report :: "digest_report reader" where
  "read_digest_report =
     rbind r_digest (\<lambda>dig.
     rbind (r_str message_limits) (\<lambda>pol.
     rbind r_u64 (\<lambda>arb.
     rbind r_u64 (\<lambda>n_sites.
     rbind r_u64 (\<lambda>n_paths.
     rbind r_u64 (\<lambda>n_grants.
     rreturn \<lparr>dr_state_digest = dig, dr_policy_digest = pol, dr_last_arbitration = arb, dr_sites =
       n_sites, dr_paths = n_paths, dr_grants = n_grants\<rparr>))))))"

definition decode_digest_report :: "byte list \<Rightarrow> digest_report expected" where
  "decode_digest_report payload = whole read_digest_report payload"

definition encode_u64_body :: "u64 \<Rightarrow> byte list" where
  "encode_u64_body v = w_u64 v"

definition decode_u64_body :: "byte list \<Rightarrow> u64 expected" where
  "decode_u64_body payload = whole r_u64 payload"

definition encode_id_body :: "id128 \<Rightarrow> byte list" where
  "encode_id_body v = w_id128 v"

definition decode_id_body :: "byte list \<Rightarrow> id128 expected" where
  "decode_id_body payload = whole r_id128 payload"

end
