(* ===== verification/Log.thy ===== *)
theory Log
  imports Store
begin

text \<open>
  What the log format guarantees. A log is described by the list of its records
  (\<open>log_image\<close>); writing a record appends its image, scanning the image of a list processes its
  records in order, and scanning any prefix of an image processes the records that are
  completely inside and drops the rest as a torn tail, never as corruption.
\<close>

section \<open>Reading header fields\<close>

lemma le_word_append: "n \<le> length sp \<Longrightarrow> le_word n (sp @ x) = le_word n sp"
  unfolding le_word_def by (rule fold_cong) (auto simp: nth_append)

lemma get_u32_w: "length pre = k \<Longrightarrow> get_u32 k (pre @ w_u32 v @ post) = v"
proof -
  assume k: "length pre = k"
  have "le_word 4 (take 4 (w_u32 v @ post)) = v"
    using r_u32_w [of v post] by (simp add: r_u32_def rbind_ok r_take_append rreturn_def)
  then show ?thesis using k by (simp add: get_u32_def le_word_append)
qed

lemma get_u64_w: "length pre = k \<Longrightarrow> get_u64 k (pre @ w_u64 v @ post) = v"
proof -
  assume k: "length pre = k"
  have "le_word 8 (take 8 (w_u64 v @ post)) = v"
    using r_u64_w [of v post] by (simp add: r_u64_def rbind_ok r_take_append rreturn_def)
  then show ?thesis using k by (simp add: get_u64_def le_word_append)
qed

lemma get_u16_w: "length pre = k \<Longrightarrow> get_u16 k (pre @ w_u16 v @ post) = v"
  using r_u16_w [of v post] by (simp add: r_u16_def rbind_ok r_take_append rreturn_def get_u16_def nth_append)


lemma record_header_length [simp]: "length (record_header seq r) = 56"
  by (simp add: record_header_def w_enum_def)

lemma record_image_length [simp]: "length (record_image chain seq r) = 88 + length (lr_payload r)"
  by (simp add: record_image_def)

text \<open>The fields of a record header, read at the offsets of the format.\<close>

lemma header_fields:
  "get_u32 0 (record_header seq r @ x) = kRecordMagic"
  "get_u16 4 (record_header seq r @ x) = kRecordHeaderVersion"
  "(record_header seq r @ x) ! 6 = of_nat (record_type_code (lr_type r))"
  "get_u32 8 (record_header seq r @ x) = of_nat (length (lr_payload r))"
  "get_u32 12 (record_header seq r @ x) = crc32c (lr_payload r)"
  "get_u64 16 (record_header seq r @ x) = seq"
  "get_u64 24 (record_header seq r @ x) = lr_intent r"
  "get_u64 32 (record_header seq r @ x) = lr_at r"
  "get_u64 40 (record_header seq r @ x) = id_hi (lr_origin r)"
  "get_u64 48 (record_header seq r @ x) = id_lo (lr_origin r)"
proof -
  let ?a = "w_u32 kRecordMagic" and ?b = "w_u16 kRecordHeaderVersion"
    and ?c = "w_enum record_type_code (lr_type r)" and ?d = "w_u8 0"
    and ?e = "w_u32 (of_nat (length (lr_payload r)))" and ?f = "w_u32 (crc32c (lr_payload r))"
    and ?g = "w_u64 seq" and ?h = "w_u64 (lr_intent r)" and ?i = "w_u64 (lr_at r)"
    and ?j = "w_u64 (id_hi (lr_origin r))" and ?k = "w_u64 (id_lo (lr_origin r))"
  note header = record_header_def [of seq r]
  note c = w_enum_def
  show "get_u32 0 (record_header seq r @ x) = kRecordMagic"
    using get_u32_w [of "[]" 0] by (simp add: header)
  show "get_u16 4 (record_header seq r @ x) = kRecordHeaderVersion"
    using get_u16_w [of ?a 4] by (simp add: header)
  show "(record_header seq r @ x) ! 6 = of_nat (record_type_code (lr_type r))"
    by (simp add: header nth_append c w_u8_def)
  show "get_u32 8 (record_header seq r @ x) = of_nat (length (lr_payload r))"
    using get_u32_w [of "?a @ ?b @ ?c @ ?d" 8] by (simp add: header c)
  show "get_u32 12 (record_header seq r @ x) = crc32c (lr_payload r)"
    using get_u32_w [of "?a @ ?b @ ?c @ ?d @ ?e" 12] by (simp add: header c)
  show "get_u64 16 (record_header seq r @ x) = seq"
    using get_u64_w [of "?a @ ?b @ ?c @ ?d @ ?e @ ?f" 16] by (simp add: header c)
  show "get_u64 24 (record_header seq r @ x) = lr_intent r"
    using get_u64_w [of "?a @ ?b @ ?c @ ?d @ ?e @ ?f @ ?g" 24] by (simp add: header c)
  show "get_u64 32 (record_header seq r @ x) = lr_at r"
    using get_u64_w [of "?a @ ?b @ ?c @ ?d @ ?e @ ?f @ ?g @ ?h" 32] by (simp add: header c)
  show "get_u64 40 (record_header seq r @ x) = id_hi (lr_origin r)"
    using get_u64_w [of "?a @ ?b @ ?c @ ?d @ ?e @ ?f @ ?g @ ?h @ ?i" 40] by (simp add: header c)
  show "get_u64 48 (record_header seq r @ x) = id_lo (lr_origin r)"
    using get_u64_w [of "?a @ ?b @ ?c @ ?d @ ?e @ ?f @ ?g @ ?h @ ?i @ ?j" 48] by (simp add: header c)
qed

lemma record_type_index: "record_type_all ! (record_type_code t - 1) = t"
  "1 \<le> record_type_code t" "record_type_code t \<le> 6"
  by (cases t; simp add: record_type_all_def)+

lemma unat_record_type: "unat (of_nat (record_type_code t) :: byte) = record_type_code t"
  using record_type_index(3) [of t] by (simp add: unat_of_nat)

definition fits :: "store_options \<Rightarrow> log_record \<Rightarrow> bool" where
  "fits opts r \<longleftrightarrow> length (lr_payload r) \<le> so_max_record_bytes opts \<and> length (lr_payload r) < 2 ^ 32"

lemma unat_payload: "fits opts r \<Longrightarrow> unat (of_nat (length (lr_payload r)) :: u32) = length (lr_payload r)"
  by (simp add: fits_def unat_of_nat)

lemmas store_sizes = kStoreRecordHeaderBytes_def kStoreChainBytes_def kStoreFileHeaderBytes_def

text \<open>A record the writer produced passes every check of the scan.\<close>

lemma check_image:
  assumes "fits opts r"
  shows "check_record opts s (record_image (ss_chain s) (ss_sequence s) r @ tail) =
    Inr (r, record_chain (ss_chain s) (ss_sequence s) r)"
proof -
  note fields = header_fields [of "ss_sequence s" r]
  have id: "Id128 (id_hi (lr_origin r)) (id_lo (lr_origin r)) = lr_origin r" by (cases "lr_origin r") simp
  show ?thesis
    using assms unat_payload [OF assms] record_type_index [of "lr_type r"]
    by (simp add: check_record_def record_image_def fields unat_record_type Let_def store_sizes
        record_chain_def id fits_def)
qed

lemma magic_bytes: "w_u32 kRecordMagic = [0x52, 0x46, 0x53, 0x49]"
  by (simp add: w_u32_def kRecordMagic_def upt_rec)

lemma record_image_first: "record_image chain seq r ! 0 = 0x52"
  by (simp add: record_image_def record_header_def magic_bytes)

lemma record_image_nonempty [simp]: "record_image chain seq r \<noteq> []"
  by (simp add: record_image_def record_header_def magic_bytes)

text \<open>A record that was cut short is a torn tail.\<close>

lemma check_torn:
  assumes "fits opts r" and "t = take n (record_image (ss_chain s) (ss_sequence s) r)"
    and "t \<noteq> []" and "length t < 88 + length (lr_payload r)"
  shows "check_record opts s t = Inl RfTornTailTruncated"
proof -
  have "t ! 0 = 0x52" using assms(2,3) by (simp add: record_image_first nth_take)
  then have nz: "\<not> all_zero t" using assms(3) by (cases t) (auto simp: all_zero_def)
  show ?thesis
  proof (cases "length t < 56")
    case True
    with nz show ?thesis by (simp add: check_record_def store_sizes)
  next
    case False
    then have "n \<ge> 56" using assms(2) by auto
    then have t: "t = record_header (ss_sequence s) r @
        take (n - 56) (lr_payload r @ digest_bytes (record_chain (ss_chain s) (ss_sequence s) r))"
      using assms(2) by (simp add: record_image_def)
    note fields = header_fields [of "ss_sequence s" r]
    show ?thesis
      using assms(1,4) nz False unat_payload [OF assms(1)] record_type_index [of "lr_type r"]
      by (simp add: check_record_def Let_def store_sizes fits_def unat_record_type
          fields [of "take (n - 56) (lr_payload r @ digest_bytes (record_chain (ss_chain s) (ss_sequence s) r))", folded t])
  qed
qed


section \<open>A log as a list of records\<close>

fun log_image :: "digest256 \<Rightarrow> u64 \<Rightarrow> log_record list \<Rightarrow> byte list" where
  "log_image chain seq [] = []"
| "log_image chain seq (r # rs) =
     record_image chain seq r @ log_image (record_chain chain seq r) (seq + 1) rs"

fun log_chain :: "digest256 \<Rightarrow> u64 \<Rightarrow> log_record list \<Rightarrow> digest256" where
  "log_chain chain seq [] = chain"
| "log_chain chain seq (r # rs) = log_chain (record_chain chain seq r) (seq + 1) rs"

text \<open>Processing the records of a log one after another; \<open>None\<close> when one does not fit.\<close>

fun process_all :: "store_options \<Rightarrow> log_record list \<Rightarrow> scan_state \<Rightarrow> scan_state option" where
  "process_all opts [] s = Some s"
| "process_all opts (r # rs) s =
     (case process_record opts r s of (s', ok) \<Rightarrow>
        if ok then process_all opts rs (advance_scan r (record_chain (ss_chain s) (ss_sequence s) r) s')
        else None)"

text \<open>The records that lie completely within the first \<open>n\<close> bytes.\<close>

fun complete_records :: "nat \<Rightarrow> log_record list \<Rightarrow> log_record list" where
  "complete_records n [] = []"
| "complete_records n (r # rs) =
     (if 88 + length (lr_payload r) \<le> n
      then r # complete_records (n - (88 + length (lr_payload r))) rs else [])"

lemma log_image_append:
  "log_image chain seq (rs @ ts) =
     log_image chain seq rs @ log_image (log_chain chain seq rs) (seq + of_nat (length rs)) ts"
  by (induction rs arbitrary: chain seq) (simp_all add: add.assoc add.commute)

lemma log_chain_append:
  "log_chain chain seq (rs @ ts) = log_chain (log_chain chain seq rs) (seq + of_nat (length rs)) ts"
  by (induction rs arbitrary: chain seq) (simp_all add: add.assoc add.commute)

lemma process_record_frame:
  assumes "process_record opts r s = (s', ok)"
  shows "ss_chain s' = ss_chain s" "ss_sequence s' = ss_sequence s" "ss_records s' = ss_records s"
    "ss_bytes s' = ss_bytes s"
  using assms
  by (auto simp: process_record_def Let_def split: record_type.splits sum.splits prod.splits if_splits)

lemma process_all_append:
  "process_all opts (rs @ ts) s =
     (case process_all opts rs s of None \<Rightarrow> None | Some s' \<Rightarrow> process_all opts ts s')"
  by (induction rs arbitrary: s) (auto split: prod.splits)

lemma process_all_frame:
  "process_all opts rs s = Some s' \<Longrightarrow>
     ss_chain s' = log_chain (ss_chain s) (ss_sequence s) rs \<and>
     ss_sequence s' = ss_sequence s + of_nat (length rs) \<and> ss_records s' = ss_records s + length rs"
proof (induction rs arbitrary: s)
  case (Cons r rs)
  obtain t where t: "process_record opts r s = (t, True)"
    and rest: "process_all opts rs (advance_scan r (record_chain (ss_chain s) (ss_sequence s) r) t) = Some s'"
    using Cons.prems by (auto split: prod.splits if_splits)
  from Cons.IH [OF rest] process_record_frame [OF t] show ?case by (simp add: advance_scan_def)
qed simp

lemma scan_step:
  assumes "fits opts r" and "process_record opts r s = (s', True)"
  shows "scan opts (record_image (ss_chain s) (ss_sequence s) r @ tail) s =
    scan opts tail (advance_scan r (record_chain (ss_chain s) (ss_sequence s) r) s')"
  using assms check_image [OF assms(1), of s tail] by (simp add: scan.simps [of opts "_ @ _"] store_sizes)

text \<open>
  Scanning any prefix of a log: the records inside the prefix are processed, and what is left
  of a cut record is a torn tail.
\<close>

lemma scan_prefix:
  assumes "process_all opts rs s = Some s_end" and "\<forall>r \<in> set rs. fits opts r"
  obtains s' rest where "process_all opts (complete_records n rs) s = Some s'"
    and "scan opts (take n (log_image (ss_chain s) (ss_sequence s) rs)) s =
      (s', if rest = [] then RfExact else RfTornTailTruncated, rest)"
    and "take n (log_image (ss_chain s) (ss_sequence s) rs) =
      log_image (ss_chain s) (ss_sequence s) (complete_records n rs) @ rest"
  using assms
proof (induction rs arbitrary: n s thesis)
  case Nil
  then show ?case by (simp add: scan.simps)
next
  case (Cons r rs)
  let ?image = "record_image (ss_chain s) (ss_sequence s) r"
  obtain t where t: "process_record opts r s = (t, True)"
    and more: "process_all opts rs (advance_scan r (record_chain (ss_chain s) (ss_sequence s) r) t) = Some s_end"
    using Cons.prems(2) by (auto split: prod.splits if_splits)
  have r: "fits opts r" and rs: "\<forall>r \<in> set rs. fits opts r" using Cons.prems(3) by auto
  define u where "u = advance_scan r (record_chain (ss_chain s) (ss_sequence s) r) t"
  have u: "ss_chain u = record_chain (ss_chain s) (ss_sequence s) r" "ss_sequence u = ss_sequence s + 1"
    using process_record_frame [OF t] by (simp_all add: u_def advance_scan_def)
  show ?case
  proof (cases "88 + length (lr_payload r) \<le> n")
    case True
    let ?n = "n - (88 + length (lr_payload r))"
    obtain s' rest where IH: "process_all opts (complete_records ?n rs) u = Some s'"
      "scan opts (take ?n (log_image (ss_chain u) (ss_sequence u) rs)) u =
         (s', if rest = [] then RfExact else RfTornTailTruncated, rest)"
      "take ?n (log_image (ss_chain u) (ss_sequence u) rs) =
         log_image (ss_chain u) (ss_sequence u) (complete_records ?n rs) @ rest"
      using Cons.IH [OF _ more [folded u_def] rs, of ?n] by blast
    show ?thesis
      by (rule Cons.prems(1) [of s' rest])
         (use True IH t u r in \<open>simp_all add: u_def [symmetric] scan_step\<close>)
  next
    case False
    then have tk: "take n (log_image (ss_chain s) (ss_sequence s) (r # rs)) = take n ?image" by simp
    show ?thesis
    proof (cases "n = 0")
      case True
      show ?thesis by (rule Cons.prems(1) [of s "[]"]) (simp_all add: True scan.simps)
    next
      case n: False
      then have ne: "take n ?image \<noteq> []" by simp
      have "check_record opts s (take n ?image) = Inl RfTornTailTruncated"
        by (rule check_torn [OF r refl ne]) (use False in simp)
      then have "scan opts (take n ?image) s = (s, RfTornTailTruncated, take n ?image)"
        using ne by (simp add: scan.simps [of opts "take n ?image"])
      then show ?thesis
        by (intro Cons.prems(1) [of s "take n ?image"]) (use False ne tk in simp_all)
    qed
  qed
qed


section \<open>The store holds a log\<close>

definition log_file :: "id128 \<Rightarrow> log_record list \<Rightarrow> byte list" where
  "log_file sid rs = file_header sid @ log_image digest_zero 1 rs"

definition holds_log :: "id128 \<Rightarrow> log_record list \<Rightarrow> store \<Rightarrow> bool" where
  "holds_log sid rs st \<longleftrightarrow>
     st_open st \<and> dk_primary (st_disk st) = Some (log_file sid rs) \<and> st_beyond st = [] \<and>
     st_chain st = log_chain digest_zero 1 rs \<and> st_sequence st = 1 + of_nat (length rs) \<and>
     st_log_bytes st = length (log_file sid rs) \<and> st_record_count st = length rs \<and>
     (\<forall>r \<in> set rs. fits (st_options st) r) \<and> process_all (st_options st) rs scan_start \<noteq> None"

lemma file_header_length [simp]: "length (file_header sid) = 128"
  by (simp add: file_header_def Let_def)

lemma header_accepted: "header_refusal (file_header sid @ x) = None"
proof -
  let ?a = "w_u32 kFileMagic" and ?b = "w_u32 kStoreFormatVersion"
    and ?c = "w_u32 (of_nat kStoreFileHeaderBytes)" and ?d = "w_u32 kEndianMarker"
  let ?e = "w_u64 0 @ w_u64 (id_hi sid) @ w_u64 (id_lo sid) @ replicate 84 0"
  let ?h = "?a @ ?b @ ?c @ ?d @ ?e"
  have h: "file_header sid @ x = ?h @ w_u32 (crc32c ?h) @ x" by (simp add: file_header_def Let_def)
  have "get_u32 0 (file_header sid @ x) = kFileMagic" using get_u32_w [of "[]" 0] by (simp add: h)
  moreover have "get_u32 4 (file_header sid @ x) = kStoreFormatVersion" using get_u32_w [of ?a 4] by (simp add: h)
  moreover have "get_u32 8 (file_header sid @ x) = of_nat kStoreFileHeaderBytes"
    using get_u32_w [of "?a @ ?b" 8] by (simp add: h)
  moreover have "get_u32 12 (file_header sid @ x) = kEndianMarker"
    using get_u32_w [of "?a @ ?b @ ?c" 12] by (simp add: h)
  moreover have "take 124 (file_header sid @ x) = ?h" by (simp add: h)
  moreover have "get_u32 124 (file_header sid @ x) = crc32c ?h" using get_u32_w [of ?h 124] by (simp add: h)
  ultimately show ?thesis by (simp add: header_refusal_def)
qed

text \<open>Everything that was written is on the medium, and will be after each flush.\<close>

definition on_disk :: "store \<Rightarrow> bool" where
  "on_disk st \<longleftrightarrow> st_durable st \<and> st_synced st = length (primary_bytes st)"

lemma holds_log_synced [simp]: "holds_log sid rs (st\<lparr>st_synced := n\<rparr>) \<longleftrightarrow> holds_log sid rs st"
  by (simp add: holds_log_def)

lemma holds_bytes: "holds_log sid rs st \<Longrightarrow> primary_bytes st = log_file sid rs"
  by (simp add: holds_log_def primary_bytes_def)

lemma primary_bytes_synced [simp]: "primary_bytes (st\<lparr>st_synced := n\<rparr>) = primary_bytes st"
  by (simp add: primary_bytes_def)

lemma store_close_sel [simp]:
  "st_options (store_close fs st) = st_options st" "st_disk (store_close fs st) = st_disk st"
  "st_durable (store_close fs st) = st_durable st" "\<not> st_open (store_close fs st)"
  by (simp_all add: store_close_def sync_file_def)

lemma flush_succeeds:
  assumes "st_open st" and "fs_ok fs FsSync"
  obtains st' where "store_flush fs st = (StOk, st')" and "st' = st \<or> st' = st\<lparr>st_synced := length (primary_bytes st)\<rparr>"
    and "st_durable st \<Longrightarrow> on_disk st'"
proof (cases "st_durable st")
  case True
  then show ?thesis
    by (intro that [of "st\<lparr>st_synced := length (primary_bytes st)\<rparr>"])
       (use assms in \<open>simp_all add: store_flush_def sync_file_def on_disk_def\<close>)
next
  case False
  then have "store_flush fs st = (StOk, st)" using assms by (simp add: store_flush_def)
  then show ?thesis using False by (intro that [of st]) simp_all
qed

lemma append_at_end:
  assumes "dk_primary (st_disk st) = Some c" and "st_beyond st = []"
  shows "append_primary bs st =
    st\<lparr>st_disk := (st_disk st)\<lparr>dk_primary := Some (c @ bs)\<rparr>, st_synced := min (st_synced st) (length c)\<rparr>"
  using assms by (cases st) (simp add: append_primary_def primary_bytes_def)

lemma write_record_holds:
  assumes "holds_log sid rs st" and "write_record fs count r st = (StOk, st')"
    and "process_all (st_options st) (rs @ [r]) scan_start \<noteq> None" and "length (lr_payload r) < 2 ^ 32"
  shows "holds_log sid (rs @ [r]) st'" "st_options st' = st_options st" "st_path st' = st_path st" "st_durable st' = st_durable st"
  using assms
  by (auto simp: holds_log_def write_record_def Let_def append_at_end log_file_def log_image_append
      log_chain_append fits_def store_sizes split: if_splits)

lemma complete_records_prefix: "\<exists>ts. rs = complete_records n rs @ ts"
  by (induction n rs rule: complete_records.induct) auto

lemma complete_records_subset: "set (complete_records n rs) \<subseteq> set rs"
  by (induction n rs rule: complete_records.induct) auto

text \<open>A record whose bytes are all on disk is not lost.\<close>

lemma complete_records_keep:
  "length (log_image chain seq rs) \<le> n \<Longrightarrow> \<exists>us. complete_records n (rs @ ts) = rs @ us"
  by (induction rs arbitrary: chain seq n) (auto simp: le_diff_conv2 add.commute)

lemma complete_records_cut:
  assumes "length (log_image chain seq kept) \<le> n" and "n < length (log_image chain seq (kept @ [r]))"
  shows "complete_records n (kept @ r # lost) = kept"
  using assms
proof (induction kept arbitrary: chain seq n)
  case (Cons a kept)
  have "complete_records (n - (88 + length (lr_payload a))) (kept @ r # lost) = kept"
    by (rule Cons.IH [of "record_chain chain seq a" "seq + 1"]) (use Cons.prems in \<open>simp_all add: log_image_append le_diff_conv2\<close>)
  then show ?case using Cons.prems(1) by simp
qed (simp add: log_image_append)

lemma complete_records_all: "complete_records (length (log_image chain seq rs)) rs = rs"
  by (induction rs arbitrary: chain seq) simp_all


section \<open>Opening a log after a crash\<close>


definition closing :: "scan_state \<Rightarrow> log_record list" where
  "closing s = (case ss_open s of None \<Rightarrow> [] | Some intent \<Rightarrow> [abort_record intent 0])"

lemma process_closing: "process_all opts (closing s) s \<noteq> None"
  by (auto simp: closing_def abort_record_def process_record_def is_nil_def nil_id_def Let_def
      split: option.splits)

text \<open>There is room in the log to close an intent that the crash left open.\<close>

definition room_to_close :: "store_options \<Rightarrow> log_record list \<Rightarrow> scan_state \<Rightarrow> bool" where
  "room_to_close opts rs s \<longleftrightarrow>
     (ss_open s \<noteq> None \<longrightarrow>
        128 + length (log_image digest_zero 1 rs) + 96 \<le> so_max_log_bytes opts \<and>
        length rs < so_max_records opts \<and> 8 \<le> so_max_record_bytes opts)"

lemma resolve_holds:
  assumes "holds_log sid rs st" and "process_all (st_options st) rs scan_start = Some s"
    and "room_to_close (st_options st) rs s" and "\<And>c. c \<noteq> FsFread \<Longrightarrow> fs_ok fs c"
  obtains res' st' where "resolve_open_intent fs (ss_open s) res st = (Inr res', st')"
    and "holds_log sid (rs @ closing s) st'" and "rp_actions res' = rp_actions res"
    and "rr_fidelity (rp_report res') = rr_fidelity (rp_report res)"
    and "st_options st' = st_options st" and "on_disk st \<Longrightarrow> on_disk st'"
proof (cases "ss_open s")
  case None
  then show ?thesis using that [of res st] assms(1) by (simp add: resolve_open_intent_def closing_def)
next
  case (Some i)
  let ?r = "abort_record i 0"
  have pay: "length (lr_payload ?r) = 8" by (simp add: abort_record_def)
  have "fst (append_abort fs i 0 st) = StOk"
    using assms Some
    by (simp add: append_abort_def write_record_def Let_def holds_log_def room_to_close_def log_file_def
        store_sizes pay) linarith
  then obtain st' where w: "write_record fs True ?r st = (StOk, st')"
    by (cases "append_abort fs i 0 st") (simp add: append_abort_def)
  have "process_all (st_options st) (rs @ [?r]) scan_start \<noteq> None"
    using process_closing [of "st_options st" s] assms(2) Some by (simp add: process_all_append closing_def)
  from write_record_holds [OF assms(1) w this] pay
  have h: "holds_log sid (rs @ [?r]) st'" "st_options st' = st_options st" "st_durable st' = st_durable st" by simp_all
  obtain st'' where f: "store_flush fs st' = (StOk, st'')" "st'' = st' \<or> st'' = st'\<lparr>st_synced := length (primary_bytes st')\<rparr>"
    "st_durable st' \<Longrightarrow> on_disk st''"
    by (rule flush_succeeds [of st' fs]) (use h(1) assms(4) [of FsSync] in \<open>simp_all add: holds_log_def\<close>)
  have h': "holds_log sid (rs @ [?r]) st''" "st_options st'' = st_options st" using f(2) h by auto
  have od: "on_disk st''" if "on_disk st" using that f(3) h(3) by (simp add: on_disk_def)
  show ?thesis
    by (rule that [of "res\<lparr>rp_report := (rp_report res)\<lparr>rr_aborted_intents := rr_aborted_intents (rp_report res) + 1,
          rr_resolution_written_on_open := True\<rparr>\<rparr>" st''])
       (use w h' f(1) od in \<open>auto simp: resolve_open_intent_def Some append_abort_def closing_def\<close>)
qed

lemma replay_log_prefix:
  assumes log: "process_all (st_options st) rs scan_start \<noteq> None" "\<forall>r \<in> set rs. fits (st_options st) r"
    and n: "128 \<le> n" "n \<le> 9223372036854775807" "n \<le> length (log_file sid rs)"
    and fs: "\<And>c. c \<noteq> FsFread \<Longrightarrow> fs_ok fs c" and trunc: "so_truncate_unreadable_tail (st_options st)"
    and s': "process_all (st_options st) (complete_records (n - 128) rs) scan_start = Some s'"
    and room: "room_to_close (st_options st) (complete_records (n - 128) rs) s'"
    and whole: "dk_primary (st_disk st) = Some (take n (log_file sid rs)) \<or> length (log_file sid (complete_records (n - 128) rs)) < n"
  obtains res st' where "replay_log fs (take n (log_file sid rs)) st = (Inr res, st')"
    and "servable (rp_report res)" and "rp_actions res = map mark_ambiguous (ss_actions s')"
    and "holds_log sid (complete_records (n - 128) rs @ closing s') st'"
    and "st_options st' = st_options st" and "st_durable st \<Longrightarrow> on_disk st'"
proof -
  let ?data = "take n (log_file sid rs)"
  let ?rs = "complete_records (n - 128) rs"
  have "ss_chain scan_start = digest_zero" "ss_sequence scan_start = 1" "ss_records scan_start = 0"
    by (simp_all add: scan_start_def)
  note start = this
  obtain s_end where "process_all (st_options st) rs scan_start = Some s_end" using log(1) by auto
  from scan_prefix [OF this log(2), of "n - 128"] obtain rest where
    sc: "scan (st_options st) (take (n - 128) (log_image digest_zero 1 rs)) scan_start =
      (s', if rest = [] then RfExact else RfTornTailTruncated, rest)"
    and tk: "take (n - 128) (log_image digest_zero 1 rs) = log_image digest_zero 1 ?rs @ rest"
    using s' start by auto
  have data: "?data = file_header sid @ log_image digest_zero 1 ?rs @ rest"
    using n(1) tk by (simp add: log_file_def)
  then have dropped: "drop kStoreFileHeaderBytes ?data = take (n - 128) (log_image digest_zero 1 rs)"
    using tk by (simp add: store_sizes)
  have valid: "take (length ?data - length rest) ?data = log_file sid ?rs"
    unfolding data by (simp add: log_file_def)
  have "length (log_file sid ?rs) \<le> length ?data" unfolding data by (simp add: log_file_def)
  moreover have "length ?data \<le> n" by simp
  ultimately have short: "length (log_file sid ?rs) \<le> 9223372036854775807" using n(2) by linarith
  have all: "dk_primary (st_disk st) = Some (log_file sid ?rs)" if "rest = []"
  proof -
    have "?data = log_file sid ?rs" using data that by (simp add: log_file_def)
    moreover from this have "length (log_file sid ?rs) = n" using n(3) by (metis length_take min.absorb2)
    ultimately show ?thesis using whole by simp
  qed
  define st1 where "st1 = st\<lparr>st_disk := (st_disk st)\<lparr>dk_primary := Some (log_file sid ?rs)\<rparr>, st_beyond := [], st_open := True,
    st_synced := length (log_file sid ?rs), st_chain := ss_chain s', st_sequence := ss_sequence s', st_log_bytes := length (log_file sid ?rs),
    st_record_count := ss_records s'\<rparr>"
  have opened: "(if rest \<noteq> [] then st\<lparr>st_disk := (st_disk st)\<lparr>dk_primary := Some (log_file sid ?rs)\<rparr>, st_beyond := []\<rparr>
      else st\<lparr>st_beyond := drop (length (log_file sid ?rs)) (primary_bytes st)\<rparr>)\<lparr>st_open := True, st_synced := length (log_file sid ?rs),
      st_chain := ss_chain s', st_sequence := ss_sequence s', st_log_bytes := length (log_file sid ?rs),
      st_record_count := ss_records s'\<rparr> = st1"
  proof (cases "rest = []")
    case True
    have "(st_disk st)\<lparr>dk_primary := Some (log_file sid ?rs)\<rparr> = st_disk st" using all [OF True] by (cases "st_disk st") simp
    then show ?thesis using all [OF True] True by (simp add: st1_def primary_bytes_def)
  qed (simp add: st1_def)
  have "holds_log sid ?rs st1"
    using process_all_frame [OF s'] s' log(2) complete_records_subset [of "n - 128" rs]
    by (auto simp: holds_log_def st1_def start)
  then obtain res' st' where
    r: "resolve_open_intent fs (ss_open s') res st1 = (Inr (res' res), st' res)"
    and h: "holds_log sid (?rs @ closing s') (st' res)" and acts: "rp_actions (res' res) = rp_actions res"
    and fid: "rr_fidelity (rp_report (res' res)) = rr_fidelity (rp_report res)"
    and opt: "st_options (st' res) = st_options st" and od: "on_disk st1 \<Longrightarrow> on_disk (st' res)" for res
  proof -
    have "\<exists>res' st'. resolve_open_intent fs (ss_open s') res st1 = (Inr res', st') \<and>
        holds_log sid (?rs @ closing s') st' \<and> rp_actions res' = rp_actions res \<and>
        rr_fidelity (rp_report res') = rr_fidelity (rp_report res) \<and> st_options st' = st_options st \<and>
        (on_disk st1 \<longrightarrow> on_disk st')" for res
      using resolve_holds [OF \<open>holds_log sid ?rs st1\<close>, of s' fs res] s' room fs by (simp add: st1_def) blast
    then show ?thesis using that by metis
  qed
  define res where "res = result_of ?data (s', if rest = [] then RfExact else RfTornTailTruncated, rest)"
  define res1 where "res1 = (if rest \<noteq> [] then res\<lparr>rp_report := (rp_report res)\<lparr>rr_truncated_on_open := True\<rparr>\<rparr> else res)"
  have sv: "servable (rp_report res)" by (simp add: res_def result_of_def report_of_def servable_def)
  have "replay_log fs ?data st = resolve_open_intent fs (ss_open s') res1 st1"
    unfolding replay_log_def Let_def dropped sc fst_conv snd_conv valid res_def [symmetric] opened
    using sv trunc fs short by (simp add: res1_def)
  moreover have "servable (rp_report (res' res1))"
    using sv by (auto simp: servable_def fid res1_def)
  moreover have "rp_actions (res' res1) = map mark_ambiguous (ss_actions s')"
    by (simp add: acts res1_def res_def result_of_def)
  moreover have "on_disk (st' res1)" if "st_durable st"
    by (rule od) (use that in \<open>simp add: on_disk_def st1_def primary_bytes_def\<close>)
  ultimately show ?thesis using that r h opt by metis
qed


definition only_log :: "byte list \<Rightarrow> disk" where
  "only_log data = \<lparr>dk_primary = Some data, dk_fresh = None, dk_previous = None\<rparr>"

definition usable_options :: "store_options \<Rightarrow> bool" where
  "usable_options opts \<longleftrightarrow>
     0 < so_max_record_bytes opts \<and> 0 < so_max_log_bytes opts \<and> 0 < so_max_records opts \<and>
     so_truncate_unreadable_tail opts"

text \<open>
  Opening a log of which a prefix is read: because a crash left no more on disk, or because the
  read breaks off within a record.
\<close>

lemma open_read:
  assumes log: "process_all opts rs scan_start \<noteq> None" "\<forall>r \<in> set rs. fits opts r"
    and n: "128 \<le> n" "n \<le> 9223372036854775807" "n \<le> length (log_file sid rs)"
    and fs: "\<And>c. c \<noteq> FsFread \<Longrightarrow> fs_ok fs c" and opts: "usable_options opts" and path: "path \<noteq> []"
    and s': "process_all opts (complete_records (n - 128) rs) scan_start = Some s'"
    and room: "room_to_close opts (complete_records (n - 128) rs) s'"
    and read: "read_whole_file fs (so_max_log_bytes opts + so_max_record_bytes opts + 4096) (Some file) =
      Some (True, take n (log_file sid rs))"
    and whole: "file = take n (log_file sid rs) \<or> length (log_file sid (complete_records (n - 128) rs)) < n"
  obtains res st' where
    "store_open fs sid' path opts (new_store (only_log file)) = (Inr res, st')"
    and "servable (rp_report res)" and "rp_actions res = map mark_ambiguous (ss_actions s')"
    and "holds_log sid (complete_records (n - 128) rs @ closing s') st'" and "st_options st' = opts"
    and "so_durable_writes opts \<Longrightarrow> on_disk st'"
proof -
  let ?data = "take n (log_file sid rs)"
  let ?ready = "(new_store (only_log file))\<lparr>st_disk := only_log file, st_path := path, st_options := opts,
    st_durable := so_durable_writes opts, st_chain := digest_zero\<rparr>"
  have "length ?data = n" using n(3) by simp
  moreover have "header_refusal ?data = None"
    using n(1) header_accepted [of sid] by (simp add: log_file_def)
  moreover have "settle_compaction_artifacts fs (only_log file) = (StOk, only_log file)"
    by (simp add: settle_compaction_artifacts_def only_log_def)
  moreover have "dk_primary (only_log file) = Some file" by (simp add: only_log_def)
  moreover have "\<not> st_open (new_store (only_log file))" "st_disk (new_store (only_log file)) = only_log file"
    by (simp_all add: new_store_def)
  ultimately have opened: "store_open fs sid' path opts (new_store (only_log file)) = replay_log fs ?data ?ready"
    using opts path n read by (simp add: store_open_def usable_options_def Let_def store_sizes del: length_take)
  have "st_options ?ready = opts" "dk_primary (st_disk ?ready) = Some file" "st_durable ?ready = so_durable_writes opts"
    by (simp_all add: only_log_def)
  then show ?thesis
    using replay_log_prefix [of ?ready rs n sid fs s'] log n fs opts s' room whole that
    unfolding opened usable_options_def by metis
qed

lemma open_prefix:
  assumes log: "process_all opts rs scan_start \<noteq> None" "\<forall>r \<in> set rs. fits opts r"
    and n: "128 \<le> n" "n \<le> 9223372036854775807" "n \<le> so_max_log_bytes opts + so_max_record_bytes opts + 4096"
    and len: "128 + length (log_image digest_zero 1 rs) \<ge> n"
    and fs: "\<And>c. fs_ok fs c" and opts: "usable_options opts" and path: "path \<noteq> []"
    and s': "process_all opts (complete_records (n - 128) rs) scan_start = Some s'"
    and room: "room_to_close opts (complete_records (n - 128) rs) s'"
  obtains res st' where
    "store_open fs sid' path opts (new_store (only_log (take n (log_file sid rs)))) = (Inr res, st')"
    and "servable (rp_report res)" and "rp_actions res = map mark_ambiguous (ss_actions s')"
    and "holds_log sid (complete_records (n - 128) rs @ closing s') st'" and "st_options st' = opts"
    and "so_durable_writes opts \<Longrightarrow> on_disk st'"
proof -
  have all: "n \<le> length (log_file sid rs)" using len by (simp add: log_file_def)
  have "read_whole_file fs (so_max_log_bytes opts + so_max_record_bytes opts + 4096) (Some (take n (log_file sid rs))) =
      Some (True, take n (log_file sid rs))"
    using all n(3) fs by (simp add: read_whole_file_def)
  from open_read [OF log n(1,2) all fs opts path s' room this] that show ?thesis by metis
qed

lemma process_prefix:
  assumes "process_all opts rs s \<noteq> None"
  shows "process_all opts (complete_records n rs) s \<noteq> None"
proof -
  obtain ts where "rs = complete_records n rs @ ts" using complete_records_prefix by blast
  with assms process_all_append [of opts "complete_records n rs" ts s] show ?thesis
    by (auto split: option.splits)
qed

end
