(* ===== verification/Framing.thy ===== *)
theory Framing
  imports Protocol Log
begin

text \<open>
  The frame decoder: it delivers exactly the payloads that were framed, in order, however the
  stream is cut into chunks on its way, and it never buffers more than a fixed multiple of the
  frame bound, whatever a peer sends.
\<close>

section \<open>One frame\<close>

definition pending :: "frame_decoder \<Rightarrow> byte list" where
  "pending d = drop (fd_cursor d) (fd_buffer d)"

definition frameable :: "nat \<Rightarrow> byte list \<Rightarrow> bool" where
  "frameable limit p \<longleftrightarrow> length p \<le> limit \<and> length p < 2 ^ 32"

lemma encode_frame_length [simp]: "length (encode_frame p) = 16 + length p"
  by (simp add: encode_frame_def)

lemma frame_fields:
  "get_u32 0 (encode_frame p @ x) = kFrameMagic"
  "get_u32 4 (encode_frame p @ x) = of_nat (length p)"
  "get_u32 8 (encode_frame p @ x) = crc32c p"
  "get_u32 12 (encode_frame p @ x) = 0"
proof -
  let ?a = "w_u32 kFrameMagic" and ?b = "w_u32 (of_nat (length p))" and ?c = "w_u32 (crc32c p)"
  show "get_u32 0 (encode_frame p @ x) = kFrameMagic" using get_u32_w [of "[]" 0] by (simp add: encode_frame_def)
  show "get_u32 4 (encode_frame p @ x) = of_nat (length p)" using get_u32_w [of ?a 4] by (simp add: encode_frame_def)
  show "get_u32 8 (encode_frame p @ x) = crc32c p" using get_u32_w [of "?a @ ?b" 8] by (simp add: encode_frame_def)
  show "get_u32 12 (encode_frame p @ x) = 0" using get_u32_w [of "?a @ ?b @ ?c" 12] by (simp add: encode_frame_def)
qed

lemma frame_payload [simp]: "drop 16 (encode_frame p) = p"
  by (simp add: encode_frame_def)

lemma get_u32_take: "k + 4 \<le> n \<Longrightarrow> n \<le> length bs \<Longrightarrow> get_u32 k (take n bs) = get_u32 k bs"
proof -
  assume "k + 4 \<le> n" and "n \<le> length bs"
  then have "take n bs ! (k + i) = bs ! (k + i)" if "i < 4" for i using that by simp
  then show ?thesis
    using \<open>k + 4 \<le> n\<close> \<open>n \<le> length bs\<close> unfolding get_u32_def le_word_def by (intro fold_cong) auto
qed

lemma next_frame:
  assumes "\<not> fd_failed d" and "pending d = encode_frame p @ rest" and "frameable (fd_max_frame_bytes d) p"
  obtains d' where "fd_next d = (Inr p, d')" and "pending d' = rest" and "\<not> fd_failed d'"
    and "fd_max_frame_bytes d' = fd_max_frame_bytes d"
proof -
  have n: "unat (of_nat (length p) :: u32) = length p" using assms(3) by (simp add: frameable_def unat_of_nat)
  have len: "length (fd_buffer d) - fd_cursor d = 16 + length p + length rest"
    using arg_cong [OF assms(2), of length] by (simp add: pending_def)
  let ?d' = "if fd_cursor d + (16 + length p) = length (fd_buffer d) then d\<lparr>fd_buffer := [], fd_cursor := 0\<rparr>
    else d\<lparr>fd_cursor := fd_cursor d + (16 + length p)\<rparr>"
  have "fd_next d = (Inr p, ?d')"
    using assms(1,3) len
    by (simp add: fd_next_def Let_def assms(2) [unfolded pending_def] frame_fields n frameable_def
        kFrameHeaderBytes_def)
  moreover have "pending ?d' = rest"
  proof -
    have "drop (16 + length p) (pending d) = rest" by (simp add: assms(2))
    then show ?thesis using len by (auto simp: pending_def add.commute)
  qed
  ultimately show ?thesis using assms(1) by (intro that [of ?d']) simp_all
qed


lemma next_short:
  assumes "\<not> fd_failed d" and "pending d = take n (encode_frame p)" and "frameable (fd_max_frame_bytes d) p"
    and "n < 16 + length p"
  shows "fd_next d = (Inl StNotFound, d)"
proof -
  have n: "unat (of_nat (length p) :: u32) = length p" using assms(3) by (simp add: frameable_def unat_of_nat)
  have len: "length (fd_buffer d) - fd_cursor d = n"
    using arg_cong [OF assms(2), of length] assms(4) by (simp add: pending_def)
  show ?thesis
  proof (cases "n < 16")
    case True
    with assms(1) len show ?thesis by (simp add: fd_next_def Let_def kFrameHeaderBytes_def)
  next
    case False
    then have "get_u32 k (take n (encode_frame p)) = get_u32 k (encode_frame p @ [])" if "k + 4 \<le> 16" for k
      using that assms(4) by (simp add: get_u32_take)
    with assms False len n show ?thesis
      by (simp add: fd_next_def Let_def kFrameHeaderBytes_def assms(2) [unfolded pending_def]
          frame_fields [of p "[]", simplified] frameable_def)
  qed
qed

lemma next_none:
  assumes "\<not> fd_failed d" and "pending d = []"
  shows "fd_next d = (Inl StNotFound, d)"
  using assms arg_cong [OF assms(2), of length] by (simp add: fd_next_def Let_def kFrameHeaderBytes_def pending_def)

section \<open>A stream of frames\<close>

lemma next_consumes:
  assumes "fd_next d = (Inr p, d')"
  shows "fd_buffered d' + 16 \<le> fd_buffered d"
  using assms
  by (auto simp: fd_next_def Let_def fd_buffered_def kFrameHeaderBytes_def split: if_splits)

text \<open>
  C22: pulling frames ends. Asked again and again without new bytes, a decoder answers with
  something other than a frame after at most one call for every sixteen bytes it holds.
\<close>

theorem frames_run_out:
  "\<exists>n s. n \<le> fd_buffered d div kFrameHeaderBytes \<and> fst (fd_next (((snd \<circ> fd_next) ^^ n) d)) = Inl s"
proof (induction "fd_buffered d" arbitrary: d rule: less_induct)
  case less
  obtain r d' where r: "fd_next d = (r, d')" by fastforce
  show ?case
  proof (cases r)
    case (Inl s)
    with r show ?thesis by (intro exI [of _ 0]) simp
  next
    case (Inr p)
    with r have fewer: "fd_buffered d' + 16 \<le> fd_buffered d" by (simp add: next_consumes)
    then obtain n s where n: "n \<le> fd_buffered d' div 16" "fst (fd_next (((snd \<circ> fd_next) ^^ n) d')) = Inl s"
      using less [of d'] by (auto simp: kFrameHeaderBytes_def)
    then have "Suc n \<le> fd_buffered d div 16" using fewer by linarith
    moreover have "((snd \<circ> fd_next) ^^ Suc n) d = ((snd \<circ> fd_next) ^^ n) d'" using r by (simp add: funpow_swap1)
    ultimately show ?thesis using n(2) unfolding kFrameHeaderBytes_def by metis
  qed
qed

text \<open>
  The receive loops of the server and the client: pull frames until the decoder wants more
  bytes or refuses, and feed it the chunks as they arrive.
\<close>

function drain :: "frame_decoder \<Rightarrow> byte list list \<times> status \<times> frame_decoder" where
  "drain d =
     (case fd_next d of
        (Inl s, d') \<Rightarrow> ([], s, d')
      | (Inr p, d') \<Rightarrow> (case drain d' of (ps, s, d'') \<Rightarrow> (p # ps, s, d'')))"
  by pat_completeness auto

termination
proof (relation "measure fd_buffered", goal_cases)
  case (2 d r d' p)
  then show ?case using next_consumes [of d p d'] by auto
qed simp

declare drain.simps [simp del]

fun feed :: "byte list list \<Rightarrow> frame_decoder \<Rightarrow> byte list list \<times> status \<times> frame_decoder" where
  "feed [] d = ([], StNotFound, d)"
| "feed (c # cs) d =
     (case fd_push c d of (pushed, d) \<Rightarrow>
        if pushed \<noteq> StOk then ([], pushed, d)
        else case drain d of (ps, s, d) \<Rightarrow>
          if s \<noteq> StNotFound then (ps, s, d)
          else case feed cs d of (qs, s, d) \<Rightarrow> (ps @ qs, s, d))"

abbreviation stream :: "byte list list \<Rightarrow> byte list" where
  "stream ps \<equiv> concat (map encode_frame ps)"

lemma drain_prefix:
  assumes "\<not> fd_failed d" and "pending d @ later = stream ps" and "\<forall>p \<in> set ps. frameable (fd_max_frame_bytes d) p"
  obtains qs rs d' where "ps = qs @ rs" and "drain d = (qs, StNotFound, d')" and "\<not> fd_failed d'"
    and "fd_max_frame_bytes d' = fd_max_frame_bytes d" and "pending d' @ later = stream rs"
    and "rs = [] \<or> length (pending d') < 16 + length (hd rs)"
  using assms
proof (induction ps arbitrary: d thesis)
  case Nil
  then have "pending d = []" "later = []" by simp_all
  with Nil(1) [of "[]" "[]" d] Nil(2) show ?case by (simp add: drain.simps [of d] next_none)
next
  case (Cons p ps)
  have fr: "frameable (fd_max_frame_bytes d) p" using Cons.prems(4) by simp
  show ?case
  proof (cases "length (pending d) < 16 + length p")
    case True
    have "pending d = take (length (pending d)) (encode_frame p)"
    proof -
      have "take (length (pending d)) (pending d @ later) = take (length (pending d)) (encode_frame p @ stream ps)"
        using Cons.prems(3) by simp
      then show ?thesis using True by simp
    qed
    then have "drain d = ([], StNotFound, d)"
      using next_short [OF Cons.prems(2) _ fr True] by (simp add: drain.simps [of d])
    with True Cons.prems(2,3) Cons.prems(1) [of "[]" "p # ps" d] show ?thesis by simp
  next
    case False
    then have "take (16 + length p) (pending d) = encode_frame p"
    proof -
      have "take (16 + length p) (pending d @ later) = take (16 + length p) (encode_frame p @ stream ps)"
        using Cons.prems(3) by simp
      then show ?thesis using False by simp
    qed
    then obtain rest where pd: "pending d = encode_frame p @ rest"
      by (metis append_take_drop_id)
    obtain d1 where d1: "fd_next d = (Inr p, d1)" "pending d1 = rest" "\<not> fd_failed d1"
      "fd_max_frame_bytes d1 = fd_max_frame_bytes d"
      by (rule next_frame [OF Cons.prems(2) pd fr])
    have more: "pending d1 @ later = stream ps" using Cons.prems(3) by (simp add: pd d1(2))
    obtain qs rs d' where "ps = qs @ rs" "drain d1 = (qs, StNotFound, d')" "\<not> fd_failed d'"
      "fd_max_frame_bytes d' = fd_max_frame_bytes d1" "pending d' @ later = stream rs"
      "rs = [] \<or> length (pending d') < 16 + length (hd rs)"
      using Cons.IH [OF _ d1(3) more] Cons.prems(4) d1(4) by auto
    with d1 show ?thesis by (intro Cons.prems(1) [of "p # qs" rs d']) (simp_all add: drain.simps [of d])
  qed
qed

lemma push_pending:
  assumes "\<not> fd_failed d" and "length (pending d) \<le> 16 + fd_max_frame_bytes d"
    and "length c \<le> 16 + fd_max_frame_bytes d"
  obtains d' where "fd_push c d = (StOk, d')" and "pending d' = pending d @ c" and "\<not> fd_failed d'"
    and "fd_max_frame_bytes d' = fd_max_frame_bytes d"
proof -
  let ?d' = "d\<lparr>fd_buffer := pending d @ c, fd_cursor := 0\<rparr>"
  have "fd_push c d = (StOk, ?d')"
    using assms by (auto simp: fd_push_def Let_def pending_def kFrameHeaderBytes_def)
  then show ?thesis using assms(1) by (intro that [of ?d']) (simp_all add: pending_def)
qed

lemma feed_stream:
  assumes "\<not> fd_failed d" and "pending d @ concat cs = stream ps"
    and "\<forall>p \<in> set ps. frameable (fd_max_frame_bytes d) p"
    and "ps = [] \<or> length (pending d) < 16 + length (hd ps)"
    and "\<forall>c \<in> set cs. length c \<le> 16 + fd_max_frame_bytes d"
  obtains d' where "feed cs d = (ps, StNotFound, d')" and "pending d' = []" and "\<not> fd_failed d'"
  using assms
proof (induction cs arbitrary: d ps thesis)
  case Nil
  have "ps = []"
  proof (rule ccontr)
    assume "ps \<noteq> []"
    then obtain p ps' where ps: "ps = p # ps'" by (cases ps) auto
    have "length (pending d) = length (stream ps)" using Nil.prems(3) by simp
    then show False using Nil.prems(5) by (simp add: ps)
  qed
  with Nil show ?case by simp
next
  case (Cons c cs)
  have short: "length (pending d) \<le> 16 + fd_max_frame_bytes d"
  proof (cases ps)
    case Nil
    then show ?thesis using Cons.prems(3) by simp
  next
    case (Cons p ps')
    then show ?thesis using Cons.prems(4,5) by (auto simp: frameable_def)
  qed
  obtain d1 where d1: "fd_push c d = (StOk, d1)" "pending d1 = pending d @ c" "\<not> fd_failed d1"
    "fd_max_frame_bytes d1 = fd_max_frame_bytes d"
    by (rule push_pending [OF Cons.prems(2) short]) (use Cons.prems(6) in auto)
  have "pending d1 @ concat cs = stream ps" using Cons.prems(3) by (simp add: d1(2))
  then obtain qs rs d2 where d2: "ps = qs @ rs" "drain d1 = (qs, StNotFound, d2)" "\<not> fd_failed d2"
    "fd_max_frame_bytes d2 = fd_max_frame_bytes d1" "pending d2 @ concat cs = stream rs"
    "rs = [] \<or> length (pending d2) < 16 + length (hd rs)"
    using drain_prefix [OF d1(3)] Cons.prems(4) d1(4) by metis
  have "\<forall>p \<in> set rs. frameable (fd_max_frame_bytes d2) p" "\<forall>c \<in> set cs. length c \<le> 16 + fd_max_frame_bytes d2"
    using Cons.prems(4,6) d1(4) d2(1,4) by auto
  then obtain d3 where "feed cs d2 = (rs, StNotFound, d3)" "pending d3 = []" "\<not> fd_failed d3"
    using Cons.IH [OF _ d2(3,5) _ d2(6)] by blast
  with d1 d2 show ?case by (intro Cons.prems(1) [of d3]) simp_all
qed

text \<open>
  C20: framing is transparent. However the byte stream of a sequence of frames is cut into
  chunks on its way (each chunk at most one maximal frame), the decoder delivers exactly the
  framed payloads, in order, and is left empty and ready for more.
\<close>

theorem frame_stream_roundtrip:
  assumes "\<forall>p \<in> set payloads. length p \<le> limit \<and> length p < 2 ^ 32"
    and "concat chunks = concat (map encode_frame payloads)"
    and "\<forall>c \<in> set chunks. length c \<le> limit + kFrameHeaderBytes"
  shows "\<exists>d. feed chunks (new_decoder limit) = (payloads, StNotFound, d) \<and> \<not> fd_failed d \<and> fd_buffered d = 0"
proof -
  have d: "\<not> fd_failed (new_decoder limit)" "pending (new_decoder limit) = []"
    "fd_max_frame_bytes (new_decoder limit) = limit"
    by (simp_all add: new_decoder_def pending_def)
  obtain d' where "feed chunks (new_decoder limit) = (payloads, StNotFound, d')" "pending d' = []" "\<not> fd_failed d'"
    by (rule feed_stream [OF d(1), of chunks payloads])
       (use assms d in \<open>simp_all add: frameable_def kFrameHeaderBytes_def add.commute\<close>)
  moreover from this(2) have "fd_buffered d' = 0" by (simp add: fd_buffered_def pending_def)
  ultimately show ?thesis by blast
qed

theorem frame_stream_roundtrip_witness:
  "\<exists>d. feed [take 5 (encode_frame [1, 2, 3] @ encode_frame [4]), drop 5 (encode_frame [1, 2, 3] @ encode_frame [4])]
      (new_decoder 64) = ([[1, 2, 3], [4]], StNotFound, d) \<and> \<not> fd_failed d \<and> fd_buffered d = 0"
  by (rule frame_stream_roundtrip) (simp_all add: kFrameHeaderBytes_def flip: append_assoc)

section \<open>Memory\<close>

datatype fd_op = FdPush "byte list" | FdNext | FdReset

fun fd_step :: "fd_op \<Rightarrow> frame_decoder \<Rightarrow> frame_decoder" where
  "fd_step (FdPush data) d = snd (fd_push data d)"
| "fd_step FdNext d = snd (fd_next d)"
| "fd_step FdReset d = fd_reset d"

definition fd_bounded :: "nat \<Rightarrow> frame_decoder \<Rightarrow> bool" where
  "fd_bounded limit d \<longleftrightarrow>
     fd_max_frame_bytes d = limit \<and>
     length (fd_buffer d) \<le> (if fd_failed d then 4 else 2) * (limit + kFrameHeaderBytes)"

lemma next_shrinks:
  "fd_max_frame_bytes (snd (fd_next d)) = fd_max_frame_bytes d"
  "length (fd_buffer (snd (fd_next d))) \<le> length (fd_buffer d)"
  "fd_failed d \<Longrightarrow> fd_failed (snd (fd_next d))"
  by (simp_all add: fd_next_def Let_def)

lemma fd_step_bounded:
  assumes "fd_bounded limit d"
  shows "fd_bounded limit (fd_step op d)"
proof (cases op)
  case (FdPush data)
  with assms show ?thesis by (cases "fd_failed d") (auto simp: fd_bounded_def fd_push_def Let_def)
next
  case FdNext
  with assms next_shrinks [of d] show ?thesis
    by (cases "fd_failed d"; cases "fd_failed (snd (fd_next d))") (simp_all add: fd_bounded_def)
next
  case FdReset
  with assms show ?thesis by (simp add: fd_bounded_def fd_reset_def)
qed

text \<open>
  C21: a peer cannot make a decoder grow. Whatever bytes are pushed, in whatever pieces and
  however interleaved with reads and resets, the buffer of a decoder that still accepts bytes
  holds at most two maximal frames with their headers; the push that makes it refuse the
  stream leaves at most twice as much.
\<close>

theorem decoder_memory_bounded:
  "length (fd_buffer (fold fd_step ops (new_decoder limit))) \<le>
     (if fd_failed (fold fd_step ops (new_decoder limit)) then 4 else 2) * (limit + kFrameHeaderBytes)"
proof -
  have "fd_bounded limit d \<Longrightarrow> fd_bounded limit (fold fd_step ops d)" for d
    by (induction ops arbitrary: d) (simp_all add: fd_step_bounded)
  moreover have "fd_bounded limit (new_decoder limit)" by (simp add: fd_bounded_def new_decoder_def)
  ultimately show ?thesis by (simp add: fd_bounded_def)
qed

end
