(* ===== verification/Daemon.thy ===== *)
theory Daemon
  imports Protocol
begin

text \<open>
  The daemon (\<open>src/daemon.cpp\<close>, \<open>include/isf/daemon.hpp\<close>): it binds an authority to a durable
  store. Starting replays the log conservatively; a mutation is planned, recorded as a durable
  intent, applied, and recorded as complete. The three mutexes serialise these steps, so an
  operation is a function on the daemon's state. Wall clock, random identities, the answers of
  the file system and the diagnostic text of a refusal are parameters. The background ticker
  thread only calls \<open>tick_once\<close>, and the fail-stop hook of the tests is the freedom to cut a run
  after any stage.
\<close>

section \<open>Digests of the state\<close>

definition hash_records :: "byte \<Rightarrow> ('v \<Rightarrow> byte list) \<Rightarrow> (id128, 'v) omap \<Rightarrow> sha256 \<Rightarrow> sha256" where
  "hash_records tag enc m h =
     fold (\<lambda>(k, v). sha_update (w_id128 k @ enc v)) m (sha_update [tag] h)"

definition state_digest :: "authority \<Rightarrow> digest256" where
  "state_digest a =
     (let h = sha_update [1] sha_reset;
          h = sha_update (encode_policy (au_policy a)) h;
          h = sha_update [2] h;
          h = sha_update (w_u64 (au_epoch a)) h;
          h = hash_records 3 encode_site (au_sites a) h;
          h = hash_records 4 encode_path (au_paths a) h;
          h = hash_records 5 encode_domain (au_domains a) h;
          h = hash_records 6 encode_attestation (au_attestations a) h;
          h = hash_records 7 encode_grant (au_grants a) h;
          h = hash_records 8 encode_verification (au_verifications a) h;
          h = hash_records 9 encode_oversubscription (au_oversubscriptions a) h
      in sha_finish (sha_update (w_u64 (au_last_arbitration a)) h))"

definition policy_digest_hex :: "policy \<Rightarrow> string" where
  "policy_digest_hex p = digest_to_hex (digest_of_bytes (encode_policy p))"

section \<open>State\<close>

record daemon_options =
  do_state_path :: string
  do_policy :: policy
  do_epoch :: epoch
  do_incarnation :: incarnation
  do_store :: store_options
  do_max_changes_in_reply :: nat
  do_verify_after_mutation :: bool
  do_auto_compact :: bool

record daemon =
  dm_options :: daemon_options
  dm_authority :: authority
  dm_store :: store
  dm_durability_failed :: bool
  dm_stopping :: bool
  dm_intent_counter :: u64
  dm_arbitration :: u64
  dm_mutations_applied :: u64
  dm_mutations_refused :: u64
  dm_mutations_failed :: u64
  dm_suppressed_releases :: nat
  dm_recovery :: recovery_report
  dm_started_ms :: u64

text \<open>What one operation sees of its surroundings.\<close>

record surroundings =
  sx_now :: u64
  sx_random :: id128
  sx_store_id :: id128
  sx_detail :: string
  sx_intent_fs :: fs
  sx_commit_fs :: fs
  sx_compact_fs :: fs

section \<open>Recovery\<close>

definition replay_config :: "daemon_options \<Rightarrow> authority_config" where
  "replay_config opts =
     (default_config (do_incarnation opts))\<lparr>ac_policy := do_policy opts, ac_epoch := do_epoch opts,
       ac_incarnation := do_incarnation opts\<rparr>"

definition kAmbiguousText :: string where
  "kAmbiguousText = ''durable commit was ambiguous at restart; capacity retained conservatively''"

fun mark_changes :: "bool \<Rightarrow> state_change list \<Rightarrow> authority \<Rightarrow> authority expected" where
  "mark_changes ambiguous [] a = Inr a"
| "mark_changes ambiguous (c # cs) a =
     (if sc_kind c \<noteq> OkGrant \<or> find_grant a (sc_key c) = None then mark_changes ambiguous cs a
      else
        case (if ambiguous then mark_recovered (sc_key c) PvAmbiguousCommit True kAmbiguousText a
              else mark_recovered (sc_key c) PvRecoveredFromLog False [] a) of
          (marked, a') \<Rightarrow> if marked \<noteq> StOk then Inl marked else mark_changes ambiguous cs a')"

text \<open>Replaying one change set; an unfinished one without the changes that release capacity.\<close>

definition effective_changes :: "bool \<Rightarrow> state_change list \<Rightarrow> state_change list" where
  "effective_changes ambiguous cs = filter (\<lambda>c. \<not> (ambiguous \<and> sc_releases_capacity c)) cs"

definition replay_changes :: "bool \<Rightarrow> state_change list \<Rightarrow> arb_seq \<Rightarrow> authority \<Rightarrow> authority expected" where
  "replay_changes ambiguous cs arb a =
     (case apply_changes (effective_changes ambiguous cs) arb a of
        (applied, a') \<Rightarrow> if applied \<noteq> StOk then Inl applied else mark_changes ambiguous cs a')"

definition replay_one ::
    "incarnation \<Rightarrow> authority_config \<Rightarrow> replay_action \<Rightarrow> authority \<times> nat \<Rightarrow> (authority \<times> nat) expected" where
  "replay_one random config act state =
     (case state of (a, suppressed) \<Rightarrow>
        (case ra_kind act of
           RkSnapshot snap \<Rightarrow> ebind (from_snapshot random config snap) (\<lambda>rebuilt. Inr (rebuilt, suppressed))
         | RkChanges cs arb \<Rightarrow>
             (let ambiguous = (ra_ambiguous act \<or> ra_aborted act)
              in ebind (replay_changes ambiguous cs arb a) (\<lambda>a'.
                 Inr (a', suppressed + (length cs - length (effective_changes ambiguous cs)))))))"

fun replay_all ::
    "incarnation \<Rightarrow> authority_config \<Rightarrow> replay_action list \<Rightarrow> authority \<times> nat \<Rightarrow> (authority \<times> nat) expected" where
  "replay_all random config [] state = Inr state"
| "replay_all random config (act # acts) state =
     ebind (replay_one random config act state) (replay_all random config acts)"

definition apply_replay ::
    "incarnation \<Rightarrow> daemon_options \<Rightarrow> replay_action list \<Rightarrow> (authority \<times> nat) expected" where
  "apply_replay random opts acts =
     (let config = replay_config opts
      in ebind (replay_all random config acts (new_authority random config, 0)) (\<lambda>(a, suppressed).
         let a = mark_all_historical a;
             invariants = verify_invariants a
         in if invariants \<noteq> StOk then Inl invariants else Inr (a, suppressed)))"

definition daemon_of ::
    "daemon_options \<Rightarrow> replay_result \<Rightarrow> store \<Rightarrow> authority \<Rightarrow> nat \<Rightarrow> u64 \<Rightarrow> daemon" where
  "daemon_of opts replay st a suppressed now =
     \<lparr>dm_options = opts, dm_authority = a, dm_store = st, dm_durability_failed = False, dm_stopping = False,
      dm_intent_counter = 0, dm_arbitration = au_last_arbitration a, dm_mutations_applied = 0,
      dm_mutations_refused = 0, dm_mutations_failed = 0, dm_suppressed_releases = suppressed,
      dm_recovery = rp_report replay, dm_started_ms = now\<rparr>"

text \<open>A store is left with a marker of a clean shutdown.\<close>

definition shut_store :: "fs \<Rightarrow> u64 \<Rightarrow> store \<Rightarrow> store" where
  "shut_store fs now st =
     (if st_open st then store_close fs (snd (append_clean_shutdown fs now st)) else st)"

text \<open>
  Starting on a disk; the second component is the disk as the attempt leaves it. When the
  replay is refused the half-built daemon is destroyed, which stops it and so closes the store.
\<close>

definition daemon_start :: "surroundings \<Rightarrow> daemon_options \<Rightarrow> disk \<Rightarrow> daemon expected \<times> disk" where
  "daemon_start sx opts d =
     (if do_state_path opts = [] then (Inl StInvalid, d)
      else if policy_validate (do_policy opts) \<noteq> StOk then (Inl StInvalid, d)
      else
        case store_open (sx_intent_fs sx) (sx_store_id sx) (do_state_path opts) (do_store opts) (new_store d) of
          (Inl s, st) \<Rightarrow> (Inl s, st_disk st)
        | (Inr replay, st) \<Rightarrow>
            if \<not> servable (rp_report replay) then (Inl StCorrupt, st_disk st)
            else
              (case apply_replay (sx_random sx) opts (rp_actions replay) of
                 Inl s \<Rightarrow> (Inl s, st_disk (shut_store (sx_commit_fs sx) (sx_now sx) st))
               | Inr (a, suppressed) \<Rightarrow> (Inr (daemon_of opts replay st a suppressed (sx_now sx)), st_disk st)))"

section \<open>Stopping and compaction\<close>

definition daemon_stop :: "surroundings \<Rightarrow> daemon \<Rightarrow> daemon" where
  "daemon_stop sx dm =
     (if dm_stopping dm then dm
      else dm\<lparr>dm_stopping := True, dm_store := shut_store (sx_commit_fs sx) (sx_now sx) (dm_store dm)\<rparr>)"

definition maybe_compact :: "surroundings \<Rightarrow> daemon \<Rightarrow> status \<times> daemon" where
  "maybe_compact sx dm =
     (if \<not> do_auto_compact (dm_options dm) \<or> \<not> needs_compaction (dm_store dm) then (StOk, dm)
      else
        case store_compact (sx_compact_fs sx) (sx_store_id sx) (snapshot (dm_authority dm)) (sx_now sx)
               (do_incarnation (dm_options dm)) (dm_store dm) of
          (status, st) \<Rightarrow> (status, dm\<lparr>dm_store := st\<rparr>))"

section \<open>Committing a mutation\<close>

text \<open>Appending a record and flushing it.\<close>

definition durable :: "fs \<Rightarrow> status \<times> store \<Rightarrow> status \<times> store" where
  "durable fs appended =
     (case appended of (status, st) \<Rightarrow> if status = StOk then store_flush fs st else (status, st))"

definition commit :: "surroundings \<Rightarrow> mutation \<Rightarrow> arb_seq \<Rightarrow> daemon \<Rightarrow> status \<times> daemon" where
  "commit sx mu arb dm =
     (let intent = dm_intent_counter dm + 1;
          now = sx_now sx;
          opts = dm_options dm;
          dm = dm\<lparr>dm_intent_counter := intent\<rparr>;
          lost = (\<lambda>dm. dm\<lparr>dm_durability_failed := True\<rparr>)
      in case durable (sx_intent_fs sx)
                (append_intent (sx_intent_fs sx) intent arb (mu_changes mu) now (do_incarnation opts) (dm_store dm)) of
           (written, st) \<Rightarrow>
             let dm = dm\<lparr>dm_store := st\<rparr>
             in if written \<noteq> StOk then (StUnavailable, lost dm)
                else
                  case apply_changes (mu_changes mu) arb (dm_authority dm) of
                    (applied, a) \<Rightarrow>
                      let dm = dm\<lparr>dm_authority := a\<rparr>;
                          invariants = verify_invariants a
                      in if applied \<noteq> StOk then (StCorrupt, lost dm)
                         else if do_verify_after_mutation opts \<and> invariants \<noteq> StOk then (invariants, lost dm)
                         else
                           case durable (sx_commit_fs sx) (append_commit (sx_commit_fs sx) intent now (dm_store dm)) of
                             (written, st) \<Rightarrow>
                               let dm = dm\<lparr>dm_store := st\<rparr>
                               in if written \<noteq> StOk then (StIndeterminate, lost dm)
                                  else (StOk, snd (maybe_compact sx dm)))"

section \<open>Requests\<close>

definition is_mutation :: "message_type \<Rightarrow> bool" where
  "is_mutation t \<longleftrightarrow>
     t \<in> {MtSiteRegister, MtSiteHeartbeat, MtSiteSetState, MtPathRegister, MtPathSetState, MtCapacityAttest,
          MtOversubscribe, MtPolicyInstall, MtEpochBump, MtGrantPropose, MtGrantEvaluate, MtGrantReserve,
          MtGrantActivate, MtGrantDegrade, MtGrantWithdraw, MtGrantRetire, MtGrantCancel, MtGrantAcknowledge,
          MtGrantVerify, MtGrantReconcile, MtTickRequest}"

definition reply_type_for :: "message_type \<Rightarrow> message_type" where
  "reply_type_for t =
     (case t of
        MtStatusRequest \<Rightarrow> MtStatusReply
      | MtListSites \<Rightarrow> MtSitesReply
      | MtListPaths \<Rightarrow> MtPathsReply
      | MtListGrants \<Rightarrow> MtGrantsReply
      | MtLedgerRequest \<Rightarrow> MtLedgerReply
      | MtDigestRequest \<Rightarrow> MtDigestReply
      | MtSnapshotRequest \<Rightarrow> MtSnapshotReply
      | MtShutdownRequest \<Rightarrow> MtShutdownReply
      | _ \<Rightarrow> MtMutationReply)"

text \<open>Which object a request is about; the flag says that any object is.\<close>

definition primary_for :: "message_type \<Rightarrow> byte list \<Rightarrow> object_kind \<times> id128 \<times> bool" where
  "primary_for t payload =
     (let anything = (OkAuthorityMeta, nil_id, True)
      in case t of
          MtSiteRegister \<Rightarrow>
            (case decode_site_registration payload of Inl _ \<Rightarrow> anything
             | Inr v \<Rightarrow> (OkSite, sdesc_id (sreg_descriptor v), False))
        | MtSiteHeartbeat \<Rightarrow> (case decode_heartbeat payload of Inl _ \<Rightarrow> anything | Inr v \<Rightarrow> (OkSite, hb_id v, False))
        | MtSiteSetState \<Rightarrow>
            (case decode_site_state_request payload of Inl _ \<Rightarrow> anything | Inr v \<Rightarrow> (OkSite, fst v, False))
        | MtPathRegister \<Rightarrow>
            (case decode_path_registration payload of Inl _ \<Rightarrow> anything
             | Inr v \<Rightarrow> (OkPath, pdesc_id (preg_descriptor v), False))
        | MtPathSetState \<Rightarrow>
            (case decode_path_state_request payload of Inl _ \<Rightarrow> anything | Inr v \<Rightarrow> (OkPath, fst v, False))
        | MtCapacityAttest \<Rightarrow>
            (case decode_attestation default_limits payload of Inl _ \<Rightarrow> anything
             | Inr (v, _) \<Rightarrow> (OkPath, ca_path v, False))
        | MtPolicyInstall \<Rightarrow> (OkPolicy, nil_id, False)
        | MtEpochBump \<Rightarrow> (OkEpoch, nil_id, False)
        | MtGrantPropose \<Rightarrow> (OkGrant, nil_id, True)
        | MtGrantEvaluate \<Rightarrow> (OkGrant, nil_id, True)
        | MtGrantReserve \<Rightarrow> (OkGrant, nil_id, True)
        | MtGrantActivate \<Rightarrow> (OkGrant, nil_id, True)
        | MtGrantDegrade \<Rightarrow> (OkGrant, nil_id, True)
        | MtGrantWithdraw \<Rightarrow> (OkGrant, nil_id, True)
        | MtGrantRetire \<Rightarrow> (OkGrant, nil_id, True)
        | MtGrantCancel \<Rightarrow> (OkGrant, nil_id, True)
        | MtGrantAcknowledge \<Rightarrow> (OkGrant, nil_id, True)
        | MtGrantVerify \<Rightarrow> (OkGrant, nil_id, True)
        | MtGrantReconcile \<Rightarrow> (OkGrant, nil_id, True)
        | _ \<Rightarrow> anything)"

text \<open>The body of a mutation request, decoded.\<close>

definition request_of :: "message_type \<Rightarrow> byte list \<Rightarrow> request expected" where
  "request_of t payload =
     (case t of
        MtSiteRegister \<Rightarrow> ebind (decode_site_registration payload) (\<lambda>v. Inr (RqRegisterSite v))
      | MtSiteHeartbeat \<Rightarrow> ebind (decode_heartbeat payload) (\<lambda>v. Inr (RqHeartbeat v))
      | MtSiteSetState \<Rightarrow>
          ebind (decode_site_state_request payload) (\<lambda>(site, state, reason, now). Inr (RqSetSiteState site state reason now))
      | MtPathRegister \<Rightarrow> ebind (decode_path_registration payload) (\<lambda>v. Inr (RqRegisterPath v))
      | MtPathSetState \<Rightarrow>
          ebind (decode_path_state_request payload) (\<lambda>(path, state, reason, now). Inr (RqSetPathState path state reason now))
      | MtCapacityAttest \<Rightarrow> ebind (whole (decode_attestation default_limits) payload) (\<lambda>v. Inr (RqAttestCapacity v))
      | MtOversubscribe \<Rightarrow> ebind (whole decode_oversubscription payload) (\<lambda>v. Inr (RqIssueOversubscription v))
      | MtPolicyInstall \<Rightarrow> ebind (decode_policy_install_request payload) (\<lambda>(pol, prin). Inr (RqInstallPolicy pol prin))
      | MtEpochBump \<Rightarrow> ebind (decode_epoch_bump_request payload) (\<lambda>(ep, prin). Inr (RqBumpEpoch ep prin))
      | MtGrantPropose \<Rightarrow> ebind (decode_grant_proposal payload) (\<lambda>v. Inr (RqProposeGrant v))
      | MtGrantEvaluate \<Rightarrow> ebind (decode_grant_operation payload) (\<lambda>v. Inr (RqEvaluateGrant v))
      | MtGrantReserve \<Rightarrow> ebind (decode_grant_operation payload) (\<lambda>v. Inr (RqReserveGrant v))
      | MtGrantActivate \<Rightarrow> ebind (decode_grant_operation payload) (\<lambda>v. Inr (RqActivateGrant v))
      | MtGrantDegrade \<Rightarrow> ebind (decode_grant_operation payload) (\<lambda>v. Inr (RqDegradeGrant v))
      | MtGrantWithdraw \<Rightarrow> ebind (decode_grant_operation payload) (\<lambda>v. Inr (RqWithdrawGrant v))
      | MtGrantRetire \<Rightarrow> ebind (decode_grant_operation payload) (\<lambda>v. Inr (RqRetireGrant v))
      | MtGrantCancel \<Rightarrow> ebind (decode_grant_operation payload) (\<lambda>v. Inr (RqCancelGrant v))
      | MtGrantAcknowledge \<Rightarrow> ebind (decode_acknowledgement payload) (\<lambda>v. Inr (RqAcknowledgeGrant v))
      | MtGrantVerify \<Rightarrow> ebind (decode_verification_message payload) (\<lambda>v. Inr (RqVerifyGrant v))
      | MtGrantReconcile \<Rightarrow>
          ebind (decode_reconcile_request payload) (\<lambda>(op, target, prin). Inr (RqReconcileGrant op target prin))
      | MtTickRequest \<Rightarrow> ebind (decode_u64_body payload) (\<lambda>now. Inr (RqTick now))
      | _ \<Rightarrow> Inl StUnsupported)"

definition plan_for :: "authority \<Rightarrow> message_type \<Rightarrow> byte list \<Rightarrow> arb_seq \<Rightarrow> mutation_result" where
  "plan_for a t payload arb = ebind (request_of t payload) (\<lambda>rq. plan_request a rq arb)"

section \<open>Replies\<close>

definition blank_reply :: "message_type \<Rightarrow> wire_request \<Rightarrow> status \<Rightarrow> string \<Rightarrow> byte list \<Rightarrow> wire_response" where
  "blank_reply t rq status detail payload =
     \<lparr>ws_protocol_version = kWireProtocolVersion, ws_type = t, ws_session_seq = wr_session_seq rq, ws_id = wr_id rq,
      ws_status = status, ws_detail = detail, ws_payload = payload\<rparr>"

text \<open>
  The report of an applied mutation. The loop that looks the primary object up among the
  reported changes assigns what the report already holds, so it is not repeated here.
\<close>

definition mutation_report_for ::
    "nat \<Rightarrow> message_type \<Rightarrow> byte list \<Rightarrow> state_change list \<Rightarrow> arb_seq \<Rightarrow> mutation_report" where
  "mutation_report_for max_changes t payload cs arb =
     (case primary_for t payload of (kind, key, anything) \<Rightarrow>
        let limit = (if max_changes = 0 then 1 else max_changes)
        in \<lparr>mr_arbitration = arb, mr_primary_kind = Some kind, mr_primary_key = key,
            mr_total_changes = of_nat (length cs), mr_truncated = (length cs > limit), mr_changes = take limit cs\<rparr>)"

definition handle_mutation :: "surroundings \<Rightarrow> wire_request \<Rightarrow> daemon \<Rightarrow> wire_response \<times> daemon" where
  "handle_mutation sx rq dm =
     (let t = wr_type rq;
          refuse = (\<lambda>status. blank_reply (reply_type_for t) rq status (sx_detail sx) []);
          failed = (\<lambda>dm. dm\<lparr>dm_mutations_failed := dm_mutations_failed dm + 1\<rparr>);
          refused = (\<lambda>dm. dm\<lparr>dm_mutations_refused := dm_mutations_refused dm + 1\<rparr>)
      in if \<not> servable (dm_recovery dm) then (refuse StCorrupt, failed dm)
         else if dm_durability_failed dm then (refuse StUnavailable, failed dm)
         else
           let arb = dm_arbitration dm + 1;
               dm = dm\<lparr>dm_arbitration := arb\<rparr>
           in (case plan_for (dm_authority dm) t (wr_payload rq) arb of
                 Inl s \<Rightarrow>
                   if s = StNotFound \<and> t = MtTickRequest then (refuse StRefused, dm)
                   else (refuse s, refused dm)
               | Inr mu \<Rightarrow>
                   if mu_changes mu = [] then (refuse StRefused, refused dm)
                   else
                     case commit sx mu arb dm of
                       (committed, dm) \<Rightarrow>
                         if committed \<noteq> StOk then (refuse committed, failed dm)
                         else
                           (blank_reply (reply_type_for t) rq StOk []
                              (encode_mutation_report (mutation_report_for
                                 (do_max_changes_in_reply (dm_options dm)) t (wr_payload rq) (mu_changes mu) arb)),
                            dm\<lparr>dm_mutations_applied := dm_mutations_applied dm + 1\<rparr>)))"

definition daemon_status_report :: "u32 \<times> u32 \<times> u32 \<Rightarrow> u64 \<Rightarrow> string \<Rightarrow> daemon \<Rightarrow> status_report" where
  "daemon_status_report version now detail dm =
     (let a = dm_authority dm; rec = dm_recovery dm; st = dm_store dm
      in \<lparr>sp_version_major = fst version, sp_version_minor = fst (snd version), sp_version_patch = snd (snd version),
          sp_wire_protocol = kWireProtocolVersion, sp_incarnation = ac_incarnation (au_config a),
          sp_epoch = au_epoch a, sp_policy = au_policy a, sp_store_fidelity = rr_fidelity rec,
          sp_store_id = rr_store_id rec, sp_store_format_version = rr_format_version rec,
          sp_store_records = of_nat (st_record_count st), sp_store_bytes = of_nat (st_log_bytes st),
          sp_ambiguous_intents = of_nat (rr_ambiguous_intents rec), sp_store_servable = servable rec,
          sp_store_truncated_on_open = rr_truncated_on_open rec, sp_uptime_ms = now - dm_started_ms dm,
          sp_mutations_applied = dm_mutations_applied dm, sp_mutations_refused = dm_mutations_refused dm,
          sp_mutations_failed = dm_mutations_failed dm, sp_connections_accepted = 0, sp_frames_decoded = 0,
          sp_frames_rejected = 0, sp_duplicate_requests = 0, sp_stale_requests = 0,
          sp_sites = of_nat (length (sites a)), sp_paths = of_nat (length (paths a)),
          sp_grants = of_nat (length (grants a)), sp_aggregate = aggregate_ledger a,
          sp_state_digest = state_digest a, sp_detail = detail\<rparr>)"

definition filter_grants :: "list_filter \<Rightarrow> grant_record list \<Rightarrow> grant_record list" where
  "filter_grants f gs =
     take (unat (lf_limit f))
       (filter (\<lambda>g. (lf_include_terminal f \<or> \<not> is_terminal (gr_state g)) \<and>
                    (is_nil (lf_path f) \<or> gb_path (gr_binding g) = lf_path f) \<and>
                    (is_nil (lf_site f) \<or> gb_holder (gr_binding g) = lf_site f)) gs)"

definition handle_read :: "u32 \<times> u32 \<times> u32 \<Rightarrow> surroundings \<Rightarrow> wire_request \<Rightarrow> daemon \<Rightarrow> wire_response" where
  "handle_read version sx rq dm =
     (let t = wr_type rq;
          payload = wr_payload rq;
          a = dm_authority dm;
          answer = (\<lambda>body. blank_reply (reply_type_for t) rq StOk [] body);
          refuse = (\<lambda>status. blank_reply (reply_type_for t) rq status (sx_detail sx) [])
      in if t \<noteq> MtListGrants \<and> t \<noteq> MtLedgerRequest \<and> payload \<noteq> [] then refuse StInvalid
         else case t of
             MtStatusRequest \<Rightarrow> answer (encode_status_report (daemon_status_report version (sx_now sx) (sx_detail sx) dm))
           | MtListSites \<Rightarrow> answer (encode_site_list (sites a))
           | MtListPaths \<Rightarrow> answer (encode_path_list (paths a))
           | MtListGrants \<Rightarrow>
               (case decode_list_filter payload of
                  Inl s \<Rightarrow> refuse s
                | Inr f \<Rightarrow> answer (encode_grant_list (filter_grants f (grants a))))
           | MtLedgerRequest \<Rightarrow>
               (case decode_id_body payload of
                  Inl s \<Rightarrow> blank_reply (reply_type_for t) rq s [] []
                | Inr path \<Rightarrow>
                    (case ledger a path of
                       Inl s \<Rightarrow> refuse s
                     | Inr l \<Rightarrow> answer (encode_ledger_report \<lparr>lg_path = path, lg_ledger = l\<rparr>)))
           | MtDigestRequest \<Rightarrow>
               answer (encode_digest_report \<lparr>dr_state_digest = state_digest a,
                 dr_policy_digest = policy_digest_hex (au_policy a), dr_last_arbitration = au_last_arbitration a,
                 dr_sites = of_nat (length (sites a)), dr_paths = of_nat (length (paths a)),
                 dr_grants = of_nat (length (grants a))\<rparr>)
           | MtSnapshotRequest \<Rightarrow> answer (encode_snapshot (snapshot a))
           | MtShutdownRequest \<Rightarrow> blank_reply (reply_type_for t) rq StOk ''shutdown accepted'' []
           | _ \<Rightarrow> refuse StUnsupported)"

definition handle :: "u32 \<times> u32 \<times> u32 \<Rightarrow> surroundings \<Rightarrow> wire_request \<Rightarrow> daemon \<Rightarrow> wire_response \<times> daemon" where
  "handle version sx rq dm =
     (let t = wr_type rq
      in if wr_protocol_version rq \<noteq> kWireProtocolVersion then
           (blank_reply MtErrorReply rq StVersionMismatch ''wire protocol version mismatch'' [], dm)
         else if \<not> message_type_is_request t then
           (blank_reply MtErrorReply rq StInvalid ''message type is not a request'' [], dm)
         else if dm_durability_failed dm \<and> is_mutation t then
           (blank_reply (reply_type_for t) rq StUnavailable ''durability was lost earlier in this incarnation'' [], dm)
         else if is_mutation t then handle_mutation sx rq dm
         else (handle_read version sx rq dm, dm))"

definition tick_once :: "u32 \<times> u32 \<times> u32 \<Rightarrow> surroundings \<Rightarrow> u64 \<Rightarrow> daemon \<Rightarrow> nat expected \<times> daemon" where
  "tick_once version sx now dm =
     (case handle version sx
             \<lparr>wr_protocol_version = kWireProtocolVersion, wr_type = MtTickRequest, wr_session_seq = 0,
              wr_id = sx_random sx, wr_payload = encode_u64_body now\<rparr> dm of
        (reply, dm) \<Rightarrow>
          (if ws_status reply = StOk then
             (case decode_mutation_report default_limits (ws_payload reply) of
                Inl s \<Rightarrow> Inl s
              | Inr report \<Rightarrow> Inr (unat (mr_total_changes report)))
           else if ws_status reply = StRefused then Inr 0
           else Inl (ws_status reply), dm))"

text \<open>
  The ticker thread. Each look at the stop flag is one answer of a list; between two ticks the
  thread sleeps in slices of 25 ms and looks at the flag before each. The result says whether the
  thread has returned; it has not when the answers are used up.
\<close>

definition tick_slices :: "u64 \<Rightarrow> nat" where
  "tick_slices tick_interval_ms =
     (let interval = (if tick_interval_ms = 0 then 250 else unat tick_interval_ms) in (interval + 24) div 25)"

fun sleep_slices :: "nat \<Rightarrow> bool list \<Rightarrow> (bool \<times> bool list) option" where
  "sleep_slices 0 flags = Some (False, flags)"
| "sleep_slices (Suc n) [] = None"
| "sleep_slices (Suc n) (stopping # flags) = (if stopping then Some (True, flags) else sleep_slices n flags)"

fun ticker_loop ::
    "u32 \<times> u32 \<times> u32 \<Rightarrow> nat \<Rightarrow> (surroundings \<times> u64) list \<Rightarrow> bool list \<Rightarrow> daemon \<Rightarrow> bool \<times> daemon" where
  "ticker_loop version slices ticks [] dm = (False, dm)"
| "ticker_loop version slices [] (stopping # flags) dm =
     (if stopping then (True, dm)
      else case sleep_slices slices flags of Some (True, _) \<Rightarrow> (True, dm) | _ \<Rightarrow> (False, dm))"
| "ticker_loop version slices ((sx, now) # ticks) (stopping # flags) dm =
     (if stopping then (True, dm)
      else case sleep_slices slices flags of
          None \<Rightarrow> (False, dm)
        | Some (True, _) \<Rightarrow> (True, dm)
        | Some (False, flags) \<Rightarrow> ticker_loop version slices ticks flags (snd (tick_once version sx now dm)))"

end
