(* ===== verification/Marks.thy ===== *)
theory Marks
  imports Daemon Release
begin

text \<open>
  Recovery marks. A replayed grant carries marks that say how it was recovered: provenance,
  the historical and ambiguous flags, the verification state and the reason text. Everything
  the authority promises is independent of them. \<open>erase\<close> forgets the marks and the identity of
  the process; applying changes commutes with it, so a replay and the original run stay equal
  up to marks.
\<close>

section \<open>Tables under a function on values\<close>

definition om_map :: "('v \<Rightarrow> 'w) \<Rightarrow> ('k, 'v) omap \<Rightarrow> ('k, 'w) omap" where
  "om_map f m = map (\<lambda>(k, v). (k, f v)) m"

lemma om_find_map [simp]: "om_find k (om_map f m) = map_option f (om_find k m)"
  by (induction m) (auto simp: om_map_def)

lemma om_put_map: "om_map f (om_put k v m) = om_put k (f v) (om_map f m)"
  by (induction k v m rule: om_put.induct) (auto simp: om_map_def)

lemma om_length_map [simp]: "length (om_map f m) = length m"
  by (simp add: om_map_def)

lemma om_keys_map [simp]: "om_keys (om_map f m) = om_keys m"
  by (force simp: om_keys_def om_map_def)

lemma om_wf_map [simp]: "om_wf (om_map f m) \<longleftrightarrow> om_wf m"
  by (simp add: om_wf_def om_map_def comp_def case_prod_beta)

lemma om_vals_map: "om_vals (om_map f m) = map f (om_vals m)"
  by (simp add: om_vals_def om_map_def comp_def case_prod_beta)

lemma om_sum_map: "om_sum g (om_map f m) = om_sum (g \<circ> f) m"
  by (simp add: om_sum_def om_vals_map comp_def)

lemma om_map_map: "om_map f (om_map g m) = om_map (f \<circ> g) m"
  by (simp add: om_map_def comp_def case_prod_beta)

text \<open>Two tables with the same lookups are the same table.\<close>

lemma om_eqI:
  assumes "om_wf m" and "om_wf m'" and "\<And>k. om_find k m = om_find k m'"
  shows "m = m'"
proof -
  have "set m = set m'" using assms om_in_iff by (auto simp: om_in_iff)
  moreover have "distinct (map fst m)" "distinct (map fst m')" "sorted (map fst m)" "sorted (map fst m')"
    using assms(1,2) by (simp_all add: om_wf_def strict_sorted_iff)
  ultimately show ?thesis using map_sorted_distinct_set_unique [of fst m m']
    by (simp add: distinct_map)
qed

section \<open>Forgetting the marks\<close>

definition unmark :: "grant_record \<Rightarrow> grant_record" where
  "unmark g =
     g\<lparr>gr_provenance := PvLive, gr_historical := False, gr_ambiguous := False,
       gr_verification := VsUnverified, gr_reason := []\<rparr>"

definition erase :: "authority \<Rightarrow> authority" where
  "erase a =
     a\<lparr>au_config := (au_config a)\<lparr>ac_incarnation := nil_id\<rparr>, au_grants := om_map unmark (au_grants a)\<rparr>"

lemma unmark_sel [simp]:
  "gr_id (unmark g) = gr_id g" "gr_request (unmark g) = gr_request g"
  "gr_binding (unmark g) = gr_binding g" "gr_class (unmark g) = gr_class g" "gr_amount (unmark g) = gr_amount g"
  "gr_state (unmark g) = gr_state g" "unmark (unmark g) = unmark g"
  by (simp_all add: unmark_def)

lemma unmark_marks [simp]:
  "unmark (g\<lparr>gr_provenance := p\<rparr>) = unmark g" "unmark (g\<lparr>gr_historical := h\<rparr>) = unmark g"
  "unmark (g\<lparr>gr_ambiguous := b\<rparr>) = unmark g" "unmark (g\<lparr>gr_verification := v\<rparr>) = unmark g"
  "unmark (g\<lparr>gr_reason := r\<rparr>) = unmark g"
  by (simp_all add: unmark_def)

lemma erase_sel [simp]:
  "au_sites (erase a) = au_sites a" "au_paths (erase a) = au_paths a" "au_domains (erase a) = au_domains a"
  "au_attestations (erase a) = au_attestations a" "au_grants (erase a) = om_map unmark (au_grants a)"
  "au_verifications (erase a) = au_verifications a" "au_oversubscriptions (erase a) = au_oversubscriptions a"
  "au_request_index (erase a) = au_request_index a" "au_last_arbitration (erase a) = au_last_arbitration a"
  "au_config (erase a) = (au_config a)\<lparr>ac_incarnation := nil_id\<rparr>"
  by (simp_all add: erase_def)

lemma erase_erase [simp]: "erase (erase a) = erase a"
  by (simp add: erase_def om_map_map comp_def)

section \<open>Applying changes\<close>

fun erase_object :: "object \<Rightarrow> object" where
  "erase_object (OGrant g) = OGrant (unmark g)"
| "erase_object ob = ob"

lemma table_full_map [simp]: "table_full n k (om_map f m) \<longleftrightarrow> table_full n k m"
  by (simp add: table_full_def)

lemma store_object_erase:
  "store_object k (erase_object ob) (erase a) = map_sum id erase (store_object k ob a)"
  by (cases ob) (auto simp: store_object_def Let_def erase_def om_put_map split: option.splits)

lemma store_objects_erase:
  "store_objects (map (\<lambda>(k, ob). (k, erase_object ob)) kvs) (erase a) =
     (fst (store_objects kvs a), erase (snd (store_objects kvs a)))"
proof (induction kvs arbitrary: a)
  case (Cons kv kvs)
  obtain k ob where kv: "kv = (k, ob)" by (cases kv)
  show ?case
    using Cons.IH by (cases "store_object k ob a") (simp_all add: kv store_object_erase)
qed simp

lemma note_erase: "erase (note_recovered_arbitration arb a) = note_recovered_arbitration arb (erase a)"
  by (simp add: note_recovered_arbitration_def erase_def)

text \<open>Changes act on states that are equal up to marks in the same way.\<close>

lemma apply_same_but_marks:
  assumes "erase a = erase b"
  shows "fst (apply_changes cs arb a) = fst (apply_changes cs arb b)"
    and "erase (snd (apply_changes cs arb a)) = erase (snd (apply_changes cs arb b))"
proof -
  have "fst (store_objects kvs a) = fst (store_objects kvs b) \<and>
      erase (snd (store_objects kvs a)) = erase (snd (store_objects kvs b))" for kvs
    using store_objects_erase [of kvs a] store_objects_erase [of kvs b] assms by (metis Pair_inject)
  then show "fst (apply_changes cs arb a) = fst (apply_changes cs arb b)"
    "erase (snd (apply_changes cs arb a)) = erase (snd (apply_changes cs arb b))"
    using assms by (auto simp: apply_changes_def note_erase split: sum.splits prod.splits) (metis fst_conv snd_conv)+
qed


section \<open>Marking\<close>

lemma erase_grants: "erase (a\<lparr>au_grants := gs\<rparr>) = (erase a)\<lparr>au_grants := om_map unmark gs\<rparr>"
  by (simp add: erase_def)

lemma mark_recovered_erase:
  assumes "om_wf (au_grants a)" and "find_grant a k \<noteq> None"
  shows "fst (mark_recovered k prov amb reason a) = StOk"
    and "erase (snd (mark_recovered k prov amb reason a)) = erase a"
    and "om_wf (au_grants (snd (mark_recovered k prov amb reason a)))"
proof -
  obtain g where g: "om_find k (au_grants a) = Some g" using assms(2) by (auto simp: find_grant_def)
  have put: "om_put k (unmark g) (om_map unmark (au_grants a)) = om_map unmark (au_grants a)"
    using assms(1) g by (intro om_put_same) simp_all
  show "fst (mark_recovered k prov amb reason a) = StOk"
    "erase (snd (mark_recovered k prov amb reason a)) = erase a"
    "om_wf (au_grants (snd (mark_recovered k prov amb reason a)))"
    using g put assms(1) by (simp_all add: mark_recovered_def Let_def erase_grants om_put_map om_put_wf)
qed

lemma mark_changes_erase:
  "om_wf (au_grants a) \<Longrightarrow>
     \<exists>b. mark_changes amb cs a = Inr b \<and> erase b = erase a \<and> om_wf (au_grants b)"
proof (induction cs arbitrary: a)
  case (Cons c cs)
  show ?case
  proof (cases "sc_kind c \<noteq> OkGrant \<or> find_grant a (sc_key c) = None")
    case True
    then show ?thesis using Cons by simp
  next
    case False
    let ?m = "if amb then mark_recovered (sc_key c) PvAmbiguousCommit True kAmbiguousText a
      else mark_recovered (sc_key c) PvRecoveredFromLog False [] a"
    have m: "fst ?m = StOk" "erase (snd ?m) = erase a" "om_wf (au_grants (snd ?m))"
      using mark_recovered_erase [OF Cons.prems, of "sc_key c"] False by simp_all
    then obtain a1 where a1: "?m = (StOk, a1)" by (cases ?m) simp
    then have "mark_changes amb (c # cs) a = mark_changes amb cs a1" using False by (cases amb) auto
    with Cons.IH [of a1] m a1 show ?thesis by simp
  qed
qed simp

lemma mark_all_historical_erase: "erase (mark_all_historical a) = erase a"
proof -
  have "au_grants (mark_all_historical a) =
      om_map (\<lambda>g. if is_terminal (gr_state g) then g else g\<lparr>gr_historical := True\<rparr>) (au_grants a)"
    by (simp add: mark_all_historical_def om_map_def)
  moreover have "unmark \<circ> (\<lambda>g. if is_terminal (gr_state g) then g else g\<lparr>gr_historical := True\<rparr>) = unmark"
    by (auto simp: comp_def)
  ultimately show ?thesis
    by (simp add: mark_all_historical_def erase_def om_map_map)
qed

section \<open>What does not depend on the marks\<close>

lemma om_all_map:
  "(\<forall>k v. om_find k (om_map f m) = Some v \<longrightarrow> P k v) \<longleftrightarrow> (\<forall>k v. om_find k m = Some v \<longrightarrow> P k (f v))"
  by auto

lemma structure_erase: "structure_ok (erase a) \<longleftrightarrow> structure_ok a"
proof -
  have "entries_ok (erase a) \<longleftrightarrow> entries_ok a" by (simp add: entries_ok_def om_all_map del: om_find_map)
  moreover have "index_ok (erase a) \<longleftrightarrow> index_ok a" by (simp add: index_ok_def om_all_map del: om_find_map)
  ultimately show ?thesis by (simp add: structure_ok_def tables_wf_def)
qed

lemma refs_erase: "refs_ok (erase a) \<longleftrightarrow> refs_ok a"
  by (simp add: refs_ok_def om_all_map del: om_find_map)

lemma held_erase: "(\<And>g. Q (unmark g) = Q g) \<Longrightarrow> held Q (erase a) p = held Q a p"
proof -
  assume "\<And>g. Q (unmark g) = Q g"
  then have "held_by Q p \<circ> unmark = held_by Q p" by (auto simp: held_by_def)
  then show ?thesis by (simp add: held_def om_sum_map)
qed

lemma capacity_erase: "capacity_safe (erase a) \<longleftrightarrow> capacity_safe a"
proof -
  have "protected_floor (erase a) rec = protected_floor a rec" for rec by (simp add: protected_floor_def)
  moreover have "rebalance_bps (erase a) rec pol t = rebalance_bps a rec pol t" for rec pol t
  proof -
    have "au_epoch (erase a) = au_epoch a" by simp
    then show ?thesis unfolding rebalance_bps_def by (simp only: erase_sel(7))
  qed
  ultimately have "path_fits (erase a) rec = path_fits a rec" for rec
    by (simp add: path_fits_def held_erase ceiling_at_def)
  then show ?thesis by (simp add: capacity_safe_def)
qed

end
