(* ===== verification/Durability.thy ===== *)
theory Durability
  imports Log
begin

text \<open>
  What the durable log promises, as properties of the store operations: recovery from a crash
  at any byte, atomic compaction, tamper evidence of the hash chain, round trips of the record
  payloads, and two ways in which a log can stop being usable.
\<close>

section \<open>Intent payloads\<close>

lemma decode_intent_payload_encode:
  assumes "\<forall>c \<in> set cs. change_fits store_limits c" and "length cs \<le> 1048576"
  shows "decode_intent_payload (encode_intent_payload i arb cs) = Inr (i, arb, cs)"
proof -
  have n: "unat (of_nat (length cs) :: u32) = length cs" using assms(2) by (simp add: unat_of_nat)
  have "r_times (length cs) (decode_state_change store_limits) (concat (map encode_state_change cs) @ []) = Inr (cs, [])"
    by (rule change_codec.times [OF assms(1)])
  then show ?thesis
    using assms(2)
    by (simp add: decode_intent_payload_def encode_intent_payload_def w_list_def rbind_ok r_u64_w r_u32_w n
        rreturn_def ebind_def require_end_def)
qed

section \<open>The hash chain\<close>

lemma chain_hash_reference: "chain_hash prev h p = sha256_reference (digest_bytes prev @ h @ p)"
  unfolding chain_hash_def
  using sha_finish_reference [OF absorbed_update [OF absorbed_update [OF absorbed_update [OF absorbed_reset]]]]
  by simp

text \<open>The bytes of a chained sequence of headers and payloads, and its last hash.\<close>

fun chain_bytes :: "digest256 \<Rightarrow> (byte list \<times> byte list) list \<Rightarrow> byte list" where
  "chain_bytes c [] = []"
| "chain_bytes c ((h, p) # ps) = h @ p @ digest_bytes (chain_hash c h p) @ chain_bytes (chain_hash c h p) ps"

fun chain_end :: "digest256 \<Rightarrow> (byte list \<times> byte list) list \<Rightarrow> digest256" where
  "chain_end c [] = c"
| "chain_end c ((h, p) # ps) = chain_end (chain_hash c h p) ps"

fun chain_inputs :: "digest256 \<Rightarrow> (byte list \<times> byte list) list \<Rightarrow> byte list list" where
  "chain_inputs c [] = []"
| "chain_inputs c ((h, p) # ps) = (digest_bytes c @ h @ p) # chain_inputs (chain_hash c h p) ps"

text \<open>The byte strings that the scan of a log gives to SHA-256, in order.\<close>

function hash_inputs :: "store_options \<Rightarrow> byte list \<Rightarrow> scan_state \<Rightarrow> byte list list" where
  "hash_inputs opts data s =
     (if data = [] then []
      else case check_record opts s data of
          Inl f \<Rightarrow> []
        | Inr (r, chain) \<Rightarrow>
            (digest_bytes (ss_chain s) @ take kStoreRecordHeaderBytes data @ lr_payload r) #
            (case process_record opts r s of (s', ok) \<Rightarrow>
              if \<not> ok then []
              else hash_inputs opts
                (drop (kStoreRecordHeaderBytes + length (lr_payload r) + kStoreChainBytes) data)
                (advance_scan r chain s')))"
  by pat_completeness auto

termination
  by (relation "measure (\<lambda>(opts, data, s). length data)") (auto simp: kStoreRecordHeaderBytes_def)

declare hash_inputs.simps [simp del]

lemma chain_inputs_append: "chain_inputs c (ps @ qs) = chain_inputs c ps @ chain_inputs (chain_end c ps) qs"
  by (induction c ps rule: chain_inputs.induct) simp_all

lemma chain_end_append: "chain_end c (ps @ qs) = chain_end (chain_end c ps) qs"
  by (induction c ps rule: chain_end.induct) simp_all

lemma check_record_parts:
  assumes "check_record opts s data = Inr (r, chain)"
  obtains h where "length h = 56" and "chain = chain_hash (ss_chain s) h (lr_payload r)"
    and "data = h @ lr_payload r @ digest_bytes chain @ drop (88 + length (lr_payload r)) data"
proof -
  let ?n = "unat (get_u32 8 data)"
  have facts: "\<not> length data < 56" "\<not> 88 + ?n > length data" "lr_payload r = take ?n (drop 56 data)"
    "chain = chain_hash (ss_chain s) (take 56 data) (take ?n (drop 56 data))"
    "digest_bytes chain = take 32 (drop (56 + ?n) data)"
    using assms by (auto simp: check_record_def Let_def store_sizes split: if_splits)
  then have n: "length (lr_payload r) = ?n" by simp
  have "drop 56 data = take ?n (drop 56 data) @ take 32 (drop (56 + ?n) data) @ drop (88 + ?n) data"
    using append_take_drop_id [of ?n "drop 56 data"] append_take_drop_id [of 32 "drop (56 + ?n) data"]
    by (simp add: add.commute)
  then have "data = take 56 data @ take ?n (drop 56 data) @ take 32 (drop (56 + ?n) data) @ drop (88 + ?n) data"
    using append_take_drop_id [of 56 data] by metis
  then show ?thesis
    using that [of "take 56 data"] facts n by simp
qed


lemma scan_exact_parts:
  "scan opts data s = (s', RfExact, rest) \<Longrightarrow>
     \<exists>ps. rest = [] \<and> data = chain_bytes (ss_chain s) ps \<and> ss_chain s' = chain_end (ss_chain s) ps \<and>
       ss_records s' = ss_records s + length ps \<and> hash_inputs opts data s = chain_inputs (ss_chain s) ps \<and>
       (\<forall>(h, p) \<in> set ps. length h = 56)"
proof (induction opts data s rule: scan.induct)
  case (1 opts data s)
  show ?case
  proof (cases "data = []")
    case True
    with 1(2) show ?thesis by (intro exI [of _ "[]"]) (simp add: scan.simps hash_inputs.simps)
  next
    case ne: False
    show ?thesis
    proof (cases "check_record opts s data")
      case (Inl f)
      then have "f \<noteq> RfExact" by (auto simp: check_record_def Let_def split: if_splits)
      with 1(2) ne Inl show ?thesis by (simp add: scan.simps [of opts data])
    next
      case (Inr rc)
      then obtain r chain where rc: "check_record opts s data = Inr (r, chain)" by (cases rc) auto
      obtain t ok where pr: "process_record opts r s = (t, ok)" by fastforce
      have ok: ok using 1(2) ne rc pr by (cases ok) (simp_all add: scan.simps [of opts data])
      let ?rest = "drop (88 + length (lr_payload r)) data"
      have "scan opts ?rest (advance_scan r chain t) = (s', RfExact, rest)"
        using 1(2) ne rc pr ok by (simp add: scan.simps [of opts data] store_sizes)
      then obtain ps where ps: "rest = []" "?rest = chain_bytes chain ps" "ss_chain s' = chain_end chain ps"
        "ss_records s' = Suc (ss_records t) + length ps" "hash_inputs opts ?rest (advance_scan r chain t) = chain_inputs chain ps"
        "\<forall>(h, p) \<in> set ps. length h = 56"
        using 1(1) [OF ne rc refl pr [symmetric]] ok by (auto simp: advance_scan_def store_sizes)
      obtain h where h: "length h = 56" "chain = chain_hash (ss_chain s) h (lr_payload r)"
        "data = h @ lr_payload r @ digest_bytes chain @ ?rest"
        by (rule check_record_parts [OF rc])
      show ?thesis
        using ps h process_record_frame(3) [OF pr] ne rc pr ok
          hash_inputs.simps [of opts data s] arg_cong [OF h(3), of "take 56"]
        by (intro exI [of _ "(h, lr_payload r) # ps"]) (simp add: store_sizes)
    qed
  qed
qed

lemma digest_bytes_inj: "digest_bytes x = digest_bytes y \<longleftrightarrow> x = y"
  by (simp add: digest_bytes_def Rep_digest256_inject)

lemma chain_binds:
  assumes "length ps = length qs" and "chain_end c ps = chain_end c qs"
    and "\<forall>(h, p) \<in> set ps. length h = 56" and "\<forall>(h, p) \<in> set qs. length h = 56"
  shows "ps = qs \<or> (\<exists>x \<in> set (chain_inputs c ps). \<exists>y \<in> set (chain_inputs c qs).
      x \<noteq> y \<and> sha256_reference x = sha256_reference y)"
  using assms
proof (induction ps arbitrary: qs rule: rev_induct)
  case (snoc hp ps)
  obtain hq qs' where qs: "qs = qs' @ [hq]" using snoc.prems(1) by (cases qs rule: rev_cases) auto
  obtain h p h' p' where hp: "hp = (h, p)" and hq: "hq = (h', p')" by (cases hp; cases hq) auto
  let ?x = "digest_bytes (chain_end c ps) @ h @ p" and ?y = "digest_bytes (chain_end c qs') @ h' @ p'"
  have same: "sha256_reference ?x = sha256_reference ?y"
    using snoc.prems(2) by (simp add: qs hp hq chain_end_append chain_hash_reference)
  have ins: "?x \<in> set (chain_inputs c (ps @ [hp]))" "?y \<in> set (chain_inputs c qs)"
    by (simp_all add: qs hp hq chain_inputs_append)
  show ?case
  proof (cases "?x = ?y")
    case False
    with same ins show ?thesis by blast
  next
    case True
    have "length h = 56" "length h' = 56" using snoc.prems(3,4) by (auto simp: qs hp hq)
    with True have "h = h'" "p = p'" "chain_end c ps = chain_end c qs'"
      by (simp_all add: append_eq_append_conv digest_bytes_inj)
    with snoc.IH [of qs'] snoc.prems show ?thesis by (auto simp: qs hp hq chain_inputs_append)
  qed
qed simp

text \<open>
  C29: tamper evidence. Two logs that are both read without any loss and end with the same
  chain head after the same number of records are byte for byte the same, unless a
  string hashed while reading the one and a string hashed while reading the other collide
  under SHA-256.
\<close>

theorem chain_head_binds_log:
  assumes "scan opts log1 scan_start = (s1, RfExact, rest1)"
    and "scan opts' log2 scan_start = (s2, RfExact, rest2)"
    and "ss_chain s1 = ss_chain s2" and "ss_records s1 = ss_records s2"
  shows "log1 = log2 \<or>
    (\<exists>x \<in> set (hash_inputs opts log1 scan_start). \<exists>y \<in> set (hash_inputs opts' log2 scan_start).
      x \<noteq> y \<and> digest_of_bytes x = digest_of_bytes y)"
proof -
  let ?c = "ss_chain scan_start"
  obtain ps where ps: "log1 = chain_bytes ?c ps" "ss_chain s1 = chain_end ?c ps"
    "ss_records s1 = ss_records scan_start + length ps" "hash_inputs opts log1 scan_start = chain_inputs ?c ps"
    "\<forall>(h, p) \<in> set ps. length h = 56"
    using scan_exact_parts [OF assms(1)] by blast
  obtain qs where qs: "log2 = chain_bytes ?c qs" "ss_chain s2 = chain_end ?c qs"
    "ss_records s2 = ss_records scan_start + length qs" "hash_inputs opts' log2 scan_start = chain_inputs ?c qs"
    "\<forall>(h, p) \<in> set qs. length h = 56"
    using scan_exact_parts [OF assms(2)] by blast
  have "digest_of_bytes x = sha256_reference x" for x
    unfolding digest_of_bytes_def using sha_finish_reference [OF absorbed_update [OF absorbed_reset]] by simp
  with chain_binds [of ps qs ?c] ps qs assms(3,4) show ?thesis by fastforce
qed


lemma marker_scan:
  "scan opts (log_image digest_zero 1 [shutdown_record t]) scan_start =
     (advance_scan (shutdown_record t) (record_chain digest_zero 1 (shutdown_record t)) scan_start, RfExact, [])"
  if "8 \<le> so_max_record_bytes opts"
proof -
  let ?r = "shutdown_record t"
  have "process_record opts ?r scan_start = (scan_start, True)"
    using r_u64_w [of t "[]"]
    by (simp add: process_record_def shutdown_record_def is_nil_def nil_id_def Let_def)
  moreover have "fits opts ?r" using that by (simp add: fits_def shutdown_record_def)
  ultimately show ?thesis
    using scan_step [of opts ?r scan_start scan_start "[]"] by (simp add: scan_start_def scan.simps [of opts "[]"])
qed

theorem chain_head_binds_log_witness:
  "\<exists>s. scan options_for_tests (log_image digest_zero 1 [shutdown_record 7]) scan_start = (s, RfExact, []) \<and>
     (log_image digest_zero 1 [shutdown_record 7] = log_image digest_zero 1 [shutdown_record 7] \<or>
      (\<exists>x \<in> set (hash_inputs options_for_tests (log_image digest_zero 1 [shutdown_record 7]) scan_start).
       \<exists>y \<in> set (hash_inputs options_for_tests (log_image digest_zero 1 [shutdown_record 7]) scan_start).
         x \<noteq> y \<and> digest_of_bytes x = digest_of_bytes y))"
proof -
  have "8 \<le> so_max_record_bytes options_for_tests" by (simp add: options_for_tests_def)
  note scanned = marker_scan [OF this, of 7]
  from chain_head_binds_log [OF scanned scanned refl refl] scanned show ?thesis by blast
qed

section \<open>Crashes\<close>

text \<open>Opening what a crash left of a log of which \<open>flushed\<close> is on disk.\<close>

lemma open_crashed:
  assumes "process_all opts (flushed @ later) scan_start \<noteq> None" and "\<forall>r \<in> set (flushed @ later). fits opts r"
    and "length (log_file sid flushed) \<le> n" and "n \<le> length (log_file sid (flushed @ later))"
    and "length (log_file sid (flushed @ later)) + 96 \<le> so_max_log_bytes opts"
    and "length (flushed @ later) < so_max_records opts" and "8 \<le> so_max_record_bytes opts"
    and "so_max_log_bytes opts \<le> 9223372036854775807" and "so_truncate_unreadable_tail opts" and "path \<noteq> []"
    and "\<forall>c. fs_ok fs c"
  obtains res st kept s lost where
    "store_open fs sid' path opts (new_store (only_log (take n (log_file sid (flushed @ later))))) = (Inr res, st)"
    and "servable (rp_report res)" and "later = kept @ lost"
    and "process_all opts (flushed @ kept) scan_start = Some s" and "rp_actions res = map mark_ambiguous (ss_actions s)"
    and "holds_log sid (flushed @ kept @ closing s) st" and "st_options st = opts"
    and "n = length (log_file sid (flushed @ later)) \<Longrightarrow> lost = []" and "so_durable_writes opts \<Longrightarrow> on_disk st"
proof -
  let ?rs = "flushed @ later" and ?m = "n - 128"
  have "length (log_image digest_zero 1 flushed) \<le> ?m" using assms(3) by (simp add: log_file_def)
  then obtain kept where kept: "complete_records ?m ?rs = flushed @ kept" using complete_records_keep by blast
  obtain ts where "?rs = complete_records ?m ?rs @ ts" using complete_records_prefix by blast
  then have later: "later = kept @ ts" by (simp add: kept)
  obtain s where s: "process_all opts (complete_records ?m ?rs) scan_start = Some s"
    using process_prefix [OF assms(1), of ?m] by blast
  have room: "room_to_close opts (complete_records ?m ?rs) s"
    unfolding kept using assms(5-7) later by (auto simp: room_to_close_def log_file_def log_image_append)
  have n: "128 \<le> n" "n \<le> 128 + length (log_image digest_zero 1 ?rs)"
    using assms(3,4) by (simp_all add: log_file_def)
  have max: "n \<le> so_max_log_bytes opts" using assms(4,5) by linarith
  have opts: "usable_options opts"
    using assms(5-9) by (auto simp: usable_options_def log_file_def)
  obtain res st where
    "store_open fs sid' path opts (new_store (only_log (take n (log_file sid ?rs)))) = (Inr res, st)"
    "servable (rp_report res)" "rp_actions res = map mark_ambiguous (ss_actions s)"
    "holds_log sid (complete_records ?m ?rs @ closing s) st" "st_options st = opts" "so_durable_writes opts \<Longrightarrow> on_disk st"
  proof (rule open_prefix [OF assms(1,2) n(1) _ _ n(2) _ opts assms(10) s room])
    show "n \<le> 9223372036854775807" using max assms(8) by linarith
    show "n \<le> so_max_log_bytes opts + so_max_record_bytes opts + 4096" using max by linarith
    show "fs_ok fs c" for c using assms(11) by blast
  qed blast
  moreover have "ts = []" if "n = length (log_file sid ?rs)"
    using complete_records_all [of digest_zero 1 ?rs] kept later that by (simp add: log_file_def)
  ultimately show ?thesis using s later that [of res st kept ts s] unfolding kept by simp
qed

text \<open>
  C28: recovery from a crash at any byte. Let a log hold the records \<open>flushed @ later\<close>, of which
  the bytes of \<open>flushed\<close> are all on disk and any number of further bytes arrived before the
  crash, let truncation be allowed, let the file system work and let the bounds of the log leave
  room for an abort record. Opening what is left succeeds, serves, replays exactly the records that
  are completely on disk in their order (all of \<open>flushed\<close> among them) and leaves a log that holds
  these records, with an intent that the crash left open closed by an abort record.
\<close>

theorem crash_prefix_recovers:
  assumes "process_all opts (flushed @ later) scan_start \<noteq> None" and "\<forall>r \<in> set (flushed @ later). fits opts r"
    and "length (log_file sid flushed) \<le> n" and "n \<le> length (log_file sid (flushed @ later))"
    and "length (log_file sid (flushed @ later)) + 96 \<le> so_max_log_bytes opts"
    and "length (flushed @ later) < so_max_records opts" and "8 \<le> so_max_record_bytes opts"
    and "so_max_log_bytes opts \<le> 9223372036854775807" and "so_truncate_unreadable_tail opts" and "path \<noteq> []"
    and "\<forall>c. fs_ok fs c"
  shows "\<exists>res st kept s lost.
    store_open fs sid' path opts (new_store (only_log (take n (log_file sid (flushed @ later))))) = (Inr res, st) \<and>
    servable (rp_report res) \<and> later = kept @ lost \<and>
    process_all opts (flushed @ kept) scan_start = Some s \<and> rp_actions res = map mark_ambiguous (ss_actions s) \<and>
    holds_log sid (flushed @ kept @ closing s) st"
  by (rule open_crashed [OF assms, where sid' = sid']) blast

lemma intent_scan:
  assumes "\<forall>c \<in> set cs. change_fits store_limits c" and "length cs \<le> 1048576" and "ss_open s = None"
  shows "process_record opts (intent_record i arb cs t origin) s =
    (s\<lparr>ss_last_incarnation := (if is_nil origin then ss_last_incarnation s else origin),
       ss_actions := ss_actions s @
         [\<lparr>ra_kind = RkChanges cs arb, ra_at = t, ra_intent = i, ra_origin = origin, ra_committed = False,
           ra_ambiguous = False, ra_aborted = False\<rparr>],
       ss_open := Some i\<rparr>, True)"
  using assms
  by (simp add: process_record_def intent_record_def decode_intent_payload_encode Let_def)

lemma shutdown_scan: "process_record opts (shutdown_record t) s = (s, True)"
  using r_u64_w [of t "[]"] by (simp add: process_record_def shutdown_record_def is_nil_def nil_id_def Let_def)

lemma intent_payload_length: "length (encode_intent_payload i arb []) = 20"
  by (simp add: encode_intent_payload_def w_list_def)

lemma marker_and_intent:
  "process_all opts [shutdown_record 7, intent_record 1 1 [] 9 nil_id] scan_start \<noteq> None"
  by (simp add: shutdown_scan intent_scan scan_start_def advance_scan_def)

theorem crash_prefix_recovers_witness:
  "\<exists>res st kept s lost.
    store_open \<lparr>fs_ok = \<lambda>_. True, fs_short = 0\<rparr> (Id128 3 4) ''/var/lib/isf/log'' options_for_tests
      (new_store (only_log (take 274 (log_file (Id128 1 2) ([shutdown_record 7] @ [intent_record 1 1 [] 9 nil_id])))))
      = (Inr res, st) \<and>
    servable (rp_report res) \<and> [intent_record 1 1 [] 9 nil_id] = kept @ lost \<and>
    process_all options_for_tests ([shutdown_record 7] @ kept) scan_start = Some s \<and>
    rp_actions res = map mark_ambiguous (ss_actions s) \<and>
    holds_log (Id128 1 2) ([shutdown_record 7] @ kept @ closing s) st"
  by (rule crash_prefix_recovers)
     (use marker_and_intent [of options_for_tests] in \<open>simp_all add: options_for_tests_def log_file_def
        fits_def shutdown_record_def intent_record_def intent_payload_length\<close>)

section \<open>Compaction\<close>

lemma settle_primary:
  assumes "\<forall>c. fs_ok fs c" and "dk_primary d = Some x"
  shows "settle_compaction_artifacts fs d = (StOk, only_log x)"
  using assms by (cases d) (auto simp: settle_compaction_artifacts_def only_log_def Let_def)

lemma settle_fresh:
  assumes "\<forall>c. fs_ok fs c" and "dk_primary d = None" and "dk_fresh d = Some x"
  shows "settle_compaction_artifacts fs d = (StOk, only_log x)"
  using assms by (simp add: settle_compaction_artifacts_def only_log_def)

text \<open>
  On every disk a compaction passes through, the log is the old one, the new one, or away with the
  new one complete beside it.
\<close>

lemma trace_logs:
  assumes "dk_primary (st_disk st) = Some old" and "r = snapshot_record snap at origin"
    and "d \<in> set (compact_trace fs sid snap at origin n st)"
  obtains (old) "dk_primary d = Some old"
    | (new) "length (lr_payload r) \<le> so_max_record_bytes (st_options st)" "dk_primary d = Some (compacted_log sid r)"
    | (away) "length (lr_payload r) \<le> so_max_record_bytes (st_options st)" "dk_primary d = None" "dk_fresh d = Some (compacted_log sid r)"
  using assms by (auto simp: compact_trace_def Let_def split: if_splits)

lemma compact_done:
  "store_compact fs sid snap at origin st = (StOk, st') \<Longrightarrow>
     dk_primary (st_disk st') = Some (compacted_log sid (snapshot_record snap at origin))"
  by (auto simp: store_compact_def Let_def split: if_splits)

text \<open>
  C30: compaction is atomic. Let any calls to the file system fail during a compaction, and let the
  machine stop after any of them, or while the new log is being written: whatever disk is left,
  the next start settles on one complete log without siblings, the old one or the new one that
  holds the snapshot. So it does on the disk the compaction ends with, and when it reported success
  the log is the new one.
\<close>

theorem compaction_atomic:
  assumes "dk_primary (st_disk st) = Some old" and "\<forall>c. fs_ok fs c"
    and "new = compacted_log sid (snapshot_record snap at origin)"
    and "store_compact fs' sid snap at origin st = (status, st')"
  shows "(\<forall>n. \<forall>d \<in> set (compact_trace fs' sid snap at origin n st).
        settle_compaction_artifacts fs d \<in> {(StOk, only_log old), (StOk, only_log new)}) \<and>
    settle_compaction_artifacts fs (st_disk st') \<in> {(StOk, only_log old), (StOk, only_log new)} \<and>
    (status = StOk \<longrightarrow> settle_compaction_artifacts fs (st_disk st') = (StOk, only_log new))"
proof -
  have trace: "settle_compaction_artifacts fs d \<in> {(StOk, only_log old), (StOk, only_log new)}"
    if "d \<in> set (compact_trace fs' sid snap at origin n st)" for d n
    by (rule trace_logs [OF assms(1) refl that])
       (use settle_primary [OF assms(2), of d] settle_fresh [OF assms(2), of d] assms(3) in auto)
  have "compact_trace fs' sid snap at origin 0 st \<noteq> []" by (simp add: compact_trace_def Let_def)
  then have "st_disk st' \<in> set (compact_trace fs' sid snap at origin 0 st)"
    using last_in_set compact_trace_last [of fs' sid snap at origin 0 st] assms(4) by fastforce
  with trace settle_primary [OF assms(2), of "st_disk st'"] compact_done assms(3,4) show ?thesis by blast
qed

definition example_store :: store where
  "example_store =
     (new_store (only_log (log_file (Id128 1 2) [shutdown_record 7])))\<lparr>
       st_open := True, st_path := ''/var/lib/isf/log'', st_options := options_for_tests\<rparr>"

definition example_snapshot :: authority_snapshot where
  "example_snapshot = snapshot (new_authority (Id128 7 8) (default_config (Id128 7 8)))"

definition no_promote :: fs where
  "no_promote = \<lparr>fs_ok = \<lambda>c. c \<noteq> FsPromote \<and> c \<noteq> FsRestore, fs_short = 0\<rparr>"

theorem compaction_atomic_witness:
  "dk_primary (st_disk example_store) = Some (log_file (Id128 1 2) [shutdown_record 7]) \<and>
   settle_compaction_artifacts \<lparr>fs_ok = \<lambda>_. True, fs_short = 0\<rparr>
     (st_disk (snd (store_compact no_promote (Id128 5 6) example_snapshot 9 nil_id example_store))) \<in>
     {(StOk, only_log (log_file (Id128 1 2) [shutdown_record 7])),
      (StOk, only_log (compacted_log (Id128 5 6) (snapshot_record example_snapshot 9 nil_id)))}"
  using compaction_atomic [of example_store "log_file (Id128 1 2) [shutdown_record 7]"
      "\<lparr>fs_ok = \<lambda>_. True, fs_short = 0\<rparr>" _ "Id128 5 6" example_snapshot 9 nil_id
      no_promote, OF _ _ refl surjective_pairing]
  by (simp add: example_store_def new_store_def only_log_def)

section \<open>Logs that cannot be used any more\<close>

lemma scan_whole:
  assumes "process_all opts rs scan_start = Some s" and "\<forall>r \<in> set rs. fits opts r"
  shows "scan opts (log_image digest_zero 1 rs) scan_start = (s, RfExact, [])"
proof -
  have start: "ss_chain scan_start = digest_zero" "ss_sequence scan_start = 1" by (simp_all add: scan_start_def)
  let ?n = "length (log_image digest_zero 1 rs)"
  obtain s' rest where "process_all opts (complete_records ?n rs) scan_start = Some s'"
    "scan opts (take ?n (log_image digest_zero 1 rs)) scan_start =
      (s', if rest = [] then RfExact else RfTornTailTruncated, rest)"
    "take ?n (log_image digest_zero 1 rs) = log_image digest_zero 1 (complete_records ?n rs) @ rest"
    using scan_prefix [OF assms, of ?n] unfolding start by blast
  then show ?thesis using assms(1) by (simp add: complete_records_all)
qed

text \<open>
  C31: a log that filled up between an intent and its completion can never be opened again.
  Recovery has to append an abort record, which counts toward the bounds of the log; when it
  does not fit, every attempt to open the store that reads the whole log fails, whatever the
  file system answers otherwise, and the log stays as it is.
\<close>

theorem full_log_never_opens:
  assumes "process_all opts rs scan_start = Some s" and "\<forall>r \<in> set rs. fits opts r"
    and "ss_open s = Some intent"
    and "length rs \<ge> so_max_records opts \<or> length (log_file sid rs) + 96 > so_max_log_bytes opts"
    and "fs_ok fs FsExists" and "fs_ok fs FsFread"
  shows "\<exists>e st. store_open fs sid' path opts (new_store (only_log (log_file sid rs))) = (Inl e, st) \<and>
    st_disk st = only_log (log_file sid rs)"
proof -
  let ?data = "log_file sid rs"
  have sc: "scan opts (drop kStoreFileHeaderBytes ?data) scan_start = (s, RfExact, [])"
    using scan_whole [OF assms(1,2)] by (simp add: log_file_def store_sizes)
  have n: "ss_records s = length rs" using process_all_frame [OF assms(1)] by (simp add: scan_start_def)
  have d: "dk_primary (only_log ?data) = Some ?data" "dk_fresh (only_log ?data) = None"
    "dk_previous (only_log ?data) = None" by (simp_all add: only_log_def)
  have settle: "settle_compaction_artifacts fs (only_log ?data) = (StOk, only_log ?data)"
    by (simp add: settle_compaction_artifacts_def d)
  have keep: "(only_log ?data)\<lparr>dk_primary := Some ?data\<rparr> = only_log ?data" by (simp add: only_log_def)
  have abort: "append_abort fs intent 0 st = (StLimitExceeded, st)"
    if "st_options st = opts" "st_open st" "st_log_bytes st = length ?data" "st_record_count st = length rs" for st
    using that assms(4) by (auto simp: append_abort_def write_record_def abort_record_def store_sizes Let_def)
  have "\<exists>e st'. replay_log fs ?data st = (Inl e, st') \<and> st_disk st' = only_log ?data"
    if "st_options st = opts" "st_disk st = only_log ?data" for st
  proof -
    let ?st = "st\<lparr>st_beyond := [], st_open := True, st_synced := length ?data, st_chain := ss_chain s,
      st_sequence := ss_sequence s, st_log_bytes := length ?data, st_record_count := ss_records s\<rparr>"
    have "append_abort fs intent 0 ?st = (StLimitExceeded, ?st)" by (rule abort) (use that n in simp_all)
    then show ?thesis
      using that assms(3)
      by (simp add: replay_log_def sc result_of_def report_of_def servable_def keep Let_def resolve_open_intent_def
          store_close_def sync_file_def primary_bytes_def d)
  qed
  moreover have "header_refusal ?data = None" "\<not> length ?data < kStoreFileHeaderBytes"
    using header_accepted by (simp_all add: log_file_def store_sizes)
  ultimately show ?thesis
    using assms(5,6) by (simp add: store_open_def new_store_def settle d Let_def read_whole_file_def)
qed


theorem full_log_never_opens_witness:
  "\<exists>e st. store_open \<lparr>fs_ok = \<lambda>_. True, fs_short = 0\<rparr> (Id128 3 4) ''/var/lib/isf/log''
      (options_for_tests\<lparr>so_max_log_bytes := 400\<rparr>)
      (new_store (only_log (log_file (Id128 1 2) [shutdown_record 7, intent_record 1 1 [] 9 nil_id]))) = (Inl e, st) \<and>
    st_disk st = only_log (log_file (Id128 1 2) [shutdown_record 7, intent_record 1 1 [] 9 nil_id])"
proof -
  let ?opts = "options_for_tests\<lparr>so_max_log_bytes := 400\<rparr>"
  let ?rs = "[shutdown_record 7, intent_record 1 1 [] 9 nil_id]"
  have "\<exists>s. process_all ?opts ?rs scan_start = Some s \<and> ss_open s = Some 1"
    by (simp add: shutdown_scan intent_scan scan_start_def advance_scan_def)
  then obtain s where s: "process_all ?opts ?rs scan_start = Some s" "ss_open s = Some 1" by blast
  show ?thesis
    by (rule full_log_never_opens [OF s(1) _ s(2)])
       (simp_all add: options_for_tests_def log_file_def fits_def shutdown_record_def intent_record_def
          intent_payload_length)
qed

lemma scan_append:
  assumes "process_all opts rs s = Some s'" and "\<forall>r \<in> set rs. fits opts r"
  shows "scan opts (log_image (ss_chain s) (ss_sequence s) rs @ rest) s = scan opts rest s'"
  using assms
proof (induction rs arbitrary: s)
  case (Cons r rs)
  obtain t where t: "process_record opts r s = (t, True)"
    and more: "process_all opts rs (advance_scan r (record_chain (ss_chain s) (ss_sequence s) r) t) = Some s'"
    using Cons.prems(1) by (auto split: prod.splits if_splits)
  have "fits opts r" using Cons.prems(2) by simp
  from Cons.IH [OF more] Cons.prems(2) process_record_frame [OF t] scan_step [OF this t]
  show ?case by (simp add: advance_scan_def)
qed simp

lemma record_image_bytes: "\<exists>more. record_image chain seq r = 0x52 # 0x46 # 0x53 # 0x49 # more \<and> length more \<ge> 84"
  by (simp add: record_image_def record_header_def magic_bytes w_enum_def)

lemma misplaced_magic:
  assumes "0 < k" and "k < 4"
  shows "get_u32 0 (take k (record_image chain seq r) @ record_image chain' seq' r') \<noteq> kRecordMagic"
proof -
  obtain m where m: "record_image chain seq r = 0x52 # 0x46 # 0x53 # 0x49 # m" using record_image_bytes by blast
  obtain m' where m': "record_image chain' seq' r' = 0x52 # 0x46 # 0x53 # 0x49 # m'" using record_image_bytes by blast
  have words: "[0x52, 0x52, 0x46, 0x53] = w_u32 0x53465252" "[0x52, 0x46, 0x52, 0x46] = w_u32 0x46524652"
    "[0x52, 0x46, 0x53, 0x52] = w_u32 0x52534652"
    by (simp_all add: w_u32_def upt_rec)
  note read = get_u32_w [of "[]" 0, simplified, of "0x53465252"] get_u32_w [of "[]" 0, simplified, of "0x46524652"]
    get_u32_w [of "[]" 0, simplified, of "0x52534652"]
  have "k = 1 \<or> k = 2 \<or> k = 3" using assms by auto
  then show ?thesis
    using read [of "[0x49] @ m'", folded words] read [of "[0x53, 0x49] @ m'", folded words]
      read [of "[0x46, 0x53, 0x49] @ m'", folded words]
    by (elim disjE) (simp_all add: m m' kRecordMagic_def)
qed

text \<open>
  C32: a read error at startup erases records that were safely on disk. When the read of the
  log breaks off within a record, opening the store succeeds and serves, but it takes the
  bytes it got for the whole log: everything from that record on is not replayed, and is cut
  off the log on disk.
\<close>

theorem short_read_erases_records:
  assumes "process_all opts (kept @ r # lost) scan_start \<noteq> None" and "\<forall>x \<in> set (kept @ r # lost). fits opts x"
    and "process_all opts kept scan_start = Some s" and "ss_open s = None"
    and "length (log_file sid (kept @ r # lost)) \<le> so_max_log_bytes opts" and "so_max_log_bytes opts \<le> 9223372036854775807"
    and "0 < so_max_record_bytes opts" and "0 < so_max_records opts" and "so_truncate_unreadable_tail opts" and "path \<noteq> []"
    and "\<forall>c. c \<noteq> FsFread \<longrightarrow> fs_ok fs c" and "\<not> fs_ok fs FsFread"
    and "length (log_file sid kept) < fs_short fs" and "fs_short fs < length (log_file sid (kept @ [r]))"
  shows "\<exists>res st. store_open fs sid' path opts (new_store (only_log (log_file sid (kept @ r # lost)))) = (Inr res, st) \<and>
    servable (rp_report res) \<and> rp_actions res = map mark_ambiguous (ss_actions s) \<and>
    dk_primary (st_disk st) = Some (log_file sid kept)"
proof -
  let ?rs = "kept @ r # lost" and ?n = "fs_short fs"
  have cut: "complete_records (?n - 128) ?rs = kept"
    by (rule complete_records_cut [of digest_zero 1]) (use assms(13,14) in \<open>simp_all add: log_file_def\<close>)
  have n: "128 \<le> ?n" "?n \<le> length (log_file sid ?rs)" "?n \<le> 9223372036854775807"
    using assms(5,6,13,14) by (simp_all add: log_file_def log_image_append)
  have opts: "usable_options opts" using assms(5-9) by (simp add: usable_options_def log_file_def)
  have s': "process_all opts (complete_records (?n - 128) ?rs) scan_start = Some s"
    and room: "room_to_close opts (complete_records (?n - 128) ?rs) s"
    and part: "length (log_file sid (complete_records (?n - 128) ?rs)) < ?n"
    using assms(3,4,13) by (simp_all add: cut room_to_close_def)
  have read: "read_whole_file fs (so_max_log_bytes opts + so_max_record_bytes opts + 4096) (Some (log_file sid ?rs)) =
      Some (True, take ?n (log_file sid ?rs))"
    using assms(5,11,12) by (simp add: read_whole_file_def)
  have fs: "c \<noteq> FsFread \<Longrightarrow> fs_ok fs c" for c using assms(11) by blast
  obtain res st where "store_open fs sid' path opts (new_store (only_log (log_file sid ?rs))) = (Inr res, st)"
    "servable (rp_report res)" "rp_actions res = map mark_ambiguous (ss_actions s)"
    "holds_log sid (complete_records (?n - 128) ?rs @ closing s) st"
    by (rule open_read [OF assms(1,2) n(1,3,2) fs opts assms(10) s' room read disjI2 [OF part], of sid'])
  then show ?thesis using assms(4) by (simp add: holds_log_def cut closing_def)
qed

theorem short_read_erases_records_witness:
  "\<exists>res st. store_open \<lparr>fs_ok = \<lambda>c. c \<noteq> FsFread, fs_short = 230\<rparr> (Id128 3 4) ''/var/lib/isf/log'' options_for_tests
      (new_store (only_log (log_file (Id128 1 2) ([shutdown_record 7] @ shutdown_record 8 # [shutdown_record 9])))) = (Inr res, st) \<and>
    servable (rp_report res) \<and> dk_primary (st_disk st) = Some (log_file (Id128 1 2) [shutdown_record 7])"
proof -
  obtain s where s: "process_all options_for_tests [shutdown_record 7] scan_start = Some s" "ss_open s = None"
    by (simp add: shutdown_scan scan_start_def advance_scan_def)
  have all: "process_all options_for_tests ([shutdown_record 7] @ shutdown_record 8 # [shutdown_record 9]) scan_start \<noteq> None"
    by (simp add: shutdown_scan scan_start_def advance_scan_def)
  show ?thesis
    using short_read_erases_records [OF all _ s, of "Id128 1 2" "''/var/lib/isf/log''" "\<lparr>fs_ok = \<lambda>c. c \<noteq> FsFread, fs_short = 230\<rparr>" "Id128 3 4"]
    by (simp add: options_for_tests_def log_file_def fits_def shutdown_record_def) blast
qed

text \<open>
  C34: the marker of a clean shutdown can destroy a log. When a record was cut short after one
  to three bytes and the shutdown marker is then written behind it, the log is no longer
  servable: what follows the last complete record is neither a record nor zero filled.
\<close>

theorem shutdown_after_short_write:
  assumes "holds_log sid rs st" and "write_record fs True r st = (StUnavailable, st1)"
    and "0 < fs_short fs" and "fs_short fs < 4" and "append_clean_shutdown fs' at st1 = (StOk, st2)"
  shows "\<exists>data s rest. dk_primary (st_disk st2) = Some data \<and>
    scan (st_options st) (drop kStoreFileHeaderBytes data) scan_start = (s, RfCorrupt, rest)"
proof -
  let ?k = "fs_short fs" and ?c = "st_chain st" and ?q = "st_sequence st"
  let ?tail = "take ?k (record_image ?c ?q r) @ record_image ?c ?q (shutdown_record at)"
  have st1: "st1 = append_primary (take ?k (record_image ?c ?q r)) st"
    using assms(1-4) by (auto simp: write_record_def holds_log_def Let_def min_def split: if_splits)
  have at_end: "append_primary bs st = st\<lparr>st_disk := (st_disk st)\<lparr>dk_primary := Some (log_file sid rs @ bs)\<rparr>,
      st_synced := min (st_synced st) (length (log_file sid rs))\<rparr>" for bs
    using assms(1) by (simp add: append_at_end holds_log_def)
  have prim: "dk_primary (st_disk st2) = Some (log_file sid rs @ ?tail)"
    using assms(1,5) by (auto simp: append_clean_shutdown_def write_record_def st1 at_end append_at_end holds_log_def
        Let_def split: if_splits)
  obtain s where s: "process_all (st_options st) rs scan_start = Some s" and f: "\<forall>r \<in> set rs. fits (st_options st) r"
    using assms(1) by (auto simp: holds_log_def)
  have "scan (st_options st) (log_image digest_zero 1 rs @ ?tail) scan_start = scan (st_options st) ?tail s"
    using scan_append [OF s f, of ?tail] by (simp add: scan_start_def)
  moreover have "check_record (st_options st) s ?tail = Inl RfCorrupt"
  proof -
    have "?tail ! 0 = 0x52" using assms(3) record_image_first by (simp add: nth_append)
    then have "\<not> all_zero ?tail" using assms(3) by (cases ?tail) (auto simp: all_zero_def)
    with misplaced_magic [OF assms(3,4)] show ?thesis by (simp add: check_record_def store_sizes Let_def)
  qed
  moreover have "?tail \<noteq> []" using assms(3) by simp
  ultimately show ?thesis
    using prim scan.simps [of "st_options st" ?tail s] by (simp add: log_file_def store_sizes)
qed

definition fresh_store :: store where
  "fresh_store =
     (new_store (only_log (log_file (Id128 1 2) [])))\<lparr>st_open := True, st_path := ''/var/lib/isf/log'',
       st_options := options_for_tests, st_log_bytes := kStoreFileHeaderBytes\<rparr>"

theorem shutdown_after_short_write_witness:
  "\<exists>st1 st2 data s rest.
     write_record \<lparr>fs_ok = \<lambda>c. c \<noteq> FsWrite, fs_short = 2\<rparr> True (shutdown_record 1) fresh_store = (StUnavailable, st1) \<and>
     append_clean_shutdown \<lparr>fs_ok = \<lambda>_. True, fs_short = 0\<rparr> 5 st1 = (StOk, st2) \<and>
     dk_primary (st_disk st2) = Some data \<and>
     scan options_for_tests (drop kStoreFileHeaderBytes data) scan_start = (s, RfCorrupt, rest)"
proof -
  let ?bad = "\<lparr>fs_ok = \<lambda>c. c \<noteq> FsWrite, fs_short = 2\<rparr>" and ?good = "\<lparr>fs_ok = \<lambda>_. True, fs_short = 0\<rparr>"
  have holds: "holds_log (Id128 1 2) [] fresh_store"
    by (simp add: holds_log_def fresh_store_def new_store_def only_log_def log_file_def store_sizes)
  have opts: "st_options fresh_store = options_for_tests" by (simp add: fresh_store_def)
  have lim: "so_max_record_bytes options_for_tests = 1048576" "so_max_log_bytes options_for_tests = 1048576"
    "so_max_records options_for_tests = 8192" by (simp_all add: options_for_tests_def)
  obtain st1 where one: "write_record ?bad True (shutdown_record 1) fresh_store = (StUnavailable, st1)"
    and st1: "st_options st1 = options_for_tests" "st_open st1" "st_log_bytes st1 = 128" "st_record_count st1 = 0"
    by (simp add: write_record_def fresh_store_def new_store_def lim append_primary_def primary_bytes_def shutdown_record_def store_sizes Let_def)
  obtain st2 where two: "append_clean_shutdown ?good 5 st1 = (StOk, st2)"
    using st1 by (simp add: append_clean_shutdown_def write_record_def lim shutdown_record_def store_sizes Let_def)
  have "0 < fs_short ?bad" "fs_short ?bad < 4" by simp_all
  from shutdown_after_short_write [OF holds one this two] one two show ?thesis unfolding opts by blast
qed

end
