(* ===== verification/Snapshots.thy ===== *)
theory Snapshots
  imports Marks Durability
begin

text \<open>
  Snapshots. A state whose records are filed under their own identity and whose text reads back
  (\<open>lasting\<close>) is restored from its snapshot up to recovery marks, also through the bytes of a log
  record. Every state a daemon computes is of this kind: planned images keep it, also when only a
  part of them is applied, and so do the marks of a replay.
\<close>

section \<open>States that last\<close>

text \<open>The kinds of objects that are filed in a table.\<close>

fun filed :: "object \<Rightarrow> bool" where
  "filed (OPolicy _) = False"
| "filed (OEpoch _) = False"
| "filed OAuthorityMeta = False"
| "filed _ = True"

definition lasting_entry :: "id128 \<Rightarrow> object \<Rightarrow> bool" where
  "lasting_entry k ob \<longleftrightarrow>
     object_key ob = k \<and> \<not> is_nil k \<and> object_sized ob \<and> object_ok ob \<and> clip ob = ob"

definition lasting_tables :: "authority \<Rightarrow> bool" where
  "lasting_tables a \<longleftrightarrow>
     (\<forall>k v. om_find k (au_sites a) = Some v \<longrightarrow> lasting_entry k (OSite v)) \<and>
     (\<forall>k v. om_find k (au_paths a) = Some v \<longrightarrow> lasting_entry k (OPath v)) \<and>
     (\<forall>k v. om_find k (au_domains a) = Some v \<longrightarrow> lasting_entry k (ODomain v)) \<and>
     (\<forall>k v. om_find k (au_attestations a) = Some v \<longrightarrow> lasting_entry k (OAttestation v)) \<and>
     (\<forall>k v. om_find k (au_grants a) = Some v \<longrightarrow> lasting_entry k (OGrant v)) \<and>
     (\<forall>k v. om_find k (au_verifications a) = Some v \<longrightarrow> lasting_entry k (OVerification v)) \<and>
     (\<forall>k v. om_find k (au_oversubscriptions a) = Some v \<longrightarrow> lasting_entry k (OOversubscription v)) \<and>
     om_find (sd_id default_domain) (au_domains a) \<noteq> None"

text \<open>The index of requests is exactly what the grants say.\<close>

definition index_exact :: "authority \<Rightarrow> bool" where
  "index_exact a \<longleftrightarrow>
     (\<forall>r k. om_find r (au_request_index a) = Some k \<longleftrightarrow>
        \<not> is_nil r \<and> (\<exists>g. om_find k (au_grants a) = Some g \<and> gr_request g = r))"

definition lasting_config :: "authority \<Rightarrow> bool" where
  "lasting_config a \<longleftrightarrow>
     policy_validate (au_policy a) = StOk \<and> au_epoch a \<noteq> 0 \<and>
     (au_config a)\<lparr>ac_policy := conservative_default, ac_epoch := 0, ac_incarnation := nil_id\<rparr> =
       (default_config nil_id)\<lparr>ac_policy := conservative_default, ac_epoch := 0, ac_incarnation := nil_id\<rparr>"

definition lasting :: "authority \<Rightarrow> bool" where
  "lasting a \<longleftrightarrow> tables_wf a \<and> lasting_tables a \<and> index_exact a \<and> lasting_config a"

text \<open>A grant image keeps the request of the grant it replaces, within a sequence too.\<close>

definition keeps_requests :: "authority \<Rightarrow> (id128 \<times> object) list \<Rightarrow> bool" where
  "keeps_requests a kos \<longleftrightarrow>
     (\<forall>k g g0. (k, OGrant g) \<in> set kos \<longrightarrow> om_find k (au_grants a) = Some g0 \<or> (k, OGrant g0) \<in> set kos \<longrightarrow>
        gr_request g0 = gr_request g)"

lemma keeps_requestsD:
  "keeps_requests a kos \<Longrightarrow> (k, OGrant g) \<in> set kos \<Longrightarrow> om_find k (au_grants a) = Some g0 \<or> (k, OGrant g0) \<in> set kos \<Longrightarrow>
     gr_request g0 = gr_request g"
  unfolding keeps_requests_def by iprover

lemma store_object_lasting_tables:
  "tables_wf a \<Longrightarrow> lasting_tables a \<Longrightarrow> (filed ob \<Longrightarrow> lasting_entry k ob) \<Longrightarrow> store_object k ob a = Inr a' \<Longrightarrow>
     lasting_tables a'"
  by (cases ob)
     (auto simp: store_object_def Let_def lasting_tables_def tables_wf_def om_find_put split: if_splits option.splits)

lemma store_object_lasting_config:
  "lasting_config a \<Longrightarrow> store_object k ob a = Inr a' \<Longrightarrow> lasting_config a'"
  by (cases ob) (auto simp: store_object_def Let_def lasting_config_def split: if_splits option.splits)

lemma index_exact_put:
  assumes "om_wf gs" and "om_wf idx"
    and idx: "\<And>r j. om_find r idx = Some j \<longleftrightarrow> \<not> is_nil r \<and> (\<exists>g. om_find j gs = Some g \<and> gr_request g = r)"
    and same: "\<And>g0. om_find k gs = Some g0 \<Longrightarrow> gr_request g0 = gr_request g"
    and free: "\<And>j. om_find (gr_request g) idx = Some j \<Longrightarrow> j = k"
  shows "om_find r (if is_nil (gr_request g) then idx else om_put (gr_request g) k idx) = Some j \<longleftrightarrow>
     \<not> is_nil r \<and> (\<exists>g'. om_find j (om_put k g gs) = Some g' \<and> gr_request g' = r)"
proof (cases "r = gr_request g \<and> \<not> is_nil r")
  case True
  have "j = k" if "om_find j gs = Some g1" "gr_request g1 = r" for g1
  proof -
    have "om_find r idx = Some j" using idx [of r j] that True by auto
    then show ?thesis using free True by simp
  qed
  with True show ?thesis by (auto simp: om_find_put assms(1,2))
next
  case False
  have "om_find r (if is_nil (gr_request g) then idx else om_put (gr_request g) k idx) = om_find r idx \<or> is_nil r"
    using False by (auto simp: om_find_put assms(2))
  moreover have "is_nil r \<Longrightarrow> om_find r idx = None" using idx by (metis not_Some_eq)
  moreover have "is_nil r \<Longrightarrow> r \<noteq> gr_request g \<or> is_nil (gr_request g)" by auto
  ultimately show ?thesis using False same by (cases "j = k") (auto simp: om_find_put assms(1,2) idx)
qed

lemma store_object_index_exact:
  assumes "tables_wf a" and "index_exact a" and "keeps_requests a [(k, ob)]" and "store_object k ob a = Inr a'"
  shows "index_exact a'"
proof (cases ob)
  case (OGrant g)
  have wf: "om_wf (au_grants a)" "om_wf (au_request_index a)" using assms(1) by (simp_all add: tables_wf_def)
  have a': "au_grants a' = om_put k g (au_grants a)"
    "au_request_index a' = (if is_nil (gr_request g) then au_request_index a else om_put (gr_request g) k (au_request_index a))"
    and free: "is_nil (gr_request g) \<or> (\<forall>j. om_find (gr_request g) (au_request_index a) = Some j \<longrightarrow> j = k)"
    using assms(4) OGrant by (auto simp: store_object_def Let_def split: if_splits option.splits)
  have idx: "om_find r (au_request_index a) = Some j \<longleftrightarrow>
      \<not> is_nil r \<and> (\<exists>g. om_find j (au_grants a) = Some g \<and> gr_request g = r)" for r j
    using assms(2) unfolding index_exact_def by blast
  show ?thesis unfolding index_exact_def a'
  proof (intro allI index_exact_put [OF wf idx])
    show "om_find k (au_grants a) = Some g0 \<Longrightarrow> gr_request g0 = gr_request g" for g0
      using assms(3) OGrant by (simp add: keeps_requests_def)
    show "om_find (gr_request g) (au_request_index a) = Some j \<Longrightarrow> j = k" for j
      using free idx [of "gr_request g" j] by auto
  qed
qed (use assms(2,4) in \<open>auto simp: store_object_def Let_def index_exact_def split: if_splits\<close>)

lemma store_object_lasting:
  assumes "lasting a" and "filed ob \<Longrightarrow> lasting_entry k ob" and "keeps_requests a [(k, ob)]"
    and "store_object k ob a = Inr a'"
  shows "lasting a'"
proof -
  have l: "tables_wf a" "lasting_tables a" "index_exact a" "lasting_config a" using assms(1) by (simp_all add: lasting_def)
  show ?thesis
    unfolding lasting_def
    using store_object_tables_wf [OF l(1) assms(4)] store_object_lasting_tables [OF l(1,2) assms(2) assms(4)]
      store_object_index_exact [OF l(1,3) assms(3,4)] store_object_lasting_config [OF l(4) assms(4)] by simp
qed

lemma keeps_requests_step:
  assumes "tables_wf a" and "keeps_requests a ((k, ob) # kos)" and "store_object k ob a = Inr a'"
  shows "keeps_requests a' kos" and "keeps_requests a [(k, ob)]"
proof -
  have step: "om_find j (au_grants a) = Some g \<or> (j, OGrant g) = (k, ob)" if "om_find j (au_grants a') = Some g" for j g
    using assms(1,3) that
    by (cases ob) (auto simp: store_object_def Let_def tables_wf_def om_find_put split: if_splits option.splits)
  show "keeps_requests a' kos" unfolding keeps_requests_def
  proof (intro allI impI)
    fix j g g0
    assume g: "(j, OGrant g) \<in> set kos" and g0: "om_find j (au_grants a') = Some g0 \<or> (j, OGrant g0) \<in> set kos"
    have "om_find j (au_grants a) = Some g0 \<or> (j, OGrant g0) \<in> set ((k, ob) # kos)"
      using g0 step [of j g0] by (cases "(j, OGrant g0) \<in> set kos") simp_all
    with g show "gr_request g0 = gr_request g" by (intro keeps_requestsD [OF assms(2)]) simp_all
  qed
  show "keeps_requests a [(k, ob)]" unfolding keeps_requests_def
  proof (intro allI impI)
    fix j g g0
    assume "(j, OGrant g) \<in> set [(k, ob)]" "om_find j (au_grants a) = Some g0 \<or> (j, OGrant g0) \<in> set [(k, ob)]"
    then show "gr_request g0 = gr_request g" by (intro keeps_requestsD [OF assms(2)]) auto
  qed
qed

lemma store_objects_lasting:
  "lasting a \<Longrightarrow> \<forall>(k, ob) \<in> set kos. filed ob \<longrightarrow> lasting_entry k ob \<Longrightarrow> keeps_requests a kos \<Longrightarrow>
     lasting (snd (store_objects kos a))"
proof (induction kos a rule: store_objects.induct)
  case (2 k ob kos a)
  show ?case
  proof (cases "store_object k ob a")
    case (Inr a')
    have wf: "tables_wf a" using "2.prems"(1) by (simp add: lasting_def)
    have "lasting a'"
      using store_object_lasting [OF "2.prems"(1) _ keeps_requests_step(2) [OF wf "2.prems"(3) Inr] Inr] "2.prems"(2) by simp
    with "2.IH" [OF Inr] "2.prems"(2) keeps_requests_step(1) [OF wf "2.prems"(3) Inr] Inr show ?thesis by simp
  qed (use "2.prems"(1) in simp)
qed simp

section \<open>Planned images\<close>

definition lasting_images :: "authority \<Rightarrow> post_image list \<Rightarrow> bool" where
  "lasting_images a imgs \<longleftrightarrow>
     images_sized imgs \<and> (\<forall>(ob, rel) \<in> set imgs. filed ob \<longrightarrow> \<not> is_nil (object_key ob)) \<and>
     keeps_requests a (map (\<lambda>(ob, rel). (object_key ob, ob)) imgs)"

lemma clip_clip: "object_sized ob \<Longrightarrow> object_ok ob \<Longrightarrow> object_sized (clip ob) \<and> object_ok (clip ob) \<and> clip (clip ob) = clip ob"
  by (cases ob) (simp_all add: clean_bounded_def)

lemma filed_clip [simp]: "filed (clip ob) = filed ob"
  by (cases ob) simp_all

lemma lasting_note [simp]: "lasting (note_recovered_arbitration arb a) = lasting a"
  by (simp add: lasting_def tables_wf_def lasting_tables_def index_exact_def lasting_config_def)

lemma keeps_requests_mono:
  assumes "keeps_requests a kos" and "set kos' \<subseteq> set kos"
  shows "keeps_requests a kos'"
  unfolding keeps_requests_def
proof (intro allI impI)
  fix k g g0
  assume "(k, OGrant g) \<in> set kos'" "om_find k (au_grants a) = Some g0 \<or> (k, OGrant g0) \<in> set kos'"
  then show "gr_request g0 = gr_request g" using assms(2) by (intro keeps_requestsD [OF assms(1)]) auto
qed

lemma decoded_grant:
  assumes "(k, OGrant g) \<in> set (decoded_images imgs)"
  obtains h where "(k, OGrant h) \<in> set (map (\<lambda>(ob, rel). (object_key ob, ob)) imgs)" and "gr_request h = gr_request g"
proof -
  obtain ob rel where ob: "(ob, rel) \<in> set imgs" "k = object_key ob" "OGrant g = clip ob"
    using assms unfolding in_decoded_images by blast
  then obtain h where h: "ob = OGrant h" "gr_request h = gr_request g" by (cases ob) simp_all
  have "(\<lambda>(ob, rel). (object_key ob, ob)) (ob, rel) \<in> set (map (\<lambda>(ob, rel). (object_key ob, ob)) imgs)"
    unfolding set_map by (rule imageI [OF ob(1)])
  with ob(2) h show ?thesis by (intro that [of h]) simp_all
qed

lemma keeps_requests_clip:
  assumes "keeps_requests a (map (\<lambda>(ob, rel). (object_key ob, ob)) imgs)"
  shows "keeps_requests a (decoded_images imgs)"
  unfolding keeps_requests_def
proof (intro allI impI)
  fix k g g0
  assume g: "(k, OGrant g) \<in> set (decoded_images imgs)"
    and g0: "om_find k (au_grants a) = Some g0 \<or> (k, OGrant g0) \<in> set (decoded_images imgs)"
  obtain h where h: "(k, OGrant h) \<in> set (map (\<lambda>(ob, rel). (object_key ob, ob)) imgs)" "gr_request h = gr_request g"
    by (rule decoded_grant [OF g])
  note same = keeps_requestsD [OF assms h(1)]
  from g0 show "gr_request g0 = gr_request g"
  proof
    assume "(k, OGrant g0) \<in> set (decoded_images imgs)"
    then obtain h0 where "(k, OGrant h0) \<in> set (map (\<lambda>(ob, rel). (object_key ob, ob)) imgs)" "gr_request h0 = gr_request g0"
      by (rule decoded_grant)
    with same [of h0] h(2) show ?thesis by simp
  qed (use same [of g0] h(2) in simp)
qed

lemma apply_lasting:
  assumes "lasting a" and "lasting_images a imgs" and "apply_changes (map (\<lambda>(ob, rel). change_for ob rel) imgs) arb a = (StOk, b)"
  shows "lasting b"
proof -
  have sized: "\<forall>(ob, rel) \<in> set imgs. object_sized ob" using assms(2) by (simp add: lasting_images_def images_sized_def)
  obtain a' where ok: "\<forall>(ob, rel) \<in> set imgs. object_ok ob" and st: "store_objects (decoded_images imgs) a = (StOk, a')"
    and b: "b = note_recovered_arbitration arb a'"
    using assms(3) decode_changes_for [OF sized] by (auto simp: apply_changes_def split: if_splits prod.splits)
  have "\<forall>(k, ob) \<in> set (decoded_images imgs). filed ob \<longrightarrow> lasting_entry k ob"
    using assms(2) sized ok clip_clip by (force simp: in_decoded_images lasting_entry_def lasting_images_def)
  with assms(2) show ?thesis
    using store_objects_lasting [OF assms(1) _ keeps_requests_clip, of imgs] st b by (simp add: lasting_images_def)
qed

lemma lasting_images_filter: "lasting_images a imgs \<Longrightarrow> lasting_images a (filter P imgs)"
  unfolding lasting_images_def images_sized_def by (auto elim!: keeps_requests_mono)

text \<open>Every object other than a grant that a plan files has an identity.\<close>

definition images_named :: "post_image list \<Rightarrow> bool" where
  "images_named imgs \<longleftrightarrow> (\<forall>(ob, rel) \<in> set imgs. filed ob \<longrightarrow> (\<exists>g. ob = OGrant g) \<or> \<not> is_nil (object_key ob))"

lemma images_named_simps [simp]:
  "images_named []"
  "images_named ((ob, rel) # imgs) \<longleftrightarrow> (filed ob \<longrightarrow> (\<exists>g. ob = OGrant g) \<or> \<not> is_nil (object_key ob)) \<and> images_named imgs"
  "images_named (imgs @ imgs') \<longleftrightarrow> images_named imgs \<and> images_named imgs'"
  "images_named (concat (map f xs)) \<longleftrightarrow> (\<forall>x \<in> set xs. images_named (f x))"
  by (auto simp: images_named_def)

lemma downgrades_named [simp]: "images_named (append_downgrades a reason site path now_ms)"
  using append_downgrades_image by (fastforce simp: images_named_def)

lemma rebalance_named [simp]: "images_named (rebalance_path a path pol now_ms reason rp rc)"
  using rebalance_image by (fastforce simp: images_named_def)

lemma tick_grant_named [simp]: "images_named (tick_grant now_ms g)"
  by (simp add: tick_grant_def)

lemma lasting_site:
  "lasting a \<Longrightarrow> om_find k (au_sites a) = Some s \<Longrightarrow> sr_id s = k \<and> \<not> is_nil k"
  unfolding lasting_def lasting_tables_def lasting_entry_def by fastforce

lemma lasting_path:
  "lasting a \<Longrightarrow> om_find k (au_paths a) = Some p \<Longrightarrow> pr_id p = k \<and> \<not> is_nil k"
  unfolding lasting_def lasting_tables_def lasting_entry_def by fastforce

lemma lasting_grant:
  "lasting a \<Longrightarrow> om_find k (au_grants a) = Some g \<Longrightarrow> gr_id g = k \<and> \<not> is_nil k"
  unfolding lasting_def lasting_tables_def lasting_entry_def by fastforce

lemma lasting_site_val: "lasting a \<Longrightarrow> s \<in> set (om_vals (au_sites a)) \<Longrightarrow> \<not> is_nil (sr_id s)"
  using lasting_site by (fastforce simp: om_vals_def lasting_def tables_wf_def om_in_iff)

lemma tick_site_named: "\<not> is_nil (sr_id site) \<Longrightarrow> images_named (tick_site a now_ms site)"
  by (simp add: tick_site_def Let_def)

lemma from_seed_named [simp]: "\<not> is_nil (from_seed x y)"
  by (auto simp: from_seed_def Let_def is_nil_def split: prod.splits)

lemma derive_named [simp]: "\<not> is_nil (derive_grant_id arb p)"
  by (simp add: derive_grant_id_def)

lemma plan_request_named:
  assumes "lasting a" and "plan_request a rq arb = Inr mu"
  shows "images_named (mu_images mu)"
proof (cases rq)
  case (RqTick now_ms)
  have "plan_tick a now_ms arb = Inr mu" using assms(2) RqTick by (simp add: plan_request_def)
  then have "mu_images mu = concat (map (tick_site a now_ms) (om_vals (au_sites a))) @
      concat (map (tick_grant now_ms) (om_vals (au_grants a)))"
    by (auto simp: plan_tick_def Let_def simp del: append_is_Nil_conv split: if_splits)
  then show ?thesis using tick_site_named [OF lasting_site_val [OF assms(1)]] by simp
qed (use assms in \<open>auto simp: plan_request_def plan_install_policy_def plan_bump_epoch_def plan_heartbeat_def
    plan_register_site_def plan_register_path_def domain_images_def fresh_path_def reregistered_path_def registered_domain_def
    plan_set_site_state_def plan_set_path_state_def plan_attest_capacity_def
    plan_issue_oversubscription_def plan_propose_grant_def plan_evaluate_grant_def
    plan_reserve_grant_def plan_activate_grant_def plan_degrade_grant_def plan_withdraw_grant_def
    plan_retire_grant_def plan_cancel_grant_def plan_acknowledge_grant_def plan_verify_grant_def
    plan_reconcile_grant_def path_in_state_def attested_path_def Let_def
    split: if_splits option.splits sum.splits dest: lasting_site lasting_path\<close>)

lemma legal_grant_image:
  assumes "structure_ok a" and "lasting a" and "plan_request a rq arb = Inr mu" and "(OGrant g, rel) \<in> set (mu_images mu)"
  shows "\<not> is_nil (gr_id g)"
    and "(\<exists>g0. om_find (gr_id g) (au_grants a) = Some g0 \<and> gr_request g0 = gr_request g) \<or>
      om_find (gr_id g) (au_grants a) = None \<and> (\<exists>p. rq = RqProposeGrant p \<and> gr_request g = gp_request p)"
proof -
  have legal: "image_of_grant a rq g rel \<or> new_grant a rq g"
    using plan_request_legal [OF assms(1,3)] assms(4) by (auto simp: legal_post_image_def)
  then show "(\<exists>g0. om_find (gr_id g) (au_grants a) = Some g0 \<and> gr_request g0 = gr_request g) \<or>
      om_find (gr_id g) (au_grants a) = None \<and> (\<exists>p. rq = RqProposeGrant p \<and> gr_request g = gp_request p)"
    by (auto simp: image_of_grant_def new_grant_def legal_image_def same_grant_def)
  from legal show "\<not> is_nil (gr_id g)"
  proof
    assume "image_of_grant a rq g rel"
    then show ?thesis using lasting_grant [OF assms(2)] by (auto simp: image_of_grant_def)
  next
    assume "new_grant a rq g"
    then obtain p where "rq = RqProposeGrant p" by (auto simp: new_grant_def)
    then show ?thesis using assms(3,4)
      by (auto simp: plan_request_def plan_propose_grant_def Let_def split: if_splits option.splits)
  qed
qed

lemma plan_lasting:
  assumes "structure_ok a" and "lasting a" and "plan_request a rq arb = Inr mu"
  shows "lasting_images a (mu_images mu)"
proof -
  note grant = legal_grant_image [OF assms]
  have "images_sized (mu_images mu)" using plan_request_sized [OF assms(1,3)] by simp
  moreover have "\<forall>(ob, rel) \<in> set (mu_images mu). filed ob \<longrightarrow> \<not> is_nil (object_key ob)"
    using plan_request_named [OF assms(2,3)] grant(1) by (fastforce simp: images_named_def)
  moreover have "keeps_requests a (map (\<lambda>(ob, rel). (object_key ob, ob)) (mu_images mu))"
    unfolding keeps_requests_def
  proof (intro allI impI)
    fix k g g0
    let ?kos = "map (\<lambda>(ob, rel). (object_key ob, ob)) (mu_images mu)"
    assume g: "(k, OGrant g) \<in> set ?kos" and g0: "om_find k (au_grants a) = Some g0 \<or> (k, OGrant g0) \<in> set ?kos"
    have image: "\<exists>rel. (OGrant h, rel) \<in> set (mu_images mu) \<and> k = gr_id h" if "(k, OGrant h) \<in> set ?kos" for h
      using that by auto
    obtain rel where rel: "(OGrant g, rel) \<in> set (mu_images mu)" "k = gr_id g" using image [OF g] by blast
    from g0 show "gr_request g0 = gr_request g"
    proof
      assume "(k, OGrant g0) \<in> set ?kos"
      then obtain rel0 where "(OGrant g0, rel0) \<in> set (mu_images mu)" "k = gr_id g0" using image by blast
      from grant(2) [OF this(1)] grant(2) [OF rel(1)] rel(2) this(2) show ?thesis by auto
    qed (use grant(2) [OF rel(1)] rel(2) in auto)
  qed
  ultimately show ?thesis by (simp add: lasting_images_def)
qed

section \<open>Marks\<close>

lemma lasting_regrant:
  assumes "lasting a" and "om_wf gs"
    and "\<And>k. rel_option (\<lambda>g g'. gr_request g' = gr_request g \<and> lasting_entry k (OGrant g')) (om_find k (au_grants a)) (om_find k gs)"
  shows "lasting (a\<lparr>au_grants := gs\<rparr>)"
proof -
  have old: "\<exists>g. om_find k (au_grants a) = Some g \<and> gr_request g' = gr_request g \<and> lasting_entry k (OGrant g')"
    if "om_find k gs = Some g'" for k g'
    using assms(3) [of k] that by (cases "om_find k (au_grants a)") simp_all
  have fresh: "\<exists>g'. om_find k gs = Some g' \<and> gr_request g' = gr_request g" if "om_find k (au_grants a) = Some g" for k g
    using assms(3) [of k] that by (cases "om_find k gs") simp_all
  have "index_exact (a\<lparr>au_grants := gs\<rparr>)" unfolding index_exact_def
  proof (intro allI)
    fix r k
    have "(\<exists>g. om_find k (au_grants a) = Some g \<and> gr_request g = r) \<longleftrightarrow> (\<exists>g. om_find k gs = Some g \<and> gr_request g = r)"
      using old [of k] fresh [of k] by metis
    then show "om_find r (au_request_index (a\<lparr>au_grants := gs\<rparr>)) = Some k \<longleftrightarrow>
        \<not> is_nil r \<and> (\<exists>g. om_find k (au_grants (a\<lparr>au_grants := gs\<rparr>)) = Some g \<and> gr_request g = r)"
      using assms(1) by (simp add: lasting_def index_exact_def)
  qed
  moreover have "lasting_tables (a\<lparr>au_grants := gs\<rparr>)"
    using assms(1) old by (simp add: lasting_def lasting_tables_def) blast
  ultimately show ?thesis using assms(1,2) by (simp add: lasting_def tables_wf_def lasting_config_def)
qed

lemma lasting_grant_entry: "lasting a \<Longrightarrow> om_find k (au_grants a) = Some g \<Longrightarrow> lasting_entry k (OGrant g)"
  unfolding lasting_def lasting_tables_def by blast

lemma lasting_om_map:
  assumes "lasting a" and "\<And>g. gr_id (f g) = gr_id g \<and> gr_request (f g) = gr_request g \<and> gr_reason (f g) = gr_reason g"
  shows "lasting (a\<lparr>au_grants := om_map f (au_grants a)\<rparr>)"
proof (rule lasting_regrant [OF assms(1)])
  show "om_wf (om_map f (au_grants a))" using assms(1) by (simp add: lasting_def tables_wf_def)
  show "rel_option (\<lambda>g g'. gr_request g' = gr_request g \<and> lasting_entry k (OGrant g')) (om_find k (au_grants a))
      (om_find k (om_map f (au_grants a)))" for k
  proof (cases "om_find k (au_grants a)")
    case (Some g)
    have "f g\<lparr>gr_reason := take 512 (gr_reason (f g))\<rparr> = f g"
      using lasting_grant_entry [OF assms(1) Some] assms(2) [of g]
      by (cases "f g"; cases g) (auto simp: lasting_entry_def)
    with lasting_grant_entry [OF assms(1) Some] assms(2) [of g] show ?thesis
      by (simp add: Some lasting_entry_def)
  qed simp
qed

lemma mark_all_lasting: "lasting a \<Longrightarrow> lasting (mark_all_historical a)"
proof -
  let ?f = "\<lambda>g. if is_terminal (gr_state g) then g else g\<lparr>gr_historical := True\<rparr>"
  assume "lasting a"
  moreover have "mark_all_historical a = a\<lparr>au_grants := om_map ?f (au_grants a)\<rparr>"
    by (simp add: mark_all_historical_def om_map_def)
  ultimately show ?thesis by (simp add: lasting_om_map)
qed

lemma ambiguous_text: "bounded kAmbiguousText = kAmbiguousText" "take 512 kAmbiguousText = kAmbiguousText"
  "is_valid_utf8 kAmbiguousText"
  by code_simp+

lemma mark_recovered_lasting:
  assumes "lasting a" and "reason = [] \<or> reason = kAmbiguousText"
  shows "lasting (snd (mark_recovered k prov amb reason a))"
proof (cases "om_find k (au_grants a)")
  case (Some g)
  have wf: "om_wf (au_grants a)" using assms(1) by (simp add: lasting_def tables_wf_def)
  define g' where "g' = (if reason = [] then g\<lparr>gr_provenance := prov, gr_historical := True, gr_ambiguous := amb\<rparr>
    else g\<lparr>gr_provenance := prov, gr_historical := True, gr_ambiguous := amb, gr_reason := bounded reason\<rparr>)\<lparr>gr_verification := VsUnverified\<rparr>"
  have m: "snd (mark_recovered k prov amb reason a) = a\<lparr>au_grants := om_put k g' (au_grants a)\<rparr>"
    by (simp add: mark_recovered_def Some Let_def g'_def)
  have e: "lasting_entry j (OGrant h)" if "om_find j (au_grants a) = Some h" for j h
    by (rule lasting_grant_entry [OF assms(1) that])
  have g': "lasting_entry k (OGrant g')" "gr_request g' = gr_request g"
    using e [OF Some] assms(2) ambiguous_text
    by (cases g; cases "reason = []"; simp add: lasting_entry_def g'_def clean_bounded_def)+
  show ?thesis unfolding m
  proof (rule lasting_regrant [OF assms(1) om_put_wf [OF wf]])
    show "rel_option (\<lambda>g g'. gr_request g' = gr_request g \<and> lasting_entry j (OGrant g')) (om_find j (au_grants a))
        (om_find j (om_put k g' (au_grants a)))" for j
      using g' Some e [of j] by (cases "om_find j (au_grants a)") (auto simp: om_find_put [OF wf])
  qed
qed (use assms in \<open>simp add: mark_recovered_def\<close>)

lemma mark_changes_lasting: "lasting a \<Longrightarrow> mark_changes amb cs a = Inr b \<Longrightarrow> lasting b"
proof (induction cs arbitrary: a)
  case (Cons c cs)
  show ?case
  proof (cases "sc_kind c \<noteq> OkGrant \<or> find_grant a (sc_key c) = None")
    case False
    let ?m = "if amb then mark_recovered (sc_key c) PvAmbiguousCommit True kAmbiguousText a
      else mark_recovered (sc_key c) PvRecoveredFromLog False [] a"
    have "lasting (snd ?m)" using mark_recovered_lasting [OF Cons.prems(1)] by simp
    moreover have "mark_changes amb cs (snd ?m) = Inr b"
      using Cons.prems(2) False by (auto split: prod.splits if_splits)
    ultimately show ?thesis by (rule Cons.IH)
  qed (use Cons in simp)
qed simp

section \<open>Restoring a snapshot\<close>

lemma om_find_map_of: "om_find k m = map_of m k"
  by (induction m) auto

lemma put_all_self:
  assumes "om_wf m" and "om_wf m0" and "om_keys m0 \<subseteq> om_keys m"
  shows "put_all m m0 = m"
proof (rule om_eqI [OF put_all_wf [OF assms(2)] assms(1)])
  fix k
  have "map_of (rev m) k = om_find k m"
    using om_wf_distinct [OF assms(1)] map_of_inject_set [of "rev m" m] by (simp add: om_find_map_of rev_map [symmetric])
  moreover have "om_find k m = None \<Longrightarrow> om_find k m0 = None" using assms(3) by (auto simp: om_find_None)
  ultimately show "om_find k (put_all m m0) = om_find k m"
    using put_all_find [OF assms(2), of k m] by (simp split: option.splits)
qed

lemma load_records_all:
  "\<forall>(k, v) \<in> set m. ident v = k \<and> \<not> is_nil k \<Longrightarrow> load_records ident (om_vals m) m0 = Inr (put_all m m0)"
  by (induction m arbitrary: m0) (auto simp: om_vals_def)

lemma load_records_table:
  assumes "om_wf m" and "om_wf m0" and "om_keys m0 \<subseteq> om_keys m"
    and "\<And>k v. om_find k m = Some v \<Longrightarrow> ident v = k \<and> \<not> is_nil k"
  shows "load_records ident (om_vals m) m0 = Inr m"
proof -
  have "\<forall>(k, v) \<in> set m. ident v = k \<and> \<not> is_nil k" using assms(1,4) by (auto simp: om_in_iff)
  from load_records_all [OF this] show ?thesis using put_all_self [OF assms(1-3)] by simp
qed

text \<open>Loading the grants rebuilds the index of requests.\<close>

definition request_entries :: "(id128 \<times> grant_record) list \<Rightarrow> (id128 \<times> id128) list" where
  "request_entries kgs = map (\<lambda>(k, g). (gr_request g, k)) (filter (\<lambda>(k, g). \<not> is_nil (gr_request g)) kgs)"

lemma load_grants_all:
  assumes "\<forall>(k, g) \<in> set kgs. gr_id g = k \<and> \<not> is_nil k \<and> (\<not> is_nil (gr_request g) \<longrightarrow> om_find (gr_request g) I = Some k)"
    and "\<forall>r k. om_find r idx = Some k \<longrightarrow> om_find r I = Some k" and "om_wf idx"
  shows "load_grants (map snd kgs) (m, idx) = Inr (put_all (om_map recover_grant kgs) m, put_all (request_entries kgs) idx)"
  using assms
proof (induction kgs arbitrary: m idx)
  case Nil
  then show ?case by (simp add: om_map_def request_entries_def)
next
  case (Cons kg kgs)
  obtain k g where kg: "kg = (k, g)" by (cases kg)
  have g: "gr_id g = k" "\<not> is_nil k" "\<not> is_nil (gr_request g) \<Longrightarrow> om_find (gr_request g) I = Some k"
    using Cons.prems(1) by (auto simp: kg)
  let ?m = "om_put k (recover_grant g) m"
  let ?idx = "if is_nil (gr_request g) then idx else om_put (gr_request g) k idx"
  have "om_find (gr_request g) idx = Some other \<Longrightarrow> \<not> is_nil (gr_request g) \<Longrightarrow> other = k" for other
    using Cons.prems(2) g(3) by fastforce
  then have step: "load_grants (map snd (kg # kgs)) (m, idx) = load_grants (map snd kgs) (?m, ?idx)"
    using g(1,2) by (auto simp: kg Let_def split: option.splits)
  have "\<forall>r j. om_find r ?idx = Some j \<longrightarrow> om_find r I = Some j"
    using Cons.prems(2) g(3) by (auto simp: om_find_put [OF Cons.prems(3)])
  moreover have "om_wf ?idx" using Cons.prems(3) by (simp add: om_put_wf)
  ultimately show ?case
    using Cons.IH [of ?idx ?m] Cons.prems(1) unfolding step by (simp add: kg om_map_def request_entries_def)
qed

lemma request_entries_table:
  assumes "lasting a"
  shows "put_all (request_entries (au_grants a)) [] = au_request_index a"
proof -
  have wf: "om_wf (au_request_index a)" "om_wf (au_grants a)" using assms by (simp_all add: lasting_def tables_wf_def)
  have idx: "om_find r (au_request_index a) = Some k \<longleftrightarrow>
      \<not> is_nil r \<and> (\<exists>g. om_find k (au_grants a) = Some g \<and> gr_request g = r)" for r k
    using assms by (simp add: lasting_def index_exact_def)
  have entries: "(r, k) \<in> set (request_entries (au_grants a)) \<longleftrightarrow> om_find r (au_request_index a) = Some k" for r k
    unfolding idx by (force simp: request_entries_def om_in_iff [OF wf(2)])
  show ?thesis
  proof (rule om_eqI [OF put_all_wf [OF om_wf_Nil] wf(1)])
    fix r
    show "om_find r (put_all (request_entries (au_grants a)) []) = om_find r (au_request_index a)"
    proof (cases "map_of (rev (request_entries (au_grants a))) r")
      case None
      then have "(r, k) \<notin> set (request_entries (au_grants a))" for k
        by (force simp: map_of_eq_None_iff)
      then have "om_find r (au_request_index a) = None" using entries [of r] by (cases "om_find r (au_request_index a)") auto
      with None show ?thesis by (simp add: put_all_find)
    next
      case (Some k)
      then have "(r, k) \<in> set (request_entries (au_grants a))" by (metis map_of_SomeD set_rev)
      with Some entries show ?thesis by (simp add: put_all_find)
    qed
  qed
qed

lemma recover_grant_sel [simp]:
  "gr_id (recover_grant g) = gr_id g" "gr_request (recover_grant g) = gr_request g" "gr_reason (recover_grant g) = gr_reason g"
  "unmark (recover_grant g) = unmark g"
  by (simp_all add: recover_grant_def Let_def)

lemma recover_grant_cautious:
  "gr_state (recover_grant g) = gr_state g"
  "\<not> is_terminal (gr_state g) \<Longrightarrow> gr_historical (recover_grant g) \<and> gr_verification (recover_grant g) = VsUnverified"
  by (simp_all add: recover_grant_def Let_def)

definition restored :: "incarnation \<Rightarrow> authority_config \<Rightarrow> authority \<Rightarrow> authority" where
  "restored rnd cfg a =
     a\<lparr>au_config := (au_config (new_authority rnd cfg))\<lparr>ac_policy := au_policy a, ac_epoch := au_epoch a\<rparr>,
       au_grants := om_map recover_grant (au_grants a)\<rparr>"

lemma snapshot_restores:
  assumes "lasting a"
  shows "from_snapshot rnd cfg (snapshot a) = Inr (restored rnd cfg a)"
proof -
  let ?n = "new_authority rnd cfg"
  have wf: "om_wf (au_sites a)" "om_wf (au_paths a)" "om_wf (au_domains a)" "om_wf (au_attestations a)" "om_wf (au_grants a)"
    "om_wf (au_verifications a)" "om_wf (au_oversubscriptions a)"
    using assms by (simp_all add: lasting_def tables_wf_def)
  have t: "lasting_tables a" and c: "policy_validate (au_policy a) = StOk" "au_epoch a \<noteq> 0"
    using assms by (simp_all add: lasting_def lasting_config_def)
  note e = t [unfolded lasting_tables_def lasting_entry_def, simplified]
  have empty: "au_sites ?n = []" "au_paths ?n = []" "au_attestations ?n = []" "au_grants ?n = []" "au_request_index ?n = []"
    "au_verifications ?n = []" "au_oversubscriptions ?n = []" "au_domains ?n = [(sd_id default_domain, default_domain)]"
    by (simp_all add: new_authority_def Let_def)
  have domains: "load_records sd_id (om_vals (au_domains a)) (au_domains ?n) = Inr (au_domains a)"
    by (rule load_records_table [OF wf(3)]) (use e in \<open>auto simp: empty om_wf_Cons om_find_keys [symmetric]\<close>)
  have loads: "load_records sr_id (om_vals (au_sites a)) [] = Inr (au_sites a)"
    "load_records pr_id (om_vals (au_paths a)) [] = Inr (au_paths a)"
    "load_records ca_id (om_vals (au_attestations a)) [] = Inr (au_attestations a)"
    "load_records vr_id (om_vals (au_verifications a)) [] = Inr (au_verifications a)"
    "load_records oa_id (om_vals (au_oversubscriptions a)) [] = Inr (au_oversubscriptions a)"
    using e by (auto intro!: load_records_table wf)
  have "\<forall>(k, g) \<in> set (au_grants a). gr_id g = k \<and> \<not> is_nil k \<and>
      (\<not> is_nil (gr_request g) \<longrightarrow> om_find (gr_request g) (au_request_index a) = Some k)"
    using e assms by (auto simp: om_in_iff [OF wf(5)] lasting_def index_exact_def)
  from load_grants_all [OF this, of "[]" "[]"]
  have grants: "load_grants (om_vals (au_grants a)) ([], []) = Inr (om_map recover_grant (au_grants a), au_request_index a)"
    using wf(5) by (simp add: om_vals_def put_all_self request_entries_table [OF assms])
  show ?thesis
    using c by (simp add: from_snapshot_def snapshot_def sites_def paths_def domains_def attestations_def grants_def verifications_def
        oversubscriptions_def Let_def empty(1-7) domains loads grants restored_def)
qed

lemma restored_lasting: 
  assumes "lasting a" and "lasting_config (new_authority rnd cfg)"
  shows "lasting (restored rnd cfg a)"
proof -
  have "lasting (a\<lparr>au_grants := om_map recover_grant (au_grants a)\<rparr>)" by (rule lasting_om_map [OF assms(1)]) simp
  with assms show ?thesis
    by (simp add: lasting_def tables_wf_def lasting_tables_def index_exact_def lasting_config_def restored_def)
qed

lemma restored_erase:
  assumes "lasting a" and "lasting_config (new_authority rnd cfg)"
  shows "erase (restored rnd cfg a) = erase a"
proof -
  have "unmark \<circ> recover_grant = unmark" by (simp add: comp_def)
  moreover have "(au_config (new_authority rnd cfg))\<lparr>ac_policy := au_policy a, ac_epoch := au_epoch a, ac_incarnation := nil_id\<rparr> =
      (au_config a)\<lparr>ac_incarnation := nil_id\<rparr>"
    using assms unfolding lasting_def lasting_config_def
    by (cases "au_config a"; cases "au_config (new_authority rnd cfg)") (auto simp: default_config_def)
  ultimately show ?thesis by (simp add: erase_def restored_def om_map_map)
qed

lemma new_lasting:
  assumes "policy_validate (do_policy opts) = StOk"
  shows "lasting (new_authority rnd (replay_config opts))"
proof -
  have g: "\<not> generation_is_nil (po_generation (do_policy opts))"
    using assms by (auto simp: policy_validate_def split: if_splits)
  have d: "lasting_entry (sd_id default_domain) (ODomain default_domain)"
  proof -
    have "\<not> is_nil (sd_id default_domain)" by (simp add: default_domain_def)
    moreover have "clean (sd_name default_domain)" "clean (sd_description default_domain)" by code_simp+
    moreover have "length (sd_name default_domain) < 2 ^ 32" "length (sd_description default_domain) < 2 ^ 32"
      by (simp_all add: default_domain_def)
    ultimately show ?thesis by (simp add: lasting_entry_def)
  qed
  show ?thesis
    using assms g d
    by (simp add: lasting_def tables_wf_def lasting_tables_def index_exact_def lasting_config_def new_authority_def
        replay_config_def default_config_def Let_def om_wf_Cons)
qed

section \<open>The bytes of a snapshot\<close>

lemma record_lengths:
  "16 \<le> length (encode_site v1)" "16 \<le> length (encode_path v2)" "16 \<le> length (encode_domain v3)"
  "16 \<le> length (encode_attestation v4)" "16 \<le> length (encode_grant v5)" "16 \<le> length (encode_verification v6)"
  "16 \<le> length (encode_oversubscription v7)"
  by (simp_all add: encode_site_def encode_path_def encode_domain_def encode_attestation_def
      encode_grant_def encode_verification_def encode_oversubscription_def)

lemma concat_length_ge:
  assumes "\<And>v. 16 \<le> length (enc v)"
  shows "16 * length vs \<le> length (concat (map enc vs))"
proof (induction vs)
  case (Cons v vs)
  then show ?case using assms [of v] by simp
qed simp

lemma list_fits:
  assumes "length (w_list enc vs) \<le> 16777216" and "\<And>v. 16 \<le> length (enc v)"
  shows "length vs \<le> 1048576" and "length vs < 2 ^ 32"
  using assms(1) concat_length_ge [of enc vs, OF assms(2)] by (simp_all add: w_list_def)

lemma restorable_vals:
  assumes "om_wf m" and "\<And>k v. om_find k m = Some v \<Longrightarrow> lasting_entry k (wrap v)" and "max_string lim = 4096"
  shows "\<forall>v \<in> set (om_vals m). restorable lim (wrap v)"
  using assms by (auto simp: om_vals_def om_in_iff restorable_def lasting_entry_def)

lemma decode_encode_snapshot:
  assumes "lasting a" and "length (encode_snapshot (snapshot a)) \<le> 16777216" and "max_string lim = 4096" and "max_container lim = 1048576"
  shows "decode_snapshot lim (encode_snapshot (snapshot a)) = Inr (snapshot a, [])"
proof -
  let ?s = "snapshot a"
  have len: "length (w_list encode_site (sn_sites ?s)) \<le> 16777216" "length (w_list encode_path (sn_paths ?s)) \<le> 16777216"
    "length (w_list encode_domain (sn_domains ?s)) \<le> 16777216" "length (w_list encode_attestation (sn_attestations ?s)) \<le> 16777216"
    "length (w_list encode_grant (sn_grants ?s)) \<le> 16777216" "length (w_list encode_verification (sn_verifications ?s)) \<le> 16777216"
    "length (w_list encode_oversubscription (sn_oversubscriptions ?s)) \<le> 16777216"
    using assms(2) unfolding encode_snapshot_def by simp_all
  have wf: "om_wf (au_sites a)" "om_wf (au_paths a)" "om_wf (au_domains a)" "om_wf (au_attestations a)" "om_wf (au_grants a)"
    "om_wf (au_verifications a)" "om_wf (au_oversubscriptions a)"
    using assms by (simp_all add: lasting_def tables_wf_def)
  note e = assms(1) [unfolded lasting_def lasting_tables_def]
  note snaps = snapshot_def sites_def paths_def domains_def attestations_def grants_def verifications_def oversubscriptions_def
  have "\<forall>v \<in> set (sn_sites ?s). restorable lim (OSite v)" "\<forall>v \<in> set (sn_paths ?s). restorable lim (OPath v)"
    "\<forall>v \<in> set (sn_domains ?s). restorable lim (ODomain v)" "\<forall>v \<in> set (sn_attestations ?s). restorable lim (OAttestation v)"
    "\<forall>v \<in> set (sn_grants ?s). restorable lim (OGrant v)" "\<forall>v \<in> set (sn_verifications ?s). restorable lim (OVerification v)"
    unfolding snaps authority_snapshot.simps using e by (intro restorable_vals wf assms(3); blast)+
  note ok = this
  show ?thesis unfolding encode_snapshot_def decode_snapshot_def
    by (simp add: rbind_ok append_assoc r_u64_w r_id128_w decode_policy_encode
        site_codec.counted [OF ok(1) list_fits(2) [OF len(1) record_lengths(1)]] list_fits(1) [OF len(1) record_lengths(1)]
        path_codec.counted [OF ok(2) list_fits(2) [OF len(2) record_lengths(2)]] list_fits(1) [OF len(2) record_lengths(2)]
        domain_codec.counted [OF ok(3) list_fits(2) [OF len(3) record_lengths(3)]] list_fits(1) [OF len(3) record_lengths(3)]
        attestation_codec.counted [OF ok(4) list_fits(2) [OF len(4) record_lengths(4)]] list_fits(1) [OF len(4) record_lengths(4)]
        grant_codec.counted [OF ok(5) list_fits(2) [OF len(5) record_lengths(5)]] list_fits(1) [OF len(5) record_lengths(5)]
        verification_codec.counted [OF ok(6) list_fits(2) [OF len(6) record_lengths(6)]] list_fits(1) [OF len(6) record_lengths(6)]
        oversubscription_codec.counted [OF _ list_fits(2) [OF len(7) record_lengths(7)]] list_fits(1) [OF len(7) record_lengths(7)]
        r_u64_w [where rest = "[]", simplified] rreturn_def assms(4))
qed

text \<open>The log after a compaction: one record, whose scan yields the snapshot.\<close>

definition snapshot_action :: "log_record \<Rightarrow> authority_snapshot \<Rightarrow> replay_action" where
  "snapshot_action r snap =
     \<lparr>ra_kind = RkSnapshot snap, ra_at = lr_at r, ra_intent = lr_intent r, ra_origin = lr_origin r,
      ra_committed = True, ra_ambiguous = False, ra_aborted = False\<rparr>"

lemma snapshot_scan:
  assumes "lasting a" and "length (encode_snapshot (snapshot a)) \<le> 16777216" and "r = snapshot_record (snapshot a) at origin"
  obtains s where "process_all opts [r] scan_start = Some s" and "ss_open s = None"
    and "ss_actions s = [snapshot_action r (snapshot a)]"
proof -
  let ?lim = "\<lparr>max_bytes = so_max_record_bytes opts, max_string = 4096, max_container = 1048576, max_nesting = 8\<rparr>"
  have dec: "decode_snapshot ?lim (encode_snapshot (snapshot a)) = Inr (snapshot a, [])"
    by (rule decode_encode_snapshot [OF assms(1,2)]) simp_all
  have "\<exists>u. process_record opts r scan_start = (u, True) \<and> ss_open u = None \<and> ss_actions u = [snapshot_action r (snapshot a)]"
    by (cases "is_nil origin")
       (simp_all add: process_record_def assms(3) snapshot_record_def dec Let_def snapshot_action_def scan_start_def)
  then obtain u where "process_record opts r scan_start = (u, True)" "ss_open u = None" "ss_actions u = [snapshot_action r (snapshot a)]"
    by blast
  then show ?thesis
    by (intro that [of "advance_scan r (record_chain (ss_chain scan_start) (ss_sequence scan_start) r) u"])
       (simp_all add: advance_scan_def)
qed

lemma compacted_log_file: "compacted_log sid r = log_file sid [r]"
  by (simp add: compacted_log_def log_file_def)

text \<open>What a successful compaction leaves, and when it leaves everything as it is.\<close>

lemma compact_holds:
  assumes "store_compact fs sid snap at origin st = (StOk, st')" and "fits (st_options st) r"
    and "r = snapshot_record snap at origin" and "process_all (st_options st) [r] scan_start \<noteq> None"
  shows "holds_log sid [r] st'" and "st_options st' = st_options st" and "st_durable st \<Longrightarrow> on_disk st'"
proof -
  have f: "st_open st'" "dk_primary (st_disk st') = Some (compacted_log sid r)" "st_chain st' = record_chain digest_zero 1 r"
    "st_beyond st' = []" "st_sequence st' = 2" "st_log_bytes st' = 216 + length (lr_payload r)" "st_record_count st' = 1"
    and o: "st_options st' = st_options st" and d: "st_durable st' = st_durable st"
    and y: "st_synced st' = length (compacted_log sid r)"
    using assms(1) by (auto simp: store_compact_def Let_def assms(3) store_sizes split: if_splits)
  show "st_durable st \<Longrightarrow> on_disk st'" by (simp add: on_disk_def d y f(2) primary_bytes_def)
  show "st_options st' = st_options st" by (rule o)
  show "holds_log sid [r] st'"
    using assms(2,4) by (simp add: holds_log_def f o compacted_log_file del: process_all.simps) (simp add: log_file_def)
qed

end
