(* ===== verification/Recovery.thy ===== *)
theory Recovery
  imports Snapshots
begin

text \<open>
  The daemon and its log. While it serves, a daemon's log replays to the state in memory, up to
  the recovery marks; committing keeps this, and starting on whatever prefix of the log a crash
  left gives the state before the commit, after it, or with the part of it that frees nothing.
\<close>

section \<open>Replaying\<close>

lemma new_authority_erase:
  "erase (new_authority rnd (replay_config (opts\<lparr>do_incarnation := inc\<rparr>))) =
   erase (new_authority rnd' (replay_config opts))"
  by (simp add: erase_def new_authority_def replay_config_def default_config_def Let_def)

lemma erase_request:
  assumes "erase b = erase a" and "om_find k (au_grants a) = Some g"
  obtains h where "om_find k (au_grants b) = Some h" and "gr_request h = gr_request g"
proof -
  have "om_map unmark (au_grants b) = om_map unmark (au_grants a)" using assms(1) by (metis erase_sel(5))
  then have "map_option unmark (om_find k (au_grants b)) = Some (unmark g)"
    using assms(2) om_find_map [of k unmark "au_grants b"] om_find_map [of k unmark "au_grants a"] by simp
  then obtain h where h: "om_find k (au_grants b) = Some h" "unmark h = unmark g" by auto
  then have "gr_request (unmark h) = gr_request (unmark g)" by simp
  then show ?thesis using h(1) that by simp
qed

lemma keeps_requests_erase:
  assumes "erase b = erase a" and "keeps_requests b kos"
  shows "keeps_requests a kos"
  unfolding keeps_requests_def
proof (intro allI impI)
  fix k g g0
  assume g: "(k, OGrant g) \<in> set kos" and "om_find k (au_grants a) = Some g0 \<or> (k, OGrant g0) \<in> set kos"
  then show "gr_request g0 = gr_request g"
  proof (elim disjE)
    assume "om_find k (au_grants a) = Some g0"
    then obtain h where "om_find k (au_grants b) = Some h" "gr_request h = gr_request g0"
      by (rule erase_request [OF assms(1)])
    then show ?thesis using keeps_requestsD [OF assms(2) g, of h] by simp
  qed (rule keeps_requestsD [OF assms(2) g], simp)
qed

lemma lasting_images_erase:
  assumes "erase b = erase a"
  shows "lasting_images b imgs \<longleftrightarrow> lasting_images a imgs"
  using keeps_requests_erase [OF assms] keeps_requests_erase [OF assms [symmetric]] by (auto simp: lasting_images_def)

lemma effective_images:
  "effective_changes amb (map (\<lambda>(ob, rel). change_for ob rel) imgs) =
     map (\<lambda>(ob, rel). change_for ob rel) (filter (\<lambda>(ob, rel). \<not> (amb \<and> rel)) imgs)"
  by (induction imgs) (auto simp: effective_changes_def)

lemma replay_changes_erase:
  assumes "structure_ok a" and "erase b = erase a" and "lasting b" and "lasting_images a imgs"
    and "cs = map (\<lambda>(ob, rel). change_for ob rel) imgs" and "apply_changes (effective_changes amb cs) arb a = (StOk, a')"
  obtains b' where "replay_changes amb cs arb b = Inr b'" and "erase b' = erase a'" and "lasting b'"
proof -
  obtain b1 where b1: "apply_changes (effective_changes amb cs) arb b = (StOk, b1)" "erase b1 = erase a'"
    using apply_same_but_marks [OF assms(2), of "effective_changes amb cs" arb] assms(6)
    by (cases "apply_changes (effective_changes amb cs) arb b") simp
  have "structure_ok b" using assms(1,2) structure_erase by metis
  then have "structure_ok b1" using apply_structure [of b "effective_changes amb cs" arb] b1(1) by simp
  then have "om_wf (au_grants b1)" by (simp add: structure_ok_def tables_wf_def)
  then obtain b' where b': "mark_changes amb cs b1 = Inr b'" "erase b' = erase b1"
    using mark_changes_erase by blast
  have "lasting_images b (filter (\<lambda>(ob, rel). \<not> (amb \<and> rel)) imgs)"
    using assms(4) by (simp add: lasting_images_erase [OF assms(2)] lasting_images_filter)
  then have "lasting b1" using apply_lasting [OF assms(3)] b1(1) by (simp add: assms(5) effective_images)
  with b1 b' that mark_changes_lasting show ?thesis by (simp add: replay_changes_def)
qed

text \<open>Replaying the actions, in whatever incarnation, gives the state up to marks.\<close>

definition recovers_to :: "daemon_options \<Rightarrow> replay_action list \<Rightarrow> authority \<Rightarrow> bool" where
  "recovers_to opts acts a \<longleftrightarrow>
     (\<forall>rnd inc. \<exists>b n.
        replay_all rnd (replay_config (opts\<lparr>do_incarnation := inc\<rparr>)) acts
          (new_authority rnd (replay_config (opts\<lparr>do_incarnation := inc\<rparr>)), 0) = Inr (b, n) \<and> erase b = erase a \<and> lasting b)"

lemma recovers_nothing:
  assumes "policy_validate (do_policy opts) = StOk"
  shows "recovers_to opts [] (new_authority rnd (replay_config opts))"
  using assms by (auto simp: recovers_to_def new_authority_erase intro!: new_lasting)

lemma recovers_cong: "erase a = erase a' \<Longrightarrow> recovers_to opts acts a \<longleftrightarrow> recovers_to opts acts a'"
  by (simp add: recovers_to_def)

lemma recovers_incarnation: "recovers_to (opts\<lparr>do_incarnation := inc\<rparr>) acts a \<longleftrightarrow> recovers_to opts acts a"
  by (simp add: recovers_to_def)

lemma replay_all_append:
  "replay_all rnd cfg (acts @ acts') st = ebind (replay_all rnd cfg acts st) (replay_all rnd cfg acts')"
  by (induction acts arbitrary: st) (auto simp: ebind_def split: sum.splits)

lemma recovers_step:
  assumes "recovers_to opts acts a" and "structure_ok a"
    and "ra_kind act = RkChanges cs arb" and "amb = (ra_ambiguous act \<or> ra_aborted act)"
    and "apply_changes (effective_changes amb cs) arb a = (StOk, a')"
    and "lasting_images a imgs" and "cs = map (\<lambda>(ob, rel). change_for ob rel) imgs"
  shows "recovers_to opts (acts @ [act]) a'"
  unfolding recovers_to_def
proof (intro allI)
  fix rnd inc
  let ?cfg = "replay_config (opts\<lparr>do_incarnation := inc\<rparr>)"
  obtain b n where b: "replay_all rnd ?cfg acts (new_authority rnd ?cfg, 0) = Inr (b, n)" "erase b = erase a" "lasting b"
    using assms(1) unfolding recovers_to_def by blast
  obtain b' where "replay_changes amb cs arb b = Inr b'" "erase b' = erase a'" "lasting b'"
    by (rule replay_changes_erase [OF assms(2) b(2,3) assms(6,7,5)])
  then show "\<exists>b n. replay_all rnd ?cfg (acts @ [act]) (new_authority rnd ?cfg, 0) = Inr (b, n) \<and> erase b = erase a' \<and> lasting b"
    using b(1) assms(3,4) by (auto simp: replay_all_append replay_one_def Let_def)
qed

lemma apply_replay_recovers:
  assumes "recovers_to opts acts a"
  obtains b n where "erase b = erase a" and "lasting b"
    and "apply_replay rnd (opts\<lparr>do_incarnation := inc\<rparr>) acts =
      (if verify_invariants b \<noteq> StOk then Inl (verify_invariants b) else Inr (b, n))"
proof -
  let ?opts = "opts\<lparr>do_incarnation := inc\<rparr>"
  obtain b n where b: "replay_all rnd (replay_config ?opts) acts (new_authority rnd (replay_config ?opts), 0) = Inr (b, n)"
    "erase b = erase a" "lasting b"
    using assms unfolding recovers_to_def by blast
  show ?thesis
    by (rule that [of "mark_all_historical b" n])
       (simp_all add: apply_replay_def Let_def b mark_all_historical_erase mark_all_lasting)
qed

section \<open>The log of a serving daemon\<close>

definition mirrors :: "id128 \<Rightarrow> log_record list \<Rightarrow> daemon \<Rightarrow> bool" where
  "mirrors sid rs dm \<longleftrightarrow>
     holds_log sid rs (dm_store dm) \<and> on_disk (dm_store dm) \<and> st_options (dm_store dm) = do_store (dm_options dm) \<and>
     (\<exists>s. process_all (do_store (dm_options dm)) rs scan_start = Some s \<and> ss_open s = None \<and>
          recovers_to (dm_options dm) (map mark_ambiguous (ss_actions s)) (dm_authority dm))"

text \<open>The mutation was planned in a well-formed state.\<close>

definition admissible :: "authority \<Rightarrow> mutation \<Rightarrow> bool" where
  "admissible a mu \<longleftrightarrow> structure_ok a \<and> lasting_images a (mu_images mu)"

text \<open>The records of one mutation.\<close>

definition mutation_intent :: "u64 \<Rightarrow> mutation \<Rightarrow> arb_seq \<Rightarrow> u64 \<Rightarrow> daemon \<Rightarrow> log_record" where
  "mutation_intent intent mu arb now dm =
     intent_record intent arb (mu_changes mu) now (do_incarnation (dm_options dm))"

lemma encode_change_length: "22 + length (sc_image c) \<le> length (encode_state_change c)"
  by (simp add: encode_state_change_def w_enum_def)

lemma intent_fits:
  assumes "length (encode_intent_payload intent arb cs) \<le> 16777216"
  shows "\<forall>c \<in> set cs. change_fits store_limits c" and "length cs \<le> 1048576"
proof -
  have total: "length (concat (map encode_state_change cs)) \<le> 16777196"
    using assms by (simp add: encode_intent_payload_def w_list_def)
  have "length (encode_state_change c) \<le> length (concat (map encode_state_change cs))" if "c \<in> set cs" for c
    using that by (induction cs) auto
  then show "\<forall>c \<in> set cs. change_fits store_limits c"
    using total encode_change_length
    by (fastforce simp: change_fits_def store_limits_def dest: order_trans)
  have "22 * length cs \<le> length (concat (map encode_state_change cs))"
  proof (induction cs)
    case (Cons c cs)
    then show ?case using encode_change_length [of c] by simp
  qed simp
  then show "length cs \<le> 1048576" using total by linarith
qed

text \<open>Scanning an unfinished, a committed, and an aborted mutation.\<close>

lemma set_last_append [simp]: "set_last f (xs @ [x]) = xs @ [f x]"
  by (simp add: set_last_def)

definition action_of :: "log_record \<Rightarrow> state_change list \<Rightarrow> arb_seq \<Rightarrow> replay_action" where
  "action_of r cs arb =
     \<lparr>ra_kind = RkChanges cs arb, ra_at = lr_at r, ra_intent = lr_intent r, ra_origin = lr_origin r,
      ra_committed = False, ra_ambiguous = False, ra_aborted = False\<rparr>"

lemma process_mutation:
  assumes "process_all opts rs scan_start = Some s" and "ss_open s = None"
    and "length (encode_intent_payload i arb cs) \<le> 16777216"
    and "r = intent_record i arb cs t origin"
  obtains s1 s2 s3
  where "process_all opts (rs @ [r]) scan_start = Some s1" and "ss_open s1 = Some i"
    and "ss_actions s1 = ss_actions s @ [action_of r cs arb]"
    and "process_all opts (rs @ [r, commit_record i t']) scan_start = Some s2" and "ss_open s2 = None"
    and "ss_actions s2 = ss_actions s @ [(action_of r cs arb)\<lparr>ra_committed := True\<rparr>]"
    and "process_all opts (rs @ [r, abort_record i t'']) scan_start = Some s3" and "ss_open s3 = None"
    and "ss_actions s3 = ss_actions s @ [(action_of r cs arb)\<lparr>ra_committed := True, ra_aborted := True\<rparr>]"
proof -
  let ?u = "s\<lparr>ss_last_incarnation := (if is_nil origin then ss_last_incarnation s else origin),
       ss_actions := ss_actions s @ [action_of r cs arb], ss_open := Some i\<rparr>"
  let ?v = "advance_scan r (record_chain (ss_chain s) (ss_sequence s) r) ?u"
  have one: "process_record opts r s = (?u, True)"
    unfolding assms(4) using intent_scan [OF intent_fits [OF assms(3)] assms(2)]
    by (simp add: action_of_def intent_record_def)
  have two: "process_record opts (commit_record i t') ?v =
      (?v\<lparr>ss_actions := ss_actions s @ [(action_of r cs arb)\<lparr>ra_committed := True\<rparr>], ss_open := None\<rparr>, True)"
    by (simp add: process_record_def commit_record_def advance_scan_def is_nil_def nil_id_def Let_def)
  have three: "process_record opts (abort_record i t'') ?v =
      (?v\<lparr>ss_actions := ss_actions s @ [(action_of r cs arb)\<lparr>ra_committed := True, ra_aborted := True\<rparr>],
         ss_open := None\<rparr>, True)"
    by (simp add: process_record_def abort_record_def advance_scan_def is_nil_def nil_id_def Let_def)
  show ?thesis
    by (rule that)
       (simp_all add: process_all_append assms(1) one two three, simp_all add: advance_scan_def)
qed

text \<open>The prefixes of a log that ends with one mutation.\<close>

lemma two_prefixes:
  assumes "[x, y] = kept @ lost"
  obtains "kept = []" | "kept = [x]" | "kept = [x, y]"
  using assms by (cases kept rule: list.exhaust; cases "tl kept") (auto simp: Cons_eq_append_conv)

section \<open>Committing\<close>

lemma flush_effect:
  "store_flush fs st = (status, st') \<Longrightarrow> \<exists>n. st' = st\<lparr>st_synced := n\<rparr>"
  "store_flush fs st = (StOk, st') \<Longrightarrow> st_durable st \<Longrightarrow> on_disk st'"
proof -
  have "st = st\<lparr>st_synced := st_synced st\<rparr>" by simp
  then show "store_flush fs st = (status, st') \<Longrightarrow> \<exists>n. st' = st\<lparr>st_synced := n\<rparr>"
    unfolding store_flush_def sync_file_def by (metis prod.inject)
qed (auto simp: store_flush_def sync_file_def on_disk_def split: if_splits)

lemma durable_ok:
  assumes "durable fs (write_record fs True r st) = (StOk, st')"
  obtains st0 n where "write_record fs True r st = (StOk, st0)" and "st' = st0\<lparr>st_synced := n\<rparr>" and "st_durable st0 \<Longrightarrow> on_disk st'"
proof -
  obtain st0 where "write_record fs True r st = (StOk, st0)" "store_flush fs st0 = (StOk, st')"
    using assms by (auto simp: durable_def split: prod.splits if_splits)
  with flush_effect [of fs st0] that show ?thesis by metis
qed

lemma durable_holds:
  assumes "holds_log sid rs st" and "durable fs (write_record fs True r st) = (StOk, st')"
    and "process_all (st_options st) (rs @ [r]) scan_start \<noteq> None" and "length (lr_payload r) < 2 ^ 32"
  shows "holds_log sid (rs @ [r]) st'" and "st_options st' = st_options st" and "on_disk st \<Longrightarrow> on_disk st'"
proof -
  obtain st0 n where st0: "write_record fs True r st = (StOk, st0)" "st' = st0\<lparr>st_synced := n\<rparr>" "st_durable st0 \<Longrightarrow> on_disk st'"
    by (rule durable_ok [OF assms(2)]) metis
  note held = write_record_holds [OF assms(1) st0(1) assms(3,4)]
  show "holds_log sid (rs @ [r]) st'" "st_options st' = st_options st" using held st0(2) by simp_all
  show "on_disk st \<Longrightarrow> on_disk st'" using held(4) st0(3) by (simp add: on_disk_def)
qed

text \<open>Whatever the file system answers, an append leaves a prefix of the extended log.\<close>

lemma durable_leaves:
  assumes "holds_log sid rs st" and "durable fs (write_record fs True r st) = (w, st')"
    and "so_max_record_bytes (st_options st) \<le> 16777216"
  obtains (nothing) "w \<noteq> StOk" "dk_primary (st_disk st') = Some (log_file sid rs)"
    | (cut) k where "fits (st_options st) r" "dk_primary (st_disk st') = Some (take k (log_file sid (rs @ [r])))"
        "length (log_file sid rs) \<le> k" "w = StOk \<Longrightarrow> k = length (log_file sid (rs @ [r]))"
proof -
  let ?img = "record_image (st_chain st) (st_sequence st) r"
  have log: "log_file sid (rs @ [r]) = log_file sid rs @ ?img"
    using assms(1) by (simp add: log_file_def log_image_append holds_log_def)
  obtain w0 st0 where w0: "write_record fs True r st = (w0, st0)" "w = StOk \<Longrightarrow> w0 = StOk" "w0 \<noteq> StOk \<Longrightarrow> w \<noteq> StOk"
    and disk: "st_disk st' = st_disk st0"
    using assms(2) flush_effect(1) [of fs] by (fastforce simp: durable_def split: prod.splits if_splits)
  have "w0 \<noteq> StOk \<and> st0 = st \<or> length (lr_payload r) \<le> so_max_record_bytes (st_options st) \<and>
      (\<exists>k. dk_primary (st_disk st0) = Some (log_file sid rs @ take k ?img) \<and> (w0 = StOk \<longrightarrow> k = length ?img))"
    using w0(1) assms(1) unfolding write_record_def Let_def 
    by (auto simp: append_at_end holds_log_def split: if_splits)
  then consider "w \<noteq> StOk" "dk_primary (st_disk st') = Some (log_file sid rs)"
    | k where "length (lr_payload r) \<le> so_max_record_bytes (st_options st)"
        "dk_primary (st_disk st') = Some (log_file sid rs @ take k ?img)" "w = StOk \<longrightarrow> k = length ?img"
    using w0(2,3) assms(1) by (auto simp: holds_log_def disk)
  then show ?thesis
  proof cases
    case 2
    then show ?thesis using assms(3)
      by (intro cut [of "length (log_file sid rs) + k"]) (auto simp: log fits_def)
  qed (rule nothing)
qed

lemma commit_okE:
  assumes "commit sx mu arb dm = (StOk, dm')"
  obtains st1 st2 a' where
    "durable (sx_intent_fs sx) (write_record (sx_intent_fs sx) True
        (mutation_intent (dm_intent_counter dm + 1) mu arb (sx_now sx) dm) (dm_store dm)) = (StOk, st1)"
    and "apply_changes (mu_changes mu) arb (dm_authority dm) = (StOk, a')"
    and "durable (sx_commit_fs sx) (write_record (sx_commit_fs sx) True
        (commit_record (dm_intent_counter dm + 1) (sx_now sx)) st1) = (StOk, st2)"
    and "dm' = snd (maybe_compact sx (dm\<lparr>dm_intent_counter := dm_intent_counter dm + 1, dm_authority := a', dm_store := st2\<rparr>))"
  using assms
  by (auto simp: commit_def Let_def append_intent_def append_commit_def mutation_intent_def
      split: prod.splits if_splits)

lemma commit_mirrors:
  assumes "mirrors sid rs dm" and "admissible (dm_authority dm) mu"
    and "so_max_record_bytes (do_store (dm_options dm)) \<le> 16777216" and "commit sx mu arb dm = (StOk, dm')"
  obtains dm1 where "dm' = snd (maybe_compact sx dm1)" and "dm_options dm1 = dm_options dm"
    and "apply_changes (mu_changes mu) arb (dm_authority dm) = (StOk, dm_authority dm1)"
    and "mirrors sid (rs @ [mutation_intent (dm_intent_counter dm + 1) mu arb (sx_now sx) dm,
      commit_record (dm_intent_counter dm + 1) (sx_now sx)]) dm1"
proof -
  let ?i = "dm_intent_counter dm + 1"
  let ?I = "mutation_intent ?i mu arb (sx_now sx) dm" and ?C = "commit_record ?i (sx_now sx)"
  obtain st1 st2 a' where st1: "durable (sx_intent_fs sx) (write_record (sx_intent_fs sx) True ?I (dm_store dm)) = (StOk, st1)"
    and a': "apply_changes (mu_changes mu) arb (dm_authority dm) = (StOk, a')"
    and st2: "durable (sx_commit_fs sx) (write_record (sx_commit_fs sx) True ?C st1) = (StOk, st2)"
    and dm': "dm' = snd (maybe_compact sx (dm\<lparr>dm_intent_counter := ?i, dm_authority := a', dm_store := st2\<rparr>))"
    by (rule commit_okE [OF assms(4)])
  obtain s where holds: "holds_log sid rs (dm_store dm)" and opts: "st_options (dm_store dm) = do_store (dm_options dm)"
    and s: "process_all (do_store (dm_options dm)) rs scan_start = Some s" "ss_open s = None"
    and rec: "recovers_to (dm_options dm) (map mark_ambiguous (ss_actions s)) (dm_authority dm)"
    and od: "on_disk (dm_store dm)"
    using assms(1) by (auto simp: mirrors_def)
  have "length (lr_payload ?I) \<le> so_max_record_bytes (do_store (dm_options dm))"
    by (rule durable_ok [OF st1]) (auto simp: write_record_def Let_def opts split: if_splits)
  then have len: "length (encode_intent_payload ?i arb (mu_changes mu)) \<le> 16777216"
    using assms(3) by (simp add: mutation_intent_def intent_record_def)
  obtain s1 s2 s3 where "process_all (do_store (dm_options dm)) (rs @ [?I]) scan_start = Some s1"
    and s2: "process_all (do_store (dm_options dm)) (rs @ [?I, ?C]) scan_start = Some s2" "ss_open s2 = None"
      "ss_actions s2 = ss_actions s @ [(action_of ?I (mu_changes mu) arb)\<lparr>ra_committed := True\<rparr>]"
    using process_mutation [OF s len refl] by (metis mutation_intent_def)
  note s1 = this(1)
  have pay: "length (lr_payload ?I) < 2 ^ 32" "length (lr_payload ?C) < 2 ^ 32"
    using len by (simp_all add: mutation_intent_def intent_record_def commit_record_def)
  have "holds_log sid (rs @ [?I]) st1" "st_options st1 = do_store (dm_options dm)"
    using durable_holds [OF holds st1 _ pay(1)] s1 opts by simp_all
  moreover have "on_disk st1" using durable_holds(3) [OF holds st1 _ pay(1)] s1 opts od by simp
  ultimately have h2: "holds_log sid (rs @ [?I, ?C]) st2" "st_options st2 = do_store (dm_options dm)" "on_disk st2"
    using durable_holds [OF _ st2 _ pay(2), of sid "rs @ [?I]"] s2 by simp_all
  have str: "structure_ok (dm_authority dm)" and lst: "lasting_images (dm_authority dm) (mu_images mu)"
    using assms(2) by (simp_all add: admissible_def)
  have "recovers_to (dm_options dm) (map mark_ambiguous (ss_actions s2)) a'"
    unfolding s2(3) map_append list.map
    by (rule recovers_step [OF rec str, of _ "mu_changes mu" arb False, OF _ _ _ lst mu_changes_def])
       (simp_all add: mark_ambiguous_def action_of_def effective_changes_def a')
  then have "mirrors sid (rs @ [?I, ?C]) (dm\<lparr>dm_intent_counter := ?i, dm_authority := a', dm_store := st2\<rparr>)"
    using h2 s2 by (simp add: mirrors_def)
  with that [OF dm'] a' show ?thesis by simp
qed


section \<open>Restarting\<close>

text \<open>The options under which the theorems on restarts hold.\<close>

definition sound_options :: "daemon_options \<Rightarrow> bool" where
  "sound_options opts \<longleftrightarrow>
     do_state_path opts \<noteq> [] \<and> policy_validate (do_policy opts) = StOk \<and>
     8 \<le> so_max_record_bytes (do_store opts) \<and> so_max_record_bytes (do_store opts) \<le> 16777216 \<and>
     so_max_log_bytes (do_store opts) \<le> 9223372036854775807 \<and> so_truncate_unreadable_tail (do_store opts) \<and>
     so_durable_writes (do_store opts)"

definition restartable :: "store_options \<Rightarrow> id128 \<Rightarrow> log_record list \<Rightarrow> bool" where
  "restartable opts sid rs \<longleftrightarrow>
     process_all opts rs scan_start \<noteq> None \<and> (\<forall>r \<in> set rs. fits opts r) \<and>
     length (log_file sid rs) + 96 \<le> so_max_log_bytes opts \<and> length rs < so_max_records opts"

lemma start_crashed:
  assumes "sound_options opts" and "restartable (do_store opts) sid (rs @ e)" and "\<forall>c. fs_ok (sx_intent_fs sx) c"
    and "length (log_file sid rs) \<le> n" and "n \<le> length (log_file sid (rs @ e))"
  obtains res st kept s lost where "e = kept @ lost" and "n = length (log_file sid (rs @ e)) \<Longrightarrow> lost = []"
    and "process_all (do_store opts) (rs @ kept) scan_start = Some s"
    and "holds_log sid (rs @ kept @ closing s) st" and "st_options st = do_store opts" and "on_disk st"
    and "daemon_start sx opts (only_log (take n (log_file sid (rs @ e)))) =
      (case apply_replay (sx_random sx) opts (map mark_ambiguous (ss_actions s)) of
         Inl x \<Rightarrow> (Inl x, st_disk (shut_store (sx_commit_fs sx) (sx_now sx) st))
       | Inr (a, k) \<Rightarrow> (Inr (daemon_of opts res st a k (sx_now sx)), st_disk st))"
proof -
  let ?d = "only_log (take n (log_file sid (rs @ e)))"
  have opts: "do_state_path opts \<noteq> []" "policy_validate (do_policy opts) = StOk"
    using assms(1) by (simp_all add: sound_options_def)
  have p: "process_all (do_store opts) (rs @ e) scan_start \<noteq> None" "\<forall>r \<in> set (rs @ e). fits (do_store opts) r"
    "length (log_file sid (rs @ e)) + 96 \<le> so_max_log_bytes (do_store opts)"
    "length (rs @ e) < so_max_records (do_store opts)" "8 \<le> so_max_record_bytes (do_store opts)"
    "so_max_log_bytes (do_store opts) \<le> 9223372036854775807" "so_truncate_unreadable_tail (do_store opts)"
    using assms(1,2) unfolding sound_options_def restartable_def by blast+
  obtain res st kept s lost where
    op: "store_open (sx_intent_fs sx) (sx_store_id sx) (do_state_path opts) (do_store opts) (new_store ?d) = (Inr res, st)"
    and sv: "servable (rp_report res)" and e: "e = kept @ lost"
    and s: "process_all (do_store opts) (rs @ kept) scan_start = Some s"
    and acts: "rp_actions res = map mark_ambiguous (ss_actions s)"
    and h: "holds_log sid (rs @ kept @ closing s) st" "st_options st = do_store opts" "on_disk st"
    and all: "n = length (log_file sid (rs @ e)) \<Longrightarrow> lost = []"
    by (rule open_crashed [OF p(1,2) assms(4,5) p(3-7) opts(1) assms(3), where sid' = "sx_store_id sx"])
       (use assms(1) in \<open>simp add: sound_options_def\<close>)
  show ?thesis
    by (rule that [OF e all s h, of res]) (simp_all add: daemon_start_def opts op sv acts)
qed

text \<open>A restart that succeeds applied what it replayed.\<close>

lemma replay_last:
  assumes "recovers_to opts acts a" and "ra_kind act = RkChanges cs arb"
    and "amb = (ra_ambiguous act \<or> ra_aborted act)"
    and "apply_replay rnd (opts\<lparr>do_incarnation := inc\<rparr>) (acts @ [act]) = Inr (b, n)"
  obtains a' where "apply_changes (effective_changes amb cs) arb a = (StOk, a')"
proof -
  let ?cfg = "replay_config (opts\<lparr>do_incarnation := inc\<rparr>)"
  obtain b0 k where b0: "replay_all rnd ?cfg acts (new_authority rnd ?cfg, 0) = Inr (b0, k)" "erase b0 = erase a"
    using assms(1) unfolding recovers_to_def by blast
  have "\<exists>b1. replay_changes amb cs arb b0 = Inr b1"
    using assms(2-4) b0(1)
    by (auto simp: apply_replay_def Let_def replay_all_append replay_one_def ebind_def split: sum.splits)
  then have "fst (apply_changes (effective_changes amb cs) arb b0) = StOk"
    by (auto simp: replay_changes_def split: prod.splits if_splits)
  then have "fst (apply_changes (effective_changes amb cs) arb a) = StOk"
    using apply_same_but_marks [OF b0(2), of "effective_changes amb cs" arb] by simp
  with that show ?thesis by (metis prod.collapse)
qed

text \<open>
  The log \<open>rs\<close>, scanned to \<open>s\<close>, stands for the state \<open>b\<close>: it replays to \<open>b\<close>, and so does the
  log once an open intent is closed.
\<close>

definition settles :: "daemon_options \<Rightarrow> log_record list \<Rightarrow> scan_state \<Rightarrow> authority \<Rightarrow> bool" where
  "settles opts rs s b \<longleftrightarrow>
     recovers_to opts (map mark_ambiguous (ss_actions s)) b \<and>
     (\<exists>s'. process_all (do_store opts) (rs @ closing s) scan_start = Some s' \<and> ss_open s' = None \<and>
           recovers_to opts (map mark_ambiguous (ss_actions s')) b)"

lemma mirrors_settles:
  assumes "mirrors sid rs dm" and "process_all (do_store (dm_options dm)) rs scan_start = Some s"
  shows "settles (dm_options dm) rs s (dm_authority dm)" and "ss_open s = None"
  using assms by (auto simp: mirrors_def settles_def closing_def)

lemma settles_mutation:
  fixes t t' :: u64
  assumes "mirrors sid rs dm" and adm: "admissible (dm_authority dm) mu"
    and "length (encode_intent_payload i arb (mu_changes mu)) \<le> 16777216"
  defines "opts \<equiv> dm_options dm" and "I \<equiv> mutation_intent i mu arb t dm" and "C \<equiv> commit_record i t'"
  obtains s1 s2 where "process_all (do_store opts) (rs @ [I]) scan_start = Some s1"
    and "process_all (do_store opts) (rs @ [I, C]) scan_start = Some s2" and "ss_open s2 = None"
    and "\<And>b. apply_changes (filter (\<lambda>c. \<not> sc_releases_capacity c) (mu_changes mu)) arb (dm_authority dm) = (StOk, b) \<Longrightarrow>
      settles opts (rs @ [I]) s1 b"
    and "\<And>b. apply_changes (mu_changes mu) arb (dm_authority dm) = (StOk, b) \<Longrightarrow> settles opts (rs @ [I, C]) s2 b"
    and "\<And>rnd inc b n. apply_replay rnd (opts\<lparr>do_incarnation := inc\<rparr>) (map mark_ambiguous (ss_actions s1)) = Inr (b, n) \<Longrightarrow>
      fst (apply_changes (filter (\<lambda>c. \<not> sc_releases_capacity c) (mu_changes mu)) arb (dm_authority dm)) = StOk"
proof -
  let ?act = "action_of I (mu_changes mu) arb" and ?cs = "mu_changes mu" and ?a = "dm_authority dm"
  let ?part = "filter (\<lambda>c. \<not> sc_releases_capacity c) ?cs"
  obtain s where s: "process_all (do_store opts) rs scan_start = Some s" "ss_open s = None"
    and rec: "recovers_to opts (map mark_ambiguous (ss_actions s)) ?a"
    using assms(1) by (auto simp: mirrors_def opts_def)
  obtain s1 s2 s3 where
    s1: "process_all (do_store opts) (rs @ [I]) scan_start = Some s1" "ss_open s1 = Some i"
      "ss_actions s1 = ss_actions s @ [?act]"
    and s2: "process_all (do_store opts) (rs @ [I, C]) scan_start = Some s2" "ss_open s2 = None"
      "ss_actions s2 = ss_actions s @ [?act\<lparr>ra_committed := True\<rparr>]"
    and s3: "process_all (do_store opts) (rs @ [I, abort_record i 0]) scan_start = Some s3" "ss_open s3 = None"
      "ss_actions s3 = ss_actions s @ [?act\<lparr>ra_committed := True, ra_aborted := True\<rparr>]"
    using process_mutation [OF s assms(3) refl, of t "do_incarnation (dm_options dm)" t' 0]
    unfolding I_def C_def mutation_intent_def by blast
  have acts: "mark_ambiguous ?act = ?act\<lparr>ra_ambiguous := True\<rparr>" "ra_kind ?act = RkChanges ?cs arb"
    "mark_ambiguous (?act\<lparr>ra_committed := True\<rparr>) = ?act\<lparr>ra_committed := True\<rparr>"
    "mark_ambiguous (?act\<lparr>ra_committed := True, ra_aborted := True\<rparr>) = ?act\<lparr>ra_committed := True, ra_aborted := True\<rparr>"
    "\<not> ra_ambiguous ?act" "\<not> ra_aborted ?act"
    by (simp_all add: mark_ambiguous_def action_of_def)
  have str: "structure_ok ?a" and lst: "lasting_images ?a (mu_images mu)" using adm by (simp_all add: admissible_def)
  have step: "recovers_to opts (map mark_ambiguous (ss_actions s) @ [act]) b"
    if "ra_kind act = RkChanges ?cs arb" "amb = (ra_ambiguous act \<or> ra_aborted act)"
      "apply_changes (effective_changes amb ?cs) arb ?a = (StOk, b)" for act amb b
    by (rule recovers_step [OF rec str that lst mu_changes_def])
  have eff: "effective_changes True ?cs = ?part" "effective_changes False ?cs = ?cs"
    by (simp_all add: effective_changes_def)
  show ?thesis
  proof (rule that [OF s1(1) s2(1,2)])
    fix b assume "apply_changes ?part arb ?a = (StOk, b)"
    then have "recovers_to opts (map mark_ambiguous (ss_actions s1)) b"
      "recovers_to opts (map mark_ambiguous (ss_actions s3)) b"
      using step [of _ True] acts by (simp_all add: s1(3) s3(3) eff)
    then show "settles opts (rs @ [I]) s1 b" using s1 s3 by (simp add: settles_def closing_def)
  next
    fix b assume "apply_changes ?cs arb ?a = (StOk, b)"
    then have "recovers_to opts (map mark_ambiguous (ss_actions s2)) b"
      using step [of _ False] acts by (simp add: s2(3) eff)
    then show "settles opts (rs @ [I, C]) s2 b" using s2 by (simp add: settles_def closing_def)
  next
    fix rnd inc b n
    assume "apply_replay rnd (opts\<lparr>do_incarnation := inc\<rparr>) (map mark_ambiguous (ss_actions s1)) = Inr (b, n)"
    then have "apply_replay rnd (opts\<lparr>do_incarnation := inc\<rparr>)
        (map mark_ambiguous (ss_actions s) @ [mark_ambiguous ?act]) = Inr (b, n)"
      by (simp add: s1(3))
    then obtain a' where "apply_changes (effective_changes True ?cs) arb ?a = (StOk, a')"
      by (rule replay_last [OF rec, of "mark_ambiguous ?act" ?cs arb True, rotated 2]) (simp_all add: acts)
    then show "fst (apply_changes ?part arb ?a) = StOk" by (simp add: eff)
  qed
qed

lemma settles_restart:
  assumes "settles opts rs s b'" and "holds_log sid (rs @ closing s) st" and "st_options st = do_store opts"
    and "on_disk st" and "apply_replay rnd (opts\<lparr>do_incarnation := inc\<rparr>) (map mark_ambiguous (ss_actions s)) = Inr (b, n)"
  shows "erase b = erase b'" and "lasting b"
    and "mirrors sid (rs @ closing s) (daemon_of (opts\<lparr>do_incarnation := inc\<rparr>) res st b n now)"
proof -
  have "recovers_to opts (map mark_ambiguous (ss_actions s)) b'" using assms(1) by (simp add: settles_def)
  then obtain b1 m where "erase b1 = erase b'" and "lasting b1" and
    "apply_replay rnd (opts\<lparr>do_incarnation := inc\<rparr>) (map mark_ambiguous (ss_actions s)) =
      (if verify_invariants b1 \<noteq> StOk then Inl (verify_invariants b1) else Inr (b1, m))"
    by (rule apply_replay_recovers)
  with assms(5) show "erase b = erase b'" and "lasting b" by (simp_all split: if_splits)
  then show "mirrors sid (rs @ closing s) (daemon_of (opts\<lparr>do_incarnation := inc\<rparr>) res st b n now)"
    using assms by (auto simp: mirrors_def settles_def daemon_of_def recovers_incarnation recovers_cong [of b b'])
qed

section \<open>What a commit leaves on disk\<close>

lemma intent_payload_fits:
  assumes "fits opts (mutation_intent i mu arb t dm)" and "so_max_record_bytes opts \<le> 16777216"
  shows "length (encode_intent_payload i arb (mu_changes mu)) \<le> 16777216"
  using assms by (simp add: fits_def mutation_intent_def intent_record_def)

text \<open>The daemon up to the point where it would compact its log.\<close>

abbreviation uncompacting :: "daemon \<Rightarrow> daemon" where
  "uncompacting dm \<equiv> dm\<lparr>dm_options := (dm_options dm)\<lparr>do_auto_compact := False\<rparr>\<rparr>"

text \<open>
  Whatever the file system answers, a commit leaves the log followed by nothing, by its intent, or
  by its intent and its completion, possibly cut short.
\<close>

lemma commit_leaves:
  assumes "mirrors sid rs dm" and "admissible (dm_authority dm) mu" and "sound_options (dm_options dm)"
    and "commit sx mu arb (uncompacting dm) = (status, dm')"
  defines "I \<equiv> mutation_intent (dm_intent_counter dm + 1) mu arb (sx_now sx) dm"
    and "C \<equiv> commit_record (dm_intent_counter dm + 1) (sx_now sx)"
  obtains e k where "e = [] \<or> e = [I] \<or> e = [I, C] \<and> fst (apply_changes (mu_changes mu) arb (dm_authority dm)) = StOk"
    and "\<forall>r \<in> set e. fits (do_store (dm_options dm)) r"
    and "dk_primary (st_disk (dm_store dm')) = Some (take k (log_file sid (rs @ e)))"
    and "length (log_file sid rs) \<le> k"
    and "status = StOk \<Longrightarrow> e = [I, C] \<and> k = length (log_file sid (rs @ e))"
proof -
  let ?i = "dm_intent_counter dm + 1" and ?opts = "do_store (dm_options dm)"
  have holds: "holds_log sid rs (dm_store dm)" and opts: "st_options (dm_store dm) = ?opts"
    using assms(1) by (simp_all add: mirrors_def)
  have bound: "so_max_record_bytes ?opts \<le> 16777216" using assms(3) by (simp add: sound_options_def)
  have plain: "snd (maybe_compact sx d) = d" if "\<not> do_auto_compact (dm_options d)" for d
    using that by (simp add: maybe_compact_def)
  obtain w st1 where st1: "durable (sx_intent_fs sx) (write_record (sx_intent_fs sx) True I (dm_store dm)) = (w, st1)"
    by fastforce
  show ?thesis
  proof (cases "w = StOk")
    case False
    then have dm': "dm_store dm' = st1" "status \<noteq> StOk"
      using assms(4) st1 by (auto simp: commit_def Let_def append_intent_def I_def mutation_intent_def)
    from holds st1 bound [folded opts] show ?thesis
    proof (cases rule: durable_leaves)
      case nothing
      then show ?thesis by (intro that [of "[]" "length (log_file sid rs)"]) (simp_all add: dm')
    next
      case (cut k)
      then show ?thesis by (intro that [of "[I]" k]) (simp_all add: dm' opts)
    qed
  next
    case True
    have fI: "fits ?opts I"
      by (rule durable_ok [OF st1 [unfolded True]]) (use bound in \<open>auto simp: write_record_def Let_def fits_def opts split: if_splits\<close>)
    obtain s1 s2 where s1: "process_all ?opts (rs @ [I]) scan_start = Some s1"
      by (rule settles_mutation [OF assms(1,2) intent_payload_fits [OF fI [unfolded I_def] bound],
            where t = "sx_now sx" and t' = "sx_now sx"])
         (simp add: I_def)
    have h1: "holds_log sid (rs @ [I]) st1" "st_options st1 = ?opts"
      using durable_holds [OF holds st1 [unfolded True]] s1 fI opts by (simp_all add: fits_def)
    obtain ap a' where ap: "apply_changes (mu_changes mu) arb (dm_authority dm) = (ap, a')" by fastforce
    obtain w2 st2 where st2: "durable (sx_commit_fs sx) (write_record (sx_commit_fs sx) True C st1) = (w2, st2)"
      by fastforce
    have cases: "dm_store dm' = st1 \<and> status \<noteq> StOk \<or> ap = StOk \<and> dm_store dm' = st2 \<and> (status = StOk \<longrightarrow> w2 = StOk)"
      using assms(4) st1 st2 True ap plain
      by (auto simp: commit_def Let_def append_intent_def append_commit_def I_def C_def mutation_intent_def split: if_splits)
    from h1(1) have p1: "dk_primary (st_disk st1) = Some (log_file sid (rs @ [I]))" by (simp add: holds_log_def)
    have le: "length (log_file sid rs) \<le> length (log_file sid (rs @ [I]))" by (simp add: log_file_def log_image_append)
    from cases show ?thesis
    proof
      assume "dm_store dm' = st1 \<and> status \<noteq> StOk"
      then show ?thesis
        by (intro that [of "[I]" "length (log_file sid (rs @ [I]))"]) (use p1 le fI in simp_all)
    next
      assume c: "ap = StOk \<and> dm_store dm' = st2 \<and> (status = StOk \<longrightarrow> w2 = StOk)"
      from h1(1) st2 bound [folded h1(2)] show ?thesis
      proof (cases rule: durable_leaves)
        case nothing
        then show ?thesis
          by (intro that [of "[I]" "length (log_file sid (rs @ [I]))"]) (use c le fI in auto)
      next
        case (cut k)
        then show ?thesis
          by (intro that [of "[I, C]" k]) (use c le fI ap h1(2) in auto)
      qed
    qed
  qed
qed

lemma stop_leaves:
  fixes sx :: surroundings
  assumes "mirrors sid rs dm" and "sound_options (dm_options dm)"
  defines "S \<equiv> shutdown_record (sx_now sx)"
  obtains e k where "e = [] \<or> e = [S]" and "\<forall>r \<in> set e. fits (do_store (dm_options dm)) r"
    and "dk_primary (st_disk (dm_store (daemon_stop sx dm))) = Some (take k (log_file sid (rs @ e)))"
    and "length (log_file sid rs) \<le> k"
proof -
  let ?fs = "sx_commit_fs sx"
  have holds: "holds_log sid rs (dm_store dm)" and opts: "st_options (dm_store dm) = do_store (dm_options dm)"
    using assms(1) by (simp_all add: mirrors_def)
  have bound: "so_max_record_bytes (st_options (dm_store dm)) \<le> 16777216"
    using assms(2) by (simp add: sound_options_def opts)
  obtain w st1 where st1: "durable ?fs (write_record ?fs True S (dm_store dm)) = (w, st1)" by fastforce
  then have "st_disk (snd (write_record ?fs True S (dm_store dm))) = st_disk st1"
    using flush_effect(1) [of ?fs] by (fastforce simp: durable_def split: prod.splits if_splits)
  then have disk: "st_disk (dm_store (daemon_stop sx dm)) = st_disk (if dm_stopping dm then dm_store dm else st1)"
    using holds by (simp add: daemon_stop_def shut_store_def append_clean_shutdown_def holds_log_def S_def)
  have p0: "dk_primary (st_disk (dm_store dm)) = Some (log_file sid rs)" using holds by (simp add: holds_log_def)
  show ?thesis
  proof (cases "dm_stopping dm")
    case True
    then show ?thesis using p0 disk by (intro that [of "[]" "length (log_file sid rs)"]) simp_all
  next
    case False
    from holds st1 bound show ?thesis
    proof (cases rule: durable_leaves)
      case nothing
      then show ?thesis using disk False by (intro that [of "[]" "length (log_file sid rs)"]) simp_all
    next
      case (cut k)
      then show ?thesis using disk False opts by (intro that [of "[S]" k]) simp_all
    qed
  qed
qed

section \<open>What a request does to the daemon\<close>

lemma mirrors_update:
  assumes "dm_options dm' = dm_options dm" and "dm_store dm' = dm_store dm" and "dm_authority dm' = dm_authority dm"
  shows "mirrors sid rs dm' \<longleftrightarrow> mirrors sid rs dm"
  using assms by (simp add: mirrors_def)

lemma handle_cases:
  assumes "handle version sx rq dm = (reply, dm')"
  obtains (quiet) "dm_store dm' = dm_store dm" "dm_authority dm' = dm_authority dm" "dm_options dm' = dm_options dm"
      "dm_durability_failed dm' = dm_durability_failed dm"
    | (mutation) q arb mu status dm1 where "request_of (wr_type rq) (wr_payload rq) = Inr q"
        "arb = dm_arbitration dm + 1" "plan_request (dm_authority dm) q arb = Inr mu"
        "commit sx mu arb (dm\<lparr>dm_arbitration := arb\<rparr>) = (status, dm1)" "ws_status reply = status"
        "dm_store dm' = dm_store dm1" "dm_authority dm' = dm_authority dm1" "dm_options dm' = dm_options dm1"
        "dm_durability_failed dm' = dm_durability_failed dm1"
proof -
  let ?arb = "dm_arbitration dm + 1"
  consider "dm' = dm" | "handle_mutation sx rq dm = (reply, dm')"
    using assms by (auto simp: handle_def Let_def split: if_splits)
  then show ?thesis
  proof cases
    case 2
    show ?thesis
    proof (cases "servable (dm_recovery dm) \<and> \<not> dm_durability_failed dm \<and>
        (\<exists>mu. plan_for (dm_authority dm) (wr_type rq) (wr_payload rq) ?arb = Inr mu \<and> mu_changes mu \<noteq> [])")
      case True
      then obtain mu where mu: "plan_for (dm_authority dm) (wr_type rq) (wr_payload rq) ?arb = Inr mu" "mu_changes mu \<noteq> []"
        by blast
      then obtain q where q: "request_of (wr_type rq) (wr_payload rq) = Inr q" "plan_request (dm_authority dm) q ?arb = Inr mu"
        by (auto simp: plan_for_def ebind_Inr)
      obtain status dm1 where c: "commit sx mu ?arb (dm\<lparr>dm_arbitration := ?arb\<rparr>) = (status, dm1)" by fastforce
      show ?thesis
        by (rule mutation [OF q(1) refl q(2) c])
           (use 2 True mu c in \<open>auto simp: handle_mutation_def Let_def blank_reply_def split: if_splits\<close>)
    next
      case False
      show ?thesis
        by (rule quiet)
           (use 2 False in \<open>auto simp: handle_mutation_def Let_def split: if_splits sum.splits\<close>)
    qed
  qed (rule quiet; simp)
qed

section \<open>Restarting after a mutation\<close>

abbreviation unreleased :: "mutation \<Rightarrow> state_change list" where
  "unreleased mu \<equiv> filter (\<lambda>c. \<not> sc_releases_capacity c) (mu_changes mu)"

text \<open>There is room for the largest mutation and for closing it.\<close>

definition spacious :: "store \<Rightarrow> bool" where
  "spacious st \<longleftrightarrow>
     st_log_bytes st + so_max_record_bytes (st_options st) + 280 \<le> so_max_log_bytes (st_options st) \<and>
     st_record_count st + 2 < so_max_records (st_options st)"

lemma kept_settles:
  assumes "mirrors sid rs dm" and "admissible (dm_authority dm) mu"
    and "so_max_record_bytes (do_store (dm_options dm)) \<le> 16777216"
    and "I = mutation_intent i mu arb t dm" and "C = commit_record i t'"
    and "kept = [] \<or> kept = [I] \<or> kept = [I, C] \<and> fst (apply_changes (mu_changes mu) arb (dm_authority dm)) = StOk"
    and "\<forall>r \<in> set kept. fits (do_store (dm_options dm)) r"
    and "process_all (do_store (dm_options dm)) (rs @ kept) scan_start = Some s"
    and "fst (apply_changes (unreleased mu) arb (dm_authority dm)) = StOk \<or>
      (\<exists>rnd inc b n.
        apply_replay rnd ((dm_options dm)\<lparr>do_incarnation := inc\<rparr>) (map mark_ambiguous (ss_actions s)) = Inr (b, n))"
  obtains b where "settles (dm_options dm) (rs @ kept) s b"
    and "kept = [] \<and> b = dm_authority dm \<or> kept = [I] \<and> apply_changes (unreleased mu) arb (dm_authority dm) = (StOk, b) \<or>
         kept = [I, C] \<and> apply_changes (mu_changes mu) arb (dm_authority dm) = (StOk, b)"
proof (cases "kept = []")
  case True
  then show ?thesis using that mirrors_settles(1) [OF assms(1)] assms(8) by simp
next
  case False
  then have "fits (do_store (dm_options dm)) (mutation_intent i mu arb t dm)" using assms(4,6,7) by auto
  then have len: "length (encode_intent_payload i arb (mu_changes mu)) \<le> 16777216"
    using intent_payload_fits assms(3) by blast
  obtain s1 s2 where s1: "process_all (do_store (dm_options dm)) (rs @ [I]) scan_start = Some s1"
    and s2: "process_all (do_store (dm_options dm)) (rs @ [I, C]) scan_start = Some s2" "ss_open s2 = None"
    and part: "\<And>b. apply_changes (unreleased mu) arb (dm_authority dm) = (StOk, b) \<Longrightarrow> settles (dm_options dm) (rs @ [I]) s1 b"
    and whole: "\<And>b. apply_changes (mu_changes mu) arb (dm_authority dm) = (StOk, b) \<Longrightarrow> settles (dm_options dm) (rs @ [I, C]) s2 b"
    and conv: "\<And>rnd inc b n. apply_replay rnd ((dm_options dm)\<lparr>do_incarnation := inc\<rparr>) (map mark_ambiguous (ss_actions s1)) = Inr (b, n) \<Longrightarrow>
      fst (apply_changes (unreleased mu) arb (dm_authority dm)) = StOk"
    unfolding assms(4,5) by (rule settles_mutation [OF assms(1,2) len, where t = t and t' = t']) blast
  from False assms(6) consider "kept = [I]" | "kept = [I, C]" "fst (apply_changes (mu_changes mu) arb (dm_authority dm)) = StOk"
    by blast
  then show ?thesis
  proof cases
    case 1
    then have "s = s1" using s1 assms(8) by simp
    then have "fst (apply_changes (unreleased mu) arb (dm_authority dm)) = StOk"
      using assms(9) conv by blast
    then obtain b where "apply_changes (unreleased mu) arb (dm_authority dm) = (StOk, b)" by (metis prod.collapse)
    with part [OF this] that 1 \<open>s = s1\<close> show ?thesis by simp
  next
    case 2
    then obtain b where "apply_changes (mu_changes mu) arb (dm_authority dm) = (StOk, b)" by (metis prod.collapse)
    with whole [OF this] that 2 s2 assms(8) show ?thesis by simp
  qed
qed

lemma mutation_restartable:
  assumes "mirrors sid rs dm" and "admissible (dm_authority dm) mu" and "sound_options (dm_options dm)" and "spacious (dm_store dm)"
    and "I = mutation_intent i mu arb t dm" and "C = commit_record i t'"
    and "e = [] \<or> e = [I] \<or> e = [I, C]" and "\<forall>r \<in> set e. fits (do_store (dm_options dm)) r"
  shows "restartable (do_store (dm_options dm)) sid (rs @ e)"
proof -
  have holds: "holds_log sid rs (dm_store dm)" and opts: "st_options (dm_store dm) = do_store (dm_options dm)"
    using assms(1) by (simp_all add: mirrors_def)
  have bound: "so_max_record_bytes (do_store (dm_options dm)) \<le> 16777216" using assms(3) by (simp add: sound_options_def)
  have small: "length (lr_payload C) = 8" by (simp add: assms(6) commit_record_def)
  have "process_all (do_store (dm_options dm)) (rs @ e) scan_start \<noteq> None"
  proof (cases "e = []")
    case False
    then have "fits (do_store (dm_options dm)) (mutation_intent i mu arb t dm)" using assms(5,7,8) by auto
    then have len: "length (encode_intent_payload i arb (mu_changes mu)) \<le> 16777216"
      using intent_payload_fits bound by blast
    obtain s1 s2 where "process_all (do_store (dm_options dm)) (rs @ [I]) scan_start = Some s1"
      and "process_all (do_store (dm_options dm)) (rs @ [I, C]) scan_start = Some s2"
      unfolding assms(5,6) by (rule settles_mutation [OF assms(1,2) len, where t = t and t' = t']) blast
    with assms(7) False show ?thesis by auto
  qed (use holds opts in \<open>simp add: holds_log_def\<close>)
  moreover have "length (log_file sid (rs @ e)) + 96 \<le> so_max_log_bytes (do_store (dm_options dm)) \<and>
      length (rs @ e) < so_max_records (do_store (dm_options dm))"
    using assms(4,7,8) holds opts small
    by (auto simp: spacious_def holds_log_def log_file_def log_image_append fits_def)
  ultimately show ?thesis using assms(8) holds opts by (auto simp: restartable_def holds_log_def)
qed

text \<open>A daemon that starts on what a crash left of a log whose prefixes all stand for a state.\<close>

lemma restart_settled:
  assumes "sound_options opts" and "restartable (do_store opts) sid (rs @ e)" and "\<forall>c. fs_ok (sx_intent_fs sx) c"
    and n: "length (log_file sid rs) \<le> n" "n \<le> length (log_file sid (rs @ e))"
    and start: "daemon_start sx (opts\<lparr>do_incarnation := inc\<rparr>) (only_log (take n (log_file sid (rs @ e)))) = (Inr dm', d)"
    and cover: "\<And>kept lost s rnd b k. e = kept @ lost \<Longrightarrow> process_all (do_store opts) (rs @ kept) scan_start = Some s \<Longrightarrow>
      apply_replay rnd (opts\<lparr>do_incarnation := inc\<rparr>) (map mark_ambiguous (ss_actions s)) = Inr (b, k) \<Longrightarrow>
      \<exists>b. settles opts (rs @ kept) s b \<and> P b"
  obtains b rs' where "mirrors sid rs' dm'" and "dm_options dm' = opts\<lparr>do_incarnation := inc\<rparr>"
    and "\<not> dm_durability_failed dm'" and "erase (dm_authority dm') = erase b" and "lasting (dm_authority dm')" and "P b"
proof -
  let ?opts = "opts\<lparr>do_incarnation := inc\<rparr>"
  have sound: "sound_options ?opts" and rest: "restartable (do_store ?opts) sid (rs @ e)"
    using assms(1,2) by (simp_all add: sound_options_def)
  obtain res st kept s lost where kept: "e = kept @ lost"
    and s: "process_all (do_store ?opts) (rs @ kept) scan_start = Some s"
    and st: "holds_log sid (rs @ kept @ closing s) st" "st_options st = do_store ?opts" "on_disk st"
    and started: "daemon_start sx ?opts (only_log (take n (log_file sid (rs @ e)))) =
      (case apply_replay (sx_random sx) ?opts (map mark_ambiguous (ss_actions s)) of
         Inl x \<Rightarrow> (Inl x, st_disk (shut_store (sx_commit_fs sx) (sx_now sx) st))
       | Inr (a, k) \<Rightarrow> (Inr (daemon_of ?opts res st a k (sx_now sx)), st_disk st))"
    by (rule start_crashed [OF sound rest assms(3) n]) blast
  obtain b0 k where rep: "apply_replay (sx_random sx) ?opts (map mark_ambiguous (ss_actions s)) = Inr (b0, k)"
    and dm': "dm' = daemon_of ?opts res st b0 k (sx_now sx)"
    using start started by (auto split: sum.splits)
  obtain b where b: "settles opts (rs @ kept) s b" "P b"
    using cover [OF kept _ rep] s by auto
  have "st_options st = do_store opts" using st(2) by simp
  note restarted = settles_restart [OF b(1) _ this st(3) rep]
  have "erase b0 = erase b" and "lasting b0" and "mirrors sid ((rs @ kept) @ closing s) dm'"
    unfolding dm' by (rule restarted; use st(1) in simp)+
  with b that show ?thesis by (simp add: dm' daemon_of_def)
qed

lemma restart_after_mutation:
  assumes "mirrors sid rs dm" and "admissible (dm_authority dm) mu" and "sound_options (dm_options dm)" and "spacious (dm_store dm)"
    and I: "I = mutation_intent i mu arb t dm" and C: "C = commit_record i t'"
    and e: "e = [] \<or> e = [I] \<or> e = [I, C] \<and> fst (apply_changes (mu_changes mu) arb (dm_authority dm)) = StOk"
    and fit: "\<forall>r \<in> set e. fits (do_store (dm_options dm)) r"
    and n: "length (log_file sid rs) \<le> n" "n \<le> length (log_file sid (rs @ e))" and "\<forall>c. fs_ok (sx_intent_fs sx) c"
    and start: "daemon_start sx ((dm_options dm)\<lparr>do_incarnation := inc\<rparr>) (only_log (take n (log_file sid (rs @ e)))) = (Inr dm', d)"
  obtains b rs' where "mirrors sid rs' dm'" and "dm_options dm' = (dm_options dm)\<lparr>do_incarnation := inc\<rparr>"
    and "\<not> dm_durability_failed dm'" and "erase (dm_authority dm') = erase b" and "lasting (dm_authority dm')"
    and "b = dm_authority dm \<or> apply_changes (unreleased mu) arb (dm_authority dm) = (StOk, b) \<or>
         apply_changes (mu_changes mu) arb (dm_authority dm) = (StOk, b)"
proof (rule restart_settled [OF assms(3) _ assms(11) n start])
  show "restartable (do_store (dm_options dm)) sid (rs @ e)"
    using mutation_restartable [OF assms(1-4) I C _ fit] e by auto
  fix kept lost s rnd b k
  assume kept: "e = kept @ lost" and s: "process_all (do_store (dm_options dm)) (rs @ kept) scan_start = Some s"
    and rep: "apply_replay rnd ((dm_options dm)\<lparr>do_incarnation := inc\<rparr>) (map mark_ambiguous (ss_actions s)) = Inr (b, k)"
  have bound: "so_max_record_bytes (do_store (dm_options dm)) \<le> 16777216" using assms(3) by (simp add: sound_options_def)
  have k1: "kept = [] \<or> kept = [I] \<or> kept = [I, C] \<and> fst (apply_changes (mu_changes mu) arb (dm_authority dm)) = StOk"
    using e kept by (auto simp: append_eq_Cons_conv)
  have k2: "\<forall>r \<in> set kept. fits (do_store (dm_options dm)) r" using fit kept by auto
  have k3: "\<exists>rnd inc b n. apply_replay rnd ((dm_options dm)\<lparr>do_incarnation := inc\<rparr>) (map mark_ambiguous (ss_actions s)) = Inr (b, n)"
    using rep by blast
  show "\<exists>b. settles (dm_options dm) (rs @ kept) s b \<and>
      (b = dm_authority dm \<or> apply_changes (unreleased mu) arb (dm_authority dm) = (StOk, b) \<or>
       apply_changes (mu_changes mu) arb (dm_authority dm) = (StOk, b))"
    by (rule kept_settles [OF assms(1,2) bound I C k1 k2 s disjI2 [OF k3]]) blast
qed (use that in blast)

lemma restart_after_stop:
  assumes "mirrors sid rs dm" and "sound_options (dm_options dm)" and "spacious (dm_store dm)"
    and e: "e = [] \<or> e = [shutdown_record t]" and fit: "\<forall>r \<in> set e. fits (do_store (dm_options dm)) r"
    and n: "length (log_file sid rs) \<le> n" "n \<le> length (log_file sid (rs @ e))" and "\<forall>c. fs_ok (sx_intent_fs sx) c"
    and start: "daemon_start sx ((dm_options dm)\<lparr>do_incarnation := inc\<rparr>) (only_log (take n (log_file sid (rs @ e)))) = (Inr dm', d)"
  obtains rs' where "mirrors sid rs' dm'" and "dm_options dm' = (dm_options dm)\<lparr>do_incarnation := inc\<rparr>"
    and "\<not> dm_durability_failed dm'" and "erase (dm_authority dm') = erase (dm_authority dm)" and "lasting (dm_authority dm')"
proof -
  let ?opts = "do_store (dm_options dm)"
  obtain s0 where s0: "process_all ?opts rs scan_start = Some s0" "ss_open s0 = None"
    and rec: "recovers_to (dm_options dm) (map mark_ambiguous (ss_actions s0)) (dm_authority dm)"
    and holds: "holds_log sid rs (dm_store dm)" "st_options (dm_store dm) = ?opts"
    using assms(1) by (auto simp: mirrors_def)
  have scan: "\<exists>s. process_all ?opts (rs @ e) scan_start = Some s \<and> ss_open s = None \<and> ss_actions s = ss_actions s0"
    if "e = [] \<or> e = [shutdown_record t]" for e
    using that s0 by (auto simp: process_all_append shutdown_scan advance_scan_def)
  have rest: "restartable ?opts sid (rs @ e)"
    using scan [OF e] e fit holds assms(3)
    by (auto simp: restartable_def spacious_def holds_log_def log_file_def log_image_append shutdown_record_def)
  show ?thesis
  proof (rule restart_settled [OF assms(2) rest assms(8) n start, where P = "\<lambda>b. b = dm_authority dm"])
    fix kept lost s rnd b k
    assume "e = kept @ lost" and s: "process_all ?opts (rs @ kept) scan_start = Some s"
    then have "kept = [] \<or> kept = [shutdown_record t]" using e by (auto simp: append_eq_Cons_conv)
    from scan [OF this] s rec show "\<exists>b. settles (dm_options dm) (rs @ kept) s b \<and> b = dm_authority dm"
      by (auto simp: settles_def closing_def)
  qed (use that in blast)
qed

end
