(* ===== verification/Compaction.thy ===== *)
theory Compaction
  imports Recovery
begin

text \<open>
  Compaction while the daemon serves. Replacing the log by a snapshot keeps that the log replays
  to the state in memory, and whatever disk a compaction that fails, or that a crash cuts short,
  leaves, the next start replays to the state that was being compacted.
\<close>

section \<open>Starting beside the remains of a compaction\<close>

lemma start_settled:
  assumes "settle_compaction_artifacts (sx_intent_fs sx) d = (StOk, only_log x)" and "\<forall>c. fs_ok (sx_intent_fs sx) c"
  shows "fst (daemon_start sx opts d) = fst (daemon_start sx opts (only_log x))"
proof -
  have "settle_compaction_artifacts (sx_intent_fs sx) (only_log x) = (StOk, only_log x)"
    by (rule settle_primary [OF assms(2)]) (simp add: only_log_def)
  with assms(1)
  have "store_open (sx_intent_fs sx) (sx_store_id sx) (do_state_path opts) (do_store opts) (new_store d) =
      store_open (sx_intent_fs sx) (sx_store_id sx) (do_state_path opts) (do_store opts) (new_store (only_log x)) \<or>
      (\<exists>s. store_open (sx_intent_fs sx) (sx_store_id sx) (do_state_path opts) (do_store opts) (new_store d) = (Inl s, new_store d) \<and>
        store_open (sx_intent_fs sx) (sx_store_id sx) (do_state_path opts) (do_store opts) (new_store (only_log x)) = (Inl s, new_store (only_log x)))"
    by (simp add: store_open_def new_store_def)
  then show ?thesis by (auto simp: daemon_start_def)
qed

lemma start_primary:
  assumes "\<forall>c. fs_ok (sx_intent_fs sx) c" and "dk_primary d = Some x"
  shows "fst (daemon_start sx opts d) = fst (daemon_start sx opts (only_log x))"
  by (rule start_settled [OF settle_primary [OF assms] assms(1)])

lemma start_primaryE:
  assumes "\<forall>c. fs_ok (sx_intent_fs sx) c" and "dk_primary d = Some x" and "daemon_start sx opts d = (Inr dm, left)"
  obtains left' where "daemon_start sx opts (only_log x) = (Inr dm, left')"
  using start_primary [OF assms(1,2), of opts] assms(3) that by (metis fst_conv prod.collapse)

section \<open>The log after a compaction\<close>

lemma recovers_snapshot:
  assumes "lasting a" and "policy_validate (do_policy opts) = StOk"
  shows "recovers_to opts [snapshot_action r (snapshot a)] a"
  unfolding recovers_to_def
proof (intro allI)
  fix rnd inc
  let ?cfg = "replay_config (opts\<lparr>do_incarnation := inc\<rparr>)"
  have "lasting_config (new_authority rnd ?cfg)" using new_lasting [of "opts\<lparr>do_incarnation := inc\<rparr>" rnd] assms(2) by (simp add: lasting_def)
  then have "erase (restored rnd ?cfg a) = erase a" "lasting (restored rnd ?cfg a)"
    by (simp_all add: restored_erase [OF assms(1)] restored_lasting [OF assms(1)])
  then show "\<exists>b n. replay_all rnd ?cfg [snapshot_action r (snapshot a)] (new_authority rnd ?cfg, 0) = Inr (b, n) \<and> erase b = erase a \<and> lasting b"
    by (simp add: replay_one_def snapshot_action_def snapshot_restores [OF assms(1)])
qed

text \<open>The record that a compaction of the daemon's log writes.\<close>

definition compaction_record :: "surroundings \<Rightarrow> daemon \<Rightarrow> log_record" where
  "compaction_record sx dm = snapshot_record (snapshot (dm_authority dm)) (sx_now sx) (do_incarnation (dm_options dm))"

lemma compaction_scan:
  assumes "lasting (dm_authority dm)" and "sound_options (dm_options dm)" and "fits (do_store (dm_options dm)) (compaction_record sx dm)"
  obtains s where "process_all (do_store (dm_options dm)) [compaction_record sx dm] scan_start = Some s" and "ss_open s = None"
    and "recovers_to (dm_options dm) (map mark_ambiguous (ss_actions s)) (dm_authority dm)"
proof -
  let ?r = "compaction_record sx dm"
  have "length (encode_snapshot (snapshot (dm_authority dm))) \<le> 16777216"
    using assms(2,3) by (simp add: fits_def compaction_record_def snapshot_record_def sound_options_def)
  then obtain s where s: "process_all (do_store (dm_options dm)) [?r] scan_start = Some s" "ss_open s = None"
    "ss_actions s = [snapshot_action ?r (snapshot (dm_authority dm))]"
    by (rule snapshot_scan [OF assms(1) _ compaction_record_def])
  have "mark_ambiguous (snapshot_action ?r snap) = snapshot_action ?r snap" for snap
    by (simp add: mark_ambiguous_def snapshot_action_def)
  then have "recovers_to (dm_options dm) (map mark_ambiguous (ss_actions s)) (dm_authority dm)"
    using recovers_snapshot [OF assms(1)] assms(2) by (simp add: s(3) sound_options_def)
  with s that show ?thesis by blast
qed

lemma compaction_fits:
  assumes "length (lr_payload r) \<le> so_max_record_bytes (do_store opts)" and "sound_options opts"
  shows "fits (do_store opts) r"
  using assms by (simp add: fits_def sound_options_def)

text \<open>A compaction that leaves the log open keeps it in step with the state, whatever else failed.\<close>

lemma compaction_mirrors:
  assumes m: "mirrors sid rs dm" and l: "lasting (dm_authority dm)" and sound: "sound_options (dm_options dm)"
    and "st_open (dm_store (snd (maybe_compact sx dm)))"
  obtains sid' rs' where "mirrors sid' rs' (snd (maybe_compact sx dm))"
proof (cases "\<not> do_auto_compact (dm_options dm) \<or> \<not> needs_compaction (dm_store dm)")
  case True
  then show ?thesis using m that by (simp add: maybe_compact_def)
next
  case False
  let ?snap = "snapshot (dm_authority dm)" and ?r = "compaction_record sx dm"
  obtain status st where c: "store_compact (sx_compact_fs sx) (sx_store_id sx) ?snap (sx_now sx) (do_incarnation (dm_options dm)) (dm_store dm) = (status, st)"
    by fastforce
  have dm': "snd (maybe_compact sx dm) = dm\<lparr>dm_store := st\<rparr>" using False c by (simp add: maybe_compact_def)
  have opts: "st_options (dm_store dm) = do_store (dm_options dm)" using m by (simp add: mirrors_def)
  show ?thesis
  proof (cases "status = StOk")
    case True
    then have "length (lr_payload ?r) \<le> so_max_record_bytes (do_store (dm_options dm))"
      using c opts by (auto simp: store_compact_def Let_def compaction_record_def split: if_splits)
    then have fit: "fits (do_store (dm_options dm)) ?r" using sound by (rule compaction_fits)
    obtain s where s: "process_all (do_store (dm_options dm)) [?r] scan_start = Some s" "ss_open s = None"
      "recovers_to (dm_options dm) (map mark_ambiguous (ss_actions s)) (dm_authority dm)"
      by (rule compaction_scan [OF l sound fit])
    have "on_disk (dm_store dm)" using m by (simp add: mirrors_def)
    then have "holds_log (sx_store_id sx) [?r] st" "st_options st = do_store (dm_options dm)" "on_disk st"
      using compact_holds [OF c [unfolded True] _ compaction_record_def] fit s(1) opts by (simp_all add: on_disk_def del: process_all.simps)
    with s have "mirrors (sx_store_id sx) [?r] (dm\<lparr>dm_store := st\<rparr>)" by (simp add: mirrors_def del: process_all.simps)
    then show ?thesis using that dm' by simp
  next
    case failed: False
    have "st_open st" using assms(4) dm' by simp
    then have "holds_log sid rs st \<and> on_disk st \<and> st_options st = do_store (dm_options dm)"
      using c failed m
      by (auto simp: mirrors_def holds_log_def on_disk_def primary_bytes_def store_compact_def Let_def split: if_splits)
    then have "mirrors sid rs (dm\<lparr>dm_store := st\<rparr>)" using m by (auto simp: mirrors_def)
    then show ?thesis using that dm' by simp
  qed
qed

section \<open>Crashes during a compaction\<close>

text \<open>
  The disks that a compaction of the daemon's log may leave when the machine stops: those between
  its calls to the file system, of which any may fail, and the one it ends with.
\<close>

definition compaction_leaves :: "surroundings \<Rightarrow> daemon \<Rightarrow> disk \<Rightarrow> bool" where
  "compaction_leaves sx dm left \<longleftrightarrow>
     (\<exists>n. left \<in> set (compact_trace (sx_compact_fs sx) (sx_store_id sx) (snapshot (dm_authority dm)) (sx_now sx)
        (do_incarnation (dm_options dm)) n (dm_store dm)))"

lemma compaction_leaves_end:
  "compaction_leaves sx dm (st_disk (snd (store_compact (sx_compact_fs sx) (sx_store_id sx) (snapshot (dm_authority dm))
     (sx_now sx) (do_incarnation (dm_options dm)) (dm_store dm))))"
proof -
  have "compact_trace (sx_compact_fs sx) (sx_store_id sx) (snapshot (dm_authority dm)) (sx_now sx)
      (do_incarnation (dm_options dm)) 0 (dm_store dm) \<noteq> []"
    by (simp add: compact_trace_def Let_def)
  from last_in_set [OF this] show ?thesis unfolding compaction_leaves_def compact_trace_last by blast
qed

lemma compaction_leaves_log:
  assumes m: "mirrors sid rs dm" and "compaction_leaves sx dm left" and fs: "\<forall>c. fs_ok fs c"
  obtains (old) "settle_compaction_artifacts fs left = (StOk, only_log (log_file sid rs))"
    | (new) "length (lr_payload (compaction_record sx dm)) \<le> so_max_record_bytes (do_store (dm_options dm))"
        "settle_compaction_artifacts fs left = (StOk, only_log (log_file (sx_store_id sx) [compaction_record sx dm]))"
proof -
  have disk: "dk_primary (st_disk (dm_store dm)) = Some (log_file sid rs)" and opts: "st_options (dm_store dm) = do_store (dm_options dm)"
    using m by (simp_all add: mirrors_def holds_log_def)
  obtain n where "left \<in> set (compact_trace (sx_compact_fs sx) (sx_store_id sx) (snapshot (dm_authority dm)) (sx_now sx)
      (do_incarnation (dm_options dm)) n (dm_store dm))"
    using assms(2) by (auto simp: compaction_leaves_def)
  from disk compaction_record_def this show ?thesis
    by (rule trace_logs)
       (use old new settle_primary [OF fs, of left] settle_fresh [OF fs, of left] in \<open>auto simp: opts compacted_log_file\<close>)
qed

lemma spacious_restartable:
  assumes "mirrors sid rs dm" and "spacious (dm_store dm)"
  shows "restartable (do_store (dm_options dm)) sid rs"
  using assms by (auto simp: restartable_def mirrors_def spacious_def holds_log_def)

text \<open>There is room for a log that holds the largest snapshot.\<close>

definition roomy :: "store_options \<Rightarrow> bool" where
  "roomy opts \<longleftrightarrow> so_max_record_bytes opts + 408 \<le> so_max_log_bytes opts \<and> 2 < so_max_records opts"

lemma spacious_roomy: "mirrors sid rs dm \<Longrightarrow> spacious (dm_store dm) \<Longrightarrow> roomy (do_store (dm_options dm))"
  by (auto simp: roomy_def spacious_def mirrors_def holds_log_def log_file_def)

text \<open>Both logs stand for the state that was being compacted.\<close>

lemma compaction_settles:
  assumes m: "mirrors sid rs dm" and l: "lasting (dm_authority dm)" and sound: "sound_options (dm_options dm)"
    and "restartable (do_store (dm_options dm)) sid rs" and "roomy (do_store (dm_options dm))"
    and "compaction_leaves sx dm left" and fs: "\<forall>c. fs_ok fs c"
  obtains sid' rs' s where "settle_compaction_artifacts fs left = (StOk, only_log (log_file sid' rs'))"
    and "restartable (do_store (dm_options dm)) sid' rs'"
    and "process_all (do_store (dm_options dm)) rs' scan_start = Some s" and "settles (dm_options dm) rs' s (dm_authority dm)"
proof (cases rule: compaction_leaves_log [OF m assms(6) fs, case_names old new])
  case old
  obtain s where s: "process_all (do_store (dm_options dm)) rs scan_start = Some s" using m by (auto simp: mirrors_def)
  show ?thesis by (rule that [OF old assms(4) s mirrors_settles(1) [OF m s]])
next
  case new
  let ?r = "compaction_record sx dm"
  have fit: "fits (do_store (dm_options dm)) ?r" using new(1) sound by (rule compaction_fits)
  obtain s where s: "process_all (do_store (dm_options dm)) [?r] scan_start = Some s" "ss_open s = None"
    "recovers_to (dm_options dm) (map mark_ambiguous (ss_actions s)) (dm_authority dm)"
    by (rule compaction_scan [OF l sound fit])
  have "restartable (do_store (dm_options dm)) (sx_store_id sx) [?r]"
    using s(1) fit new(1) assms(5) by (simp add: restartable_def roomy_def log_file_def del: process_all.simps)
  moreover have "settles (dm_options dm) [?r] s (dm_authority dm)"
    using s by (simp add: settles_def closing_def del: process_all.simps)
  ultimately show ?thesis using that [OF new(2) _ s(1)] by blast
qed

lemma restart_after_compaction:
  assumes m: "mirrors sid rs dm" and l: "lasting (dm_authority dm)" and sound: "sound_options (dm_options dm)"
    and "restartable (do_store (dm_options dm)) sid rs" and "roomy (do_store (dm_options dm))"
    and "compaction_leaves sx dm left" and fs: "\<forall>c. fs_ok (sx_intent_fs sx') c"
    and start: "daemon_start sx' ((dm_options dm)\<lparr>do_incarnation := inc\<rparr>) left = (Inr dm', d)"
  obtains sid' rs' where "mirrors sid' rs' dm'" and "dm_options dm' = (dm_options dm)\<lparr>do_incarnation := inc\<rparr>"
    and "\<not> dm_durability_failed dm'" and "erase (dm_authority dm') = erase (dm_authority dm)" and "lasting (dm_authority dm')"
proof -
  obtain sid' rs' s where settled: "settle_compaction_artifacts (sx_intent_fs sx') left = (StOk, only_log (log_file sid' rs'))"
    and rest: "restartable (do_store (dm_options dm)) sid' rs'"
    and s: "process_all (do_store (dm_options dm)) rs' scan_start = Some s" "settles (dm_options dm) rs' s (dm_authority dm)"
    by (rule compaction_settles [OF assms(1-7)])
  obtain d' where "daemon_start sx' ((dm_options dm)\<lparr>do_incarnation := inc\<rparr>) (only_log (log_file sid' rs')) = (Inr dm', d')"
    using start_settled [OF settled fs, of "(dm_options dm)\<lparr>do_incarnation := inc\<rparr>"] start by (metis fst_conv prod.collapse)
  then have start': "daemon_start sx' ((dm_options dm)\<lparr>do_incarnation := inc\<rparr>)
      (only_log (take (length (log_file sid' rs')) (log_file sid' (rs' @ [])))) = (Inr dm', d')" by simp
  have rest': "restartable (do_store (dm_options dm)) sid' (rs' @ [])" using rest by simp
  show ?thesis
    by (rule restart_settled [OF sound rest' fs le_refl _ start', where P = "\<lambda>b. b = dm_authority dm"])
       (use s that in auto)
qed

text \<open>The same as a statement on the outcome of the start.\<close>

lemma start_after_compaction:
  assumes m: "mirrors sid rs dm" and l: "lasting (dm_authority dm)" and sound: "sound_options (dm_options dm)"
    and "restartable (do_store (dm_options dm)) sid rs" and "roomy (do_store (dm_options dm))"
    and "compaction_leaves sx dm left" and fs: "\<forall>c. fs_ok (sx_intent_fs sx') c"
  obtains b where "erase b = erase (dm_authority dm)"
    and "case fst (daemon_start sx' ((dm_options dm)\<lparr>do_incarnation := inc\<rparr>) left) of
        Inl s \<Rightarrow> s = verify_invariants b \<and> s \<noteq> StOk
      | Inr dm'' \<Rightarrow> dm_authority dm'' = b"
proof -
  let ?opts = "(dm_options dm)\<lparr>do_incarnation := inc\<rparr>"
  obtain sid' rs' s where settled: "settle_compaction_artifacts (sx_intent_fs sx') left = (StOk, only_log (log_file sid' rs'))"
    and rest: "restartable (do_store (dm_options dm)) sid' rs'"
    and s: "process_all (do_store (dm_options dm)) rs' scan_start = Some s" "settles (dm_options dm) rs' s (dm_authority dm)"
    by (rule compaction_settles [OF assms(1-7)])
  have sound': "sound_options ?opts" and rest': "restartable (do_store ?opts) sid' (rs' @ [])"
    using sound rest by (simp_all add: sound_options_def)
  obtain res st kept s' lost where kept: "[] = kept @ lost"
    and s': "process_all (do_store ?opts) (rs' @ kept) scan_start = Some s'"
    and started: "daemon_start sx' ?opts (only_log (take (length (log_file sid' rs')) (log_file sid' (rs' @ [])))) =
      (case apply_replay (sx_random sx') ?opts (map mark_ambiguous (ss_actions s')) of
         Inl x \<Rightarrow> (Inl x, st_disk (shut_store (sx_commit_fs sx') (sx_now sx') st))
       | Inr (a, k) \<Rightarrow> (Inr (daemon_of ?opts res st a k (sx_now sx')), st_disk st))"
    by (rule start_crashed [OF sound' rest' fs le_refl]) auto
  have "s' = s" using s(1) s' kept by simp
  then have "recovers_to (dm_options dm) (map mark_ambiguous (ss_actions s')) (dm_authority dm)" using s(2) by (simp add: settles_def)
  then obtain b n where b: "erase b = erase (dm_authority dm)" and "apply_replay (sx_random sx') ?opts (map mark_ambiguous (ss_actions s')) =
      (if verify_invariants b \<noteq> StOk then Inl (verify_invariants b) else Inr (b, n))"
    by (rule apply_replay_recovers)
  then show ?thesis using that [OF b] start_settled [OF settled fs, of ?opts] started by (simp add: daemon_of_def)
qed

end
