(* ===== verification/History.thy ===== *)
theory History
  imports Compaction
begin

text \<open>
  The life of a daemon across requests, shutdowns, crashes and restarts: a history starts on an
  empty disk and continues after any crash with whatever part of the bytes that were not yet
  synchronised reached the medium.
\<close>

section \<open>Histories\<close>

definition empty_disk :: disk where
  "empty_disk = \<lparr>dk_primary = None, dk_fresh = None, dk_previous = None\<rparr>"

text \<open>The two repairs that may break the promise by design are left out, as in \<open>regular\<close>.\<close>

definition regular_message :: "daemon \<Rightarrow> wire_request \<Rightarrow> bool" where
  "regular_message dm rq \<longleftrightarrow>
     (case request_of (wr_type rq) (wr_payload rq) of Inl _ \<Rightarrow> True | Inr q \<Rightarrow> regular (dm_authority dm) q)"

text \<open>
  What a crash leaves of the log while an operation turns \<open>dm\<close> into \<open>dm'\<close>: the bytes that were on
  the medium when it began, and any part of those that follow. With \<open>dm' = dm\<close> this is a crash of a
  daemon at rest. A file that an earlier compaction left beside the log stays.
\<close>

definition crash_disk :: "daemon \<Rightarrow> daemon \<Rightarrow> nat \<Rightarrow> disk" where
  "crash_disk dm dm' n =
     (st_disk (dm_store dm'))\<lparr>dk_primary :=
       map_option (take (st_synced (dm_store dm) + n)) (dk_primary (st_disk (dm_store dm')))\<rparr>"

text \<open>
  One request. A daemon goes on serving as long as its log took the mutation and a compaction, if
  there was one, left the log open. A crash comes while the mutation is being written, that is
  before a compaction would begin, or during the compaction that follows it.
\<close>

inductive history :: "u32 \<times> u32 \<times> u32 \<Rightarrow> daemon_options \<Rightarrow> daemon \<Rightarrow> bool"
  for version opts where
  first: "daemon_start sx (opts\<lparr>do_incarnation := inc\<rparr>) empty_disk = (Inr dm, d) \<Longrightarrow> history version opts dm"
| request: "history version opts dm \<Longrightarrow> regular_message dm rq \<Longrightarrow> handle version sx rq dm = (reply, dm') \<Longrightarrow>
    \<not> dm_durability_failed dm' \<Longrightarrow> st_open (dm_store dm') \<Longrightarrow> history version opts dm'"
| crash: "history version opts dm \<Longrightarrow> regular_message dm rq \<Longrightarrow> spacious (dm_store dm) \<Longrightarrow>
    handle version sx rq (uncompacting dm) = (reply, dm') \<Longrightarrow> \<forall>c. fs_ok (sx_intent_fs sx') c \<Longrightarrow>
    daemon_start sx' (opts\<lparr>do_incarnation := inc\<rparr>) (crash_disk dm dm' n) = (Inr dm'', d) \<Longrightarrow>
    history version opts dm''"
| crash_compacting: "history version opts dm \<Longrightarrow> regular_message dm rq \<Longrightarrow> spacious (dm_store dm) \<Longrightarrow>
    handle version sx rq (uncompacting dm) = (reply, dm') \<Longrightarrow> \<not> dm_durability_failed dm' \<Longrightarrow>
    compaction_leaves sx dm' left \<Longrightarrow> \<forall>c. fs_ok (sx_intent_fs sx') c \<Longrightarrow>
    daemon_start sx' (opts\<lparr>do_incarnation := inc\<rparr>) left = (Inr dm'', d) \<Longrightarrow> history version opts dm''"
| stop: "history version opts dm \<Longrightarrow> spacious (dm_store dm) \<Longrightarrow> \<forall>c. fs_ok (sx_intent_fs sx') c \<Longrightarrow>
    daemon_start sx' (opts\<lparr>do_incarnation := inc\<rparr>) (crash_disk dm (daemon_stop sx dm) n) = (Inr dm'', d) \<Longrightarrow>
    history version opts dm''"

text \<open>The invariant: the log replays to the state in memory, and the state keeps its promises.\<close>

definition healthy :: "daemon_options \<Rightarrow> daemon \<Rightarrow> bool" where
  "healthy opts dm \<longleftrightarrow>
     (\<exists>sid rs. mirrors sid rs dm) \<and> (\<exists>inc. dm_options dm = opts\<lparr>do_incarnation := inc\<rparr>) \<and>
     \<not> dm_durability_failed dm \<and> lasting (dm_authority dm) \<and>
     structure_ok (dm_authority dm) \<and> refs_ok (dm_authority dm) \<and> capacity_safe (dm_authority dm)"

abbreviation safe_state :: "authority \<Rightarrow> bool" where
  "safe_state a \<equiv> structure_ok a \<and> refs_ok a \<and> capacity_safe a"

lemma safe_state_erase: "erase b = erase a \<Longrightarrow> safe_state a \<Longrightarrow> safe_state b"
  by (metis structure_erase refs_erase capacity_erase)

lemma healthyI:
  assumes "mirrors sid rs dm" and "dm_options dm = opts\<lparr>do_incarnation := inc\<rparr>" and "\<not> dm_durability_failed dm"
    and "erase (dm_authority dm) = erase b" and "lasting (dm_authority dm)" and "safe_state b"
  shows "healthy opts dm"
  using safe_state_erase [OF assms(4,6)] assms(1-3,5) unfolding healthy_def by blast

lemma start_empty:
  assumes "sound_options opts" and "daemon_start sx (opts\<lparr>do_incarnation := inc\<rparr>) empty_disk = (Inr dm, d)"
  shows "healthy opts dm"
proof -
  let ?opts = "opts\<lparr>do_incarnation := inc\<rparr>" and ?fs = "sx_intent_fs sx"
  let ?st = "(new_store empty_disk)\<lparr>st_path := do_state_path opts, st_options := do_store opts,
    st_durable := so_durable_writes (do_store opts), st_chain := digest_zero\<rparr>"
  have settle: "settle_compaction_artifacts ?fs empty_disk = (StOk, empty_disk)"
    by (simp add: settle_compaction_artifacts_def empty_disk_def)
  have opened: "store_open ?fs (sx_store_id sx) (do_state_path opts) (do_store opts) (new_store empty_disk) =
      create_log ?fs (sx_store_id sx) ?st \<or>
      isl (fst (store_open ?fs (sx_store_id sx) (do_state_path opts) (do_store opts) (new_store empty_disk)))"
    unfolding store_open_def using settle by (auto simp: Let_def new_store_def empty_disk_def read_whole_file_def)
  obtain replay st a k where op: "store_open ?fs (sx_store_id sx) (do_state_path opts) (do_store opts) (new_store empty_disk) = (Inr replay, st)"
    and rep: "apply_replay (sx_random sx) ?opts (rp_actions replay) = Inr (a, k)"
    and dm: "dm = daemon_of ?opts replay st a k (sx_now sx)"
    using assms(2) by (auto simp: daemon_start_def split: if_splits prod.splits sum.splits)
  have "create_log ?fs (sx_store_id sx) ?st = (Inr replay, st)" using opened op by auto
  moreover have "so_durable_writes (do_store opts)" using assms(1) by (simp add: sound_options_def)
  ultimately have "rp_actions replay = []" and holds: "holds_log (sx_store_id sx) [] st" "st_options st = do_store opts" "on_disk st"
    by (auto simp: create_log_def Let_def holds_log_def on_disk_def primary_bytes_def log_file_def store_sizes split: if_splits)
  then have "a = new_authority (sx_random sx) (replay_config ?opts)"
    using rep by (auto simp: apply_replay_def Let_def mark_all_historical_def new_authority_def split: if_splits)
  moreover have "policy_validate (do_policy ?opts) = StOk" using assms(1) by (simp add: sound_options_def)
  ultimately have "recovers_to ?opts [] a" and "safe_state a" and "lasting a"
    using recovers_nothing structure_new new_lasting by (simp_all add: refs_ok_def capacity_safe_def new_authority_def Let_def)
  then have "mirrors (sx_store_id sx) [] dm" "safe_state (dm_authority dm)" "lasting (dm_authority dm)"
    using holds by (simp_all add: mirrors_def dm daemon_of_def, simp_all add: scan_start_def)
  then show ?thesis unfolding healthy_def by (auto simp: dm daemon_of_def)
qed

lemma executed:
  assumes "structure_ok a" and "plan_request a q arb = Inr mu" and "apply_changes (mu_changes mu) arb a = (StOk, b)"
  shows "execute a q arb = (StOk, b)"
  using assms plan_request_sized [OF assms(1,2)] by (simp add: execute_def)

lemma mutation_safe:
  assumes "safe_state a" and "regular a q" and "plan_request a q arb = Inr mu"
    and "b = a \<or> apply_changes (unreleased mu) arb a = (StOk, b) \<or> apply_changes (mu_changes mu) arb a = (StOk, b)"
  shows "safe_state b"
  using assms(4)
proof (elim disjE)
  assume "apply_changes (mu_changes mu) arb a = (StOk, b)"
  then have ex: "execute a q arb = (StOk, b)" using executed assms(1,3) by blast
  then have "structure_ok b" using execute_structure [of a q arb] assms(1) by simp
  with ex show ?thesis using refs_after safe_execute assms(1,2) by blast
qed (use assms part_safe [of a q arb mu b] in blast)+

lemma arbitration_update [simp]: "mirrors sid rs (dm\<lparr>dm_arbitration := arb\<rparr>) \<longleftrightarrow> mirrors sid rs dm"
  by (simp add: mirrors_def)

lemma uncompacting_mirrors [simp]: "mirrors sid rs (uncompacting dm) \<longleftrightarrow> mirrors sid rs dm"
  by (simp add: mirrors_def recovers_to_def replay_config_def)

lemma plan_admissible:
  assumes "safe_state a" and "lasting a" and "plan_request a q arb = Inr mu"
  shows "admissible a mu"
  using assms plan_lasting [of a q arb mu] by (simp add: admissible_def)

lemma planned_lasting:
  assumes "safe_state a" and "lasting a" and "plan_request a q arb = Inr mu" and "apply_changes (mu_changes mu) arb a = (StOk, b)"
  shows "lasting b"
  using apply_lasting [OF assms(2) plan_lasting] assms by (simp add: mu_changes_def)

text \<open>A request that the log took, up to the compaction that may follow it.\<close>

lemma request_mirrors:
  assumes sound: "sound_options opts" and "healthy opts dm" and "regular_message dm rq"
    and "handle version sx rq dm = (reply, dm')" and ok: "\<not> dm_durability_failed dm'"
  obtains sid rs dm2 where "mirrors sid rs dm2" and "dm_options dm2 = dm_options dm" and "\<not> dm_durability_failed dm2"
    and "safe_state (dm_authority dm2)" and "lasting (dm_authority dm2)" and "dm_options dm' = dm_options dm"
    and "dm_store dm' = dm_store (snd (maybe_compact sx dm2)) \<or> dm_store dm' = dm_store dm2"
    and "dm_authority dm' = dm_authority dm2" and "spacious (dm_store dm) \<Longrightarrow> restartable (do_store (dm_options dm)) sid rs"
proof -
  obtain sid rs inc where m: "mirrors sid rs dm" and o: "dm_options dm = opts\<lparr>do_incarnation := inc\<rparr>"
    and safe: "safe_state (dm_authority dm)" and l: "lasting (dm_authority dm)" and nf: "\<not> dm_durability_failed dm"
    using assms(2) by (auto simp: healthy_def)
  have bound: "so_max_record_bytes (do_store (dm_options dm)) \<le> 16777216" and sound': "sound_options (dm_options dm)"
    using sound o by (simp_all add: sound_options_def)
  from assms(4) show ?thesis
  proof (cases rule: handle_cases)
    case quiet
    show ?thesis by (rule that [OF m _ nf safe l]) (use quiet spacious_restartable [OF m] in simp_all)
  next
    case (mutation q arb mu status dm1)
    have reg: "regular (dm_authority dm) q" using assms(3) mutation(1) by (simp add: regular_message_def)
    let ?dm = "dm\<lparr>dm_arbitration := arb\<rparr>"
    have "status = StOk"
      using mutation(4,9) ok by (auto simp: commit_def Let_def split: prod.splits if_splits)
    then have c: "commit sx mu arb ?dm = (StOk, dm1)" using mutation(4) by simp
    have adm: "admissible (dm_authority ?dm) mu" using plan_admissible [OF safe l mutation(3)] by simp
    have m': "mirrors sid rs ?dm" using m by simp
    have bound': "so_max_record_bytes (do_store (dm_options ?dm)) \<le> 16777216" using bound by simp
    let ?I = "mutation_intent (dm_intent_counter ?dm + 1) mu arb (sx_now sx) ?dm"
      and ?C = "commit_record (dm_intent_counter ?dm + 1) (sx_now sx)"
    obtain dm2 where dm2: "dm1 = snd (maybe_compact sx dm2)" "dm_options dm2 = dm_options dm"
      "apply_changes (mu_changes mu) arb (dm_authority dm) = (StOk, dm_authority dm2)" "mirrors sid (rs @ [?I, ?C]) dm2"
      by (rule commit_mirrors [OF m' adm bound' c]) simp
    have kept: "dm_authority (snd (maybe_compact sx dm2)) = dm_authority dm2" "dm_options (snd (maybe_compact sx dm2)) = dm_options dm2"
      "dm_durability_failed (snd (maybe_compact sx dm2)) = dm_durability_failed dm2"
      by (auto simp: maybe_compact_def split: prod.splits)
    have "safe_state (dm_authority dm2)"
      using mutation_safe [OF safe reg mutation(3)] dm2(3) by blast
    moreover have "lasting (dm_authority dm2)" by (rule planned_lasting [OF safe l mutation(3) dm2(3)])
    moreover have "restartable (do_store (dm_options dm)) sid (rs @ [?I, ?C])" if "spacious (dm_store dm)"
    proof -
      have "\<forall>r \<in> set [?I, ?C]. fits (do_store (dm_options ?dm)) r"
        using dm2(4) unfolding mirrors_def dm2(2) holds_log_def by auto
      then show ?thesis using mutation_restartable [OF m' adm _ _ refl refl, of "[?I, ?C]"] sound' that by simp
    qed
    ultimately show ?thesis
      using that [OF dm2(4,2)] kept dm2(1,2) mutation(6-9) ok by simp
  qed
qed

lemma request_healthy:
  assumes sound: "sound_options opts" and "healthy opts dm" and "regular_message dm rq"
    and "handle version sx rq dm = (reply, dm')" and ok: "\<not> dm_durability_failed dm'" and "st_open (dm_store dm')"
  shows "healthy opts dm'"
proof -
  obtain inc where o: "dm_options dm = opts\<lparr>do_incarnation := inc\<rparr>" using assms(2) by (auto simp: healthy_def)
  have sound': "sound_options (dm_options dm)" using sound o by (simp add: sound_options_def)
  obtain sid rs dm2 where dm2: "mirrors sid rs dm2" "dm_options dm2 = dm_options dm" "safe_state (dm_authority dm2)"
      "lasting (dm_authority dm2)" and dm': "dm_options dm' = dm_options dm" "dm_authority dm' = dm_authority dm2"
      "dm_store dm' = dm_store (snd (maybe_compact sx dm2)) \<or> dm_store dm' = dm_store dm2"
    by (rule request_mirrors [OF assms(1-5)]) blast
  from dm'(3) obtain sid' rs' where "mirrors sid' rs' dm'"
  proof
    assume st: "dm_store dm' = dm_store (snd (maybe_compact sx dm2))"
    have same: "dm_authority (snd (maybe_compact sx dm2)) = dm_authority dm2" "dm_options (snd (maybe_compact sx dm2)) = dm_options dm2"
      by (auto simp: maybe_compact_def split: prod.splits)
    have "st_open (dm_store (snd (maybe_compact sx dm2)))" using st assms(6) by simp
    then obtain sid' rs' where "mirrors sid' rs' (snd (maybe_compact sx dm2))"
      by (rule compaction_mirrors [OF dm2(1,4) sound' [folded dm2(2)]])
    then show ?thesis using that mirrors_update [of dm' "snd (maybe_compact sx dm2)" sid' rs'] st same dm' dm2(2) by simp
  qed (use that dm2 dm' mirrors_update [of dm' dm2 sid rs] in simp)
  with dm2 dm' o ok show ?thesis unfolding healthy_def by auto
qed

text \<open>The log after a crash, cut to the length it has.\<close>

lemma crash_disk_prefix:
  assumes "mirrors sid rs dm" and "dk_primary (st_disk (dm_store dm')) = Some (take k (log_file sid (rs @ e)))"
    and "length (log_file sid rs) \<le> k"
  obtains m where "dk_primary (crash_disk dm dm' n) = Some (take m (log_file sid (rs @ e)))"
    and "length (log_file sid rs) \<le> m" and "m \<le> length (log_file sid (rs @ e))"
    and "k = length (log_file sid (rs @ e)) \<Longrightarrow> k \<le> length (log_file sid rs) + n \<Longrightarrow> m = k"
proof -
  have cut: "take (min x (length l)) l = take x l" for x and l :: "byte list" by (simp add: min_def)
  have "st_synced (dm_store dm) = length (log_file sid rs)"
    using assms(1) holds_bytes [of sid rs "dm_store dm"] by (simp add: mirrors_def on_disk_def)
  then have "dk_primary (crash_disk dm dm' n) = Some (take (min (min (length (log_file sid rs) + n) k) (length (log_file sid (rs @ e)))) (log_file sid (rs @ e)))"
    using assms(2) cut by (simp add: crash_disk_def)
  then show ?thesis by (rule that) (use assms(3) in \<open>auto simp: log_file_def log_image_append\<close>)
qed

lemma crash_healthy:
  assumes sound: "sound_options opts" and "healthy opts dm" and "regular_message dm rq" and "spacious (dm_store dm)"
    and "handle version sx rq (uncompacting dm) = (reply, dm')" and fs: "\<forall>c. fs_ok (sx_intent_fs sx') c"
    and start: "daemon_start sx' (opts\<lparr>do_incarnation := inc\<rparr>) (crash_disk dm dm' n) = (Inr dm'', d)"
  shows "healthy opts dm''"
proof -
  obtain sid rs inc0 where m: "mirrors sid rs dm" and o: "dm_options dm = opts\<lparr>do_incarnation := inc0\<rparr>"
    and safe: "safe_state (dm_authority dm)" and l: "lasting (dm_authority dm)"
    using assms(2) by (auto simp: healthy_def)
  have sound': "sound_options (dm_options dm)" and o': "opts\<lparr>do_incarnation := inc\<rparr> = (dm_options dm)\<lparr>do_incarnation := inc\<rparr>"
    using sound o by (simp_all add: sound_options_def)
  note start' = start [unfolded o']
  from assms(5) show ?thesis
  proof (cases rule: handle_cases)
    case quiet
    then have disk: "dk_primary (st_disk (dm_store dm')) = Some (take (length (log_file sid rs)) (log_file sid (rs @ [])))"
      using m by (simp add: mirrors_def holds_log_def)
    obtain k where k: "dk_primary (crash_disk dm dm' n) = Some (take k (log_file sid (rs @ [])))"
      "length (log_file sid rs) \<le> k" "k \<le> length (log_file sid (rs @ []))"
      by (rule crash_disk_prefix [OF m disk le_refl, of n]) blast
    obtain d' where started: "daemon_start sx' ((dm_options dm)\<lparr>do_incarnation := inc\<rparr>) (only_log (take k (log_file sid (rs @ [])))) = (Inr dm'', d')"
      by (rule start_primaryE [OF fs k(1) start'])
    obtain rs' where b: "mirrors sid rs' dm''" "dm_options dm'' = (dm_options dm)\<lparr>do_incarnation := inc\<rparr>"
      "\<not> dm_durability_failed dm''" "erase (dm_authority dm'') = erase (dm_authority dm)" "lasting (dm_authority dm'')"
      by (rule restart_after_stop [OF m sound' assms(4) _ _ k(2,3) fs started]) simp_all
    show ?thesis by (rule healthyI [OF b(1) b(2) [folded o'] b(3-5) safe])
  next
    case (mutation q arb mu status dm1)
    have reg: "regular (dm_authority dm) q" using assms(3) mutation(1) by (simp add: regular_message_def)
    let ?dm = "dm\<lparr>dm_arbitration := arb\<rparr>"
    have plan: "plan_request (dm_authority dm) q arb = Inr mu" using mutation(3) by simp
    have m': "mirrors sid rs ?dm" "admissible (dm_authority ?dm) mu" "sound_options (dm_options ?dm)" "spacious (dm_store ?dm)"
      using m sound' assms(4) plan_admissible [OF safe l plan] by simp_all
    have "(uncompacting dm)\<lparr>dm_arbitration := arb\<rparr> = uncompacting ?dm" by simp
    then have commit: "commit sx mu arb (uncompacting ?dm) = (status, dm1)" using mutation(4) by metis
    obtain e k where e: "e = [] \<or> e = [mutation_intent (dm_intent_counter ?dm + 1) mu arb (sx_now sx) ?dm] \<or>
        e = [mutation_intent (dm_intent_counter ?dm + 1) mu arb (sx_now sx) ?dm, commit_record (dm_intent_counter ?dm + 1) (sx_now sx)] \<and>
        fst (apply_changes (mu_changes mu) arb (dm_authority ?dm)) = StOk"
      and fit: "\<forall>r \<in> set e. fits (do_store (dm_options ?dm)) r"
      and disk: "dk_primary (st_disk (dm_store dm1)) = Some (take k (log_file sid (rs @ e)))"
      and k: "length (log_file sid rs) \<le> k"
      by (rule commit_leaves [OF m'(1-3) commit]) blast
    have disk': "dk_primary (st_disk (dm_store dm')) = Some (take k (log_file sid (rs @ e)))"
      using disk mutation(6) by simp
    obtain j where j: "dk_primary (crash_disk dm dm' n) = Some (take j (log_file sid (rs @ e)))"
      "length (log_file sid rs) \<le> j" "j \<le> length (log_file sid (rs @ e))"
      by (rule crash_disk_prefix [OF m disk' k, of n]) blast
    obtain d' where started: "daemon_start sx' ((dm_options ?dm)\<lparr>do_incarnation := inc\<rparr>) (only_log (take j (log_file sid (rs @ e)))) = (Inr dm'', d')"
      by (rule start_primaryE [OF fs j(1) start']) simp
    obtain b rs' where b: "mirrors sid rs' dm''" "dm_options dm'' = (dm_options ?dm)\<lparr>do_incarnation := inc\<rparr>"
      "\<not> dm_durability_failed dm''" "erase (dm_authority dm'') = erase b" "lasting (dm_authority dm'')"
      "b = dm_authority ?dm \<or> apply_changes (unreleased mu) arb (dm_authority ?dm) = (StOk, b) \<or>
       apply_changes (mu_changes mu) arb (dm_authority ?dm) = (StOk, b)"
      by (rule restart_after_mutation [OF m' refl refl e fit j(2,3) fs started]) blast
    have "safe_state b" using mutation_safe [OF safe reg plan] b(6) by simp
    moreover have "dm_options dm'' = opts\<lparr>do_incarnation := inc\<rparr>" using b(2) o' by simp
    ultimately show ?thesis using healthyI [OF b(1) _ b(3-5)] by blast
  qed
qed

lemma uncompacting_healthy:
  assumes "healthy opts dm"
  shows "healthy (opts\<lparr>do_auto_compact := False\<rparr>) (uncompacting dm)"
proof -
  obtain sid rs inc where m0: "mirrors sid rs dm" and o: "dm_options dm = opts\<lparr>do_incarnation := inc\<rparr>"
    using assms by (auto simp: healthy_def)
  have m: "mirrors sid rs (uncompacting dm)" using m0 by simp
  have "dm_options (uncompacting dm) = opts\<lparr>do_auto_compact := False, do_incarnation := inc\<rparr>" using o by simp
  moreover have "\<not> dm_durability_failed (uncompacting dm)" "lasting (dm_authority (uncompacting dm))" "safe_state (dm_authority (uncompacting dm))"
    using assms by (simp_all add: healthy_def)
  ultimately show ?thesis unfolding healthy_def using m by blast
qed

lemma crash_compacting_healthy:
  assumes sound: "sound_options opts" and "healthy opts dm" and "regular_message dm rq" and "spacious (dm_store dm)"
    and "handle version sx rq (uncompacting dm) = (reply, dm')" and ok: "\<not> dm_durability_failed dm'"
    and "compaction_leaves sx dm' left" and fs: "\<forall>c. fs_ok (sx_intent_fs sx') c"
    and start: "daemon_start sx' (opts\<lparr>do_incarnation := inc\<rparr>) left = (Inr dm'', d)"
  shows "healthy opts dm''"
proof -
  let ?o = "opts\<lparr>do_auto_compact := False\<rparr>" and ?dm = "uncompacting dm"
  obtain sid0 rs0 inc0 where m0: "mirrors sid0 rs0 dm" and o: "dm_options dm = opts\<lparr>do_incarnation := inc0\<rparr>"
    using assms(2) by (auto simp: healthy_def)
  have sound': "sound_options ?o" and reg: "regular_message ?dm rq" and space: "spacious (dm_store ?dm)"
    using sound assms(3,4) by (simp_all add: sound_options_def regular_message_def split: sum.splits)
  obtain sid rs dm2 where dm2: "mirrors sid rs dm2" "dm_options dm2 = dm_options ?dm" "safe_state (dm_authority dm2)"
      "lasting (dm_authority dm2)" and dm': "dm_options dm' = dm_options ?dm" "dm_authority dm' = dm_authority dm2"
      "dm_store dm' = dm_store (snd (maybe_compact sx dm2)) \<or> dm_store dm' = dm_store dm2"
      and rest: "restartable (do_store (dm_options dm)) sid rs"
    by (rule request_mirrors [OF sound' uncompacting_healthy [OF assms(2)] reg assms(5) ok]) (use space in simp)
  have "dm_store dm' = dm_store dm2" using dm'(3) dm2(2) by (simp add: maybe_compact_def)
  then have m: "mirrors sid rs dm'" using mirrors_update [of dm' dm2 sid rs] dm2 dm' by simp
  \<comment> \<open>the same daemon with the options it was started with\<close>
  let ?dm' = "dm'\<lparr>dm_options := dm_options dm\<rparr>"
  have m': "mirrors sid rs ?dm'" using m dm'(1) by (simp add: mirrors_def recovers_to_def replay_config_def)
  have l: "lasting (dm_authority ?dm')" and s: "sound_options (dm_options ?dm')" and r: "restartable (do_store (dm_options ?dm')) sid rs"
    and room: "roomy (do_store (dm_options ?dm'))" and leaves: "compaction_leaves sx ?dm' left"
    using dm' dm2(4) sound o rest spacious_roomy [OF m0 assms(4)] assms(7)
    by (simp_all add: sound_options_def compaction_leaves_def compaction_record_def)
  have o': "opts\<lparr>do_incarnation := inc\<rparr> = (dm_options ?dm')\<lparr>do_incarnation := inc\<rparr>" using o by simp
  obtain sid' rs' where b: "mirrors sid' rs' dm''" "dm_options dm'' = (dm_options ?dm')\<lparr>do_incarnation := inc\<rparr>"
    "\<not> dm_durability_failed dm''" "erase (dm_authority dm'') = erase (dm_authority ?dm')" "lasting (dm_authority dm'')"
    by (rule restart_after_compaction [OF m' l s r room leaves fs start [unfolded o']])
  show ?thesis by (rule healthyI [OF b(1) b(2) [folded o'] b(3-5)]) (use dm' dm2(3) in simp)
qed

text \<open>A restart of a daemon that stopped, or that crashed at rest.\<close>

lemma idle_restart:
  assumes m: "mirrors sid rs dm" and sound: "sound_options (dm_options dm)" and "spacious (dm_store dm)"
    and fs: "\<forall>c. fs_ok (sx_intent_fs sx') c" and "dm' = dm \<or> dm' = daemon_stop sx dm"
    and start: "daemon_start sx' ((dm_options dm)\<lparr>do_incarnation := inc\<rparr>) (crash_disk dm dm' n) = (Inr dm'', d)"
  obtains rs' where "mirrors sid rs' dm''" and "dm_options dm'' = (dm_options dm)\<lparr>do_incarnation := inc\<rparr>"
    and "\<not> dm_durability_failed dm''" and "erase (dm_authority dm'') = erase (dm_authority dm)" and "lasting (dm_authority dm'')"
proof -
  obtain e k where e: "e = [] \<or> e = [shutdown_record (sx_now sx)]" "\<forall>r \<in> set e. fits (do_store (dm_options dm)) r"
    and disk: "dk_primary (st_disk (dm_store dm')) = Some (take k (log_file sid (rs @ e)))"
    and k: "length (log_file sid rs) \<le> k"
  proof (cases "dm' = dm")
    case True
    then show ?thesis using m by (intro that [of "[]" "length (log_file sid rs)"]) (simp_all add: mirrors_def holds_log_def)
  next
    case False
    then have "dm' = daemon_stop sx dm" using assms(5) by simp
    then show ?thesis using that by (metis stop_leaves [OF m sound, of sx])
  qed
  obtain j where j: "dk_primary (crash_disk dm dm' n) = Some (take j (log_file sid (rs @ e)))"
    "length (log_file sid rs) \<le> j" "j \<le> length (log_file sid (rs @ e))"
    by (rule crash_disk_prefix [OF m disk k, of n]) blast
  obtain d' where started: "daemon_start sx' ((dm_options dm)\<lparr>do_incarnation := inc\<rparr>) (only_log (take j (log_file sid (rs @ e)))) = (Inr dm'', d')"
    by (rule start_primaryE [OF fs j(1) start])
  show ?thesis by (rule restart_after_stop [OF m sound assms(3) e j(2,3) fs started]) (rule that)
qed

lemma stop_healthy:
  assumes sound: "sound_options opts" and "healthy opts dm" and "spacious (dm_store dm)"
    and fs: "\<forall>c. fs_ok (sx_intent_fs sx') c"
    and start: "daemon_start sx' (opts\<lparr>do_incarnation := inc\<rparr>) (crash_disk dm (daemon_stop sx dm) n) = (Inr dm'', d)"
  shows "healthy opts dm''"
proof -
  obtain sid rs inc0 where m: "mirrors sid rs dm" and o: "dm_options dm = opts\<lparr>do_incarnation := inc0\<rparr>"
    and safe: "safe_state (dm_authority dm)"
    using assms(2) by (auto simp: healthy_def)
  have sound': "sound_options (dm_options dm)" and o': "opts\<lparr>do_incarnation := inc\<rparr> = (dm_options dm)\<lparr>do_incarnation := inc\<rparr>"
    using sound o by (simp_all add: sound_options_def)
  obtain rs' where b: "mirrors sid rs' dm''" "dm_options dm'' = (dm_options dm)\<lparr>do_incarnation := inc\<rparr>"
    "\<not> dm_durability_failed dm''" "erase (dm_authority dm'') = erase (dm_authority dm)" "lasting (dm_authority dm'')"
    by (rule idle_restart [OF m sound' assms(3) fs disjI2 [OF refl] start [unfolded o']])
  show ?thesis by (rule healthyI [OF b(1) b(2) [folded o'] b(3-5) safe])
qed

lemma history_healthy:
  assumes "sound_options opts" and "history version opts dm"
  shows "healthy opts dm"
  using assms(2)
proof (induction rule: history.induct)
  case (first sx inc dm d)
  then show ?case by (rule start_empty [OF assms(1)])
next
  case (request dm rq sx reply dm')
  show ?case by (rule request_healthy [OF assms(1) request.IH request.hyps(2-5)])
next
  case (crash dm rq sx reply dm' sx' inc n dm'' d)
  show ?case by (rule crash_healthy [OF assms(1) crash.IH crash.hyps(2-6)])
next
  case (crash_compacting dm rq sx reply dm' left sx' inc dm'' d)
  show ?case by (rule crash_compacting_healthy [OF assms(1) crash_compacting.IH crash_compacting.hyps(2-8)])
next
  case (stop dm sx' inc sx n dm'' d)
  show ?case by (rule stop_healthy [OF assms(1) stop.IH stop.hyps(2-4)])
qed

section \<open>Committed mutations\<close>

text \<open>What a successful mutation does before its log is compacted.\<close>

lemma commit_uncompacting:
  assumes "commit sx mu arb dm = (StOk, dm')"
  obtains dm1 where "commit sx mu arb (uncompacting dm) = (StOk, dm1)" and "dm_authority dm1 = dm_authority dm'"
  using assms
  by (auto simp: commit_def Let_def maybe_compact_def split: prod.splits if_splits)

lemma handle_committed:
  assumes "handle version sx rq dm = (reply, dm')" and "is_mutation (wr_type rq)" and "ws_status reply = StOk"
    and "plan_for (dm_authority dm) (wr_type rq) (wr_payload rq) (dm_arbitration dm + 1) = Inr mu"
    and "handle version sx rq (uncompacting dm) = (reply1, dm1)"
  obtains dm2 where "commit sx mu (dm_arbitration dm + 1) (uncompacting (dm\<lparr>dm_arbitration := dm_arbitration dm + 1\<rparr>)) = (StOk, dm2)"
    and "dm_store dm1 = dm_store dm2" and "dm_authority dm1 = dm_authority dm2" and "dm_options dm1 = dm_options dm2"
    and "dm_authority dm' = dm_authority dm2"
proof -
  let ?dm = "dm\<lparr>dm_arbitration := dm_arbitration dm + 1\<rparr>"
  have r: "handle_mutation sx rq dm = (reply, dm')" and r1: "handle_mutation sx rq (uncompacting dm) = (reply1, dm1)"
    using assms(1-3,5) by (auto simp: handle_def Let_def blank_reply_def split: if_splits)
  obtain d where d: "commit sx mu (dm_arbitration dm + 1) ?dm = (StOk, d)" "dm_authority dm' = dm_authority d"
    and serves: "servable (dm_recovery dm)" "\<not> dm_durability_failed dm" "mu_changes mu \<noteq> []"
    using r assms(3,4)
    by (cases "commit sx mu (dm_arbitration dm + 1) ?dm")
       (auto simp: handle_mutation_def Let_def blank_reply_def split: if_splits)
  obtain dm2 where dm2: "commit sx mu (dm_arbitration dm + 1) (uncompacting ?dm) = (StOk, dm2)" "dm_authority dm2 = dm_authority d"
    by (rule commit_uncompacting [OF d(1)])
  have "(uncompacting dm)\<lparr>dm_arbitration := dm_arbitration dm + 1\<rparr> = uncompacting ?dm" by simp
  then have c: "commit sx mu (dm_arbitration dm + 1) ((uncompacting dm)\<lparr>dm_arbitration := dm_arbitration dm + 1\<rparr>) = (StOk, dm2)"
    using dm2(1) by metis
  have "dm1 = dm2\<lparr>dm_mutations_applied := dm_mutations_applied dm2 + 1\<rparr>"
    using r1 serves assms(4) c by (simp add: handle_mutation_def Let_def)
  then show ?thesis using that [OF dm2(1)] dm2(2) d(2) by simp
qed

text \<open>Starting on what a crash left of a commit that succeeded.\<close>

lemma committed_recovers:
  assumes m: "mirrors sid rs dm" and safe: "safe_state (dm_authority dm)" and l: "lasting (dm_authority dm)"
    and sound: "sound_options (dm_options dm)"
    and space: "spacious (dm_store dm)" and plan: "plan_request (dm_authority dm) q arb = Inr mu"
    and commit: "commit sx mu arb (uncompacting dm) = (StOk, dm1)" and fs: "\<forall>c. fs_ok (sx_intent_fs sx') c"
  obtains b b' where "erase b = erase b'"
    and "b' = dm_authority dm \<or> b' = snd (apply_changes (unreleased mu) arb (dm_authority dm)) \<or> b' = dm_authority dm1"
    and "length (primary_bytes (dm_store dm1)) \<le> st_synced (dm_store dm) + n \<Longrightarrow> b' = dm_authority dm1"
    and "case fst (daemon_start sx' ((dm_options dm)\<lparr>do_incarnation := inc\<rparr>) (crash_disk dm dm1 n)) of
        Inl s \<Rightarrow> s = verify_invariants b \<and> s \<noteq> StOk
      | Inr dm'' \<Rightarrow> dm_authority dm'' = b"
proof -
  let ?opts = "(dm_options dm)\<lparr>do_incarnation := inc\<rparr>" and ?a = "dm_authority dm"
  have bound: "so_max_record_bytes (do_store (dm_options dm)) \<le> 16777216" and sound': "sound_options ?opts"
    using sound by (simp_all add: sound_options_def)
  have str: "structure_ok ?a" and adm: "admissible ?a mu" using safe plan_admissible [OF safe l plan] by simp_all
  define I where "I = mutation_intent (dm_intent_counter dm + 1) mu arb (sx_now sx) dm"
  define C where "C = commit_record (dm_intent_counter dm + 1) (sx_now sx)"
  have full: "apply_changes (mu_changes mu) arb ?a = (StOk, dm_authority dm1)"
    by (rule commit_okE [OF commit]) (simp add: maybe_compact_def)
  obtain part where part: "apply_changes (unreleased mu) arb ?a = (StOk, part)"
    by (rule part_applies [OF str plan full])
  have e: "[I, C] = [] \<or> [I, C] = [I] \<or> [I, C] = [I, C] \<and> fst (apply_changes (mu_changes mu) arb ?a) = StOk"
    using full by simp
  obtain e' k' where "e' = [I, C]" "k' = length (log_file sid (rs @ e'))"
    and "\<forall>r \<in> set e'. fits (do_store (dm_options dm)) r"
    and "dk_primary (st_disk (dm_store dm1)) = Some (take k' (log_file sid (rs @ e')))"
    by (rule commit_leaves [OF m adm sound commit]) (auto simp: I_def C_def)
  then have fit: "\<forall>r \<in> set [I, C]. fits (do_store (dm_options dm)) r"
    and disk: "dk_primary (st_disk (dm_store dm1)) = Some (take (length (log_file sid (rs @ [I, C]))) (log_file sid (rs @ [I, C])))"
    by blast+
  have rest: "restartable (do_store ?opts) sid (rs @ [I, C])"
    using mutation_restartable [OF m adm sound space I_def C_def _ fit] by simp
  have le: "length (log_file sid rs) \<le> length (log_file sid (rs @ [I, C]))" by (simp add: log_file_def log_image_append)
  obtain j where j: "dk_primary (crash_disk dm dm1 n) = Some (take j (log_file sid (rs @ [I, C])))"
    "length (log_file sid rs) \<le> j" "j \<le> length (log_file sid (rs @ [I, C]))"
    and all: "length (log_file sid (rs @ [I, C])) \<le> length (log_file sid rs) + n \<Longrightarrow> j = length (log_file sid (rs @ [I, C]))"
    by (rule crash_disk_prefix [OF m disk le, of n]) blast
  obtain res st kept s lost where kept: "[I, C] = kept @ lost"
    and lost: "j = length (log_file sid (rs @ [I, C])) \<Longrightarrow> lost = []"
    and s: "process_all (do_store ?opts) (rs @ kept) scan_start = Some s"
    and started: "daemon_start sx' ?opts (only_log (take j (log_file sid (rs @ [I, C])))) =
      (case apply_replay (sx_random sx') ?opts (map mark_ambiguous (ss_actions s)) of
         Inl x \<Rightarrow> (Inl x, st_disk (shut_store (sx_commit_fs sx') (sx_now sx') st))
       | Inr (a, k) \<Rightarrow> (Inr (daemon_of ?opts res st a k (sx_now sx')), st_disk st))"
    by (rule start_crashed [OF sound' rest fs j(2,3)]) blast
  have k1: "kept = [] \<or> kept = [I] \<or> kept = [I, C] \<and> fst (apply_changes (mu_changes mu) arb ?a) = StOk"
    using full kept by (auto simp: Cons_eq_append_conv)
  have k2: "\<forall>r \<in> set kept. fits (do_store (dm_options dm)) r" using fit kept by (metis Un_iff set_append)
  have s': "process_all (do_store (dm_options dm)) (rs @ kept) scan_start = Some s" using s by simp
  have ok: "fst (apply_changes (unreleased mu) arb ?a) = StOk" using part by simp
  obtain b' where settled: "settles (dm_options dm) (rs @ kept) s b'"
    and b': "kept = [] \<and> b' = ?a \<or> kept = [I] \<and> apply_changes (unreleased mu) arb ?a = (StOk, b') \<or>
         kept = [I, C] \<and> apply_changes (mu_changes mu) arb ?a = (StOk, b')"
    by (rule kept_settles [OF m adm bound I_def C_def k1 k2 s' disjI1 [OF ok]])
  have "recovers_to (dm_options dm) (map mark_ambiguous (ss_actions s)) b'" using settled by (simp add: settles_def)
  then obtain b cnt where b: "erase b = erase b'" and "apply_replay (sx_random sx') ?opts (map mark_ambiguous (ss_actions s)) =
      (if verify_invariants b \<noteq> StOk then Inl (verify_invariants b) else Inr (b, cnt))"
    by (rule apply_replay_recovers)
  then have "case fst (daemon_start sx' ?opts (crash_disk dm dm1 n)) of
        Inl s \<Rightarrow> s = verify_invariants b \<and> s \<noteq> StOk | Inr dm'' \<Rightarrow> dm_authority dm'' = b"
    by (simp add: start_primary [OF fs j(1)] started daemon_of_def)
  moreover have "b' = dm_authority dm1"
    if "length (primary_bytes (dm_store dm1)) \<le> st_synced (dm_store dm) + n"
  proof -
    have "st_synced (dm_store dm) = length (log_file sid rs)"
      using m holds_bytes [of sid rs "dm_store dm"] by (simp add: mirrors_def on_disk_def)
    then have "lost = []" using that lost all disk by (simp add: primary_bytes_def)
    then show ?thesis using kept b' full by auto
  qed
  moreover have "b' = ?a \<or> b' = snd (apply_changes (unreleased mu) arb ?a) \<or> b' = dm_authority dm1"
    using b' full by auto
  ultimately show ?thesis using that [OF b] by blast
qed

text \<open>Starting on what a compaction after the commit left.\<close>

lemma compacted_recovers:
  assumes m: "mirrors sid rs dm" and safe: "safe_state (dm_authority dm)" and l: "lasting (dm_authority dm)"
    and sound: "sound_options (dm_options dm)"
    and space: "spacious (dm_store dm)" and plan: "plan_request (dm_authority dm) q arb = Inr mu"
    and commit: "commit sx mu arb (uncompacting dm) = (StOk, dm1)" and fs: "\<forall>c. fs_ok (sx_intent_fs sx') c"
    and "compaction_leaves sx dm1 left"
  obtains b where "erase b = erase (dm_authority dm1)"
    and "case fst (daemon_start sx' ((dm_options dm)\<lparr>do_incarnation := inc\<rparr>) left) of
        Inl s \<Rightarrow> s = verify_invariants b \<and> s \<noteq> StOk
      | Inr dm'' \<Rightarrow> dm_authority dm'' = b"
proof -
  let ?dm = "uncompacting dm" and ?I = "mutation_intent (dm_intent_counter dm + 1) mu arb (sx_now sx) dm"
    and ?C = "commit_record (dm_intent_counter dm + 1) (sx_now sx)"
  have m0: "mirrors sid rs ?dm" and adm: "admissible (dm_authority ?dm) mu"
    and bound: "so_max_record_bytes (do_store (dm_options ?dm)) \<le> 16777216"
    using m plan_admissible [OF safe l plan] sound by (simp_all add: sound_options_def)
  obtain dm2 where "dm1 = snd (maybe_compact sx dm2)" "dm_options dm2 = dm_options ?dm"
    "apply_changes (mu_changes mu) arb (dm_authority dm) = (StOk, dm_authority dm2)" "mirrors sid (rs @ [?I, ?C]) dm2"
    by (rule commit_mirrors [OF m0 adm bound commit]) (simp add: mutation_intent_def)
  then have dm1: "dm_options dm1 = dm_options ?dm" "apply_changes (mu_changes mu) arb (dm_authority dm) = (StOk, dm_authority dm1)"
    "mirrors sid (rs @ [?I, ?C]) dm1"
    by (simp_all add: maybe_compact_def)
  let ?dm1 = "dm1\<lparr>dm_options := dm_options dm\<rparr>"
  have m1: "mirrors sid (rs @ [?I, ?C]) ?dm1" using dm1(1,3) by (simp add: mirrors_def recovers_to_def replay_config_def)
  have "\<forall>r \<in> set [?I, ?C]. fits (do_store (dm_options dm)) r"
    using m1 unfolding mirrors_def holds_log_def by auto
  then have "restartable (do_store (dm_options dm)) sid (rs @ [?I, ?C])"
    using mutation_restartable [OF m _ sound space refl refl, of mu "[?I, ?C]"] adm by simp
  moreover have "lasting (dm_authority ?dm1)" using planned_lasting [OF safe l plan dm1(2)] by simp
  moreover have "roomy (do_store (dm_options dm))" by (rule spacious_roomy [OF m space])
  moreover have "compaction_leaves sx ?dm1 left" using assms(9) dm1(1) by (simp add: compaction_leaves_def compaction_record_def)
  ultimately show ?thesis
    using start_after_compaction [OF m1 _ _ _ _ _ fs, of sx left inc] sound that by auto
qed

section \<open>After the answer\<close>

text \<open>
  A restart of a daemon that rests, because the machine crashed or after an orderly stop, on
  whatever is on the medium.
\<close>

inductive restart :: "daemon_options \<Rightarrow> daemon \<Rightarrow> daemon \<Rightarrow> bool"
  for opts where
  crashed: "spacious (dm_store dm) \<Longrightarrow> \<forall>c. fs_ok (sx_intent_fs sx') c \<Longrightarrow>
    daemon_start sx' (opts\<lparr>do_incarnation := inc\<rparr>) (crash_disk dm dm n) = (Inr dm'', d) \<Longrightarrow> restart opts dm dm''"
| stopped: "spacious (dm_store dm) \<Longrightarrow> \<forall>c. fs_ok (sx_intent_fs sx') c \<Longrightarrow>
    daemon_start sx' (opts\<lparr>do_incarnation := inc\<rparr>) (crash_disk dm (daemon_stop sx dm) n) = (Inr dm'', d) \<Longrightarrow> restart opts dm dm''"

lemma compact_trace_first: "st_disk st \<in> set (compact_trace fs sid snap at origin n st)"
  by (simp only: compact_trace_def Let_def if_distrib [of "\<lambda>l. x \<in> set l" for x] list.set insertI1 set_append UnI1 if_cancel)

text \<open>A compaction leaves no byte of the log that is not on the medium.\<close>

lemma compact_synced:
  assumes "on_disk st" and "dk_primary (st_disk (snd (store_compact fs sid snap at origin st))) = Some c"
  shows "length c \<le> st_synced (snd (store_compact fs sid snap at origin st))"
  using assms by (auto simp: on_disk_def primary_bytes_def store_compact_def store_close_def sync_file_def Let_def split: if_splits)

lemma at_rest_leaves:
  assumes m: "mirrors sid rs dm" and st: "dm_store dm' = dm_store (snd (maybe_compact sx dm))"
  shows "crash_disk dm' dm' n = st_disk (dm_store dm')" and "compaction_leaves sx dm (st_disk (dm_store dm'))"
proof -
  let ?compacted = "snd (store_compact (sx_compact_fs sx) (sx_store_id sx) (snapshot (dm_authority dm)) (sx_now sx)
    (do_incarnation (dm_options dm)) (dm_store dm))"
  have st': "dm_store dm' = dm_store dm \<or> dm_store dm' = ?compacted"
    using st by (auto simp: maybe_compact_def split: prod.splits if_splits)
  have on: "on_disk (dm_store dm)" using m by (simp add: mirrors_def)
  have "length c \<le> st_synced (dm_store dm')" if "dk_primary (st_disk (dm_store dm')) = Some c" for c
    using st' that compact_synced [OF on] on by (auto simp: on_disk_def primary_bytes_def)
  then show "crash_disk dm' dm' n = st_disk (dm_store dm')"
    by (cases "dk_primary (st_disk (dm_store dm'))"; cases "st_disk (dm_store dm')") (auto simp: crash_disk_def)
  have "compaction_leaves sx dm (st_disk (dm_store dm))"
    using compact_trace_first by (auto simp: compaction_leaves_def)
  then show "compaction_leaves sx dm (st_disk (dm_store dm'))" using st' compaction_leaves_end [of sx dm] by auto
qed

lemma restart_options: "restart (opts\<lparr>do_incarnation := inc\<rparr>) = restart opts"
  by (intro ext) (simp add: restart.simps)

text \<open>The daemon that answers a mutation with success, before the compaction that may follow.\<close>

lemma handle_answered:
  assumes "handle version sx rq dm = (reply, dm')" and "is_mutation (wr_type rq)" and "ws_status reply = StOk"
    and "plan_for (dm_authority dm) (wr_type rq) (wr_payload rq) (dm_arbitration dm + 1) = Inr mu"
  obtains d where "commit sx mu (dm_arbitration dm + 1) (dm\<lparr>dm_arbitration := dm_arbitration dm + 1\<rparr>) = (StOk, d)"
    and "dm' = d\<lparr>dm_mutations_applied := dm_mutations_applied d + 1\<rparr>"
proof -
  have r: "handle_mutation sx rq dm = (reply, dm')"
    using assms(1-3) by (auto simp: handle_def Let_def blank_reply_def split: if_splits)
  then show ?thesis
    using assms(3,4) that
    by (cases "commit sx mu (dm_arbitration dm + 1) (dm\<lparr>dm_arbitration := dm_arbitration dm + 1\<rparr>)")
       (auto simp: handle_mutation_def Let_def blank_reply_def split: if_splits)
qed

lemma answered_mirrors:
  assumes m: "mirrors sid rs dm" and safe: "safe_state (dm_authority dm)" and l: "lasting (dm_authority dm)"
    and sound: "sound_options (dm_options dm)" and space: "spacious (dm_store dm)"
    and plan: "plan_request (dm_authority dm) q arb = Inr mu" and commit: "commit sx mu arb dm = (StOk, d)"
  obtains rs' dm2 where "d = snd (maybe_compact sx dm2)" and "mirrors sid rs' dm2" and "dm_options dm2 = dm_options dm"
    and "lasting (dm_authority dm2)" and "restartable (do_store (dm_options dm2)) sid rs'" and "roomy (do_store (dm_options dm2))"
proof -
  let ?I = "mutation_intent (dm_intent_counter dm + 1) mu arb (sx_now sx) dm" and ?C = "commit_record (dm_intent_counter dm + 1) (sx_now sx)"
  have adm: "admissible (dm_authority dm) mu" and bound: "so_max_record_bytes (do_store (dm_options dm)) \<le> 16777216"
    using plan_admissible [OF safe l plan] sound by (simp_all add: sound_options_def)
  obtain dm2 where dm2: "d = snd (maybe_compact sx dm2)" "dm_options dm2 = dm_options dm"
    "apply_changes (mu_changes mu) arb (dm_authority dm) = (StOk, dm_authority dm2)" "mirrors sid (rs @ [?I, ?C]) dm2"
    by (rule commit_mirrors [OF m adm bound commit])
  have "\<forall>r \<in> set [?I, ?C]. fits (do_store (dm_options dm)) r"
    using dm2(4) unfolding mirrors_def dm2(2) holds_log_def by auto
  then have "restartable (do_store (dm_options dm)) sid (rs @ [?I, ?C])"
    using mutation_restartable [OF m adm sound space refl refl, of "[?I, ?C]"] by simp
  then show ?thesis
    using that [OF dm2(1,4,2)] planned_lasting [OF safe l plan dm2(3)] spacious_roomy [OF m space] dm2(2) by simp
qed

text \<open>
  After the answer, a crash of the machine finds the mutation on the medium, and so do the starts
  that follow.
\<close>

lemma answered_restart:
  assumes m: "mirrors sid rs dm" and l: "lasting (dm_authority dm)" and sound: "sound_options (dm_options dm)"
    and rest: "restartable (do_store (dm_options dm)) sid rs" and room: "roomy (do_store (dm_options dm))"
    and dm': "dm_store dm' = dm_store (snd (maybe_compact sx dm))" "dm_authority dm' = dm_authority dm" "dm_options dm' = dm_options dm"
    and "restart (dm_options dm) dm' dm''"
  obtains sid' rs' inc where "mirrors sid' rs' dm''" and "dm_options dm'' = (dm_options dm)\<lparr>do_incarnation := inc\<rparr>"
    and "erase (dm_authority dm'') = erase (dm_authority dm)"
proof -
  note leaves = at_rest_leaves [OF m dm'(1)] and goal = that
  have crash: thesis if fs: "\<forall>c. fs_ok (sx_intent_fs sx') c"
    and "daemon_start sx' ((dm_options dm)\<lparr>do_incarnation := inc\<rparr>) (crash_disk dm' dm' n) = (Inr dm'', d)" for sx' inc n d
    using restart_after_compaction [OF m l sound rest room leaves(2) fs that(2) [unfolded leaves(1)]] goal by metis
  from assms(9) show ?thesis
  proof cases
    case (crashed sx' inc n d)
    then show ?thesis by (intro crash)
  next
    case (stopped sx' inc sx0 n d)
    show ?thesis
    proof (cases "st_open (dm_store dm')")
      case True
      then obtain sid' rs' where "mirrors sid' rs' (snd (maybe_compact sx dm))"
        using compaction_mirrors [OF m l sound, of sx] dm'(1) by metis
      then have m': "mirrors sid' rs' dm'" using mirrors_update [of dm' "snd (maybe_compact sx dm)" sid' rs'] dm'
        by (auto simp: maybe_compact_def split: prod.splits)
      have sound': "sound_options (dm_options dm')" using sound dm'(3) by simp
      show ?thesis
        by (rule idle_restart [OF m' sound' stopped(1,2) disjI2 [OF refl] stopped(3) [folded dm'(3)]])
           (use goal dm' in metis)
    next
      case False
      then have "crash_disk dm' (daemon_stop sx0 dm') n = crash_disk dm' dm' n"
        by (simp add: crash_disk_def daemon_stop_def shut_store_def)
      then show ?thesis using crash stopped by metis
    qed
  qed
qed

lemma answered_restarts:
  assumes m: "mirrors sid rs dm" and l: "lasting (dm_authority dm)" and sound: "sound_options (dm_options dm)"
    and rest: "restartable (do_store (dm_options dm)) sid rs" and room: "roomy (do_store (dm_options dm))"
    and dm': "dm_store dm' = dm_store (snd (maybe_compact sx dm))" "dm_authority dm' = dm_authority dm" "dm_options dm' = dm_options dm"
    and "(restart (dm_options dm))\<^sup>+\<^sup>+ dm' dm''"
  shows "(\<exists>sid' rs' inc. mirrors sid' rs' dm'' \<and> dm_options dm'' = (dm_options dm)\<lparr>do_incarnation := inc\<rparr>) \<and>
    erase (dm_authority dm'') = erase (dm_authority dm)"
  using assms(9)
proof induction
  case (base dm1)
  then show ?case by (rule answered_restart [OF assms(1-8)]) blast
next
  case (step dm1 dm2)
  then obtain sid' rs' inc where m1: "mirrors sid' rs' dm1" and o: "dm_options dm1 = (dm_options dm)\<lparr>do_incarnation := inc\<rparr>"
    and e: "erase (dm_authority dm1) = erase (dm_authority dm)" by blast
  have sound': "sound_options (dm_options dm1)" using sound o by (simp add: sound_options_def)
  have o': "(dm_options dm)\<lparr>do_incarnation := inc'\<rparr> = (dm_options dm1)\<lparr>do_incarnation := inc'\<rparr>" for inc' by (simp add: o)
  obtain sx' inc' sx0 n d dm1' where "spacious (dm_store dm1)" "\<forall>c. fs_ok (sx_intent_fs sx') c" "dm1' = dm1 \<or> dm1' = daemon_stop sx0 dm1"
    "daemon_start sx' ((dm_options dm1)\<lparr>do_incarnation := inc'\<rparr>) (crash_disk dm1 dm1' n) = (Inr dm2, d)"
    using step(2) unfolding o' [symmetric] by cases blast+
  from idle_restart [OF m1 sound' this] show ?case using e o' by metis
qed

section \<open>The ticker\<close>

text \<open>
  A tick is a regular request. A daemon that no longer serves mutations does not recover by a
  tick, so a daemon that still serves after the ticker ran is one of a history.
\<close>

definition tick_message :: "surroundings \<Rightarrow> u64 \<Rightarrow> wire_request" where
  "tick_message sx now =
     \<lparr>wr_protocol_version = kWireProtocolVersion, wr_type = MtTickRequest, wr_session_seq = 0,
      wr_id = sx_random sx, wr_payload = encode_u64_body now\<rparr>"

lemma tick_once_handle: "snd (tick_once version sx now dm) = snd (handle version sx (tick_message sx now) dm)"
  by (simp add: tick_once_def tick_message_def split: prod.splits)

lemma tick_regular: "regular_message dm (tick_message sx now)"
proof -
  have "request_of MtTickRequest payload = Inr q \<Longrightarrow> \<exists>t. q = RqTick t" for payload q
    by (auto simp: request_of_def ebind_Inr)
  then show ?thesis
    by (fastforce simp: regular_message_def tick_message_def regular_def split: sum.splits)
qed

abbreviation serving :: "daemon \<Rightarrow> bool" where
  "serving dm \<equiv> \<not> dm_durability_failed dm \<and> st_open (dm_store dm)"

lemma commit_closed:
  assumes "\<not> st_open (dm_store dm)" and "commit sx mu arb dm = (status, dm')"
  shows "\<not> serving dm'"
  using assms by (auto simp: commit_def Let_def append_intent_def write_record_def durable_def)

lemma handle_serving:
  assumes "handle version sx rq dm = (reply, dm')" and "serving dm'"
  shows "serving dm"
  using assms(1)
proof (cases rule: handle_cases)
  case (mutation q arb mu status dm1)
  have st: "serving dm1" using mutation(6,9) assms(2) by simp
  have "st_open (dm_store (dm\<lparr>dm_arbitration := arb\<rparr>))"
    using commit_closed [OF _ mutation(4)] st by blast
  moreover have "\<not> dm_durability_failed dm"
    using mutation(4) st by (auto simp: commit_def Let_def maybe_compact_def split: prod.splits if_splits)
  ultimately show ?thesis by simp
qed (use assms(2) in simp)

lemma tick_history:
  assumes "history version opts dm" and "serving (snd (tick_once version sx now dm))"
  shows "history version opts (snd (tick_once version sx now dm))"
  using assms history.request [OF assms(1) tick_regular surjective_pairing, of sx sx now] by (simp add: tick_once_handle)

lemma tick_serving:
  assumes "serving (snd (tick_once version sx now dm))"
  shows "serving dm"
  by (rule handle_serving [of version sx "tick_message sx now" dm, OF surjective_pairing])
     (use assms in \<open>simp add: tick_once_handle\<close>)

lemma ticker_cases:
  obtains (quiet) b where "ticker_loop version slices ticks flags dm = (b, dm)"
    | (tick) sx now ticks' flags' where "ticks = (sx, now) # ticks'"
      "ticker_loop version slices ticks flags dm = ticker_loop version slices ticks' flags' (snd (tick_once version sx now dm))"
proof (cases flags)
  case (Cons stopping flags0)
  show ?thesis
  proof (cases "\<not> stopping \<and> (\<exists>fs. sleep_slices slices flags0 = Some (False, fs)) \<and> ticks \<noteq> []")
    case True
    then obtain fs sx now ticks' where "sleep_slices slices flags0 = Some (False, fs)" "ticks = (sx, now) # ticks'" "\<not> stopping"
      by (metis list.exhaust surj_pair)
    then show ?thesis using tick Cons by simp
  next
    case False
    then have "snd (ticker_loop version slices ticks flags dm) = dm"
      by (cases ticks; cases "sleep_slices slices flags0") (auto simp: Cons split: prod.splits bool.splits)
    then show ?thesis using quiet [of "fst (ticker_loop version slices ticks flags dm)"] by (simp add: prod_eq_iff)
  qed
qed (rule quiet [of False], simp)

lemma ticker_serving: "serving (snd (ticker_loop version slices ticks flags dm)) \<Longrightarrow> serving dm"
proof (induction ticks arbitrary: flags dm)
  case Nil
  then show ?case by (cases rule: ticker_cases [of version slices "[]" flags dm]) simp_all
next
  case (Cons t ticks)
  show ?case
  proof (cases rule: ticker_cases [of version slices "t # ticks" flags dm])
    case (tick sx now ticks' flags')
    have "ticks' = ticks" using tick(1) by simp
    then have "serving (snd (ticker_loop version slices ticks flags' (snd (tick_once version sx now dm))))"
      using Cons.prems unfolding tick(2) by simp
    then show ?thesis by (rule tick_serving [OF Cons.IH])
  qed (use Cons.prems in simp)
qed

lemma ticker_history:
  "history version opts dm \<Longrightarrow> serving (snd (ticker_loop version slices ticks flags dm)) \<Longrightarrow>
     history version opts (snd (ticker_loop version slices ticks flags dm))"
proof (induction ticks arbitrary: flags dm)
  case Nil
  then show ?case by (cases rule: ticker_cases [of version slices "[]" flags dm]) simp_all
next
  case (Cons t ticks)
  show ?case
  proof (cases rule: ticker_cases [of version slices "t # ticks" flags dm])
    case (tick sx now ticks' flags')
    have same: "ticks' = ticks" using tick(1) by simp
    have on: "serving (snd (ticker_loop version slices ticks flags' (snd (tick_once version sx now dm))))"
      using Cons.prems(2) same unfolding tick(2) by simp
    have "history version opts (snd (tick_once version sx now dm))"
      by (rule tick_history [OF Cons.prems(1) ticker_serving [OF on]])
    then show ?thesis unfolding tick(2) same by (rule Cons.IH [OF _ on])
  qed (use Cons.prems in simp)
qed

end
