(* ===== verification/Messages.thy ===== *)
theory Messages
  imports Protocol
begin

text \<open>
  The message codecs: every body, and both envelopes, decode to what was encoded, and a
  payload with anything behind its last field is refused. The bodies are instances of the
  \<open>codec\<close> interface; what the daemon and the client rely on follows from it once.
\<close>

section \<open>Whole payloads\<close>

context codec
begin

lemma whole_enc: "ok v \<Longrightarrow> whole dec (enc v) = Inr v"
  using dec_enc [of v "[]"] by (simp add: whole_def require_end_def)

lemma whole_trailing: "ok v \<Longrightarrow> whole dec (enc v @ b # bs) = Inl StInvalid"
  using dec_enc [of v "b # bs"] by (simp add: whole_def require_end_def)

end

section \<open>Text and enumerations\<close>

lemma message_string: "max_string message_limits = 4096" "max_bytes message_limits = 1048576"
  by (simp_all add: message_limits_def kDefaultMaxFrameBytes_def)

lemma r_str_message [codec_simps]: "clean v \<Longrightarrow> r_str message_limits (w_str v @ rest) = Inr (v, rest)"
  by (rule r_str_clean) (simp_all add: message_string)

lemma r_fidelity_w [codec_simps]:
  "r_enum recovery_fidelity_all (w_enum recovery_fidelity_code v @ rest) = Inr (v, rest)"
  by (rule r_enum_w; cases v) (simp_all add: recovery_fidelity_all_def recovery_fidelity_code_def)

lemma r_status_w [codec_simps]: "r_enum status_all (w_enum status_code v @ rest) = Inr (v, rest)"
  by (rule r_enum_w; cases v) (simp_all add: status_all_def status_code_def kStatusNames_def)

lemma r_primary_kind_w [codec_simps]:
  "r_enum primary_kind_all (w_enum primary_kind_code v @ rest) = Inr (v, rest)"
  by (rule r_enum_w; cases v; (cases "the v")?)
     (simp_all add: primary_kind_all_def primary_kind_code_def object_kind_all_def split: object_kind.splits)

lemma r_ledger_w [codec_simps]: "r_ledger (w_ledger l @ rest) = Inr (l, rest)"
  by (simp add: r_ledger_def w_ledger_def codec_steps codec_simps)


section \<open>The bodies\<close>

lemmas message_steps = rbind_ok append_assoc codec_simps

lemma w_nonempty: "w_u16 a \<noteq> []" "w_u32 b \<noteq> []" "w_u64 c \<noteq> []" "w_id128 i \<noteq> []" "w_digest d \<noteq> []"
  using w_lengths by (fastforce simp: w_digest_def dest: arg_cong [where f = length])+

interpretation hello_request_codec: codec encode_hello_request read_hello_request "\<lambda>v. clean (hq_client_kind v)"
  by unfold_locales
     (simp_all add: w_nonempty encode_hello_request_def read_hello_request_def message_steps)

interpretation hello_reply_codec: codec encode_hello_reply read_hello_reply "\<lambda>_. True"
  by unfold_locales (simp_all add: w_nonempty encode_hello_reply_def read_hello_reply_def message_steps)

interpretation site_registration_codec: codec encode_site_registration read_site_registration
    "\<lambda>v. clean (sdesc_name (sreg_descriptor v))"
  by unfold_locales
     (simp_all add: w_nonempty encode_site_registration_def read_site_registration_def message_steps)

interpretation heartbeat_codec: codec encode_heartbeat read_heartbeat "\<lambda>_. True"
  by unfold_locales (simp_all add: w_nonempty encode_heartbeat_def read_heartbeat_def message_steps)

interpretation path_registration_codec: codec encode_path_registration read_path_registration
    "\<lambda>v. clean (pdesc_name (preg_descriptor v))"
  by unfold_locales
     (simp_all add: w_nonempty encode_path_registration_def read_path_registration_def message_steps)

interpretation grant_proposal_codec: codec encode_grant_proposal read_grant_proposal "\<lambda>v. clean (gp_reason v)"
  by unfold_locales
     (simp_all add: w_nonempty encode_grant_proposal_def read_grant_proposal_def message_steps)

interpretation grant_operation_codec: codec encode_grant_operation read_grant_operation "\<lambda>v. clean (go_reason v)"
  by unfold_locales
     (simp_all add: w_nonempty encode_grant_operation_def read_grant_operation_def message_steps)

interpretation acknowledgement_codec: codec encode_acknowledgement read_acknowledgement "\<lambda>_. True"
  by unfold_locales
     (simp_all add: w_nonempty encode_acknowledgement_def read_acknowledgement_def message_steps)

interpretation verification_message_codec: codec encode_verification_message read_verification_message
    "\<lambda>v. clean (gv_detail v)"
  by unfold_locales
     (simp_all add: w_nonempty encode_verification_message_def read_verification_message_def message_steps)

interpretation ledger_report_codec: codec encode_ledger_report read_ledger_report "\<lambda>_. True"
  by unfold_locales
     (simp_all add: w_nonempty encode_ledger_report_def read_ledger_report_def message_steps)

interpretation digest_report_codec: codec encode_digest_report read_digest_report "\<lambda>v. clean (dr_policy_digest v)"
  by unfold_locales
     (simp_all add: w_nonempty encode_digest_report_def read_digest_report_def message_steps)


text \<open>The composite bodies.\<close>

interpretation site_state_codec: codec encode_site_state_request read_site_state_request
    "\<lambda>(site, state, reason, now). clean reason"
  by unfold_locales (auto simp: w_nonempty read_site_state_request_def message_steps)

interpretation path_state_codec: codec encode_path_state_request read_path_state_request
    "\<lambda>(path, state, reason, now). clean reason"
  by unfold_locales (auto simp: w_nonempty read_path_state_request_def message_steps)

interpretation policy_install_codec: codec encode_policy_install_request read_policy_install_request "\<lambda>_. True"
  by unfold_locales (auto simp: w_nonempty read_policy_install_request_def message_steps)

interpretation epoch_bump_codec: codec encode_epoch_bump_request read_epoch_bump_request "\<lambda>_. True"
  by unfold_locales (auto simp: w_nonempty read_epoch_bump_request_def message_steps)

lemma clean_length: "clean v \<Longrightarrow> length v \<le> 4096"
  by (simp add: clean_def)

lemma grant_operation_length: "length (encode_grant_operation v) = 132 + length (go_reason v)"
  by (simp add: encode_grant_operation_def)

interpretation reconcile_codec: codec encode_reconcile_request read_reconcile_request
    "\<lambda>(op, target, prin). clean (go_reason op)"
proof unfold_locales
  fix v :: "grant_operation \<times> grant_state \<times> principal_id" and rest
  assume "case v of (op, target, prin) \<Rightarrow> clean (go_reason op)"
  then have c: "clean (go_reason (fst v))" by (cases v) simp
  let ?base = "encode_grant_operation (fst v)"
  have "length ?base \<le> 1048576" using clean_length [OF c] by (simp add: grant_operation_length)
  then have b: "r_bytes message_limits (w_bytes ?base @ r) = Inr (?base, r)" for r
    by (simp add: r_bytes_w message_string)
  have "decode_grant_operation ?base = Inr (fst v)"
    unfolding decode_grant_operation_def using c by (rule grant_operation_codec.whole_enc)
  with b show "read_reconcile_request (encode_reconcile_request v @ rest) = Inr (v, rest)"
    by (simp add: read_reconcile_request_def encode_reconcile_request_def message_steps)
next
  show "encode_reconcile_request v \<noteq> []" for v
    by (simp add: encode_reconcile_request_def w_nonempty)
qed

interpretation list_filter_codec: codec encode_list_filter read_list_filter "\<lambda>v. unat (lf_limit v) \<le> 65536"
  by unfold_locales (simp_all add: w_nonempty encode_list_filter_def read_list_filter_def message_steps not_less)

interpretation u64_codec: codec encode_u64_body r_u64 "\<lambda>_. True"
  by unfold_locales (simp_all add: w_nonempty encode_u64_body_def message_steps)

interpretation id_codec: codec encode_id_body r_id128 "\<lambda>_. True"
  by unfold_locales (simp_all add: w_nonempty encode_id_body_def message_steps)

interpretation status_report_codec: codec encode_status_report read_status_report "\<lambda>v. clean (sp_detail v)"
  by unfold_locales (simp_all add: w_nonempty encode_status_report_def read_status_report_def message_steps)

text \<open>A mutation report carries the changes of one mutation, or the first of them.\<close>

definition report_fits :: "wire_limits \<Rightarrow> mutation_report \<Rightarrow> bool" where
  "report_fits lim v \<longleftrightarrow>
     length (mr_changes v) \<le> 8192 \<and> length (mr_changes v) \<le> max_container lim \<and>
     (\<forall>c \<in> set (mr_changes v). change_fits lim c)"

interpretation mutation_report_codec: codec encode_mutation_report "read_mutation_report lim" "report_fits lim" for lim
proof unfold_locales
  fix v rest assume fits: "report_fits lim v"
  let ?cs = "mr_changes v"
  have n: "unat (of_nat (length ?cs) :: u32) = length ?cs" using fits by (simp add: report_fits_def unat_of_nat)
  have count: "r_container_count lim (w_list encode_state_change ?cs @ rest) =
      Inr (of_nat (length ?cs), concat (map encode_state_change ?cs) @ rest)"
    using fits change_codec.count_le [of ?cs]
    by (simp add: r_container_count_def w_list_def rbind_ok r_u32_w n report_fits_def)
  have "r_times (length ?cs) (decode_state_change lim) (concat (map encode_state_change ?cs) @ rest) = Inr (?cs, rest)"
    by (rule change_codec.times) (use fits in \<open>simp add: report_fits_def\<close>)
  with count fits n show "read_mutation_report lim (encode_mutation_report v @ rest) = Inr (v, rest)"
    by (simp add: read_mutation_report_def encode_mutation_report_def message_steps report_fits_def)
next
  show "encode_mutation_report v \<noteq> []" for v by (simp add: encode_mutation_report_def w_nonempty)
qed


section \<open>Envelopes\<close>

text \<open>A message type with a name, as opposed to a number a peer made up.\<close>

definition named_type :: "message_type \<Rightarrow> bool" where
  "named_type t \<longleftrightarrow> t \<in> fst ` set message_types"

lemma message_codes_distinct: "distinct (map (\<lambda>e. fst (snd e)) message_types)" "distinct (map fst message_types)"
  by (simp_all add: message_types_def)

lemma find_distinct: "distinct (map f xs) \<Longrightarrow> x \<in> set xs \<Longrightarrow> find (\<lambda>e. f e = f x) xs = Some x"
  by (induction xs) auto

lemma message_type_of_code: "named_type t \<Longrightarrow> message_type_of (message_type_code t) = t"
proof -
  assume "named_type t"
  then obtain e where e: "e \<in> set message_types" "fst e = t" by (auto simp: named_type_def)
  then have t: "\<forall>n. t \<noteq> MtOther n" by (auto simp: message_types_def)
  have "find (\<lambda>x. fst x = t) message_types = Some e"
    using find_distinct [OF message_codes_distinct(2) e(1)] e(2) by simp
  then have "message_type_code t = fst (snd e)" using t by (auto simp: message_type_code_def split: message_type.splits)
  then show ?thesis
    using find_distinct [OF message_codes_distinct(1) e(1)] e(2) by (simp add: message_type_of_def)
qed

definition request_fits :: "wire_limits \<Rightarrow> wire_request \<Rightarrow> bool" where
  "request_fits lim v \<longleftrightarrow>
     named_type (wr_type v) \<and> message_type_is_request (wr_type v) \<and>
     length (wr_payload v) \<le> max_bytes lim \<and> length (wr_payload v) < 2 ^ 32"

definition response_fits :: "wire_limits \<Rightarrow> wire_response \<Rightarrow> bool" where
  "response_fits lim v \<longleftrightarrow>
     named_type (ws_type v) \<and> message_type_is_reply (ws_type v) \<and> clean (ws_detail v) \<and> 4096 \<le> max_string lim \<and>
     length (ws_payload v) \<le> max_bytes lim \<and> length (ws_payload v) < 2 ^ 32"

interpretation request_codec: codec encode_request "read_request lim" "request_fits lim" for lim
  by unfold_locales
     (simp_all add: w_nonempty encode_request_def read_request_def request_fits_def message_steps
        message_type_of_code r_bytes_w not_less)

interpretation response_codec: codec encode_response "read_response lim" "response_fits lim" for lim
  by unfold_locales
     (simp_all add: w_nonempty encode_response_def read_response_def response_fits_def message_steps
        message_type_of_code r_bytes_w r_str_clean not_less)

section \<open>Lists\<close>

text \<open>The record lists of the query replies, through the codecs of the records.\<close>

lemma record_list_roundtrip:
  "\<forall>v \<in> set ss. restorable message_limits (OSite v) \<Longrightarrow> length ss \<le> 65536 \<Longrightarrow>
     decode_site_list (encode_site_list ss) = Inr ss"
  "\<forall>v \<in> set ps. restorable message_limits (OPath v) \<Longrightarrow> length ps \<le> 65536 \<Longrightarrow>
     decode_path_list (encode_path_list ps) = Inr ps"
  "\<forall>v \<in> set gs. restorable message_limits (OGrant v) \<Longrightarrow> length gs \<le> 65536 \<Longrightarrow>
     decode_grant_list (encode_grant_list gs) = Inr gs"
  using site_codec.counted [of ss message_limits message_limits "[]"]
    path_codec.counted [of ps message_limits message_limits "[]"]
    grant_codec.counted [of gs message_limits message_limits "[]"]
  by (simp_all add: decode_site_list_def encode_site_list_def decode_path_list_def encode_path_list_def
      decode_grant_list_def encode_grant_list_def encode_record_list_def whole_def require_end_def message_limits_def)

end
