(* ===== verification/Restart.thy ===== *)
theory Restart
  imports History Example Messages
begin

text \<open>
  What survives a crash. A daemon is brought up on an empty disk and registers two sites and a
  path over the wire; the properties of histories follow, each applied to that daemon.
\<close>

section \<open>A daemon at work\<close>

definition demo_options :: daemon_options where
  "demo_options =
     \<lparr>do_state_path = ''isf'', do_policy = conservative_default, do_epoch = 1, do_incarnation = demo_inc,
      do_store = default_store_options, do_max_changes_in_reply = 16, do_verify_after_mutation = False,
      do_auto_compact = True\<rparr>"

definition demo_sx :: surroundings where
  "demo_sx =
     (let fs = \<lparr>fs_ok = \<lambda>_. True, fs_short = 0\<rparr>
      in \<lparr>sx_now = 5, sx_random = demo_inc, sx_store_id = demo_inc, sx_detail = [], sx_intent_fs = fs, sx_commit_fs = fs, sx_compact_fs = fs\<rparr>)"

definition demo_message :: "message_type \<Rightarrow> byte list \<Rightarrow> wire_request" where
  "demo_message t payload =
     \<lparr>wr_protocol_version = kWireProtocolVersion, wr_type = t, wr_session_seq = 1, wr_id = demo_inc, wr_payload = payload\<rparr>"

lemma default_valid: "policy_validate conservative_default = StOk"
  by (simp add: policy_validate_def conservative_default_def generation_is_nil_def kMaxOversubscriptionBps_def
      kMaxLeaseDurationMs_def kMaxGrantsPerPathLimit_def kMinSiteLeaseTimeoutMs_def kMaxSiteLeaseTimeoutMs_def)

lemma demo_sound: "sound_options demo_options"
  by (simp add: sound_options_def demo_options_def default_store_options_def default_valid)

definition at_work :: "authority \<Rightarrow> nat \<Rightarrow> daemon \<Rightarrow> bool" where
  "at_work a n dm \<longleftrightarrow>
     dm_options dm = demo_options \<and> dm_authority dm = a \<and> servable (dm_recovery dm) \<and> \<not> dm_durability_failed dm \<and>
     dm_arbitration dm = of_nat n \<and> st_open (dm_store dm) \<and> st_options (dm_store dm) = default_store_options \<and>
     st_log_bytes (dm_store dm) \<le> 128 + 4096 * n \<and> st_record_count (dm_store dm) \<le> 2 * n"

lemma demo_start: "\<exists>dm d. daemon_start demo_sx (demo_options\<lparr>do_incarnation := demo_inc\<rparr>) empty_disk = (Inr dm, d) \<and> at_work demo0 0 dm"
proof -
  let ?opts = "demo_options\<lparr>do_incarnation := demo_inc\<rparr>"
  have inv: "verify_invariants demo0 = StOk"
    by (simp add: verify_invariants_def Let_def om_vals_def within_container_bounds_def demo0_def new_authority_def
       default_config_def default_valid generation_is_nil_def)
  have cfg: "replay_config ?opts = default_config demo_inc"
    by (simp add: replay_config_def demo_options_def default_config_def)
  have "mark_all_historical demo0 = demo0" by (simp add: mark_all_historical_def)
  then have rep: "apply_replay demo_inc ?opts [] = Inr (demo0, 0)"
    using inv by (simp add: apply_replay_def cfg demo0_def [symmetric])
  obtain replay st where op: "store_open (sx_intent_fs demo_sx) demo_inc ''isf'' default_store_options (new_store empty_disk) = (Inr replay, st)"
    and r: "rp_actions replay = []" "servable (rp_report replay)"
    and st: "st_open st" "st_options st = default_store_options" "st_log_bytes st = 128" "st_record_count st = 0"
    by (simp add: store_open_def read_whole_file_def default_store_options_def settle_compaction_artifacts_def empty_disk_def new_store_def
        create_log_def demo_sx_def Let_def empty_report_def servable_def kStoreFileHeaderBytes_def)
  have "daemon_start demo_sx ?opts empty_disk = (Inr (daemon_of ?opts replay st demo0 0 5), st_disk st)"
    using op r rep by (simp add: daemon_start_def demo_options_def default_valid) (simp add: demo_sx_def Let_def)
  moreover have "at_work demo0 0 (daemon_of ?opts replay st demo0 0 5)"
    using r st by (simp add: at_work_def daemon_of_def demo_options_def)
  ultimately show ?thesis by blast
qed

text \<open>An append that the limits allow.\<close>

lemma write_succeeds:
  assumes "st_open st" and "length (lr_payload r) \<le> so_max_record_bytes (st_options st)"
    and "st_log_bytes st + (88 + length (lr_payload r)) \<le> so_max_log_bytes (st_options st)"
    and "st_record_count st < so_max_records (st_options st)" and "\<And>c. fs_ok fs c"
  obtains st' where "durable fs (write_record fs True r st) = (StOk, st')" and "st_open st'"
    and "st_options st' = st_options st" and "st_log_bytes st' = st_log_bytes st + (88 + length (lr_payload r))"
    and "st_record_count st' = st_record_count st + 1"
proof -
  have "\<not> so_max_log_bytes (st_options st) - st_log_bytes st < 88 + length (lr_payload r)" using assms(3) by linarith
  then show ?thesis
    by (intro that [of "snd (durable fs (write_record fs True r st))"])
       (use assms(1,2,4,5) assms(3) in \<open>simp_all add: write_record_def durable_def store_flush_def sync_file_def Let_def
          append_primary_def primary_bytes_def kStoreRecordHeaderBytes_def kStoreChainBytes_def\<close>)
qed

lemma mutation_is_request:
  assumes "is_mutation t"
  shows "message_type_is_request t"
proof -
  have "list_all message_type_is_request
      [MtSiteRegister, MtSiteHeartbeat, MtSiteSetState, MtPathRegister, MtPathSetState, MtCapacityAttest,
       MtOversubscribe, MtPolicyInstall, MtEpochBump, MtGrantPropose, MtGrantEvaluate, MtGrantReserve,
       MtGrantActivate, MtGrantDegrade, MtGrantWithdraw, MtGrantRetire, MtGrantCancel, MtGrantAcknowledge,
       MtGrantVerify, MtGrantReconcile, MtTickRequest]"
    by code_simp
  with assms show ?thesis by (auto simp: is_mutation_def)
qed

text \<open>One request, executed and recorded.\<close>

lemma at_work_handle:
  assumes "at_work a n dm" and "is_mutation t" and "request_of t payload = Inr q"
    and "plan_request a q (of_nat n + 1) = Inr mu" and "mu_changes mu \<noteq> []"
    and "apply_changes (mu_changes mu) (of_nat n + 1) a = (StOk, a')"
    and "length (encode_intent_payload 0 0 (mu_changes mu)) \<le> 3500" and "n < 1000"
  obtains reply dm' where "handle version demo_sx (demo_message t payload) dm = (reply, dm')" and "ws_status reply = StOk"
    and "at_work a' (Suc n) dm'" and "plan_for (dm_authority dm) t payload (dm_arbitration dm + 1) = Inr mu"
proof -
  let ?rq = "demo_message t payload" and ?i = "dm_intent_counter dm + 1" and ?arb = "of_nat n + 1 :: arb_seq"
  let ?fs = "sx_intent_fs demo_sx" and ?st = "dm_store dm"
  have fs: "fs_ok ?fs c" "sx_commit_fs demo_sx = ?fs" "sx_now demo_sx = 5" for c by (simp_all add: demo_sx_def Let_def)
  have opts: "dm_options dm = demo_options" "dm_authority dm = a" "servable (dm_recovery dm)" "\<not> dm_durability_failed dm"
    "dm_arbitration dm = of_nat n"
    and st: "st_open ?st" "st_options ?st = default_store_options" "st_log_bytes ?st \<le> 128 + 4096 * n" "st_record_count ?st \<le> 2 * n"
    using assms(1) by (simp_all add: at_work_def)
  have len: "length (encode_intent_payload i arb (mu_changes mu)) \<le> 3500" for i arb
    using assms(7) by (simp add: encode_intent_payload_def)
  have dflt: "so_max_record_bytes default_store_options = 16777216" "so_max_log_bytes default_store_options = 67108864"
    "so_max_records default_store_options = 1048576" by (simp_all add: default_store_options_def)
  define I where "I = intent_record ?i ?arb (mu_changes mu) 5 demo_inc"
  define C where "C = commit_record ?i 5"
  have I: "length (lr_payload I) \<le> 3500" using len by (simp add: I_def intent_record_def)
  have C: "length (lr_payload C) = 8" by (simp add: C_def commit_record_def)
  obtain st1 where st1: "durable ?fs (write_record ?fs True I ?st) = (StOk, st1)" "st_open st1"
    "st_options st1 = st_options ?st" "st_log_bytes st1 = st_log_bytes ?st + (88 + length (lr_payload I))"
    "st_record_count st1 = st_record_count ?st + 1"
    by (rule write_succeeds [OF st(1), of I ?fs]) (use st I fs(1) assms(8) dflt in simp_all)
  obtain st2 where st2: "durable ?fs (write_record ?fs True C st1) = (StOk, st2)" "st_open st2"
    "st_options st2 = st_options st1" "st_log_bytes st2 = st_log_bytes st1 + (88 + length (lr_payload C))"
    "st_record_count st2 = st_record_count st1 + 1"
    by (rule write_succeeds [OF st1(2), of C ?fs]) (use st st1 I C fs(1) assms(8) dflt in simp_all)
  have plan: "plan_for (dm_authority dm) t payload (dm_arbitration dm + 1) = Inr mu"
    using assms(3,4) opts by (simp add: plan_for_def)
  let ?dm = "dm\<lparr>dm_intent_counter := ?i, dm_arbitration := ?arb, dm_authority := a', dm_store := st2\<rparr>"
  have small: "\<not> needs_compaction st2"
    using st st1 st2 I C assms(8) by (simp add: needs_compaction_def default_store_options_def)
  have commit: "commit demo_sx mu ?arb (dm\<lparr>dm_arbitration := ?arb\<rparr>) = (StOk, ?dm)"
    using st1(1) st2(1) assms(6) opts fs
    by (simp add: commit_def Let_def append_intent_def append_commit_def I_def C_def demo_options_def maybe_compact_def small)
  have "message_type_is_request t"
    by (rule mutation_is_request [OF assms(2)])
  then have routed: "handle version demo_sx ?rq dm = handle_mutation demo_sx ?rq dm"
    using assms(2) opts(4) by (simp add: handle_def demo_message_def)
  have rq: "wr_type ?rq = t" "wr_payload ?rq = payload" by (simp_all add: demo_message_def)
  define answer where "answer = blank_reply (reply_type_for t) ?rq StOk [] (encode_mutation_report
    (mutation_report_for (do_max_changes_in_reply demo_options) t payload (mu_changes mu) ?arb))"
  have handled: "handle version demo_sx ?rq dm = (answer, ?dm\<lparr>dm_mutations_applied := dm_mutations_applied dm + 1\<rparr>)"
    unfolding routed handle_mutation_def Let_def rq using opts plan [unfolded opts] commit assms(5)
    by (simp add: answer_def)
  show ?thesis
    by (rule that [OF handled _ _ plan])
       (use opts st st1 st2 I C in \<open>simp_all add: at_work_def answer_def blank_reply_def\<close>)
qed

text \<open>Two sites and a path are registered over the wire.\<close>

definition demo_site_registration :: "u64 \<Rightarrow> site_registration" where
  "demo_site_registration n =
     \<lparr>sreg_descriptor = \<lparr>sdesc_id = Id128 0 n, sdesc_name = ''s'', sdesc_advertised_capacity = 0\<rparr>,
      sreg_incarnation = Id128 1 n, sreg_epoch = 1, sreg_now_ms = 5\<rparr>"

lemma demo_site_request:
  "request_of MtSiteRegister (encode_site_registration (demo_site_registration n)) = Inr (demo_site n)"
proof -
  have "clean (sdesc_name (sreg_descriptor (demo_site_registration n)))"
    by (simp add: demo_site_registration_def demo_eval)
  then have "decode_site_registration (encode_site_registration (demo_site_registration n)) = Inr (demo_site_registration n)"
    unfolding decode_site_registration_def by (rule site_registration_codec.whole_enc)
  then show ?thesis by (simp add: request_of_def demo_site_def demo_site_registration_def)
qed

lemma demo_site_plan1:
  "\<exists>mu. plan_request demo0 (demo_site 1) 1 = Inr mu \<and> mu_changes mu = [change_for (OSite (demo_site_record 1)) False]"
  by (simp add: demo_site_def demo_site_record_def plan_register_site_def demo_eval mu_changes_def)

lemma demo_site_plan2:
  "\<exists>mu. plan_request demo1 (demo_site 2) 2 = Inr mu \<and> mu_changes mu = [change_for (OSite (demo_site_record 2)) False]"
  by (simp add: demo_site_def demo_site_record_def plan_register_site_def demo_states demo_eval mu_changes_def)

lemma demo_path_plan:
  "\<exists>mu. plan_request demo2 demo_path 3 = Inr mu \<and> mu_changes mu = [change_for (OPath demo_path_record) False]"
  by (simp add: demo_path_def demo_path_record_def demo_site_record_def plan_register_path_def fresh_path_def
      registered_domain_def domain_images_def default_domain_def demo_states demo_eval mu_changes_def)

lemma demo_site_length: "length (encode_intent_payload 0 0 [change_for (OSite (demo_site_record n)) False]) \<le> 3500"
  by (simp add: encode_intent_payload_def w_list_def encode_state_change_def change_for_def encode_site_def
      demo_site_record_def w_enum_def encode_string_bounded_def)


lemma demo_path_length: "length (encode_intent_payload 0 0 [change_for (OPath demo_path_record) False]) \<le> 3500"
  by (simp add: encode_intent_payload_def w_list_def encode_state_change_def change_for_def encode_path_def
      demo_path_record_def w_enum_def)

definition demo_path_registration :: path_registration where
  "demo_path_registration = (case demo_path of RqRegisterPath reg \<Rightarrow> reg)"

lemma demo_path_request:
  "request_of MtPathRegister (encode_path_registration demo_path_registration) = Inr demo_path"
proof -
  have "clean (pdesc_name (preg_descriptor demo_path_registration))"
    by (simp add: demo_path_registration_def demo_path_def demo_eval)
  then have "decode_path_registration (encode_path_registration demo_path_registration) = Inr demo_path_registration"
    unfolding decode_path_registration_def by (rule path_registration_codec.whole_enc)
  then show ?thesis by (simp add: request_of_def demo_path_registration_def demo_path_def)
qed

lemma applied_plan:
  assumes "structure_ok a" and "plan_request a q arb = Inr mu" and "execute a q arb = (StOk, a')"
  shows "apply_changes (mu_changes mu) arb a = (StOk, a')"
  using assms plan_request_sized [OF assms(1,2)] by (simp add: execute_def)

lemma demo_regular: "regular_message dm (demo_message MtSiteRegister (encode_site_registration (demo_site_registration n)))"
  "regular_message dm (demo_message MtPathRegister (encode_path_registration demo_path_registration))"
  by (simp_all add: regular_message_def demo_message_def demo_site_request demo_path_request demo_site_def demo_path_def regular_def)

lemma demo_history:
  obtains dm where "history version demo_options dm" and "at_work demo1 1 dm"
proof -
  obtain dm0 d where dm0: "daemon_start demo_sx (demo_options\<lparr>do_incarnation := demo_inc\<rparr>) empty_disk = (Inr dm0, d)" "at_work demo0 0 dm0"
    using demo_start by blast
  obtain mu where mu: "plan_request demo0 (demo_site 1) 1 = Inr mu" "mu_changes mu = [change_for (OSite (demo_site_record 1)) False]"
    using demo_site_plan1 by blast
  have ap: "apply_changes (mu_changes mu) 1 demo0 = (StOk, demo1)" by (rule applied_plan [OF demo0_structure mu(1) demo_step1])
  let ?p = "encode_site_registration (demo_site_registration 1)"
  obtain reply dm1 where dm1: "handle version demo_sx (demo_message MtSiteRegister ?p) dm0 = (reply, dm1)" "at_work demo1 (Suc 0) dm1"
    by (rule at_work_handle [OF dm0(2), of MtSiteRegister ?p "demo_site 1" mu demo1 version])
       (simp_all add: demo_site_request mu ap [unfolded mu(2)] demo_site_length is_mutation_def)
  have "history version demo_options dm1"
    by (rule history.request [OF history.first [OF dm0(1)] demo_regular(1) dm1(1)])
       (use dm1(2) in \<open>simp_all add: at_work_def\<close>)
  with dm1(2) that show ?thesis by simp
qed

lemma demo_second_site:
  assumes "at_work demo1 1 dm"
  obtains reply dm' mu where "handle version demo_sx (demo_message MtSiteRegister (encode_site_registration (demo_site_registration 2))) dm = (reply, dm')"
    and "ws_status reply = StOk" and "at_work demo2 2 dm'"
    and "plan_for (dm_authority dm) MtSiteRegister (encode_site_registration (demo_site_registration 2)) (dm_arbitration dm + 1) = Inr mu"
proof -
  obtain mu where mu: "plan_request demo1 (demo_site 2) 2 = Inr mu" "mu_changes mu = [change_for (OSite (demo_site_record 2)) False]"
    using demo_site_plan2 by blast
  have ap: "apply_changes (mu_changes mu) 2 demo1 = (StOk, demo2)" by (rule applied_plan [OF demo1_structure mu(1) demo_step2])
  let ?p = "encode_site_registration (demo_site_registration 2)"
  obtain reply dm' where "handle version demo_sx (demo_message MtSiteRegister ?p) dm = (reply, dm')" "ws_status reply = StOk"
      "at_work demo2 (Suc 1) dm'" "plan_for (dm_authority dm) MtSiteRegister ?p (dm_arbitration dm + 1) = Inr mu"
    by (rule at_work_handle [OF assms, of MtSiteRegister ?p "demo_site 2" mu demo2 version])
       (simp_all add: demo_site_request mu ap [unfolded mu(2)] demo_site_length is_mutation_def)
  with that show ?thesis by (simp add: numeral_2_eq_2)
qed

lemma demo_path_step:
  assumes "at_work demo2 2 dm"
  obtains reply dm' where "handle version demo_sx (demo_message MtPathRegister (encode_path_registration demo_path_registration)) dm = (reply, dm')"
    and "at_work demo3 3 dm'"
proof -
  obtain mu where mu: "plan_request demo2 demo_path 3 = Inr mu" "mu_changes mu = [change_for (OPath demo_path_record) False]"
    using demo_path_plan by blast
  have ap: "apply_changes (mu_changes mu) 3 demo2 = (StOk, demo3)" by (rule applied_plan [OF demo2_structure mu(1) demo_step3])
  let ?p = "encode_path_registration demo_path_registration"
  obtain reply dm' where "handle version demo_sx (demo_message MtPathRegister ?p) dm = (reply, dm')" "at_work demo3 (Suc 2) dm'"
    by (rule at_work_handle [OF assms, of MtPathRegister ?p demo_path mu demo3 version])
       (simp_all add: demo_path_request mu ap [unfolded mu(2)] demo_path_length is_mutation_def)
  with that show ?thesis by (simp add: numeral_3_eq_3 numeral_2_eq_2)
qed

text \<open>The daemon with two sites and a path.\<close>

lemma demo_history3:
  obtains dm where "history (0, 1, 0) demo_options dm" and "at_work demo3 3 dm"
proof -
  obtain dm1 where dm1: "history (0, 1, 0) demo_options dm1" "at_work demo1 1 dm1" by (rule demo_history)
  obtain reply dm2 where dm2: "handle (0, 1, 0) demo_sx (demo_message MtSiteRegister (encode_site_registration (demo_site_registration 2))) dm1 = (reply, dm2)"
      "at_work demo2 2 dm2"
    by (rule demo_second_site [OF dm1(2)]) blast
  have h2: "history (0, 1, 0) demo_options dm2"
    by (rule history.request [OF dm1(1) demo_regular(1) dm2(1)]) (use dm2(2) in \<open>simp_all add: at_work_def\<close>)
  obtain reply dm3 where dm3: "handle (0, 1, 0) demo_sx (demo_message MtPathRegister (encode_path_registration demo_path_registration)) dm2 = (reply, dm3)"
      "at_work demo3 3 dm3"
    by (rule demo_path_step [OF dm2(2)])
  have h3: "history (0, 1, 0) demo_options dm3"
    by (rule history.request [OF h2 demo_regular(2) dm3(1)]) (use dm3(2) in \<open>simp_all add: at_work_def\<close>)
  show ?thesis by (rule that [OF h3 dm3(2)])
qed

section \<open>Guarantees across restarts\<close>

text \<open>
  C1: the capacity promise across crashes and restarts. Let a daemon with durable writes start on
  an empty disk, and let regular requests (all but the two for which the code does not keep the
  promise: reconciling a grant that holds no capacity to ACTIVE, and re-issuing an oversubscription
  authority under an identity in use), compactions of the log, shutdowns, crashes at any byte of a write or after any
  call of a compaction, and restarts follow each other, where each crash or shutdown finds room
  in the log for the records that close it. Then the state of the running daemon promises on every
  path, the unavailable share included, no more than the usable capacity plus the extension that
  live oversubscription authorises; protected promises stay within the protected floor; and no
  ledger reports oversubscription.
\<close>

theorem promise_survives_crashes:
  assumes "sound_options opts" and "history version opts dm" and "om_find p (au_paths (dm_authority dm)) = Some rec"
  shows "held promised_general (dm_authority dm) p + held promised_protected (dm_authority dm) p + unat (pr_unavailable rec) \<le>
           unat (pr_authoritative_usable rec) +
           unat (oversubscription_extension (pr_authoritative_usable rec)
             (value_or_zero (live_oversubscription_bps (dm_authority dm) p 0))) \<and>
         held promised_protected (dm_authority dm) p \<le> unat (protected_floor (dm_authority dm) rec) \<and>
         (\<forall>l. ledger (dm_authority dm) p = Inr l \<longrightarrow> cl_oversubscribed l = 0)"
proof -
  have "structure_ok (dm_authority dm)" "capacity_safe (dm_authority dm)"
    using history_healthy [OF assms(1,2)] by (simp_all add: healthy_def)
  then show ?thesis using assms(3) by (rule promise_holds)
qed

theorem promise_survives_crashes_witness:
  "\<exists>dm. history (0, 1, 0) demo_options dm \<and> om_find (Id128 0 7) (au_paths (dm_authority dm)) = Some demo_path_record \<and>
     held promised_general (dm_authority dm) (Id128 0 7) + held promised_protected (dm_authority dm) (Id128 0 7) +
       unat (pr_unavailable demo_path_record) \<le>
     unat (pr_authoritative_usable demo_path_record) +
       unat (oversubscription_extension (pr_authoritative_usable demo_path_record)
         (value_or_zero (live_oversubscription_bps (dm_authority dm) (Id128 0 7) 0)))"
proof -
  obtain dm3 where h3: "history (0, 1, 0) demo_options dm3" and dm3: "at_work demo3 3 dm3" by (rule demo_history3)
  have found: "om_find (Id128 0 7) (au_paths (dm_authority dm3)) = Some demo_path_record"
    using dm3 by (simp add: at_work_def demo_states)
  from promise_survives_crashes [OF demo_sound h3 found] h3 found show ?thesis by blast
qed

text \<open>
  C2: an acknowledged mutation survives. A daemon with durable writes and room in its log answers
  a mutation with success (\<open>dm1\<close> is the daemon with the mutation written and the compaction, if one
  is due, not begun; \<open>dm'\<close> is the one that answered). All states are meant up to the recovery
  marks of grants, and a start is refused only when the invariant check rejects the state it
  replayed to.

  If the machine crashes while the mutation is being written, with any part of what is not
  synchronised on the medium, the next start has the state before the mutation, the state after
  it, or the mutation without the changes that release capacity, and the state after it when all
  of it got there. If it crashes in the compaction that follows, at any of its calls and whatever
  of them failed, the next start has the state after the mutation. Once the daemon has answered,
  only what was synchronised is needed: the start after a crash at rest has the state after the
  mutation, and so has every daemon of a sequence of restarts, each after a crash or an orderly
  stop.
\<close>

theorem acknowledged_mutation_survives:
  assumes "sound_options opts" and "history version opts dm" and "spacious (dm_store dm)"
    and "handle version sx rq dm = (reply, dm')" and "is_mutation (wr_type rq)" and "ws_status reply = StOk"
    and "plan_for (dm_authority dm) (wr_type rq) (wr_payload rq) (dm_arbitration dm + 1) = Inr mu"
    and "\<forall>c. fs_ok (sx_intent_fs sx') c"
    and "handle version sx rq (uncompacting dm) = (reply1, dm1)"
  shows "(\<exists>b. (erase b = erase (dm_authority dm) \<or> erase b = erase (dm_authority dm') \<or>
             erase b = erase (snd (apply_changes (filter (\<lambda>c. \<not> sc_releases_capacity c) (mu_changes mu))
               (dm_arbitration dm + 1) (dm_authority dm)))) \<and>
           (length (primary_bytes (dm_store dm1)) \<le> st_synced (dm_store dm) + n \<longrightarrow> erase b = erase (dm_authority dm')) \<and>
           (case fst (daemon_start sx' (opts\<lparr>do_incarnation := inc\<rparr>) (crash_disk dm dm1 n)) of
              Inl s \<Rightarrow> s = verify_invariants b \<and> s \<noteq> StOk
            | Inr dm'' \<Rightarrow> dm_authority dm'' = b)) \<and>
         (\<forall>left. compaction_leaves sx dm1 left \<or> left = crash_disk dm' dm' n \<longrightarrow>
            (\<exists>b. erase b = erase (dm_authority dm') \<and>
               (case fst (daemon_start sx' (opts\<lparr>do_incarnation := inc\<rparr>) left) of
                  Inl s \<Rightarrow> s = verify_invariants b \<and> s \<noteq> StOk
                | Inr dm'' \<Rightarrow> dm_authority dm'' = b))) \<and>
         (\<forall>dm''. (restart opts)\<^sup>+\<^sup>+ dm' dm'' \<longrightarrow> erase (dm_authority dm'') = erase (dm_authority dm'))"
proof -
  let ?arb = "dm_arbitration dm + 1"
  let ?dm = "dm\<lparr>dm_arbitration := ?arb\<rparr>"
  obtain sid rs inc0 where m: "mirrors sid rs ?dm" and o: "dm_options dm = opts\<lparr>do_incarnation := inc0\<rparr>"
    and safe: "safe_state (dm_authority ?dm)" and l: "lasting (dm_authority ?dm)"
    using history_healthy [OF assms(1,2)] by (auto simp: healthy_def)
  have sound: "sound_options (dm_options ?dm)" and o': "opts\<lparr>do_incarnation := inc\<rparr> = (dm_options ?dm)\<lparr>do_incarnation := inc\<rparr>"
    using assms(1) o by (simp_all add: sound_options_def)
  have space: "spacious (dm_store ?dm)" using assms(3) by simp
  obtain dm2 where c: "commit sx mu ?arb (uncompacting ?dm) = (StOk, dm2)" and dm1: "dm_store dm1 = dm_store dm2"
      "dm_authority dm1 = dm_authority dm2" "dm_options dm1 = dm_options dm2" and dm': "dm_authority dm' = dm_authority dm2"
    by (rule handle_committed [OF assms(4-7,9)])
  obtain q where q: "plan_request (dm_authority ?dm) q ?arb = Inr mu" using assms(7) by (auto simp: plan_for_def ebind_Inr)
  obtain d where d: "commit sx mu ?arb ?dm = (StOk, d)" "dm' = d\<lparr>dm_mutations_applied := dm_mutations_applied d + 1\<rparr>"
    by (rule handle_answered [OF assms(4-7)])
  obtain rs3 dm3 where dm3: "d = snd (maybe_compact sx dm3)" "mirrors sid rs3 dm3" "dm_options dm3 = dm_options ?dm"
      "lasting (dm_authority dm3)" "restartable (do_store (dm_options dm3)) sid rs3" "roomy (do_store (dm_options dm3))"
    by (rule answered_mirrors [OF m safe l sound space q d(1)])
  have sound3: "sound_options (dm_options dm3)" using sound dm3(3) by simp
  have same: "dm_store dm' = dm_store (snd (maybe_compact sx dm3))" "dm_authority dm' = dm_authority dm3" "dm_options dm' = dm_options dm3"
    unfolding d(2) dm3(1) by (auto simp: maybe_compact_def split: prod.splits)
  have disk: "crash_disk dm dm1 n = crash_disk ?dm dm2 n" by (simp add: crash_disk_def dm1)
  have leaves: "compaction_leaves sx dm1 left = compaction_leaves sx dm2 left" for left
    by (simp add: compaction_leaves_def compaction_record_def dm1)
  have answered: "\<exists>b. erase b = erase (dm_authority dm') \<and>
      (case fst (daemon_start sx' ((dm_options ?dm)\<lparr>do_incarnation := inc\<rparr>) (crash_disk dm' dm' n)) of
         Inl s \<Rightarrow> s = verify_invariants b \<and> s \<noteq> StOk | Inr dm'' \<Rightarrow> dm_authority dm'' = b)"
    unfolding at_rest_leaves(1) [OF dm3(2) same(1)] same(2)
    by (rule start_after_compaction [OF dm3(2,4) sound3 dm3(5,6) at_rest_leaves(2) [OF dm3(2) same(1)] assms(8), of inc])
       (use dm3(3) in auto)
  show ?thesis
  proof (intro conjI allI impI, goal_cases)
    case 1
    show ?case unfolding o' disk dm1(1) dm'
      by (rule committed_recovers [OF m safe l sound space q c assms(8), of n inc]) (rule exI, auto)
  next
    case (2 left)
    then show ?case
    proof
      assume "compaction_leaves sx dm1 left"
      then show ?thesis unfolding leaves o' dm'
        by (rule compacted_recovers [OF m safe l sound space q c assms(8), of left inc]) blast
    qed (use answered o' in simp)
  next
    case (3 dm'')
    then have "(restart (dm_options dm3))\<^sup>+\<^sup>+ dm' dm''" using o dm3(3) by (simp add: restart_options)
    from answered_restarts [OF dm3(2,4) sound3 dm3(5,6) same this] show ?case using same(2) by simp
  qed
qed

theorem acknowledged_mutation_survives_witness:
  "\<exists>dm mu reply dm' dm1 b b'. history (0, 1, 0) demo_options dm \<and>
     handle (0, 1, 0) demo_sx (demo_message MtSiteRegister (encode_site_registration (demo_site_registration 2))) dm = (reply, dm') \<and>
     ws_status reply = StOk \<and>
     dm1 = snd (handle (0, 1, 0) demo_sx (demo_message MtSiteRegister (encode_site_registration (demo_site_registration 2))) (uncompacting dm)) \<and>
     (erase b = erase (dm_authority dm) \<or> erase b = erase (dm_authority dm') \<or>
      erase b = erase (snd (apply_changes (filter (\<lambda>c. \<not> sc_releases_capacity c) (mu_changes mu))
        (dm_arbitration dm + 1) (dm_authority dm)))) \<and>
     (case fst (daemon_start demo_sx (demo_options\<lparr>do_incarnation := Id128 0 98\<rparr>) (crash_disk dm dm1 40)) of
        Inl s \<Rightarrow> s = verify_invariants b \<and> s \<noteq> StOk
      | Inr dm'' \<Rightarrow> dm_authority dm'' = b) \<and>
     erase b' = erase demo2 \<and>
     (case fst (daemon_start demo_sx (demo_options\<lparr>do_incarnation := Id128 0 98\<rparr>) (crash_disk dm' dm' 40)) of
        Inl s \<Rightarrow> s = verify_invariants b' \<and> s \<noteq> StOk
      | Inr dm'' \<Rightarrow> dm_authority dm'' = b')"
proof -
  let ?p = "encode_site_registration (demo_site_registration 2)"
  let ?rq = "demo_message MtSiteRegister ?p"
  obtain dm where dm: "history (0, 1, 0) demo_options dm" "at_work demo1 1 dm" by (rule demo_history)
  obtain reply dm' mu where h: "handle (0, 1, 0) demo_sx ?rq dm = (reply, dm')"
      "ws_status reply = StOk" "at_work demo2 2 dm'" "plan_for (dm_authority dm) MtSiteRegister ?p (dm_arbitration dm + 1) = Inr mu"
    by (rule demo_second_site [OF dm(2)]) blast
  have space: "spacious (dm_store dm)" using dm(2) by (simp add: at_work_def spacious_def default_store_options_def)
  have t: "is_mutation (wr_type ?rq)" "wr_payload ?rq = ?p" "wr_type ?rq = MtSiteRegister"
    by (simp_all add: demo_message_def is_mutation_def)
  have fs: "\<forall>c. fs_ok (sx_intent_fs demo_sx) c" by (simp add: demo_sx_def Let_def)
  have plan: "plan_for (dm_authority dm) (wr_type ?rq) (wr_payload ?rq) (dm_arbitration dm + 1) = Inr mu" using h(4) t by simp
  obtain reply1 dm1 where u: "handle (0, 1, 0) demo_sx ?rq (uncompacting dm) = (reply1, dm1)" by fastforce
  have dm1: "dm1 = snd (handle (0, 1, 0) demo_sx ?rq (uncompacting dm))" by (simp add: u)
  have a: "dm_authority dm' = demo2" using h(3) by (simp add: at_work_def)
  note survives = acknowledged_mutation_survives [OF demo_sound dm(1) space h(1) t(1) h(2) plan fs u, of 40 "Id128 0 98"]
  note written = survives [THEN conjunct1] and answered = survives [THEN conjunct2, THEN conjunct1, rule_format, OF disjI2, OF refl, unfolded a]
  from answered obtain b' where b': "erase b' = erase demo2"
    "case fst (daemon_start demo_sx (demo_options\<lparr>do_incarnation := Id128 0 98\<rparr>) (crash_disk dm' dm' 40)) of
        Inl s \<Rightarrow> s = verify_invariants b' \<and> s \<noteq> StOk | Inr dm'' \<Rightarrow> dm_authority dm'' = b'" by blast
  from written b' dm(1) h(1,2) dm1 show ?thesis by blast
qed

text \<open>
  C33: a snapshot loses nothing but trust. The snapshot of the state of any daemon that a history
  of regular requests, crashes and restarts leads to, if it is at most 16 MiB long, reads back from
  its bytes as it was written, and rebuilding an authority from it, in whatever incarnation, gives
  the same state up to recovery marks: every site, path, domain, attestation, grant, verification
  and oversubscription authority, the index of requests, the policy, the epoch and the arbitration
  sequence. Every rebuilt grant that is not terminal is historical and unverified.
\<close>

theorem snapshot_preserves_state:
  assumes "sound_options opts" and "history version opts dm"
    and "length (encode_snapshot (snapshot (dm_authority dm))) \<le> 16777216"
    and "max_string lim = 4096" and "max_container lim = 1048576"
  shows "decode_snapshot lim (encode_snapshot (snapshot (dm_authority dm))) = Inr (snapshot (dm_authority dm), []) \<and>
    (\<exists>b. from_snapshot rnd (replay_config opts) (snapshot (dm_authority dm)) = Inr b \<and>
       erase b = erase (dm_authority dm) \<and>
       (\<forall>k g. find_grant b k = Some g \<and> \<not> is_terminal (gr_state g) \<longrightarrow> gr_historical g \<and> gr_verification g = VsUnverified))"
proof -
  let ?a = "dm_authority dm" and ?cfg = "replay_config opts"
  have l: "lasting ?a" using history_healthy [OF assms(1,2)] by (simp add: healthy_def)
  have "lasting_config (new_authority rnd ?cfg)"
    using new_lasting [of opts rnd] assms(1) by (simp add: lasting_def sound_options_def)
  then have "erase (restored rnd ?cfg ?a) = erase ?a" by (rule restored_erase [OF l])
  moreover have "\<forall>k g. find_grant (restored rnd ?cfg ?a) k = Some g \<and> \<not> is_terminal (gr_state g) \<longrightarrow>
      gr_historical g \<and> gr_verification g = VsUnverified"
    using recover_grant_cautious by (auto simp: find_grant_def restored_def)
  ultimately show ?thesis
    using decode_encode_snapshot [OF l assms(3-5)] snapshot_restores [OF l, of rnd ?cfg] by blast
qed

lemma demo3_snapshot: "length (encode_snapshot (snapshot demo3)) \<le> 16777216"
  by (simp add: encode_snapshot_def snapshot_def demo_states demo0_def new_authority_def default_config_def default_domain_def Let_def
      sites_def paths_def domains_def attestations_def grants_def verifications_def oversubscriptions_def om_vals_def
      w_list_def encode_site_def encode_path_def demo_site_record_def demo_path_record_def
      encode_domain_def encode_policy_def encode_string_bounded_def w_enum_def generation_is_nil_def)

theorem snapshot_preserves_state_witness:
  "\<exists>dm. history (0, 1, 0) demo_options dm \<and> dm_authority dm = demo3 \<and>
     decode_snapshot store_limits (encode_snapshot (snapshot demo3)) = Inr (snapshot demo3, []) \<and>
     (\<exists>b. from_snapshot (Id128 0 98) (replay_config demo_options) (snapshot demo3) = Inr b \<and> erase b = erase demo3)"
proof -
  obtain dm where h: "history (0, 1, 0) demo_options dm" and "at_work demo3 3 dm" by (rule demo_history3)
  then have a: "dm_authority dm = demo3" by (simp add: at_work_def)
  have "max_string store_limits = 4096" "max_container store_limits = 1048576" by (simp_all add: store_limits_def)
  from snapshot_preserves_state [OF demo_sound h _ this, of "Id128 0 98"] demo3_snapshot h show ?thesis
    unfolding a by (intro exI [of _ dm]) (auto simp: a)
qed

end
