(* ===== verification/Server.thy ===== *)
theory Server
  imports Daemon
begin

text \<open>
  The server (\<open>src/server.cpp\<close>, \<open>include/isf/server.hpp\<close>): a bounded set of connections, each
  served by a loop that cuts the received bytes into frames, insists on a handshake, and hands
  requests with increasing sequence numbers to the daemon. One turn of a loop is a function; what
  the turn sees of the socket, the clock and the stop flag is its argument. The daemon serialises
  its operations, so a run of several connections is a sequence of turns.
\<close>

section \<open>State\<close>

record server_options =
  vo_max_connections :: u64
  vo_max_frame_bytes :: nat
  vo_io_timeout_ms :: u64
  vo_send_timeout_ms :: u64
  vo_tcp_nodelay :: bool

definition kReceiveChunk :: nat where "kReceiveChunk = 65536"

record server_stats =
  vs_connections_accepted :: u64
  vs_connections_rejected :: u64
  vs_connections_active :: u64
  vs_connections_closed :: u64
  vs_frames_decoded :: u64
  vs_frames_rejected :: u64
  vs_requests_handled :: u64
  vs_responses_sent :: u64
  vs_duplicate_requests :: u64
  vs_stale_requests :: u64
  vs_protocol_mismatches :: u64
  vs_idle_timeouts :: u64
  vs_bytes_received :: u64
  vs_bytes_sent :: u64
  vs_shutdown_requests :: u64

definition zero_stats :: server_stats where
  "zero_stats =
     \<lparr>vs_connections_accepted = 0, vs_connections_rejected = 0, vs_connections_active = 0, vs_connections_closed = 0,
      vs_frames_decoded = 0, vs_frames_rejected = 0, vs_requests_handled = 0, vs_responses_sent = 0,
      vs_duplicate_requests = 0, vs_stale_requests = 0, vs_protocol_mismatches = 0, vs_idle_timeouts = 0,
      vs_bytes_received = 0, vs_bytes_sent = 0, vs_shutdown_requests = 0\<rparr>"

text \<open>The local variables of the loop that serves one connection.\<close>

record session =
  sn_decoder :: frame_decoder
  sn_last_sequence :: u64
  sn_last_activity :: u64
  sn_handshake :: bool
  sn_open :: bool

definition new_session :: "server_options \<Rightarrow> u64 \<Rightarrow> session" where
  "new_session opts now =
     \<lparr>sn_decoder = new_decoder (vo_max_frame_bytes opts), sn_last_sequence = 0, sn_last_activity = now,
      sn_handshake = False, sn_open = True\<rparr>"

text \<open>
  What the socket offers when no complete frame is buffered. The stop flag is read at the head of
  the loop and once more when the socket stayed quiet.
\<close>

datatype io_event = IoPollFailed | IoQuiet | IoReceived "byte list" | IoPeerClosed | IoError

record turn =
  tn_stopping :: bool
  tn_stopping_late :: bool
  tn_io :: io_event
  tn_now :: u64
  tn_send_ok :: bool
  tn_session_id :: id128
  tn_detail :: string
  tn_sx :: surroundings

text \<open>Everything one worker touches; the log of frames sent and of requests handed over is ghost state.\<close>

record worker =
  wk_session :: session
  wk_daemon :: daemon
  wk_stats :: server_stats
  wk_sent :: "byte list list"
  wk_handled :: "wire_request list"

section \<open>Sending\<close>

definition plain_response :: wire_response where
  "plain_response =
     \<lparr>ws_protocol_version = kWireProtocolVersion, ws_type = MtInvalid, ws_session_seq = 0, ws_id = nil_id,
      ws_status = StOk, ws_detail = [], ws_payload = []\<rparr>"

definition fallback_response :: "wire_response \<Rightarrow> wire_response" where
  "fallback_response r =
     plain_response\<lparr>ws_type := MtErrorReply, ws_session_seq := ws_session_seq r, ws_id := ws_id r,
       ws_status := StLimitExceeded, ws_detail := ''reply exceeds the negotiated frame bound''\<rparr>"

definition send_response :: "server_options \<Rightarrow> bool \<Rightarrow> wire_response \<Rightarrow> worker \<Rightarrow> status \<times> worker" where
  "send_response opts send_ok r wk =
     (let body = encode_response r;
          put = (\<lambda>frame wk. wk\<lparr>wk_stats := (wk_stats wk)\<lparr>vs_bytes_sent := vs_bytes_sent (wk_stats wk) + of_nat (length frame)\<rparr>,
                                wk_sent := wk_sent wk @ [frame]\<rparr>)
      in if length body > vo_max_frame_bytes opts then
           (if \<not> send_ok then (StUnavailable, wk)
            else (StLimitExceeded, put (encode_frame (encode_response (fallback_response r))) wk))
         else if \<not> send_ok then (StUnavailable, wk)
         else
           let wk = put (encode_frame body) wk
           in (StOk, wk\<lparr>wk_stats := (wk_stats wk)\<lparr>vs_responses_sent := vs_responses_sent (wk_stats wk) + 1\<rparr>\<rparr>))"

section \<open>Serving one connection\<close>

definition hang_up :: "worker \<Rightarrow> worker" where
  "hang_up wk = wk\<lparr>wk_session := (wk_session wk)\<lparr>sn_open := False\<rparr>\<rparr>"

definition reject :: "server_options \<Rightarrow> turn \<Rightarrow> status \<Rightarrow> worker \<Rightarrow> worker" where
  "reject opts tn status wk =
     hang_up (snd (send_response opts (tn_send_ok tn)
       (plain_response\<lparr>ws_type := MtErrorReply, ws_status := status, ws_detail := tn_detail tn\<rparr>) wk))"

text \<open>No complete frame: wait for the socket, and take what it offers.\<close>

definition receive_turn :: "server_options \<Rightarrow> turn \<Rightarrow> worker \<Rightarrow> worker" where
  "receive_turn opts tn wk =
     (let sn = wk_session wk; st = wk_stats wk
      in case tn_io tn of
           IoPollFailed \<Rightarrow> hang_up wk
         | IoQuiet \<Rightarrow>
             if tn_stopping_late tn then hang_up wk
             else if tn_now tn - sn_last_activity sn \<ge> vo_io_timeout_ms opts then
               hang_up (wk\<lparr>wk_stats := st\<lparr>vs_idle_timeouts := vs_idle_timeouts st + 1\<rparr>\<rparr>)
             else wk
         | IoReceived bytes \<Rightarrow>
             (let st = st\<lparr>vs_bytes_received := vs_bytes_received st + of_nat (length bytes)\<rparr>
              in case fd_push bytes (sn_decoder sn) of (pushed, decoder) \<Rightarrow>
                   let sn = sn\<lparr>sn_decoder := decoder\<rparr>
                   in if pushed \<noteq> StOk then
                        hang_up (wk\<lparr>wk_session := sn, wk_stats := st\<lparr>vs_frames_rejected := vs_frames_rejected st + 1\<rparr>\<rparr>)
                      else wk\<lparr>wk_session := sn\<lparr>sn_last_activity := tn_now tn\<rparr>, wk_stats := st\<rparr>)
         | IoPeerClosed \<Rightarrow> hang_up wk
         | IoError \<Rightarrow> hang_up wk)"

definition mismatch :: "worker \<Rightarrow> worker" where
  "mismatch wk =
     wk\<lparr>wk_stats := (wk_stats wk)\<lparr>vs_protocol_mismatches := vs_protocol_mismatches (wk_stats wk) + 1\<rparr>\<rparr>"

definition hello_answer :: "server_options \<Rightarrow> id128 \<Rightarrow> hello_request \<Rightarrow> daemon \<Rightarrow> hello_reply" where
  "hello_answer opts session hello dm =
     \<lparr>hr_protocol_version = kWireProtocolVersion, hr_session = session,
      hr_server_incarnation = ac_incarnation (au_config (dm_authority dm)),
      hr_epoch = au_epoch (dm_authority dm),
      hr_max_frame_bytes = of_nat (min (vo_max_frame_bytes opts) (unat (hq_max_frame_bytes hello))),
      hr_store_fidelity = rr_fidelity (dm_recovery dm), hr_store_servable = servable (dm_recovery dm),
      hr_durable_writes = True, hr_format_version = rr_format_version (dm_recovery dm)\<rparr>"

definition version_mismatch :: wire_response where
  "version_mismatch =
     plain_response\<lparr>ws_type := MtErrorReply, ws_status := StVersionMismatch, ws_detail := ''wire protocol version mismatch''\<rparr>"

definition hello_turn :: "server_options \<Rightarrow> turn \<Rightarrow> byte list \<Rightarrow> worker \<Rightarrow> worker" where
  "hello_turn opts tn frame wk =
     (case decode_hello_request frame of
        Inl _ \<Rightarrow> reject opts tn StInvalid (mismatch wk)
      | Inr hello \<Rightarrow>
          if hq_protocol_version hello \<noteq> kWireProtocolVersion then
            hang_up (snd (send_response opts (tn_send_ok tn) version_mismatch (mismatch wk)))
          else if unat (hq_max_frame_bytes hello) < 4096 \<or> unat (hq_max_frame_bytes hello) > kAbsoluteMaxFrameBytes then
            reject opts tn StInvalid (mismatch wk)
          else
            (case send_response opts (tn_send_ok tn)
                    (plain_response\<lparr>ws_type := MtHelloAck,
                       ws_payload := encode_hello_reply (hello_answer opts (tn_session_id tn) hello (wk_daemon wk))\<rparr>) wk of
               (sent, wk) \<Rightarrow>
                 if sent \<noteq> StOk then hang_up wk
                 else wk\<lparr>wk_session := (wk_session wk)\<lparr>sn_handshake := True\<rparr>\<rparr>))"

definition tally :: "(server_stats \<Rightarrow> server_stats) \<Rightarrow> worker \<Rightarrow> worker" where
  "tally f wk = wk\<lparr>wk_stats := f (wk_stats wk)\<rparr>"

definition duplicate_response :: "wire_request \<Rightarrow> wire_response" where
  "duplicate_response rq =
     plain_response\<lparr>ws_type := MtErrorReply, ws_session_seq := wr_session_seq rq, ws_id := wr_id rq,
       ws_status := StDuplicate, ws_detail := ''request sequence was already seen on this session''\<rparr>"

definition note_sequence :: "u64 \<Rightarrow> worker \<Rightarrow> worker" where
  "note_sequence seq wk =
     (let last = sn_last_sequence (wk_session wk);
          wk = (if last \<noteq> 0 \<and> seq > last + 1
                then tally (\<lambda>st. st\<lparr>vs_stale_requests := vs_stale_requests st + 1\<rparr>) wk else wk)
      in wk\<lparr>wk_session := (wk_session wk)\<lparr>sn_last_sequence := seq\<rparr>\<rparr>)"

text \<open>Handing a request to the daemon and sending its reply.\<close>

definition deliver :: "u32 \<times> u32 \<times> u32 \<Rightarrow> server_options \<Rightarrow> turn \<Rightarrow> wire_request \<Rightarrow> worker \<Rightarrow> worker" where
  "deliver version opts tn rq wk =
     (case handle version (tn_sx tn) rq (wk_daemon wk) of
        (response, dm) \<Rightarrow>
          let wk = tally (\<lambda>st. st\<lparr>vs_requests_handled := vs_requests_handled st + 1\<rparr>)
                     (wk\<lparr>wk_daemon := dm, wk_handled := wk_handled wk @ [rq]\<rparr>)
          in (case send_response opts (tn_send_ok tn) response wk of
                (sent, wk) \<Rightarrow>
                  if sent \<noteq> StOk then hang_up wk
                  else if wr_type rq = MtShutdownRequest \<and> ws_status response = StOk then
                    hang_up (tally (\<lambda>st. st\<lparr>vs_shutdown_requests := vs_shutdown_requests st + 1\<rparr>) wk)
                  else wk))"

definition request_turn ::
    "u32 \<times> u32 \<times> u32 \<Rightarrow> server_options \<Rightarrow> turn \<Rightarrow> byte list \<Rightarrow> worker \<Rightarrow> worker" where
  "request_turn version opts tn frame wk =
     (case decode_request default_limits frame of
        Inl status \<Rightarrow>
          reject opts tn status (tally (\<lambda>st. st\<lparr>vs_frames_rejected := vs_frames_rejected st + 1\<rparr>) wk)
      | Inr rq \<Rightarrow>
          if wr_session_seq rq \<le> sn_last_sequence (wk_session wk) then
            snd (send_response opts (tn_send_ok tn) (duplicate_response rq)
              (tally (\<lambda>st. st\<lparr>vs_duplicate_requests := vs_duplicate_requests st + 1\<rparr>) wk))
          else deliver version opts tn rq (note_sequence (wr_session_seq rq) wk))"

text \<open>One turn of the loop.\<close>

definition serve_turn :: "u32 \<times> u32 \<times> u32 \<Rightarrow> server_options \<Rightarrow> turn \<Rightarrow> worker \<Rightarrow> worker" where
  "serve_turn version opts tn wk =
     (if \<not> sn_open (wk_session wk) then wk
      else if tn_stopping tn then hang_up wk
      else
        case fd_next (sn_decoder (wk_session wk)) of
          (frame, decoder) \<Rightarrow>
            let wk = wk\<lparr>wk_session := (wk_session wk)\<lparr>sn_decoder := decoder\<rparr>\<rparr>
            in (case frame of
                  Inl status \<Rightarrow>
                    if status = StNotFound then receive_turn opts tn wk
                    else
                      reject opts tn status
                        (wk\<lparr>wk_stats := (wk_stats wk)\<lparr>vs_frames_rejected := vs_frames_rejected (wk_stats wk) + 1\<rparr>\<rparr>)
                | Inr payload \<Rightarrow>
                    (let wk = wk\<lparr>wk_stats := (wk_stats wk)\<lparr>vs_frames_decoded := vs_frames_decoded (wk_stats wk) + 1\<rparr>\<rparr>
                     in if \<not> sn_handshake (wk_session wk) then hello_turn opts tn payload wk
                        else request_turn version opts tn payload wk)))"

fun serve :: "u32 \<times> u32 \<times> u32 \<Rightarrow> server_options \<Rightarrow> turn list \<Rightarrow> worker \<Rightarrow> worker" where
  "serve version opts [] wk = wk"
| "serve version opts (tn # tns) wk = serve version opts tns (serve_turn version opts tn wk)"

section \<open>Accepting connections\<close>

record connection =
  co_index :: u64
  co_done :: bool

record server =
  sv_options :: server_options
  sv_running :: bool
  sv_stopping :: bool
  sv_listening :: bool
  sv_connections :: "connection list"
  sv_next_index :: u64
  sv_stats :: server_stats

definition new_server :: "server_options \<Rightarrow> server" where
  "new_server opts =
     \<lparr>sv_options = opts, sv_running = False, sv_stopping = False, sv_listening = False, sv_connections = [],
      sv_next_index = 0, sv_stats = zero_stats\<rparr>"

text \<open>Starting; \<open>bound\<close> is what binding the listener answers.\<close>

definition server_start :: "status \<Rightarrow> server \<Rightarrow> status \<times> server" where
  "server_start bound sv =
     (if sv_running sv then (StBusy, sv)
      else if vo_max_connections (sv_options sv) = 0 then (StInvalid, sv)
      else if vo_max_frame_bytes (sv_options sv) = 0 \<or> vo_max_frame_bytes (sv_options sv) > kAbsoluteMaxFrameBytes then
        (StInvalid, sv)
      else if bound \<noteq> StOk then (bound, sv)
      else (StOk, sv\<lparr>sv_listening := True, sv_stopping := False, sv_running := True\<rparr>))"

text \<open>Stopping joins the workers, so every connection is finished when the registry is cleared.\<close>

definition server_stop :: "server \<Rightarrow> server" where
  "server_stop sv =
     (if sv_stopping sv then sv
      else sv\<lparr>sv_stopping := True, sv_listening := False, sv_connections := [], sv_running := False\<rparr>)"

definition reap_finished :: "server \<Rightarrow> server" where
  "reap_finished sv =
     (let finished = of_nat (length (filter co_done (sv_connections sv)));
          st = sv_stats sv
      in sv\<lparr>sv_connections := filter (\<lambda>c. \<not> co_done c) (sv_connections sv),
             sv_stats := st\<lparr>vs_connections_closed := vs_connections_closed st + finished,
                             vs_connections_active := vs_connections_active st - finished\<rparr>\<rparr>)"

text \<open>A worker that leaves its loop marks its connection.\<close>

definition worker_done :: "u64 \<Rightarrow> server \<Rightarrow> server" where
  "worker_done i sv =
     sv\<lparr>sv_connections := map (\<lambda>c. if co_index c = i then c\<lparr>co_done := True\<rparr> else c) (sv_connections sv)\<rparr>"

datatype accept_event = AcTimedOut | AcFailed | AcAccepted

text \<open>The frames sent to refused peers are logged.\<close>

record accept_loop =
  al_server :: server
  al_errors :: u64
  al_live :: bool
  al_refusals :: "byte list list"

definition refusal :: wire_response where
  "refusal =
     plain_response\<lparr>ws_type := MtErrorReply, ws_status := StLimitExceeded, ws_detail := ''connection bound reached''\<rparr>"

text \<open>What becomes of an accepted peer: a refusal frame, or a registered connection.\<close>

definition admit :: "server \<Rightarrow> byte list list \<times> server" where
  "admit sv =
     (let st = sv_stats sv
      in if vs_connections_active st \<ge> vo_max_connections (sv_options sv) then
           ([encode_frame (encode_response refusal)],
            sv\<lparr>sv_stats := st\<lparr>vs_connections_rejected := vs_connections_rejected st + 1\<rparr>\<rparr>)
         else
           ([],
            sv\<lparr>sv_connections := sv_connections sv @ [\<lparr>co_index = sv_next_index sv, co_done = False\<rparr>],
               sv_next_index := sv_next_index sv + 1,
               sv_stats := st\<lparr>vs_connections_accepted := vs_connections_accepted st + 1,
                               vs_connections_active := vs_connections_active st + 1\<rparr>\<rparr>))"

definition accept_turn :: "accept_event \<Rightarrow> accept_loop \<Rightarrow> accept_loop" where
  "accept_turn ev al =
     (if \<not> al_live al then al
      else if sv_stopping (al_server al) then al\<lparr>al_live := False\<rparr>
      else
        case ev of
          AcTimedOut \<Rightarrow> al
        | AcFailed \<Rightarrow>
            let errors = al_errors al + 1
            in if errors > 64 then al\<lparr>al_errors := errors, al_live := False\<rparr> else al\<lparr>al_errors := errors\<rparr>
        | AcAccepted \<Rightarrow>
            (case admit (reap_finished (al_server al)) of
               (frames, sv) \<Rightarrow> al\<lparr>al_server := sv, al_errors := 0, al_refusals := al_refusals al @ frames\<rparr>))"

end
