(* ===== verification/Client.thy ===== *)
theory Client
  imports Daemon
begin

text \<open>
  The client (\<open>src/client.cpp\<close>, \<open>include/isf/client.hpp\<close>): a synchronous session with one
  outstanding request. What the socket answers while the client waits is a list of events; the
  result \<open>None\<close> says that the client is still waiting when they are used up. The typed operations
  differ in the message they send and in how they read the reply.
\<close>

section \<open>State\<close>

record client =
  cn_connected :: bool
  cn_decoder :: frame_decoder
  cn_hello :: hello_reply
  cn_sequence :: u64

datatype pump_event = PumpReceived "byte list" | PumpTimedOut | PumpClosed | PumpError

text \<open>Waiting for one frame: the status of a stream that ended, or the payload.\<close>

fun await_frame :: "pump_event list \<Rightarrow> frame_decoder \<Rightarrow> byte list expected option \<times> frame_decoder" where
  "await_frame events d =
     (case fd_next d of
        (Inr payload, d) \<Rightarrow> (Some (Inr payload), d)
      | (Inl status, d) \<Rightarrow>
          if status \<noteq> StNotFound then (Some (Inl status), d)
          else
            (case events of
               [] \<Rightarrow> (None, d)
             | PumpReceived bytes # later \<Rightarrow>
                 (case fd_push bytes d of (pushed, d) \<Rightarrow>
                    if pushed \<noteq> StOk then (Some (Inl StUnavailable), d) else await_frame later d)
             | _ \<Rightarrow> (Some (Inl StUnavailable), d)))"

declare await_frame.simps [simp del]

section \<open>The handshake\<close>

definition client_hello :: "id128 \<Rightarrow> string \<Rightarrow> nat \<Rightarrow> hello_request" where
  "client_hello nonce kind max_frame =
     \<lparr>hq_protocol_version = kWireProtocolVersion, hq_client_nonce = nonce, hq_client_kind = kind,
      hq_max_frame_bytes = of_nat max_frame\<rparr>"

definition hello_frame :: "id128 \<Rightarrow> string \<Rightarrow> nat \<Rightarrow> byte list" where
  "hello_frame nonce kind max_frame = encode_frame (encode_hello_request (client_hello nonce kind max_frame))"

definition accept_hello :: "byte list \<Rightarrow> hello_reply expected" where
  "accept_hello payload =
     ebind (decode_response default_limits payload) (\<lambda>response.
       if ws_type response = MtErrorReply then Inl (ws_status response)
       else if ws_type response \<noteq> MtHelloAck then Inl StInvalid
       else ebind (decode_hello_reply (ws_payload response)) (\<lambda>reply.
         if hr_protocol_version reply \<noteq> kWireProtocolVersion then Inl StVersionMismatch else Inr reply))"

text \<open>What dialling answers: the transport, the port asked for, the connection and the first send.\<close>

record dial =
  dl_transport :: status
  dl_port :: u16
  dl_connect :: status
  dl_timeouts :: status
  dl_hello_sent :: bool

definition client_connect :: "dial \<Rightarrow> nat \<Rightarrow> pump_event list \<Rightarrow> client expected option" where
  "client_connect dl max_frame events =
     (if dl_transport dl \<noteq> StOk then Some (Inl (dl_transport dl))
      else if dl_port dl = 0 then Some (Inl StInvalid)
      else if dl_connect dl \<noteq> StOk then Some (Inl (dl_connect dl))
      else if dl_timeouts dl \<noteq> StOk then Some (Inl StUnavailable)
      else if \<not> dl_hello_sent dl then Some (Inl StUnavailable)
      else
        case await_frame events (new_decoder max_frame) of
          (None, d) \<Rightarrow> None
        | (Some (Inl status), d) \<Rightarrow> Some (Inl status)
        | (Some (Inr payload), d) \<Rightarrow>
            Some (ebind (accept_hello payload) (\<lambda>reply.
              Inr \<lparr>cn_connected = True, cn_decoder = new_decoder (unat (hr_max_frame_bytes reply)), cn_hello = reply,
                   cn_sequence = 0\<rparr>)))"

section \<open>One round trip\<close>

definition client_request :: "id128 \<Rightarrow> message_type \<Rightarrow> byte list \<Rightarrow> client \<Rightarrow> wire_request" where
  "client_request rid t body cn =
     \<lparr>wr_protocol_version = kWireProtocolVersion, wr_type = t, wr_session_seq = cn_sequence cn + 1, wr_id = rid,
      wr_payload = body\<rparr>"

definition match_reply :: "wire_request \<Rightarrow> byte list \<Rightarrow> wire_response expected" where
  "match_reply rq payload =
     ebind (decode_response default_limits payload) (\<lambda>response.
       if ws_id response \<noteq> wr_id rq then Inl StConflicting
       else if ws_session_seq response \<noteq> wr_session_seq rq then Inl StConflicting
       else Inr response)"

text \<open>The first component of the result is the frame that goes out, if any.\<close>

definition round_trip ::
    "id128 \<Rightarrow> bool \<Rightarrow> pump_event list \<Rightarrow> message_type \<Rightarrow> byte list \<Rightarrow> client \<Rightarrow>
     byte list option \<times> wire_response expected option \<times> client" where
  "round_trip rid send_ok events t body cn =
     (if \<not> cn_connected cn then (None, Some (Inl StUnavailable), cn)
      else
        let rq = client_request rid t body cn;
            cn = cn\<lparr>cn_sequence := cn_sequence cn + 1\<rparr>;
            encoded = encode_request rq
        in if length encoded > unat (hr_max_frame_bytes (cn_hello cn)) then (None, Some (Inl StLimitExceeded), cn)
           else if \<not> send_ok then (None, Some (Inl StUnavailable), cn)
           else
             (case await_frame events (cn_decoder cn) of
                (got, d) \<Rightarrow>
                  (Some (encode_frame encoded),
                   (case got of
                      None \<Rightarrow> None
                    | Some (Inl status) \<Rightarrow> Some (Inl status)
                    | Some (Inr payload) \<Rightarrow> Some (match_reply rq payload)),
                   cn\<lparr>cn_decoder := d\<rparr>)))"

definition client_close :: "client \<Rightarrow> client" where
  "client_close cn = cn\<lparr>cn_connected := False\<rparr>"

section \<open>Reading replies\<close>

definition accepted :: "wire_response \<Rightarrow> byte list expected" where
  "accepted response = (if ws_status response \<noteq> StOk then Inl (ws_status response) else Inr (ws_payload response))"

definition simple_mutation :: "wire_response expected \<Rightarrow> mutation_report expected" where
  "simple_mutation response = ebind (ebind response accepted) (decode_mutation_report default_limits)"

definition client_snapshot_limits :: wire_limits where
  "client_snapshot_limits =
     \<lparr>max_bytes = kAbsoluteMaxFrameBytes, max_string = 4096, max_container = 1048576, max_nesting = 8\<rparr>"

definition read_status :: "wire_response expected \<Rightarrow> status_report expected" where
  "read_status response = ebind (ebind response accepted) decode_status_report"

definition read_sites :: "wire_response expected \<Rightarrow> site_record list expected" where
  "read_sites response = ebind (ebind response accepted) decode_site_list"

definition read_paths :: "wire_response expected \<Rightarrow> path_record list expected" where
  "read_paths response = ebind (ebind response accepted) decode_path_list"

definition read_grants :: "wire_response expected \<Rightarrow> grant_record list expected" where
  "read_grants response = ebind (ebind response accepted) decode_grant_list"

definition read_path_ledger :: "wire_response expected \<Rightarrow> capacity_ledger expected" where
  "read_path_ledger response =
     ebind (ebind (ebind response accepted) decode_ledger_report) (\<lambda>report. Inr (lg_ledger report))"

definition read_digest :: "wire_response expected \<Rightarrow> digest_report expected" where
  "read_digest response = ebind (ebind response accepted) decode_digest_report"

definition read_snapshot :: "wire_response expected \<Rightarrow> authority_snapshot expected" where
  "read_snapshot response =
     ebind (ebind (ebind response accepted) (decode_snapshot client_snapshot_limits)) (\<lambda>(snap, rest). Inr snap)"

definition read_shutdown :: "wire_response expected \<Rightarrow> status" where
  "read_shutdown response = (case response of Inl s \<Rightarrow> s | Inr r \<Rightarrow> ws_status r)"

section \<open>The messages of the typed operations\<close>

text \<open>The operations on grants, and the tick.\<close>

fun grant_message :: "request \<Rightarrow> (message_type \<times> byte list) option" where
  "grant_message (RqProposeGrant gp) = Some (MtGrantPropose, encode_grant_proposal gp)"
| "grant_message (RqEvaluateGrant op) = Some (MtGrantEvaluate, encode_grant_operation op)"
| "grant_message (RqReserveGrant op) = Some (MtGrantReserve, encode_grant_operation op)"
| "grant_message (RqActivateGrant op) = Some (MtGrantActivate, encode_grant_operation op)"
| "grant_message (RqDegradeGrant op) = Some (MtGrantDegrade, encode_grant_operation op)"
| "grant_message (RqWithdrawGrant op) = Some (MtGrantWithdraw, encode_grant_operation op)"
| "grant_message (RqRetireGrant op) = Some (MtGrantRetire, encode_grant_operation op)"
| "grant_message (RqCancelGrant op) = Some (MtGrantCancel, encode_grant_operation op)"
| "grant_message (RqAcknowledgeGrant ack) = Some (MtGrantAcknowledge, encode_acknowledgement ack)"
| "grant_message (RqVerifyGrant ver) = Some (MtGrantVerify, encode_verification_message ver)"
| "grant_message (RqReconcileGrant op target prin) = Some (MtGrantReconcile, encode_reconcile_request (op, target, prin))"
| "grant_message (RqTick now) = Some (MtTickRequest, encode_u64_body now)"
| "grant_message _ = None"

fun client_message :: "request \<Rightarrow> message_type \<times> byte list" where
  "client_message (RqRegisterSite reg) = (MtSiteRegister, encode_site_registration reg)"
| "client_message (RqHeartbeat hb) = (MtSiteHeartbeat, encode_heartbeat hb)"
| "client_message (RqSetSiteState site st reason now) = (MtSiteSetState, encode_site_state_request (site, st, reason, now))"
| "client_message (RqRegisterPath reg) = (MtPathRegister, encode_path_registration reg)"
| "client_message (RqSetPathState path st reason now) = (MtPathSetState, encode_path_state_request (path, st, reason, now))"
| "client_message (RqAttestCapacity att) = (MtCapacityAttest, encode_attestation att)"
| "client_message (RqIssueOversubscription oa) = (MtOversubscribe, encode_oversubscription oa)"
| "client_message (RqInstallPolicy pol prin) = (MtPolicyInstall, encode_policy_install_request (pol, prin))"
| "client_message (RqBumpEpoch ep prin) = (MtEpochBump, encode_epoch_bump_request (ep, prin))"
| "client_message rq = (case grant_message rq of Some message \<Rightarrow> message | None \<Rightarrow> (MtInvalid, []))"

section \<open>The typed operations\<close>

definition typed_call ::
    "(wire_response expected \<Rightarrow> 'a) \<Rightarrow> id128 \<Rightarrow> bool \<Rightarrow> pump_event list \<Rightarrow> message_type \<times> byte list \<Rightarrow> client \<Rightarrow>
     byte list option \<times> 'a option \<times> client" where
  "typed_call read rid send_ok events message cn =
     (case round_trip rid send_ok events (fst message) (snd message) cn of
        (frame, got, cn) \<Rightarrow> (frame, map_option read got, cn))"

definition client_mutate where
  "client_mutate rid send_ok events rq = typed_call simple_mutation rid send_ok events (client_message rq)"

definition client_status where
  "client_status rid send_ok events = typed_call read_status rid send_ok events (MtStatusRequest, [])"

definition client_list_sites where
  "client_list_sites rid send_ok events = typed_call read_sites rid send_ok events (MtListSites, [])"

definition client_list_paths where
  "client_list_paths rid send_ok events = typed_call read_paths rid send_ok events (MtListPaths, [])"

definition client_list_grants where
  "client_list_grants rid send_ok events f = typed_call read_grants rid send_ok events (MtListGrants, encode_list_filter f)"

definition client_ledger where
  "client_ledger rid send_ok events path =
     typed_call read_path_ledger rid send_ok events (MtLedgerRequest, encode_id_body path)"

definition client_digest where
  "client_digest rid send_ok events = typed_call read_digest rid send_ok events (MtDigestRequest, [])"

definition client_snapshot where
  "client_snapshot rid send_ok events = typed_call read_snapshot rid send_ok events (MtSnapshotRequest, [])"

definition client_request_shutdown where
  "client_request_shutdown rid send_ok events = typed_call read_shutdown rid send_ok events (MtShutdownRequest, [])"

section \<open>Records in a report\<close>

definition find_change :: "mutation_report \<Rightarrow> object_kind \<Rightarrow> state_change expected" where
  "find_change report kind =
     (case find (\<lambda>c. sc_kind c = kind) (mr_changes report) of None \<Rightarrow> Inl StNotFound | Some c \<Rightarrow> Inr c)"

definition extract_limits :: wire_limits where
  "extract_limits = \<lparr>max_bytes = 16777216, max_string = 4096, max_container = 1048576, max_nesting = 8\<rparr>"

definition extract_grant :: "mutation_report \<Rightarrow> grant_record expected" where
  "extract_grant report =
     ebind (find_change report OkGrant) (\<lambda>c.
     ebind (decode_grant extract_limits (sc_image c)) (\<lambda>(g, rest). Inr g))"

definition extract_site :: "mutation_report \<Rightarrow> site_record expected" where
  "extract_site report =
     ebind (find_change report OkSite) (\<lambda>c.
     ebind (decode_site extract_limits (sc_image c)) (\<lambda>(s, rest). Inr s))"

definition extract_path :: "mutation_report \<Rightarrow> path_record expected" where
  "extract_path report =
     ebind (find_change report OkPath) (\<lambda>c.
     ebind (decode_path extract_limits (sc_image c)) (\<lambda>(p, rest). Inr p))"

end
