(* ===== verification/Sessions.thy ===== *)
theory Sessions
  imports Server Client Messages Framing
begin

text \<open>
  What a session of the server guarantees about the requests it hands to the daemon, and that the
  messages of the client's typed operations are the requests they stand for.
\<close>

section \<open>What a turn may change\<close>

lemma send_response_frame [simp]:
  "wk_session (snd (send_response opts ok r wk)) = wk_session wk"
  "wk_daemon (snd (send_response opts ok r wk)) = wk_daemon wk"
  "wk_handled (snd (send_response opts ok r wk)) = wk_handled wk"
  by (auto simp: send_response_def Let_def)

lemma hang_up_frame [simp]:
  "wk_daemon (hang_up wk) = wk_daemon wk" "wk_handled (hang_up wk) = wk_handled wk" "wk_sent (hang_up wk) = wk_sent wk"
  "sn_last_sequence (wk_session (hang_up wk)) = sn_last_sequence (wk_session wk)"
  "sn_handshake (wk_session (hang_up wk)) = sn_handshake (wk_session wk)"
  "\<not> sn_open (wk_session (hang_up wk))"
  by (simp_all add: hang_up_def)

lemma mismatch_frame [simp]:
  "wk_session (mismatch wk) = wk_session wk" "wk_daemon (mismatch wk) = wk_daemon wk"
  "wk_handled (mismatch wk) = wk_handled wk" "wk_sent (mismatch wk) = wk_sent wk"
  by (simp_all add: mismatch_def)

lemma reject_frame [simp]:
  "wk_daemon (reject opts tn s wk) = wk_daemon wk" "wk_handled (reject opts tn s wk) = wk_handled wk"
  "sn_last_sequence (wk_session (reject opts tn s wk)) = sn_last_sequence (wk_session wk)"
  "sn_handshake (wk_session (reject opts tn s wk)) = sn_handshake (wk_session wk)"
  "\<not> sn_open (wk_session (reject opts tn s wk))"
  by (simp_all add: reject_def)

lemma receive_frame [simp]:
  "wk_daemon (receive_turn opts tn wk) = wk_daemon wk" "wk_handled (receive_turn opts tn wk) = wk_handled wk"
  "wk_sent (receive_turn opts tn wk) = wk_sent wk"
  "sn_last_sequence (wk_session (receive_turn opts tn wk)) = sn_last_sequence (wk_session wk)"
  "sn_handshake (wk_session (receive_turn opts tn wk)) = sn_handshake (wk_session wk)"
  by (auto simp: receive_turn_def Let_def split: io_event.splits prod.splits)

lemma hello_frame_effect:
  "wk_daemon (hello_turn opts tn f wk) = wk_daemon wk \<and> wk_handled (hello_turn opts tn f wk) = wk_handled wk \<and>
   sn_last_sequence (wk_session (hello_turn opts tn f wk)) = sn_last_sequence (wk_session wk)"
proof (cases "decode_hello_request f")
  case (Inr hello)
  let ?r = "plain_response\<lparr>ws_type := MtHelloAck,
    ws_payload := encode_hello_reply (hello_answer opts (tn_session_id tn) hello (wk_daemon wk))\<rparr>"
  obtain s wk' where s: "send_response opts (tn_send_ok tn) ?r wk = (s, wk')" by fastforce
  then have "wk_daemon wk' = wk_daemon wk" "wk_handled wk' = wk_handled wk" "wk_session wk' = wk_session wk"
    using send_response_frame [of opts "tn_send_ok tn" ?r wk] by simp_all
  then show ?thesis by (simp add: hello_turn_def Inr s)
qed (simp add: hello_turn_def)

section \<open>Sequence numbers\<close>

definition ordered :: "worker \<Rightarrow> bool" where
  "ordered wk \<longleftrightarrow>
     sorted_wrt (<) (map wr_session_seq (wk_handled wk)) \<and>
     (\<forall>rq \<in> set (wk_handled wk). wr_session_seq rq \<le> sn_last_sequence (wk_session wk)) \<and>
     (sn_handshake (wk_session wk) \<or> wk_handled wk = [])"

lemma ordered_update:
  assumes "ordered wk" and "wk_handled wk' = wk_handled wk"
    and "sn_last_sequence (wk_session wk') = sn_last_sequence (wk_session wk)"
    and "sn_handshake (wk_session wk) \<Longrightarrow> sn_handshake (wk_session wk')"
  shows "ordered wk'"
  using assms by (auto simp: ordered_def)

lemma tally_frame [simp]:
  "wk_session (tally f wk) = wk_session wk" "wk_daemon (tally f wk) = wk_daemon wk"
  "wk_handled (tally f wk) = wk_handled wk" "wk_sent (tally f wk) = wk_sent wk"
  by (simp_all add: tally_def)

lemma note_sequence_frame [simp]:
  "wk_session (note_sequence seq wk) = (wk_session wk)\<lparr>sn_last_sequence := seq\<rparr>"
  "wk_daemon (note_sequence seq wk) = wk_daemon wk" "wk_handled (note_sequence seq wk) = wk_handled wk"
  "wk_sent (note_sequence seq wk) = wk_sent wk"
  by (simp_all add: note_sequence_def Let_def)

lemma deliver_frame [simp]:
  "wk_daemon (deliver v opts tn rq wk) = snd (handle v (tn_sx tn) rq (wk_daemon wk))"
  "wk_handled (deliver v opts tn rq wk) = wk_handled wk @ [rq]"
  "sn_last_sequence (wk_session (deliver v opts tn rq wk)) = sn_last_sequence (wk_session wk)"
  "sn_handshake (wk_session (deliver v opts tn rq wk)) = sn_handshake (wk_session wk)"
proof -
  obtain response dm where h: "handle v (tn_sx tn) rq (wk_daemon wk) = (response, dm)" by fastforce
  define wk1 where "wk1 = tally (\<lambda>st. st\<lparr>vs_requests_handled := vs_requests_handled st + 1\<rparr>)
    (wk\<lparr>wk_daemon := dm, wk_handled := wk_handled wk @ [rq]\<rparr>)"
  obtain s wk2 where s: "send_response opts (tn_send_ok tn) response wk1 = (s, wk2)" by fastforce
  then have "wk_session wk2 = wk_session wk" "wk_daemon wk2 = dm" "wk_handled wk2 = wk_handled wk @ [rq]"
    using send_response_frame [of opts "tn_send_ok tn" response wk1] by (simp_all add: wk1_def)
  then show "wk_daemon (deliver v opts tn rq wk) = snd (handle v (tn_sx tn) rq (wk_daemon wk))"
    "wk_handled (deliver v opts tn rq wk) = wk_handled wk @ [rq]"
    "sn_last_sequence (wk_session (deliver v opts tn rq wk)) = sn_last_sequence (wk_session wk)"
    "sn_handshake (wk_session (deliver v opts tn rq wk)) = sn_handshake (wk_session wk)"
    using s by (simp_all add: deliver_def h wk1_def [symmetric])
qed

lemma request_turn_ordered:
  assumes "ordered wk" and "sn_handshake (wk_session wk)"
  shows "ordered (request_turn v opts tn f wk)"
proof (cases "decode_request default_limits f")
  case (Inl s)
  then show ?thesis by (intro ordered_update [OF assms(1)]) (simp_all add: request_turn_def)
next
  case (Inr rq)
  show ?thesis
  proof (cases "wr_session_seq rq \<le> sn_last_sequence (wk_session wk)")
    case True
    then show ?thesis by (intro ordered_update [OF assms(1)]) (simp_all add: request_turn_def Inr)
  next
    case False
    then show ?thesis
      using assms by (fastforce simp: request_turn_def Inr ordered_def sorted_wrt_append)
  qed
qed

lemma serve_turn_ordered:
  assumes "ordered wk"
  shows "ordered (serve_turn v opts tn wk)"
proof -
  obtain frame d where n: "fd_next (sn_decoder (wk_session wk)) = (frame, d)" by fastforce
  let ?wk = "wk\<lparr>wk_session := (wk_session wk)\<lparr>sn_decoder := d\<rparr>\<rparr>"
  let ?wk1 = "?wk\<lparr>wk_stats := (wk_stats wk)\<lparr>vs_frames_decoded := vs_frames_decoded (wk_stats wk) + 1\<rparr>\<rparr>"
  have o: "ordered ?wk1" using assms by (simp add: ordered_def)
  have hello: "ordered (hello_turn opts tn p ?wk1)" if "\<not> sn_handshake (wk_session wk)" for p
    using hello_frame_effect [of opts tn p ?wk1] that by (intro ordered_update [OF o]) simp_all
  have request: "ordered (request_turn v opts tn p ?wk1)" if "sn_handshake (wk_session wk)" for p
    using request_turn_ordered [OF o] that by simp
  have quiet: "ordered (receive_turn opts tn ?wk)" "ordered (hang_up wk)"
    by (rule ordered_update [OF assms]; simp)+
  have refused: "ordered (reject opts tn s (?wk\<lparr>wk_stats := st\<rparr>))" for s st
    by (rule ordered_update [OF assms]) simp_all
  show ?thesis
    using assms quiet hello request refused by (simp add: serve_turn_def n Let_def split: sum.split)
qed

text \<open>
  C17: a session hands each request to the daemon at most once. Whatever a peer sends and however
  the socket behaves, the requests of one connection that reach the daemon carry strictly
  increasing sequence numbers, and none does before the handshake is complete.
\<close>

theorem session_requests_once:
  "sorted_wrt (<) (map wr_session_seq (wk_handled (serve version opts turns
      \<lparr>wk_session = new_session opts now, wk_daemon = dm, wk_stats = stats, wk_sent = [], wk_handled = []\<rparr>))) \<and>
   (sn_handshake (wk_session (serve version opts turns
      \<lparr>wk_session = new_session opts now, wk_daemon = dm, wk_stats = stats, wk_sent = [], wk_handled = []\<rparr>)) \<or>
    wk_handled (serve version opts turns
      \<lparr>wk_session = new_session opts now, wk_daemon = dm, wk_stats = stats, wk_sent = [], wk_handled = []\<rparr>) = [])"
proof -
  have "ordered wk \<Longrightarrow> ordered (serve version opts turns wk)" for wk
    by (induction turns arbitrary: wk) (simp_all add: serve_turn_ordered)
  then show ?thesis by (simp add: ordered_def)
qed

section \<open>Requests on the wire\<close>

text \<open>The requests that a client can express: their free text is within the text limit and well formed.\<close>

fun expressible :: "request \<Rightarrow> bool" where
  "expressible (RqRegisterSite reg) = clean (sdesc_name (sreg_descriptor reg))"
| "expressible (RqSetSiteState site st reason now) = clean reason"
| "expressible (RqRegisterPath reg) = clean (pdesc_name (preg_descriptor reg))"
| "expressible (RqSetPathState path st reason now) = clean reason"
| "expressible (RqAttestCapacity att) = restorable default_limits (OAttestation att)"
| "expressible (RqProposeGrant gp) = clean (gp_reason gp)"
| "expressible (RqEvaluateGrant op) = clean (go_reason op)"
| "expressible (RqReserveGrant op) = clean (go_reason op)"
| "expressible (RqActivateGrant op) = clean (go_reason op)"
| "expressible (RqDegradeGrant op) = clean (go_reason op)"
| "expressible (RqWithdrawGrant op) = clean (go_reason op)"
| "expressible (RqRetireGrant op) = clean (go_reason op)"
| "expressible (RqCancelGrant op) = clean (go_reason op)"
| "expressible (RqVerifyGrant ver) = clean (gv_detail ver)"
| "expressible (RqReconcileGrant op target prin) = clean (go_reason op)"
| "expressible _ = True"

lemmas body_decoders = decode_site_registration_def decode_heartbeat_def decode_site_state_request_def
  decode_path_registration_def decode_path_state_request_def decode_policy_install_request_def
  decode_epoch_bump_request_def decode_grant_proposal_def decode_grant_operation_def decode_acknowledgement_def
  decode_verification_message_def decode_reconcile_request_def decode_u64_body_def

lemmas body_roundtrips = site_registration_codec.whole_enc heartbeat_codec.whole_enc site_state_codec.whole_enc
  path_registration_codec.whole_enc path_state_codec.whole_enc policy_install_codec.whole_enc epoch_bump_codec.whole_enc
  grant_proposal_codec.whole_enc grant_operation_codec.whole_enc acknowledgement_codec.whole_enc
  verification_message_codec.whole_enc reconcile_codec.whole_enc u64_codec.whole_enc
  attestation_codec.whole_enc oversubscription_codec.whole_enc

lemmas body_trailing = site_registration_codec.whole_trailing heartbeat_codec.whole_trailing site_state_codec.whole_trailing
  path_registration_codec.whole_trailing path_state_codec.whole_trailing policy_install_codec.whole_trailing
  epoch_bump_codec.whole_trailing grant_proposal_codec.whole_trailing grant_operation_codec.whole_trailing
  acknowledgement_codec.whole_trailing verification_message_codec.whole_trailing reconcile_codec.whole_trailing
  u64_codec.whole_trailing attestation_codec.whole_trailing oversubscription_codec.whole_trailing

text \<open>
  C18: every mutating operation of the client whose texts are valid UTF-8 of at most 4096 bytes
  reaches the daemon as the request it stands for: the daemon decodes the message of the operation
  to that request, and refuses the same message with anything appended to its body.
\<close>

theorem client_message_roundtrip:
  assumes "expressible rq"
  shows "request_of (fst (client_message rq)) (snd (client_message rq)) = Inr rq \<and>
         request_of (fst (client_message rq)) (snd (client_message rq) @ b # bs) = Inl StInvalid"
  using assms
  by (cases rq)
     (simp_all add: request_of_def body_decoders body_roundtrips body_trailing
        del: encode_site_state_request.simps encode_path_state_request.simps encode_policy_install_request.simps
          encode_epoch_bump_request.simps)

theorem client_message_roundtrip_witness:
  "request_of MtTickRequest (encode_u64_body 7) = Inr (RqTick 7) \<and>
   request_of MtSiteSetState (encode_site_state_request (Id128 0 1, SsUp, ''up'', 5)) =
     Inr (RqSetSiteState (Id128 0 1) SsUp ''up'' 5)"
  using client_message_roundtrip [of "RqTick 7"] client_message_roundtrip [of "RqSetSiteState (Id128 0 1) SsUp ''up'' 5"]
  by (simp add: clean_def is_valid_utf8_def byte_of_char_def del: encode_site_state_request.simps)

end
