(* ===== verification/Calls.thy ===== *)
theory Calls
  imports Sessions Example
begin

text \<open>
  Client, frames, server and daemon together: a handshake joins the two sides, and every call in
  a joined session is answered with the daemon's reply, however the bytes are cut on their way.
\<close>

section \<open>A frame on its way\<close>

text \<open>A decoder between two frames.\<close>

definition idle :: "nat \<Rightarrow> frame_decoder \<Rightarrow> bool" where
  "idle limit d \<longleftrightarrow> \<not> fd_failed d \<and> pending d = [] \<and> fd_max_frame_bytes d = limit"

lemma idle_new [simp]: "idle limit (new_decoder limit)"
  by (simp add: idle_def new_decoder_def pending_def)

lemma frame_nonempty: "encode_frame p \<noteq> []"
  by (metis add_is_0 encode_frame_length list.size(3) zero_neq_numeral)

text \<open>A decoder that has received a proper prefix of a frame and still misses the rest of it.\<close>

definition partway :: "nat \<Rightarrow> byte list \<Rightarrow> byte list \<Rightarrow> frame_decoder \<Rightarrow> bool" where
  "partway limit p rest d \<longleftrightarrow>
     \<not> fd_failed d \<and> fd_max_frame_bytes d = limit \<and> pending d @ rest = encode_frame p \<and> rest \<noteq> []"

lemma partway_short:
  assumes "partway limit p rest d"
  shows "length (pending d) < 16 + length p" and "pending d = take (length (pending d)) (encode_frame p)"
proof -
  have all: "pending d @ rest = encode_frame p" "rest \<noteq> []" using assms by (simp_all add: partway_def)
  show "pending d = take (length (pending d)) (encode_frame p)" by (simp flip: all(1))
  have "length (pending d) + length rest = 16 + length p" using arg_cong [OF all(1), of length] by simp
  then show "length (pending d) < 16 + length p" using all(2) by (cases rest) simp_all
qed

lemma partway_next:
  assumes "partway limit p rest d" and "frameable limit p"
  shows "fd_next d = (Inl StNotFound, d)"
  using next_short [of d _ p, OF _ partway_short(2) [OF assms(1)]] assms partway_short(1) [OF assms(1)]
  by (simp add: partway_def)

lemma partway_push:
  assumes "partway limit p (c @ rest) d" and "frameable limit p"
  obtains d' where "fd_push c d = (StOk, d')" and "\<not> fd_failed d'" and "fd_max_frame_bytes d' = limit"
    and "pending d' @ rest = encode_frame p"
proof -
  have all: "\<not> fd_failed d" "fd_max_frame_bytes d = limit" "pending d @ c @ rest = encode_frame p"
    using assms(1) by (simp_all add: partway_def)
  have "length (pending d) + length c + length rest = 16 + length p" using arg_cong [OF all(3), of length] by simp
  then have "length (pending d) \<le> 16 + limit" "length c \<le> 16 + limit" using assms(2) by (simp_all add: frameable_def)
  then show ?thesis
    using push_pending [OF all(1), of c thesis] all(2,3) that by (metis append.assoc)
qed

lemma await_one:
  assumes "partway limit p (concat cs) d" and "frameable limit p" and "[] \<notin> set cs"
  obtains d' where "await_frame (map PumpReceived cs) d = (Some (Inr p), d')" and "idle limit d'"
  using assms
proof (induction cs arbitrary: d thesis)
  case Nil
  then show ?case by (simp add: partway_def)
next
  case (Cons c cs)
  have short: "fd_next d = (Inl StNotFound, d)" by (rule partway_next [OF Cons.prems(2,3)])
  obtain d1 where d1: "fd_push c d = (StOk, d1)" "\<not> fd_failed d1" "fd_max_frame_bytes d1 = limit"
    "pending d1 @ concat cs = encode_frame p"
    by (rule partway_push [of limit p c "concat cs" d]) (use Cons.prems in auto)
  have "\<exists>d'. await_frame (map PumpReceived cs) d1 = (Some (Inr p), d') \<and> idle limit d'"
  proof (cases cs)
    case Nil
    then have "pending d1 = encode_frame p @ []" using d1(4) by simp
    with d1(2,3) Cons.prems(3) obtain d' where "fd_next d1 = (Inr p, d')" "idle limit d'"
      using next_frame [of d1 p "[]"] unfolding idle_def by metis
    with Nil show ?thesis by (simp add: await_frame.simps [of "[]"])
  next
    case (Cons c' cs')
    then have "partway limit p (concat cs) d1" using d1 Cons.prems(4) by (auto simp: partway_def)
    then show ?thesis using Cons.IH Cons.prems(3,4) by auto
  qed
  with d1(1) short show ?case
    by (auto simp: await_frame.simps [of "PumpReceived c # map PumpReceived cs"] intro: Cons.prems(1))
qed

text \<open>The server receives the chunks of a frame, one turn each, and changes nothing but its decoder.\<close>

definition arriving :: "turn list \<Rightarrow> byte list list \<Rightarrow> bool" where
  "arriving tns cs \<longleftrightarrow>
     map tn_io tns = map IoReceived cs \<and> [] \<notin> set cs \<and> (\<forall>tn \<in> set tns. \<not> tn_stopping tn)"

definition undisturbed :: "worker \<Rightarrow> worker \<Rightarrow> bool" where
  "undisturbed wk wk' \<longleftrightarrow>
     wk_daemon wk' = wk_daemon wk \<and> wk_sent wk' = wk_sent wk \<and> wk_handled wk' = wk_handled wk \<and>
     sn_last_sequence (wk_session wk') = sn_last_sequence (wk_session wk) \<and>
     sn_handshake (wk_session wk') = sn_handshake (wk_session wk) \<and> sn_open (wk_session wk') = sn_open (wk_session wk)"

lemma receive_chunk:
  assumes "partway limit p (c @ rest) (sn_decoder (wk_session wk))" and "frameable limit p"
    and "sn_open (wk_session wk)" and "\<not> tn_stopping tn" and "tn_io tn = IoReceived c"
  obtains d' where "undisturbed wk (serve_turn v opts tn wk)" and "sn_decoder (wk_session (serve_turn v opts tn wk)) = d'"
    and "\<not> fd_failed d'" and "fd_max_frame_bytes d' = limit" and "pending d' @ rest = encode_frame p"
proof -
  let ?d = "sn_decoder (wk_session wk)"
  have short: "fd_next ?d = (Inl StNotFound, ?d)" by (rule partway_next [OF assms(1,2)])
  obtain d1 where d1: "fd_push c ?d = (StOk, d1)" "\<not> fd_failed d1" "fd_max_frame_bytes d1 = limit"
    "pending d1 @ rest = encode_frame p"
    by (rule partway_push [OF assms(1,2)])
  show ?thesis
    by (rule that [of d1])
       (use short d1 assms in \<open>simp_all add: undisturbed_def serve_turn_def receive_turn_def Let_def\<close>)
qed

lemma receive_frame_chunks:
  assumes "partway limit p (concat cs) (sn_decoder (wk_session wk))" and "frameable limit p"
    and "sn_open (wk_session wk)" and "arriving tns cs"
  obtains d' where "undisturbed wk (serve v opts tns wk)" and "sn_decoder (wk_session (serve v opts tns wk)) = d'"
    and "\<not> fd_failed d'" and "fd_max_frame_bytes d' = limit" and "pending d' = encode_frame p"
  using assms
proof (induction cs arbitrary: tns wk thesis)
  case Nil
  then show ?case by (simp add: partway_def)
next
  case (Cons c cs)
  then obtain tn tns' where tns: "tns = tn # tns'" "tn_io tn = IoReceived c" "\<not> tn_stopping tn" "arriving tns' cs"
    by (auto simp: arriving_def)
  have now: "partway limit p (c @ concat cs) (sn_decoder (wk_session wk))" using Cons.prems(2) by simp
  let ?wk = "serve_turn v opts tn wk"
  obtain d1 where d1: "undisturbed wk ?wk" "sn_decoder (wk_session ?wk) = d1" "\<not> fd_failed d1"
    "fd_max_frame_bytes d1 = limit" "pending d1 @ concat cs = encode_frame p"
    by (rule receive_chunk [OF now Cons.prems(3,4) tns(3,2)])
  show ?case
  proof (cases "cs = []")
    case True
    then have "tns' = []" using tns(4) by (simp add: arriving_def)
    with True d1 tns(1) show ?thesis by (intro Cons.prems(1) [of d1]) simp_all
  next
    case False
    then have "partway limit p (concat cs) (sn_decoder (wk_session ?wk))"
      using d1 tns(4) by (cases cs) (auto simp: partway_def arriving_def)
    moreover have "sn_open (wk_session ?wk)" using d1(1) Cons.prems(4) by (simp add: undisturbed_def)
    ultimately obtain d' where "undisturbed ?wk (serve v opts tns' ?wk)"
      "sn_decoder (wk_session (serve v opts tns' ?wk)) = d'" "\<not> fd_failed d'" "fd_max_frame_bytes d' = limit"
      "pending d' = encode_frame p"
      using Cons.IH [OF _ _ Cons.prems(3) _ tns(4)] by blast
    with d1(1) tns(1) show ?thesis by (intro Cons.prems(1) [of d']) (simp_all add: undisturbed_def)
  qed
qed

lemma serve_append: "serve v opts (xs @ ys) wk = serve v opts ys (serve v opts xs wk)"
  by (induction xs arbitrary: wk) simp_all

text \<open>When the last chunk is in, the next turn hands the payload of the frame to the session.\<close>

lemma serve_frame:
  assumes "idle limit (sn_decoder (wk_session wk))" and "frameable limit p" and "sn_open (wk_session wk)"
    and "concat cs = encode_frame p" and "arriving tns cs" and "\<not> tn_stopping tn"
  obtains wk' where "undisturbed wk wk'" and "idle limit (sn_decoder (wk_session wk'))"
    and "serve v opts (tns @ [tn]) wk =
      (if sn_handshake (wk_session wk) then request_turn v opts tn p wk' else hello_turn opts tn p wk')"
proof -
  have start: "partway limit p (concat cs) (sn_decoder (wk_session wk))"
    using assms(1,4) by (simp add: partway_def idle_def frame_nonempty)
  let ?wk = "serve v opts tns wk"
  obtain d where d: "undisturbed wk ?wk" "sn_decoder (wk_session ?wk) = d" "\<not> fd_failed d"
    "fd_max_frame_bytes d = limit" "pending d = encode_frame p @ []"
    using receive_frame_chunks [OF start assms(2,3,5)] by (metis append_Nil2)
  obtain d' where d': "fd_next d = (Inr p, d')" "pending d' = []" "\<not> fd_failed d'" "fd_max_frame_bytes d' = limit"
    by (rule next_frame [OF d(3,5)]) (use assms(2) d(4) in auto)
  let ?wk1 = "?wk\<lparr>wk_session := (wk_session ?wk)\<lparr>sn_decoder := d'\<rparr>,
    wk_stats := (wk_stats ?wk)\<lparr>vs_frames_decoded := vs_frames_decoded (wk_stats ?wk) + 1\<rparr>\<rparr>"
  show ?thesis
  proof (rule that [of ?wk1])
    show "undisturbed wk ?wk1" using d(1) by (simp add: undisturbed_def)
    show "idle limit (sn_decoder (wk_session ?wk1))" using d' by (simp add: idle_def)
    show "serve v opts (tns @ [tn]) wk =
      (if sn_handshake (wk_session wk) then request_turn v opts tn p ?wk1 else hello_turn opts tn p ?wk1)"
      using d(1) assms(3,6) d'(1) by (simp add: serve_append serve_turn_def undisturbed_def d(2) Let_def)
  qed
qed

section \<open>Replies of the daemon\<close>

definition reply_to :: "wire_request \<Rightarrow> wire_response \<Rightarrow> bool" where
  "reply_to rq r \<longleftrightarrow>
     ws_protocol_version r = kWireProtocolVersion \<and> ws_id r = wr_id rq \<and> ws_session_seq r = wr_session_seq rq \<and>
     (ws_payload r = [] \<or> ws_status r = StOk) \<and>
     ws_type r \<in> {MtErrorReply, reply_type_for (wr_type rq)}"

lemma reply_to_blank [simp]:
  "reply_to rq (blank_reply t rq s d b) \<longleftrightarrow> (b = [] \<or> s = StOk) \<and> t \<in> {MtErrorReply, reply_type_for (wr_type rq)}"
  by (simp add: reply_to_def blank_reply_def)

lemma handle_mutation_replies: "reply_to rq (fst (handle_mutation sx rq dm))"
  by (simp add: handle_mutation_def Let_def split: sum.split prod.split)

lemma handle_read_replies: "reply_to rq (handle_read v sx rq dm)"
  by (simp add: handle_read_def Let_def split: message_type.split sum.split)

lemma handle_replies: "reply_to rq (fst (handle v sx rq dm))"
  by (simp add: handle_def Let_def handle_mutation_replies handle_read_replies)

lemma reply_types: "t \<in> {MtErrorReply, reply_type_for u} \<Longrightarrow> named_type t \<and> message_type_is_reply t"
proof -
  let ?ts = "[MtErrorReply, MtStatusReply, MtSitesReply, MtPathsReply, MtGrantsReply, MtLedgerReply, MtDigestReply,
    MtSnapshotReply, MtShutdownReply, MtMutationReply]"
  assume "t \<in> {MtErrorReply, reply_type_for u}"
  then have "t \<in> set ?ts" by (auto simp: reply_type_for_def split: message_type.splits)
  moreover have "list_all (\<lambda>t. named_type t \<and> message_type_is_reply t) ?ts" by code_simp
  ultimately show ?thesis unfolding list_all_iff by blast
qed

text \<open>
  What the client relies on: whoever answers a request answers this request. The daemon keeps the
  contract, and so do the two answers the server gives in its place, for a repeated sequence
  number and for a reply that is too long.
\<close>

locale service =
  fixes answer :: "wire_request \<Rightarrow> wire_response"
  assumes answers: "reply_to rq (answer rq)"
begin

lemma answer_type: "named_type (ws_type (answer rq)) \<and> message_type_is_reply (ws_type (answer rq))"
  using answers [of rq] reply_types [of "ws_type (answer rq)" "wr_type rq"] by (simp add: reply_to_def)

lemma answer_matched:
  assumes "clean (ws_detail (answer rq))" and "length (ws_payload (answer rq)) \<le> max_bytes default_limits"
  shows "match_reply rq (encode_response (answer rq)) = Inr (answer rq)"
proof -
  have "response_fits default_limits (answer rq)"
    using assms answer_type [of rq] by (simp add: response_fits_def default_limits_def)
  then show ?thesis
    using answers [of rq] by (simp add: match_reply_def decode_response_def response_codec.whole_enc reply_to_def)
qed

end

interpretation handler: service "\<lambda>rq. fst (handle version sx rq dm)" for version sx dm
  by unfold_locales (rule handle_replies)

interpretation repeated: service duplicate_response
  by unfold_locales (simp add: reply_to_def duplicate_response_def plain_response_def)

interpretation oversize: service "\<lambda>rq. fallback_response (fst (handle version sx rq dm))" for version sx dm
proof
  show "reply_to rq (fallback_response (fst (handle version sx rq dm)))" for rq
    using handle_replies [of rq version sx dm] by (simp add: reply_to_def fallback_response_def plain_response_def)
qed

text \<open>
  C23: every reply of the daemon is well formed. Whatever the request and the state, the answer
  carries the current protocol version, a message type with a name that is a reply, and the
  identity and sequence number of the request; only successful replies carry a body.
\<close>

theorem daemon_reply_well_formed:
  "ws_protocol_version (fst (handle version sx rq dm)) = kWireProtocolVersion \<and>
   named_type (ws_type (fst (handle version sx rq dm))) \<and> message_type_is_reply (ws_type (fst (handle version sx rq dm))) \<and>
   ws_type (fst (handle version sx rq dm)) \<in> {MtErrorReply, reply_type_for (wr_type rq)} \<and>
   ws_id (fst (handle version sx rq dm)) = wr_id rq \<and> ws_session_seq (fst (handle version sx rq dm)) = wr_session_seq rq \<and>
   (ws_payload (fst (handle version sx rq dm)) = [] \<or> ws_status (fst (handle version sx rq dm)) = StOk)"
  using handler.answers [of rq version sx dm] handler.answer_type [of version sx rq dm] unfolding reply_to_def by blast

section \<open>Queries\<close>

lemma request_types:
  "message_type_is_request MtListSites \<and> message_type_is_request MtListPaths \<and> message_type_is_request MtListGrants \<and>
   message_type_is_request MtLedgerRequest"
  by code_simp

lemma ebind_never: "(\<And>x. f x \<noteq> Inl s) \<Longrightarrow> v \<noteq> Inl s \<Longrightarrow> ebind v f \<noteq> Inl s"
  by (cases v) simp_all

lemma checked_never: "checked_add a b \<noteq> Inl StOk" "checked_sub a b \<noteq> Inl StOk"
  by (simp_all add: checked_add_def checked_sub_def)

lemma ledger_never_ok: "ledger a p \<noteq> Inl StOk"
proof (cases "om_find p (au_paths a)")
  case (Some rec)
  show ?thesis
    unfolding ledger_def Let_def ledger_basis_def Some option.case if_distrib [of "\<lambda>x. x \<noteq> Inl StOk"]
    by (rule if_split [THEN iffD2], intro conjI impI ebind_never) (simp_all add: checked_never)
qed (simp add: ledger_def)

text \<open>
  C19: what a client reads is what the daemon holds. The daemon's replies to the list and ledger
  queries read back, through the client's decoders, as exactly the sites and paths of the
  authority, the grants the filter selects, and the ledger of the path, or the reason there is
  none; the records are well formed and the lists within the bound of the wire format.
\<close>

theorem queries_exact:
  assumes "\<forall>s \<in> set (sites (dm_authority dm)). restorable message_limits (OSite s)"
    and "\<forall>p \<in> set (paths (dm_authority dm)). restorable message_limits (OPath p)"
    and "\<forall>g \<in> set (grants (dm_authority dm)). restorable message_limits (OGrant g)"
    and "length (sites (dm_authority dm)) \<le> 65536" and "length (paths (dm_authority dm)) \<le> 65536"
    and "unat (lf_limit f) \<le> 65536"
  shows "read_sites (Inr (fst (handle version sx (client_request rid MtListSites [] cn) dm))) = Inr (sites (dm_authority dm)) \<and>
         read_paths (Inr (fst (handle version sx (client_request rid MtListPaths [] cn) dm))) = Inr (paths (dm_authority dm)) \<and>
         read_grants (Inr (fst (handle version sx (client_request rid MtListGrants (encode_list_filter f) cn) dm))) =
           Inr (filter_grants f (grants (dm_authority dm))) \<and>
         read_path_ledger (Inr (fst (handle version sx (client_request rid MtLedgerRequest (encode_id_body path) cn) dm))) =
           ledger (dm_authority dm) path"
proof -
  note handled = handle_def handle_read_def client_request_def is_mutation_def reply_type_for_def blank_reply_def
    accepted_def Let_def
  have filtered: "set (filter_grants f (grants (dm_authority dm))) \<subseteq> set (grants (dm_authority dm))"
    "length (filter_grants f (grants (dm_authority dm))) \<le> 65536"
    using assms(6) by (auto simp: filter_grants_def dest: in_set_takeD)
  have "read_sites (Inr (fst (handle version sx (client_request rid MtListSites [] cn) dm))) = Inr (sites (dm_authority dm))"
    using request_types record_list_roundtrip(1) [OF assms(1,4)] by (simp add: read_sites_def handled)
  moreover have "read_paths (Inr (fst (handle version sx (client_request rid MtListPaths [] cn) dm))) = Inr (paths (dm_authority dm))"
    using request_types record_list_roundtrip(2) [OF assms(2,5)] by (simp add: read_paths_def handled)
  moreover have "read_grants (Inr (fst (handle version sx (client_request rid MtListGrants (encode_list_filter f) cn) dm))) =
      Inr (filter_grants f (grants (dm_authority dm)))"
    using request_types record_list_roundtrip(3) [of "filter_grants f (grants (dm_authority dm))"] filtered assms(3,6)
    by (simp add: read_grants_def handled decode_list_filter_def list_filter_codec.whole_enc subset_iff)
  moreover have "read_path_ledger (Inr (fst (handle version sx (client_request rid MtLedgerRequest (encode_id_body path) cn) dm))) =
      ledger (dm_authority dm) path"
    using request_types ledger_never_ok [of "dm_authority dm" path]
    by (cases "ledger (dm_authority dm) path")
       (auto simp: read_path_ledger_def handled decode_id_body_def id_codec.whole_enc decode_ledger_report_def
          ledger_report_codec.whole_enc)
  ultimately show ?thesis by blast
qed

section \<open>A session between a client and the server\<close>

definition joined :: "server_options \<Rightarrow> worker \<Rightarrow> client \<Rightarrow> bool" where
  "joined opts wk cn \<longleftrightarrow>
     sn_open (wk_session wk) \<and> sn_handshake (wk_session wk) \<and>
     idle (vo_max_frame_bytes opts) (sn_decoder (wk_session wk)) \<and>
     cn_connected cn \<and> idle (unat (hr_max_frame_bytes (cn_hello cn))) (cn_decoder cn) \<and>
     unat (hr_max_frame_bytes (cn_hello cn)) \<le> vo_max_frame_bytes opts \<and>
     sn_last_sequence (wk_session wk) = cn_sequence cn"

text \<open>A reply that fits the bound both sides agreed on and whose text is well formed.\<close>

definition deliverable :: "client \<Rightarrow> wire_response \<Rightarrow> bool" where
  "deliverable cn r \<longleftrightarrow>
     length (encode_response r) \<le> unat (hr_max_frame_bytes (cn_hello cn)) \<and> clean (ws_detail r) \<and>
     length (ws_payload r) \<le> max_bytes default_limits"

definition sendable :: "client \<Rightarrow> wire_request \<Rightarrow> bool" where
  "sendable cn rq \<longleftrightarrow>
     named_type (wr_type rq) \<and> message_type_is_request (wr_type rq) \<and>
     length (encode_request rq) \<le> unat (hr_max_frame_bytes (cn_hello cn)) \<and>
     length (wr_payload rq) \<le> max_bytes default_limits"

lemma send_response_ok:
  assumes "length (encode_response r) \<le> vo_max_frame_bytes opts"
  obtains wk' where "send_response opts True r wk = (StOk, wk')" and "wk_sent wk' = wk_sent wk @ [encode_frame (encode_response r)]"
  using assms by (simp add: send_response_def Let_def)

lemma deliver_answers:
  assumes "handle v (tn_sx tn) rq (wk_daemon wk) = (r, dm)" and "tn_send_ok tn"
    and "length (encode_response r) \<le> vo_max_frame_bytes opts"
  shows "wk_sent (deliver v opts tn rq wk) = wk_sent wk @ [encode_frame (encode_response r)]"
    and "sn_open (wk_session (deliver v opts tn rq wk)) =
      (sn_open (wk_session wk) \<and> \<not> (wr_type rq = MtShutdownRequest \<and> ws_status r = StOk))"
    and "sn_decoder (wk_session (deliver v opts tn rq wk)) = sn_decoder (wk_session wk)"
proof -
  define wk1 where "wk1 = tally (\<lambda>st. st\<lparr>vs_requests_handled := vs_requests_handled st + 1\<rparr>)
    (wk\<lparr>wk_daemon := dm, wk_handled := wk_handled wk @ [rq]\<rparr>)"
  obtain wk2 where s: "send_response opts True r wk1 = (StOk, wk2)"
    "wk_sent wk2 = wk_sent wk1 @ [encode_frame (encode_response r)]"
    by (rule send_response_ok [OF assms(3)])
  have "wk_session wk1 = wk_session wk" "wk_sent wk1 = wk_sent wk" by (simp_all add: wk1_def)
  then have w: "wk_session wk2 = wk_session wk" "wk_sent wk1 = wk_sent wk"
    using send_response_frame(1) [of opts True r wk1] s(1) by simp_all
  show "wk_sent (deliver v opts tn rq wk) = wk_sent wk @ [encode_frame (encode_response r)]"
    "sn_open (wk_session (deliver v opts tn rq wk)) =
      (sn_open (wk_session wk) \<and> \<not> (wr_type rq = MtShutdownRequest \<and> ws_status r = StOk))"
    "sn_decoder (wk_session (deliver v opts tn rq wk)) = sn_decoder (wk_session wk)"
    using assms(1,2) s w by (simp_all add: deliver_def wk1_def [symmetric] hang_up_def)
qed

text \<open>The reply of the daemon, back through the client's decoder and its checks.\<close>

context service
begin

lemma client_reads_answer:
  assumes "idle (unat (hr_max_frame_bytes (cn_hello cn))) (cn_decoder cn)" and "cn_connected cn"
    and "length (encode_request rq) \<le> unat (hr_max_frame_bytes (cn_hello cn))" and "rq = client_request rid t body cn"
    and "deliverable cn (answer rq)" and "concat downs = encode_frame (encode_response (answer rq))" and "[] \<notin> set downs"
  obtains d where "idle (unat (hr_max_frame_bytes (cn_hello cn))) d"
    and "round_trip rid True (map PumpReceived downs) t body cn =
      (Some (encode_frame (encode_request rq)), Some (Inr (answer rq)), cn\<lparr>cn_sequence := cn_sequence cn + 1, cn_decoder := d\<rparr>)"
proof -
  let ?n = "unat (hr_max_frame_bytes (cn_hello cn))" and ?r = "answer rq"
  have "?n < 2 ^ 32" using unsigned_less [of "hr_max_frame_bytes (cn_hello cn)"] by simp
  then have fr: "frameable ?n (encode_response ?r)" using assms(5) by (simp add: frameable_def deliverable_def)
  have "partway ?n (encode_response ?r) (concat downs) (cn_decoder cn)"
    using assms(1,6) by (simp add: partway_def idle_def frame_nonempty)
  then obtain d where d: "await_frame (map PumpReceived downs) (cn_decoder cn) = (Some (Inr (encode_response ?r)), d)"
    "idle ?n d"
    using await_one [OF _ fr assms(7)] by metis
  have "match_reply rq (encode_response ?r) = Inr ?r"
    using assms(5) by (intro answer_matched) (simp_all add: deliverable_def)
  with d assms(2,3,4) show ?thesis by (intro that [of d]) (simp_all add: round_trip_def Let_def)
qed

end

text \<open>
  C15: every call whose reply the client can take is answered. Let a client and a server share a
  session, the client send a request that fits the negotiated bound, and the daemon's reply to it
  be well-formed text within the client's bound, which the server does not ensure by itself. Then
  however the request is cut into chunks on its way, once the chunks are in and the server, not
  being stopped, takes one more turn, the daemon has processed exactly this request and exactly
  one frame went out; and however that frame is cut on its way back, the call returns the daemon's
  reply and both sides are ready for the next call, unless the call was a shutdown that was
  accepted, after which the server hangs up.
\<close>

theorem call_answered:
  assumes "joined opts wk cn" and "rq = client_request rid t body cn" and "sendable cn rq" and "cn_sequence cn + 1 \<noteq> 0"
    and "concat ups = encode_frame (encode_request rq)" and "arriving tns ups" and "\<not> tn_stopping tn" and "tn_send_ok tn"
    and "handle version (tn_sx tn) rq (wk_daemon wk) = (response, dm)" and "deliverable cn response"
    and "concat downs = encode_frame (encode_response response)" and "[] \<notin> set downs"
  shows "wk_daemon (serve version opts (tns @ [tn]) wk) = dm \<and>
         wk_handled (serve version opts (tns @ [tn]) wk) = wk_handled wk @ [rq] \<and>
         wk_sent (serve version opts (tns @ [tn]) wk) = wk_sent wk @ [concat downs] \<and>
         (\<exists>cn'. round_trip rid True (map PumpReceived downs) t body cn = (Some (concat ups), Some (Inr response), cn') \<and>
            (t = MtShutdownRequest \<and> ws_status response = StOk \<or> joined opts (serve version opts (tns @ [tn]) wk) cn'))"
proof -
  let ?n = "unat (hr_max_frame_bytes (cn_hello cn))" and ?p = "encode_request rq"
  have j: "sn_open (wk_session wk)" "sn_handshake (wk_session wk)" "idle (vo_max_frame_bytes opts) (sn_decoder (wk_session wk))"
    "cn_connected cn" "idle ?n (cn_decoder cn)" "?n \<le> vo_max_frame_bytes opts" "sn_last_sequence (wk_session wk) = cn_sequence cn"
    using assms(1) by (simp_all add: joined_def)
  have len: "length ?p \<le> ?n" using assms(3) by (simp add: sendable_def)
  have "?n < 2 ^ 32" using unsigned_less [of "hr_max_frame_bytes (cn_hello cn)"] by simp
  then have fr: "frameable (vo_max_frame_bytes opts) ?p" using len j(6) by (simp add: frameable_def)
  obtain wk1 where wk1: "undisturbed wk wk1" "idle (vo_max_frame_bytes opts) (sn_decoder (wk_session wk1))"
    "serve version opts (tns @ [tn]) wk = request_turn version opts tn ?p wk1"
    using serve_frame [OF j(3) fr j(1) assms(5,6,7)] j(2) by metis
  have "request_fits default_limits rq" using assms(3) by (simp add: request_fits_def sendable_def default_limits_def)
  then have dec: "decode_request default_limits ?p = Inr rq"
    by (simp add: decode_request_def request_codec.whole_enc)
  have seq: "wr_session_seq rq = cn_sequence cn + 1" "wr_type rq = t" by (simp_all add: assms(2) client_request_def)
  have fresh: "\<not> cn_sequence cn + 1 \<le> cn_sequence cn"
    using unatSuc [of "cn_sequence cn"] assms(4) by (simp add: word_le_nat_alt add.commute)
  define wk2 where "wk2 = note_sequence (cn_sequence cn + 1) wk1"
  have served: "serve version opts (tns @ [tn]) wk = deliver version opts tn rq wk2"
    using fresh wk1 j(7) by (simp add: wk2_def request_turn_def dec seq undisturbed_def)
  have wk2: "wk_daemon wk2 = wk_daemon wk" "wk_sent wk2 = wk_sent wk" "wk_handled wk2 = wk_handled wk"
    "wk_session wk2 = (wk_session wk1)\<lparr>sn_last_sequence := cn_sequence cn + 1\<rparr>"
    using wk1(1) by (simp_all add: wk2_def undisturbed_def)
  have handled: "handle version (tn_sx tn) rq (wk_daemon wk2) = (response, dm)" using assms(9) wk2(1) by simp
  have fits: "length (encode_response response) \<le> vo_max_frame_bytes opts"
    using assms(10) j(6) by (simp add: deliverable_def)
  note d = deliver_answers [OF handled assms(8) fits]
  have "response = fst (handle version (tn_sx tn) rq (wk_daemon wk))" using assms(9) by simp
  then obtain dc where dc: "idle ?n dc" "round_trip rid True (map PumpReceived downs) t body cn =
      (Some (encode_frame ?p), Some (Inr response), cn\<lparr>cn_sequence := cn_sequence cn + 1, cn_decoder := dc\<rparr>)"
    using handler.client_reads_answer [OF j(5,4) len assms(2)] assms(10,11,12) by metis
  have "joined opts (serve version opts (tns @ [tn]) wk) (cn\<lparr>cn_sequence := cn_sequence cn + 1, cn_decoder := dc\<rparr>)"
    if "\<not> (t = MtShutdownRequest \<and> ws_status response = StOk)"
    unfolding joined_def served d using that j wk1 wk2 dc(1) seq by (auto simp: undisturbed_def)
  moreover have "wk_sent (serve version opts (tns @ [tn]) wk) = wk_sent wk @ [concat downs]"
    by (simp add: served d(1) wk2(2) assms(11))
  moreover have "wk_daemon (serve version opts (tns @ [tn]) wk) = dm"
    "wk_handled (serve version opts (tns @ [tn]) wk) = wk_handled wk @ [rq]"
    using handled by (simp_all add: served wk2(3))
  ultimately show ?thesis using dc(2) assms(5) by auto
qed

section \<open>The handshake\<close>

lemma hello_request_length: "length (encode_hello_request v) = 26 + length (hq_client_kind v)"
  by (simp add: encode_hello_request_def)

lemma hello_reply_length: "length (encode_hello_reply v) = 53"
  by (simp add: encode_hello_reply_def w_enum_def)

definition hello_ack :: "hello_reply \<Rightarrow> wire_response" where
  "hello_ack reply = plain_response\<lparr>ws_type := MtHelloAck, ws_payload := encode_hello_reply reply\<rparr>"

lemma hello_ack_length: "length (encode_response (hello_ack reply)) = 90"
  by (simp add: hello_ack_def encode_response_def plain_response_def hello_reply_length w_enum_def)

lemma accept_hello_ack:
  assumes "hr_protocol_version reply = kWireProtocolVersion"
  shows "accept_hello (encode_response (hello_ack reply)) = Inr reply"
proof -
  have types: "named_type MtHelloAck \<and> message_type_is_reply MtHelloAck" by code_simp
  have "response_fits default_limits (hello_ack reply)"
    using types by (simp add: response_fits_def hello_ack_def plain_response_def default_limits_def hello_reply_length clean_def
        is_valid_utf8_def)
  then show ?thesis
    using assms by (simp add: accept_hello_def decode_response_def response_codec.whole_enc)
      (simp add: hello_ack_def plain_response_def decode_hello_reply_def hello_reply_codec.whole_enc)
qed

lemma hello_turn_answers:
  assumes "hello = client_hello nonce kind max_frame" and "clean kind"
    and "4096 \<le> max_frame" and "max_frame \<le> kAbsoluteMaxFrameBytes" and "4096 \<le> vo_max_frame_bytes opts" and "tn_send_ok tn"
  obtains wk' where "hello_turn opts tn (encode_hello_request hello) wk = wk'"
    and "wk_session wk' = (wk_session wk)\<lparr>sn_handshake := True\<rparr>" and "wk_daemon wk' = wk_daemon wk"
    and "wk_handled wk' = wk_handled wk"
    and "wk_sent wk' = wk_sent wk @
      [encode_frame (encode_response (hello_ack (hello_answer opts (tn_session_id tn) hello (wk_daemon wk))))]"
proof -
  have dec: "decode_hello_request (encode_hello_request hello) = Inr hello"
    using assms(1,2) by (simp add: decode_hello_request_def hello_request_codec.whole_enc client_hello_def)
  have m: "hq_protocol_version hello = kWireProtocolVersion" "unat (hq_max_frame_bytes hello) = max_frame"
    using assms(1,4) by (simp_all add: client_hello_def kAbsoluteMaxFrameBytes_def unat_of_nat)
  let ?ack = "hello_ack (hello_answer opts (tn_session_id tn) hello (wk_daemon wk))"
  have "length (encode_response ?ack) \<le> vo_max_frame_bytes opts" using assms(5) by (simp add: hello_ack_length)
  then obtain wk1 where wk1: "send_response opts True ?ack wk = (StOk, wk1)"
    "wk_sent wk1 = wk_sent wk @ [encode_frame (encode_response ?ack)]"
    by (rule send_response_ok)
  have f: "wk_session wk1 = wk_session wk" "wk_daemon wk1 = wk_daemon wk" "wk_handled wk1 = wk_handled wk"
    using send_response_frame [of opts True ?ack wk] wk1(1) by simp_all
  show ?thesis
    by (rule that [OF refl]) (use assms(3,4,6) f wk1 in \<open>simp_all add: hello_turn_def dec m flip: hello_ack_def\<close>)
qed

text \<open>
  C16: a client that dials a server is joined to it. Let both frame bounds be at least 4096 bytes
  and the client's at most the absolute bound, and let the hello fit the server's. When it has
  arrived in whatever chunks and the server takes one more turn, the server has sent one frame and
  not touched the daemon; and whatever chunks that frame comes back in, the client connects,
  holding the smaller of the two frame bounds, and the session is ready for calls.
\<close>

theorem handshake_joins:
  assumes "hello = client_hello nonce kind max_frame" and "clean kind" and "4096 \<le> max_frame"
    and "max_frame \<le> kAbsoluteMaxFrameBytes" and "4096 \<le> vo_max_frame_bytes opts"
    and "length (encode_hello_request hello) \<le> vo_max_frame_bytes opts"
    and "wk_session wk = new_session opts now" and "concat ups = hello_frame nonce kind max_frame"
    and "arriving tns ups" and "\<not> tn_stopping tn" and "tn_send_ok tn"
    and "dl_transport dl = StOk" and "dl_port dl \<noteq> 0" and "dl_connect dl = StOk" and "dl_timeouts dl = StOk"
    and "dl_hello_sent dl" and "[] \<notin> set downs"
    and "concat downs = encode_frame (encode_response (hello_ack (hello_answer opts (tn_session_id tn) hello (wk_daemon wk))))"
  shows "wk_sent (serve version opts (tns @ [tn]) wk) = wk_sent wk @ [concat downs] \<and>
         wk_daemon (serve version opts (tns @ [tn]) wk) = wk_daemon wk \<and>
         wk_handled (serve version opts (tns @ [tn]) wk) = wk_handled wk \<and>
         (\<exists>cn. client_connect dl max_frame (map PumpReceived downs) = Some (Inr cn) \<and>
            unat (hr_max_frame_bytes (cn_hello cn)) = min (vo_max_frame_bytes opts) max_frame \<and>
            joined opts (serve version opts (tns @ [tn]) wk) cn)"
proof -
  let ?p = "encode_hello_request hello" and ?wk = "serve version opts (tns @ [tn]) wk"
  have "length kind \<le> 4096" by (rule clean_length [OF assms(2)])
  then have fr: "frameable (vo_max_frame_bytes opts) ?p"
    using assms(1,6) by (simp add: frameable_def hello_request_length client_hello_def)
  have new: "idle (vo_max_frame_bytes opts) (sn_decoder (wk_session wk))" "sn_open (wk_session wk)"
    "\<not> sn_handshake (wk_session wk)" "sn_last_sequence (wk_session wk) = 0"
    by (simp_all add: assms(7) new_session_def)
  have up: "concat ups = encode_frame ?p" by (simp add: assms(1,8) hello_frame_def)
  obtain wk1 where wk1: "undisturbed wk wk1" "idle (vo_max_frame_bytes opts) (sn_decoder (wk_session wk1))"
    "?wk = hello_turn opts tn ?p wk1"
    using serve_frame [OF new(1) fr new(2) up assms(9,10)] new(3) by metis
  let ?reply = "hello_answer opts (tn_session_id tn) hello (wk_daemon wk1)"
  obtain wk2 where "hello_turn opts tn ?p wk1 = wk2" and wk2: "wk_session wk2 = (wk_session wk1)\<lparr>sn_handshake := True\<rparr>"
    "wk_daemon wk2 = wk_daemon wk1" "wk_handled wk2 = wk_handled wk1"
    "wk_sent wk2 = wk_sent wk1 @ [encode_frame (encode_response (hello_ack ?reply))]"
    by (rule hello_turn_answers [OF assms(1-5,11)])
  then have served: "?wk = wk2" using wk1(3) by simp
  have down: "concat downs = encode_frame (encode_response (hello_ack ?reply))"
    using assms(18) wk1(1) by (simp add: undisturbed_def)
  have fr': "frameable max_frame (encode_response (hello_ack ?reply))" using assms(3) by (simp add: frameable_def hello_ack_length)
  have "partway max_frame (encode_response (hello_ack ?reply)) (concat downs) (new_decoder max_frame)"
    using down idle_new [of max_frame] by (simp add: partway_def idle_def frame_nonempty)
  then obtain d where aw: "await_frame (map PumpReceived downs) (new_decoder max_frame) =
      (Some (Inr (encode_response (hello_ack ?reply))), d)"
    using await_one [OF _ fr' assms(17)] by metis
  let ?cn = "\<lparr>cn_connected = True, cn_decoder = new_decoder (unat (hr_max_frame_bytes ?reply)), cn_hello = ?reply, cn_sequence = 0\<rparr>"
  have "hr_protocol_version ?reply = kWireProtocolVersion" by (simp add: hello_answer_def)
  then have con: "client_connect dl max_frame (map PumpReceived downs) = Some (Inr ?cn)"
    using assms(12-16) by (simp add: client_connect_def aw accept_hello_ack)
  have bound: "unat (hr_max_frame_bytes ?reply) = min (vo_max_frame_bytes opts) max_frame"
    using assms(1,4) by (simp add: hello_answer_def client_hello_def kAbsoluteMaxFrameBytes_def unat_of_nat min_def)
  have "joined opts ?wk ?cn"
    using wk1(1,2) wk2(1) new bound by (simp add: served joined_def undisturbed_def)
  with con bound served wk1(1) wk2 down show ?thesis by (auto simp: undisturbed_def)
qed

section \<open>An example session\<close>

definition demo_server :: server_options where
  "demo_server =
     \<lparr>vo_max_connections = 4, vo_max_frame_bytes = 8192, vo_io_timeout_ms = 1000, vo_send_timeout_ms = 1000,
      vo_tcp_nodelay = True\<rparr>"

definition demo_turn :: "io_event \<Rightarrow> turn" where
  "demo_turn io =
     (let fs = \<lparr>fs_ok = \<lambda>_. True, fs_short = 0\<rparr>
      in \<lparr>tn_stopping = False, tn_stopping_late = False, tn_io = io, tn_now = 5, tn_send_ok = True,
          tn_session_id = demo_inc, tn_detail = [],
          tn_sx = \<lparr>sx_now = 5, sx_random = demo_inc, sx_store_id = demo_inc, sx_detail = [], sx_intent_fs = fs, sx_commit_fs = fs,
                   sx_compact_fs = fs\<rparr>\<rparr>)"

definition cut :: "byte list \<Rightarrow> byte list list" where
  "cut bytes = [take 5 bytes, drop 5 bytes]"

lemma cut_frame: "concat (cut (encode_frame p)) = encode_frame p" "[] \<notin> set (cut (encode_frame p))"
proof -
  have "length (take 5 (encode_frame p)) = 5" "length (drop 5 (encode_frame p)) = 11 + length p" by simp_all
  then show "[] \<notin> set (cut (encode_frame p))" by (auto simp: cut_def simp del: length_take length_drop)
  show "concat (cut (encode_frame p)) = encode_frame p" by (simp add: cut_def)
qed

lemma demo_turn_fields [simp]:
  "\<not> tn_stopping (demo_turn io)" "tn_send_ok (demo_turn io)" "tn_io (demo_turn io) = io" "sx_detail (tn_sx (demo_turn io)) = []"
  by (simp_all add: demo_turn_def Let_def)

lemma demo_arriving: "[] \<notin> set cs \<Longrightarrow> arriving (map (\<lambda>c. demo_turn (IoReceived c)) cs) cs"
  by (simp add: arriving_def)

definition demo_worker :: "daemon \<Rightarrow> bool \<Rightarrow> worker" where
  "demo_worker dm handshake =
     \<lparr>wk_session = (new_session demo_server 5)\<lparr>sn_handshake := handshake\<rparr>, wk_daemon = dm, wk_stats = zero_stats,
      wk_sent = [], wk_handled = []\<rparr>"

definition demo_client :: "daemon \<Rightarrow> client" where
  "demo_client dm =
     \<lparr>cn_connected = True, cn_decoder = new_decoder 4096,
      cn_hello = hello_answer demo_server demo_inc (client_hello demo_inc ''cli'' 4096) dm, cn_sequence = 0\<rparr>"

lemma demo_joined: "joined demo_server (demo_worker dm True) (demo_client dm)"
  by (simp add: joined_def demo_worker_def demo_client_def demo_server_def new_session_def hello_answer_def client_hello_def)

theorem handshake_joins_witness:
  "\<forall>version dm. \<exists>downs cn.
     wk_sent (serve version demo_server
       (map (\<lambda>c. demo_turn (IoReceived c)) (cut (hello_frame demo_inc ''cli'' 4096)) @ [demo_turn IoQuiet])
       (demo_worker dm False)) = [concat downs] \<and>
     client_connect \<lparr>dl_transport = StOk, dl_port = 7, dl_connect = StOk, dl_timeouts = StOk, dl_hello_sent = True\<rparr>
       4096 (map PumpReceived downs) = Some (Inr cn) \<and>
     unat (hr_max_frame_bytes (cn_hello cn)) = 4096"
proof (intro allI)
  fix version :: "u32 \<times> u32 \<times> u32" and dm
  let ?hello = "client_hello demo_inc ''cli'' 4096"
  let ?f = "encode_frame (encode_response (hello_ack (hello_answer demo_server (tn_session_id (demo_turn IoQuiet)) ?hello dm)))"
  let ?wk = "demo_worker dm False" and ?ups = "cut (hello_frame demo_inc ''cli'' 4096)"
  let ?dl = "\<lparr>dl_transport = StOk, dl_port = 7, dl_connect = StOk, dl_timeouts = StOk, dl_hello_sent = True\<rparr>"
  have kind: "clean ''cli''" by (simp add: clean_def is_valid_utf8_def byte_of_char_def)
  have opts: "vo_max_frame_bytes demo_server = 8192" by (simp add: demo_server_def)
  have wk: "wk_session ?wk = new_session demo_server 5" "wk_daemon ?wk = dm" "wk_sent ?wk = []"
    by (simp_all add: demo_worker_def new_session_def)
  have ups: "concat ?ups = hello_frame demo_inc ''cli'' 4096" "[] \<notin> set ?ups" by (simp_all add: hello_frame_def cut_frame)
  have len: "length (encode_hello_request ?hello) \<le> 8192" by (simp add: hello_request_length client_hello_def)
  have "wk_sent (serve version demo_server (map (\<lambda>c. demo_turn (IoReceived c)) ?ups @ [demo_turn IoQuiet]) ?wk) =
      wk_sent ?wk @ [concat (cut ?f)] \<and> wk_daemon (serve version demo_server (map (\<lambda>c. demo_turn (IoReceived c)) ?ups @ [demo_turn IoQuiet]) ?wk) = wk_daemon ?wk \<and>
      wk_handled (serve version demo_server (map (\<lambda>c. demo_turn (IoReceived c)) ?ups @ [demo_turn IoQuiet]) ?wk) = wk_handled ?wk \<and>
      (\<exists>cn. client_connect ?dl 4096 (map PumpReceived (cut ?f)) = Some (Inr cn) \<and>
        unat (hr_max_frame_bytes (cn_hello cn)) = min (vo_max_frame_bytes demo_server) 4096 \<and>
        joined demo_server (serve version demo_server (map (\<lambda>c. demo_turn (IoReceived c)) ?ups @ [demo_turn IoQuiet]) ?wk) cn)"
    by (rule handshake_joins [OF refl kind _ _ _ _ wk(1) ups(1) demo_arriving [OF ups(2)]])
       (use len in \<open>simp_all add: opts kAbsoluteMaxFrameBytes_def cut_frame wk(2)\<close>)
  then show "\<exists>downs cn.
     wk_sent (serve version demo_server (map (\<lambda>c. demo_turn (IoReceived c)) ?ups @ [demo_turn IoQuiet]) ?wk) = [concat downs] \<and>
     client_connect ?dl 4096 (map PumpReceived downs) = Some (Inr cn) \<and> unat (hr_max_frame_bytes (cn_hello cn)) = 4096"
    by (auto simp: opts wk(3) intro!: exI [of _ "cut ?f"])
qed

lemma demo_list_sites:
  "handle version sx (client_request rid MtListSites [] cn) (dm\<lparr>dm_authority := demo0\<rparr>) =
     (blank_reply MtSitesReply (client_request rid MtListSites [] cn) StOk [] (encode_site_list []), dm\<lparr>dm_authority := demo0\<rparr>)"
proof -
  have "message_type_is_request MtListSites" by code_simp
  moreover have "sites demo0 = []" by (simp add: demo0_def new_authority_def sites_def om_vals_def)
  ultimately show ?thesis
    by (simp add: handle_def handle_read_def client_request_def is_mutation_def reply_type_for_def Let_def)
qed

theorem call_answered_witness:
  "\<forall>dm. \<exists>cn'.
     round_trip demo_inc True
       (map PumpReceived (cut (encode_frame (encode_response (blank_reply MtSitesReply
          (client_request demo_inc MtListSites [] (demo_client (dm\<lparr>dm_authority := demo0\<rparr>))) StOk [] (encode_site_list []))))))
       MtListSites [] (demo_client (dm\<lparr>dm_authority := demo0\<rparr>)) =
     (Some (encode_frame (encode_request (client_request demo_inc MtListSites [] (demo_client (dm\<lparr>dm_authority := demo0\<rparr>))))),
      Some (Inr (blank_reply MtSitesReply
        (client_request demo_inc MtListSites [] (demo_client (dm\<lparr>dm_authority := demo0\<rparr>))) StOk [] (encode_site_list []))), cn')"
proof (intro allI)
  fix dm :: daemon
  let ?dm = "dm\<lparr>dm_authority := demo0\<rparr>"
  let ?cn = "demo_client ?dm"
  let ?rq = "client_request demo_inc MtListSites [] ?cn"
  let ?r = "blank_reply MtSitesReply ?rq StOk [] (encode_site_list [])"
  let ?up = "encode_frame (encode_request ?rq)"
  have hello: "unat (hr_max_frame_bytes (cn_hello ?cn)) = 4096"
    by (simp add: demo_client_def hello_answer_def client_hello_def demo_server_def)
  have types: "named_type MtListSites \<and> message_type_is_request MtListSites" by code_simp
  have s: "sendable ?cn ?rq"
    using types by (simp add: sendable_def hello) (simp add: client_request_def encode_request_def default_limits_def)
  have d: "deliverable ?cn ?r"
    by (simp add: deliverable_def hello)
       (simp add: blank_reply_def encode_response_def w_enum_def encode_site_list_def encode_record_list_def w_list_def clean_def
          is_valid_utf8_def default_limits_def)
  have n: "cn_sequence ?cn + 1 \<noteq> 0" by (simp add: demo_client_def)
  have h: "handle (1, 0, 0) (tn_sx (demo_turn IoQuiet)) ?rq (wk_daemon (demo_worker ?dm True)) = (?r, ?dm)"
    by (simp add: demo_worker_def demo_list_sites)
  show "\<exists>cn'. round_trip demo_inc True (map PumpReceived (cut (encode_frame (encode_response ?r)))) MtListSites [] ?cn =
      (Some ?up, Some (Inr ?r), cn')"
    using call_answered [OF demo_joined refl s n cut_frame(1) demo_arriving [OF cut_frame(2)] demo_turn_fields(1,2) h d
        cut_frame(1) cut_frame(2)]
    by (auto simp: cut_frame(1))
qed

lemma demo3_tables:
  "sites demo3 = [demo_site_record 1, demo_site_record 2]" "paths demo3 = [demo_path_record]" "grants demo3 = []"
  by (simp_all add: demo3_def demo2_def demo1_def demo0_def new_authority_def sites_def paths_def grants_def om_vals_def Let_def)

lemma demo_restorable:
  "restorable message_limits (OSite (demo_site_record n))" "restorable message_limits (OPath demo_path_record)"
  by (simp_all add: restorable_def message_string demo_site_record_def demo_path_record_def clean_def clean_bounded_def
      is_valid_utf8_def byte_of_char_def)

theorem queries_exact_witness:
  "\<forall>dm :: daemon. \<forall>cn :: client.
     read_sites (Inr (fst (handle (1, 0, 0) (tn_sx (demo_turn IoQuiet))
       (client_request demo_inc MtListSites [] cn) (dm\<lparr>dm_authority := demo3\<rparr>)))) = Inr [demo_site_record 1, demo_site_record 2] \<and>
     read_paths (Inr (fst (handle (1, 0, 0) (tn_sx (demo_turn IoQuiet))
       (client_request demo_inc MtListPaths [] cn) (dm\<lparr>dm_authority := demo3\<rparr>)))) = Inr [demo_path_record]"
proof (intro allI)
  fix dm :: daemon and cn :: client
  let ?f = "\<lparr>lf_include_terminal = True, lf_limit = 10, lf_path = nil_id, lf_site = nil_id\<rparr>"
  show "read_sites (Inr (fst (handle (1, 0, 0) (tn_sx (demo_turn IoQuiet))
       (client_request demo_inc MtListSites [] cn) (dm\<lparr>dm_authority := demo3\<rparr>)))) = Inr [demo_site_record 1, demo_site_record 2] \<and>
     read_paths (Inr (fst (handle (1, 0, 0) (tn_sx (demo_turn IoQuiet))
       (client_request demo_inc MtListPaths [] cn) (dm\<lparr>dm_authority := demo3\<rparr>)))) = Inr [demo_path_record]"
    using queries_exact [of "dm\<lparr>dm_authority := demo3\<rparr>" ?f "(1, 0, 0)" "tn_sx (demo_turn IoQuiet)" demo_inc cn]
    by (simp add: demo3_tables demo_restorable)
qed

end
