(* ===== verification/Connections.thy ===== *)
theory Connections
  imports Server
begin

text \<open>
  The registry of connections: how the accept loop and the workers account for the slots of a
  server, and what a stopped and restarted server makes of them.
\<close>

section \<open>Runs of the accept loop\<close>

text \<open>The accept loop and the workers interleave; a worker takes part by finishing.\<close>

datatype fabric_event = FeAccept accept_event | FeDone u64

fun fabric_step :: "fabric_event \<Rightarrow> accept_loop \<Rightarrow> accept_loop" where
  "fabric_step (FeAccept ev) al = accept_turn ev al"
| "fabric_step (FeDone i) al = al\<lparr>al_server := worker_done i (al_server al)\<rparr>"

definition accept_loop_of :: "server \<Rightarrow> accept_loop" where
  "accept_loop_of sv = \<lparr>al_server = sv, al_errors = 0, al_live = True, al_refusals = []\<rparr>"

definition fabric_run :: "server_options \<Rightarrow> fabric_event list \<Rightarrow> accept_loop" where
  "fabric_run opts events = fold fabric_step events (accept_loop_of (snd (server_start StOk (new_server opts))))"

section \<open>Slots\<close>

definition slots_ok :: "server_options \<Rightarrow> server \<Rightarrow> bool" where
  "slots_ok opts sv \<longleftrightarrow>
     sv_options sv = opts \<and> \<not> sv_stopping sv \<and> unat (vs_connections_active (sv_stats sv)) = length (sv_connections sv) \<and>
     length (sv_connections sv) \<le> unat (vo_max_connections opts)"

lemma reap_frame [simp]: "sv_options (reap_finished sv) = sv_options sv" "sv_stopping (reap_finished sv) = sv_stopping sv"
  by (simp_all add: reap_finished_def Let_def)

lemma reap_slots: "slots_ok opts sv \<Longrightarrow> slots_ok opts (reap_finished sv)"
proof -
  assume ok: "slots_ok opts sv"
  let ?n = "length (filter co_done (sv_connections sv))" and ?a = "vs_connections_active (sv_stats sv)"
  have sum: "?n + length (filter (\<lambda>c. \<not> co_done c) (sv_connections sv)) = length (sv_connections sv)"
    by (rule sum_length_filter_compl)
  have a: "unat ?a = length (sv_connections sv)" using ok by (simp add: slots_ok_def)
  then have le: "?n \<le> unat ?a" by simp
  moreover have "unat ?a < 2 ^ 64" using unsigned_less [of ?a] by simp
  ultimately have "unat (of_nat ?n :: u64) = ?n" by (simp add: unat_of_nat)
  then have "unat (?a - of_nat ?n) = unat ?a - ?n" using le by (simp add: unat_sub word_le_nat_alt)
  with ok sum a show ?thesis by (simp add: slots_ok_def reap_finished_def Let_def)
qed

lemma admit_slots: "slots_ok opts sv \<Longrightarrow> slots_ok opts (snd (admit sv))"
proof -
  assume ok: "slots_ok opts sv"
  let ?a = "vs_connections_active (sv_stats sv)"
  have "unat (?a + 1) = Suc (unat ?a)" if "?a < vo_max_connections opts"
  proof -
    have "unat (vo_max_connections opts) < 2 ^ 64" using unsigned_less [of "vo_max_connections opts"] by simp
    with that have "Suc (unat ?a) < 2 ^ 64" by (simp add: word_less_nat_alt)
    then show ?thesis by (simp add: unat_word_ariths)
  qed
  with ok show ?thesis by (auto simp: slots_ok_def admit_def Let_def not_le word_less_nat_alt)
qed

lemma step_slots:
  assumes "slots_ok opts (al_server al)"
  shows "slots_ok opts (al_server (fabric_step ev al))"
proof (cases ev)
  case (FeAccept x)
  then show ?thesis
    using assms admit_slots [OF reap_slots [OF assms]]
    by (cases x) (auto simp: accept_turn_def Let_def split: prod.split)
next
  case (FeDone i)
  with assms show ?thesis by (simp add: slots_ok_def worker_done_def)
qed

lemma run_slots: "slots_ok opts (al_server (fabric_run opts events))"
proof -
  have "slots_ok opts (al_server al) \<Longrightarrow> slots_ok opts (al_server (fold fabric_step events al))" for al
    by (induction events arbitrary: al) (simp_all add: step_slots del: fabric_step.simps)
  moreover have "slots_ok opts (snd (server_start StOk (new_server opts)))"
    by (simp add: slots_ok_def server_start_def new_server_def zero_stats_def)
  ultimately show ?thesis by (simp add: fabric_run_def accept_loop_of_def)
qed

text \<open>
  C24: the connection bound holds and refuses no one without need. However accepting, failing
  accepts and finishing workers interleave after the first start of a server, it never has more
  connections than its bound, its count of active connections is the size of its registry, and a
  peer is turned away, with one refusal frame, exactly when as many workers as the bound allows
  are still running.
\<close>

theorem connection_bound:
  "unat (vs_connections_active (sv_stats (al_server (fabric_run opts events)))) =
     length (sv_connections (al_server (fabric_run opts events))) \<and>
   length (sv_connections (al_server (fabric_run opts events))) \<le> unat (vo_max_connections opts) \<and>
   al_refusals (accept_turn AcAccepted (fabric_run opts events)) =
     al_refusals (fabric_run opts events) @
     (if al_live (fabric_run opts events) \<and>
         length (filter (\<lambda>c. \<not> co_done c) (sv_connections (al_server (fabric_run opts events)))) = unat (vo_max_connections opts)
      then [encode_frame (encode_response refusal)] else [])"
proof -
  let ?al = "fabric_run opts events"
  let ?sv = "reap_finished (al_server ?al)"
  have ok: "slots_ok opts (al_server ?al)" by (rule run_slots)
  have r: "slots_ok opts ?sv" by (rule reap_slots [OF ok])
  have live: "sv_connections ?sv = filter (\<lambda>c. \<not> co_done c) (sv_connections (al_server ?al))"
    by (simp add: reap_finished_def Let_def)
  have "vs_connections_active (sv_stats ?sv) \<ge> vo_max_connections opts \<longleftrightarrow>
      length (filter (\<lambda>c. \<not> co_done c) (sv_connections (al_server ?al))) = unat (vo_max_connections opts)"
    using r live by (auto simp: slots_ok_def word_le_nat_alt)
  moreover have "sv_options ?sv = opts" using r by (simp add: slots_ok_def)
  ultimately have "fst (admit ?sv) =
      (if length (filter (\<lambda>c. \<not> co_done c) (sv_connections (al_server ?al))) = unat (vo_max_connections opts)
       then [encode_frame (encode_response refusal)] else [])"
    by (simp add: admit_def Let_def)
  then show ?thesis using ok by (auto simp: slots_ok_def accept_turn_def split: prod.split)
qed

section \<open>Stopping and starting again\<close>

text \<open>A server all of whose slots are counted as taken while nobody is connected.\<close>

definition starved :: "server \<Rightarrow> bool" where
  "starved sv \<longleftrightarrow>
     sv_connections sv = [] \<and> vs_connections_active (sv_stats sv) \<ge> vo_max_connections (sv_options sv)"

lemma step_starved: "starved (al_server al) \<Longrightarrow> starved (al_server (fabric_step ev al))"
proof (cases ev)
  case (FeAccept x)
  assume "starved (al_server al)"
  then have "starved (snd (admit (reap_finished (al_server al))))"
    by (simp add: starved_def admit_def reap_finished_def Let_def)
  then show ?thesis
    using \<open>starved (al_server al)\<close> FeAccept by (cases x) (auto simp: accept_turn_def Let_def split: prod.split)
qed (simp add: starved_def worker_done_def)

lemma run_starved: "starved (al_server al) \<Longrightarrow> starved (al_server (fold fabric_step events al))"
  by (induction events arbitrary: al) (simp_all add: step_starved del: fabric_step.simps)

text \<open>
  C25: stopping a server does not give its slots back. A server that is stopped while all its
  slots are taken, and then started again, counts them as taken for ever: whatever happens from
  then on, it never admits a connection.
\<close>

theorem stop_leaks_slots:
  assumes "length (sv_connections (al_server (fabric_run opts events))) = unat (vo_max_connections opts)"
  shows "sv_connections (al_server (fold fabric_step later
           (accept_loop_of (snd (server_start StOk (server_stop (al_server (fabric_run opts events)))))))) = []"
proof -
  let ?sv = "al_server (fabric_run opts events)"
  have "starved (snd (server_start StOk (server_stop ?sv)))"
    using run_slots [of opts events] assms
    by (auto simp: slots_ok_def starved_def server_stop_def server_start_def word_le_nat_alt)
  then show ?thesis using run_starved [of "accept_loop_of _" later] by (simp add: starved_def accept_loop_of_def)
qed

theorem stop_leaks_slots_witness:
  "length (sv_connections (al_server (fabric_run
      \<lparr>vo_max_connections = 1, vo_max_frame_bytes = 4096, vo_io_timeout_ms = 1, vo_send_timeout_ms = 1, vo_tcp_nodelay = True\<rparr>
      [FeAccept AcAccepted]))) = 1 \<and>
   sv_connections (al_server (fold fabric_step [FeAccept AcAccepted]
     (accept_loop_of (snd (server_start StOk (server_stop (al_server (fabric_run
      \<lparr>vo_max_connections = 1, vo_max_frame_bytes = 4096, vo_io_timeout_ms = 1, vo_send_timeout_ms = 1, vo_tcp_nodelay = True\<rparr>
      [FeAccept AcAccepted])))))))) = []"
proof -
  let ?opts = "\<lparr>vo_max_connections = 1, vo_max_frame_bytes = 4096, vo_io_timeout_ms = 1, vo_send_timeout_ms = 1,
    vo_tcp_nodelay = True\<rparr>"
  have "length (sv_connections (al_server (fabric_run ?opts [FeAccept AcAccepted]))) = unat (vo_max_connections ?opts)"
    by (simp add: fabric_run_def accept_loop_of_def accept_turn_def server_start_def new_server_def reap_finished_def admit_def
        zero_stats_def kAbsoluteMaxFrameBytes_def)
  then show ?thesis using stop_leaks_slots [of ?opts "[FeAccept AcAccepted]" "[FeAccept AcAccepted]"] by simp
qed

end
