(* ===== verification/Net.thy ===== *)
theory Net
  imports Ids
begin

text \<open>
  Endpoints and sockets (\<open>src/net.cpp\<close>, \<open>include/isf/net.hpp\<close>), in their POSIX variant. What the
  operating system answers to a call is an argument of the operation that makes it; the loops and
  decisions around the calls are the code's.
\<close>

section \<open>Endpoints\<close>

record endpoint =
  ep_host :: string
  ep_port :: u16

definition kLoopback :: string where
  "kLoopback = ''127.0.0.1''"

definition default_endpoint :: endpoint where
  "default_endpoint = \<lparr>ep_host = kLoopback, ep_port = 0\<rparr>"

definition endpoint_to_string :: "endpoint \<Rightarrow> string" where
  "endpoint_to_string e =
     (if CHR '':'' \<in> set (ep_host e) then ''['' @ ep_host e @ '']:'' @ nat_to_dec (unat (ep_port e))
      else ep_host e @ '':'' @ nat_to_dec (unat (ep_port e)))"

fun parse_port :: "u32 \<Rightarrow> string \<Rightarrow> u32 expected" where
  "parse_port port [] = Inr port"
| "parse_port port (c # cs) =
     (if of_char c < (48 :: nat) \<or> of_char c > (57 :: nat) then Inl StInvalid
      else
        let port = port * 10 + of_nat (of_char c - 48)
        in if port > 65535 then Inl StInvalid else parse_port port cs)"

definition endpoint_of :: "string \<Rightarrow> string \<Rightarrow> endpoint expected" where
  "endpoint_of host body =
     (if body = [] then Inl StInvalid
      else ebind (parse_port 0 body) (\<lambda>port.
        Inr \<lparr>ep_host = (if host = [] then kLoopback else host), ep_port = ucast port\<rparr>))"

definition endpoint_parse :: "string \<Rightarrow> endpoint expected" where
  "endpoint_parse text =
     (if text = [] then Inl StInvalid
      else if hd text = CHR ''['' then
        let rest = dropWhile (\<lambda>c. c \<noteq> CHR '']'') text
        in if rest = [] then Inl StInvalid
           else
             let host = drop 1 (takeWhile (\<lambda>c. c \<noteq> CHR '']'') text);
                 body = tl rest
             in if body = [] \<or> hd body \<noteq> CHR '':'' then Inl StInvalid else endpoint_of host (tl body)
      else if CHR '':'' \<notin> set text then endpoint_of kLoopback text
      else
        endpoint_of (rev (tl (dropWhile (\<lambda>c. c \<noteq> CHR '':'') (rev text))))
                    (rev (takeWhile (\<lambda>c. c \<noteq> CHR '':'') (rev text))))"

section \<open>Status of one operation\<close>

datatype io_status = IsOk | IsPeerClosed | IsTimedOut | IsInterrupted | IsRefused | IsError

fun io_status_name :: "io_status \<Rightarrow> string" where
  "io_status_name IsOk = ''OK''"
| "io_status_name IsPeerClosed = ''PEER_CLOSED''"
| "io_status_name IsTimedOut = ''TIMED_OUT''"
| "io_status_name IsInterrupted = ''INTERRUPTED''"
| "io_status_name IsRefused = ''REFUSED''"
| "io_status_name IsError = ''ERROR''"

datatype errno = ETimedOut | EIntr | EConnRefused | EConnReset | ENotConn | EPipe | EInProgress | EWouldBlock | EAnother

fun classify_error :: "errno \<Rightarrow> io_status" where
  "classify_error ETimedOut = IsTimedOut"
| "classify_error EIntr = IsInterrupted"
| "classify_error EConnRefused = IsRefused"
| "classify_error EConnReset = IsPeerClosed"
| "classify_error ENotConn = IsPeerClosed"
| "classify_error EPipe = IsPeerClosed"
| "classify_error _ = IsError"

text \<open>Initialising the transport, once; POSIX needs nothing.\<close>

definition ensure_transport_initialized :: "bool \<Rightarrow> status" where
  "ensure_transport_initialized transport_ok = (if \<not> transport_ok then StUnavailable else StOk)"

section \<open>Sockets\<close>

record socket =
  so_handle :: int

definition kInvalidSocket :: int where
  "kInvalidSocket = -1"

definition socket_valid :: "socket \<Rightarrow> bool" where
  "socket_valid s \<longleftrightarrow> so_handle s \<noteq> kInvalidSocket"

text \<open>Closing and move assignment; the first component lists the handles given back to the system.\<close>

definition socket_close :: "socket \<Rightarrow> int list \<times> socket" where
  "socket_close s = (if socket_valid s then ([so_handle s], s\<lparr>so_handle := kInvalidSocket\<rparr>) else ([], s))"

definition socket_assign :: "socket \<Rightarrow> socket \<Rightarrow> int list \<times> socket \<times> socket" where
  "socket_assign target source =
     (case socket_close target of
        (closed, target) \<Rightarrow> (closed, target\<lparr>so_handle := so_handle source\<rparr>, source\<lparr>so_handle := kInvalidSocket\<rparr>))"

text \<open>A duration in milliseconds as seconds and microseconds.\<close>

definition timeval_of :: "u64 \<Rightarrow> u64 \<times> u64" where
  "timeval_of ms = (ms div 1000, (ms mod 1000) * 1000)"

definition set_timeouts :: "bool \<Rightarrow> bool \<Rightarrow> socket \<Rightarrow> status" where
  "set_timeouts recv_ok send_ok s =
     (if \<not> socket_valid s then StInvalid
      else if \<not> recv_ok then StUnavailable
      else if \<not> send_ok then StUnavailable
      else StOk)"

definition set_nodelay :: "bool \<Rightarrow> socket \<Rightarrow> status" where
  "set_nodelay option_ok s =
     (if \<not> socket_valid s then StInvalid else if \<not> option_ok then StUnavailable else StOk)"

definition set_keepalive :: "bool \<Rightarrow> socket \<Rightarrow> status" where
  "set_keepalive option_ok s =
     (if \<not> socket_valid s then StInvalid else if \<not> option_ok then StUnavailable else StOk)"

definition wait_readable :: "int \<Rightarrow> socket \<Rightarrow> status \<times> bool" where
  "wait_readable ready s =
     (if \<not> socket_valid s then (StUnavailable, False)
      else if ready = 0 then (StOk, False)
      else if ready < 0 then (StUnavailable, False)
      else (StOk, True))"

text \<open>The answers of \<open>send\<close> and \<open>recv\<close>.\<close>

datatype send_answer = SentBytes nat | SendFailed errno

datatype recv_answer = GotBytes "byte list" | RecvFailed errno

definition kIoChunk :: nat where
  "kIoChunk = 1048576"

text \<open>
  The send loop: the status, the count of bytes written and the pieces the system took; \<open>None\<close>
  when a call does not return.
\<close>

fun send_loop :: "send_answer list \<Rightarrow> byte list \<Rightarrow> nat \<Rightarrow> byte list list \<Rightarrow> (io_status \<times> nat \<times> byte list list) option" where
  "send_loop answers data written pieces =
     (if written < length data then
        let request = min (length data - written) kIoChunk
        in case answers of
             [] \<Rightarrow> None
           | SendFailed e # _ \<Rightarrow> Some (classify_error e, written, pieces)
           | SentBytes n # later \<Rightarrow>
               if n = 0 then Some (IsPeerClosed, written, pieces)
               else send_loop later data (written + n) (pieces @ [take n (take request (drop written data))])
      else Some (IsOk, written, pieces))"

declare send_loop.simps [simp del]

definition send_all :: "send_answer list \<Rightarrow> byte list \<Rightarrow> socket \<Rightarrow> (io_status \<times> nat \<times> byte list list) option" where
  "send_all answers data s =
     (if \<not> socket_valid s then Some (IsError, 0, []) else send_loop answers data 0 [])"

definition recv_some :: "recv_answer \<Rightarrow> nat \<Rightarrow> socket \<Rightarrow> io_status \<times> byte list" where
  "recv_some answer capacity s =
     (if \<not> socket_valid s then (IsError, [])
      else
        case answer of
          RecvFailed e \<Rightarrow> (classify_error e, [])
        | GotBytes bytes \<Rightarrow> if bytes = [] then (IsPeerClosed, []) else (IsOk, bytes))"

definition socket_peer :: "endpoint option \<Rightarrow> socket \<Rightarrow> endpoint" where
  "socket_peer name s =
     (if \<not> socket_valid s then default_endpoint
      else case name of None \<Rightarrow> default_endpoint | Some e \<Rightarrow> e)"

section \<open>Resolving, listening and connecting\<close>

text \<open>\<open>literal\<close> reads a dotted address, \<open>lookup\<close> asks the resolver.\<close>

definition resolve_ipv4 :: "(string \<Rightarrow> u32 option) \<Rightarrow> (string \<Rightarrow> u32 option) \<Rightarrow> string \<Rightarrow> u32 expected" where
  "resolve_ipv4 literal lookup host =
     (let target = (if host = [] then kLoopback else host)
      in case literal target of
           Some a \<Rightarrow> Inr a
         | None \<Rightarrow> (case lookup target of None \<Rightarrow> Inl StInvalid | Some a \<Rightarrow> Inr a))"

record listener =
  li_handle :: int
  li_port :: u16

record bind_answers =
  ba_handle :: int
  ba_bind_ok :: bool
  ba_listen_ok :: bool
  ba_name :: "u16 option"

text \<open>The second component of the results lists the handles that were closed again.\<close>

definition listener_bind ::
    "bool \<Rightarrow> (string \<Rightarrow> u32 option) \<Rightarrow> (string \<Rightarrow> u32 option) \<Rightarrow> bind_answers \<Rightarrow> endpoint \<Rightarrow>
     listener expected \<times> int list" where
  "listener_bind transport literal lookup ba e =
     (if ensure_transport_initialized transport \<noteq> StOk then (Inl (ensure_transport_initialized transport), [])
      else
        case resolve_ipv4 literal lookup (ep_host e) of
          Inl s \<Rightarrow> (Inl s, [])
        | Inr _ \<Rightarrow>
            if ba_handle ba < 0 then (Inl StUnavailable, [])
            else if \<not> ba_bind_ok ba then (Inl StUnavailable, [ba_handle ba])
            else if \<not> ba_listen_ok ba then (Inl StUnavailable, [ba_handle ba])
            else
              (Inr \<lparr>li_handle = ba_handle ba,
                    li_port = (case ba_name ba of Some port \<Rightarrow> port | None \<Rightarrow> ep_port e)\<rparr>, []))"

definition listener_close :: "listener \<Rightarrow> int list \<times> listener" where
  "listener_close l =
     (if li_handle l \<noteq> kInvalidSocket then ([li_handle l], l\<lparr>li_handle := kInvalidSocket\<rparr>) else ([], l))"

definition listener_accept :: "int \<Rightarrow> listener \<Rightarrow> socket expected" where
  "listener_accept accepted l =
     (if li_handle l = kInvalidSocket then Inl StUnavailable
      else if accepted < 0 then Inl StUnavailable
      else Inr \<lparr>so_handle = accepted\<rparr>)"

text \<open>The second component says that nobody came within the bound; \<open>later\<close> is the listener after the wait.\<close>

definition listener_accept_for :: "int \<Rightarrow> int \<Rightarrow> listener \<Rightarrow> listener \<Rightarrow> socket expected \<times> bool" where
  "listener_accept_for ready accepted l later =
     (if li_handle l = kInvalidSocket then (Inl StUnavailable, False)
      else if ready = 0 then (Inl StUnavailable, True)
      else if ready < 0 then (Inl StUnavailable, False)
      else if li_handle l \<noteq> li_handle later then (Inl StUnavailable, False)
      else (listener_accept accepted later, False))"

record connect_answers =
  na_handle :: int
  na_connect :: "errno option"
  na_select :: int
  na_option_ok :: bool
  na_socket_error :: int

definition net_connect ::
    "bool \<Rightarrow> (string \<Rightarrow> u32 option) \<Rightarrow> (string \<Rightarrow> u32 option) \<Rightarrow> connect_answers \<Rightarrow> endpoint \<Rightarrow>
     socket expected \<times> int list" where
  "net_connect transport literal lookup na e =
     (if ensure_transport_initialized transport \<noteq> StOk then (Inl (ensure_transport_initialized transport), [])
      else
        case resolve_ipv4 literal lookup (ep_host e) of
          Inl s \<Rightarrow> (Inl s, [])
        | Inr _ \<Rightarrow>
            if na_handle na < 0 then (Inl StUnavailable, [])
            else
              (case na_connect na of
                 None \<Rightarrow> (Inr \<lparr>so_handle = na_handle na\<rparr>, [])
               | Some code \<Rightarrow>
                   if code \<noteq> EInProgress \<and> code \<noteq> EWouldBlock then (Inl StUnavailable, [na_handle na])
                   else if na_select na \<le> 0 then
                     (Inl (if na_select na = 0 then StUnavailable else StBusy), [na_handle na])
                   else if \<not> na_option_ok na \<or> na_socket_error na \<noteq> 0 then (Inl StUnavailable, [na_handle na])
                   else (Inr \<lparr>so_handle = na_handle na\<rparr>, [])))"

section \<open>Endpoints as text\<close>

lemma parse_port_append:
  "parse_port p (xs @ ys) = ebind (parse_port p xs) (\<lambda>q. parse_port q ys)"
  by (induction xs arbitrary: p) (simp_all add: Let_def)

lemma decimal_digit:
  assumes "d < 10"
  shows "of_char (kHexDigits ! d) = (48 + d :: nat)" and "kHexDigits ! d \<noteq> CHR '':''"
proof -
  have "d \<in> {0, 1, 2, 3, 4, 5, 6, 7, 8, 9}" using assms by auto
  then show "of_char (kHexDigits ! d) = (48 + d :: nat)" "kHexDigits ! d \<noteq> CHR '':''"
    by (auto simp: kHexDigits_def)
qed

lemma parse_port_digit:
  assumes "d < 10" and "10 * n + d \<le> 65535"
  shows "parse_port (of_nat n) [kHexDigits ! d] = Inr (of_nat (10 * n + d))"
proof -
  have "unat (of_nat (10 * n + d) :: u32) = 10 * n + d" using assms(2) by (simp only: unat_of_nat) simp
  then have "\<not> (of_nat (10 * n + d) :: u32) > 65535" using assms(2) by (simp add: word_less_nat_alt not_less)
  then show ?thesis using assms(1) by (simp add: decimal_digit mult.commute)
qed

lemma parse_port_decimal: "n \<le> 65535 \<Longrightarrow> parse_port 0 (nat_to_dec n) = Inr (of_nat n)"
proof (induction n rule: nat_to_dec.induct)
  case (1 n)
  show ?case
  proof (cases "n < 10")
    case True
    then show ?thesis using parse_port_digit [of n 0] 1(2) by (simp add: nat_to_dec.simps [of n])
  next
    case False
    then have "parse_port 0 (nat_to_dec (n div 10)) = Inr (of_nat (n div 10))" using 1 by simp
    moreover have "10 * (n div 10) + n mod 10 = n" by simp
    ultimately show ?thesis
      using False 1(2) parse_port_digit [of "n mod 10" "n div 10"]
      by (simp add: nat_to_dec.simps [of n] parse_port_append del: parse_port.simps)
  qed
qed

lemma decimal_text: "CHR '':'' \<notin> set (nat_to_dec n) \<and> nat_to_dec n \<noteq> []"
  by (induction n rule: nat_to_dec.induct) (subst (1 2) nat_to_dec.simps, auto simp: decimal_digit(2) [symmetric])

lemma split_at:
  "x \<notin> set xs \<Longrightarrow> takeWhile (\<lambda>c. c \<noteq> x) (xs @ x # ys) = xs \<and> dropWhile (\<lambda>c. c \<noteq> x) (xs @ x # ys) = x # ys"
  by (induction xs) auto

text \<open>Hosts whose text form can be read back: brackets only where the text form puts them.\<close>

definition plain_host :: "string \<Rightarrow> bool" where
  "plain_host h \<longleftrightarrow> h \<noteq> [] \<and> (if CHR '':'' \<in> set h then CHR '']'' \<notin> set h else hd h \<noteq> CHR ''['')"

lemma endpoint_of_text:
  "host \<noteq> [] \<Longrightarrow> endpoint_of host (nat_to_dec (unat port)) = Inr \<lparr>ep_host = host, ep_port = port\<rparr>"
proof -
  assume "host \<noteq> []"
  have "unat port < 65536" using unsigned_less [of port] by simp
  moreover have "(ucast (of_nat (unat port) :: u32) :: u16) = port" 
  proof (rule word_unat_eq_iff [THEN iffD2])
    show "unat (ucast (of_nat (unat port) :: u32) :: u16) = unat port"
      using \<open>unat port < 65536\<close> by (simp add: unsigned_ucast_eq unat_of_nat take_bit_nat_def take_bit_word_eq_self)
  qed
  ultimately show ?thesis
    using \<open>host \<noteq> []\<close> decimal_text [of "unat port"] by (simp add: endpoint_of_def parse_port_decimal)
qed

text \<open>
  An endpoint reads back from its text. Parsing what \<open>to_string\<close> prints gives the endpoint
  again, with any port, for every host without stray brackets, plain or bracketed.
\<close>

theorem endpoint_text_roundtrip:
  assumes "plain_host (ep_host e)"
  shows "endpoint_parse (endpoint_to_string e) = Inr e"
proof -
  let ?h = "ep_host e" and ?d = "nat_to_dec (unat (ep_port e))"
  have host: "?h \<noteq> []" using assms by (simp add: plain_host_def)
  have digits: "CHR '':'' \<notin> set ?d" using decimal_text by blast
  have ends: "endpoint_of ?h ?d = Inr e" using endpoint_of_text [OF host, of "ep_port e"] by simp
  show ?thesis
  proof (cases "CHR '':'' \<in> set ?h")
    case True
    then have "takeWhile (\<lambda>c. c \<noteq> CHR '']'') (?h @ '']:'' @ ?d) = ?h" "dropWhile (\<lambda>c. c \<noteq> CHR '']'') (?h @ '']:'' @ ?d) = '']:'' @ ?d"
      using assms split_at [of "CHR '']''" ?h "'':'' @ ?d"] by (simp_all add: plain_host_def)
    then show ?thesis using True ends by (simp add: endpoint_to_string_def endpoint_parse_def)
  next
    case False
    have "takeWhile (\<lambda>c. c \<noteq> CHR '':'') (rev ?d @ CHR '':'' # rev ?h) = rev ?d"
      "dropWhile (\<lambda>c. c \<noteq> CHR '':'') (rev ?d @ CHR '':'' # rev ?h) = CHR '':'' # rev ?h"
      using digits split_at [of "CHR '':''" "rev ?d" "rev ?h"] by simp_all
    moreover have "hd ?h \<noteq> CHR ''[''" using assms False by (simp add: plain_host_def)
    ultimately show ?thesis using False host ends by (simp add: endpoint_to_string_def endpoint_parse_def)
  qed
qed

theorem endpoint_text_roundtrip_witness:
  "endpoint_parse ''10.0.0.1:7400'' = Inr \<lparr>ep_host = ''10.0.0.1'', ep_port = 7400\<rparr> \<and>
   endpoint_parse ''[::1]:80'' = Inr \<lparr>ep_host = ''::1'', ep_port = 80\<rparr>"
  using endpoint_text_roundtrip [of "\<lparr>ep_host = ''10.0.0.1'', ep_port = 7400\<rparr>"]
    endpoint_text_roundtrip [of "\<lparr>ep_host = ''::1'', ep_port = 80\<rparr>"]
  by (simp add: plain_host_def endpoint_to_string_def nat_to_dec.simps kHexDigits_def)

section \<open>Sending\<close>

text \<open>What \<open>send\<close> documents: it takes no more than it is offered.\<close>

fun honest :: "send_answer list \<Rightarrow> byte list \<Rightarrow> nat \<Rightarrow> bool" where
  "honest (SentBytes n # later) data written \<longleftrightarrow>
     n \<le> min (length data - written) kIoChunk \<and> honest later data (written + n)"
| "honest _ data written \<longleftrightarrow> True"

lemma send_loop_exact:
  assumes "honest answers data written" and "written \<le> length data" and "concat pieces = take written data"
  shows "case send_loop answers data written pieces of
           None \<Rightarrow> length answers < length data - written
         | Some (st, n, sent) \<Rightarrow> n \<le> length data \<and> concat sent = take n data \<and> (st = IsOk \<longleftrightarrow> n = length data)"
  using assms
proof (induction answers arbitrary: written pieces)
  case Nil
  then show ?case by (simp add: send_loop.simps [of "[]"])
next
  case (Cons a answers)
  show ?case
  proof (cases "written < length data")
    case False
    with Cons.prems(2,3) show ?thesis by (simp add: send_loop.simps [of "_ # answers"])
  next
    case True
    show ?thesis
    proof (cases a)
      case (SendFailed e)
      moreover have "classify_error e \<noteq> IsOk" by (cases e) simp_all
      ultimately show ?thesis using True Cons.prems(2,3) by (simp add: send_loop.simps [of "_ # answers"] Let_def)
    next
      case (SentBytes n)
      show ?thesis
      proof (cases "n = 0")
        case True
        then show ?thesis
          using SentBytes \<open>written < length data\<close> Cons.prems(3) by (simp add: send_loop.simps [of "_ # answers"] Let_def)
      next
        case False
        let ?piece = "take n (take (min (length data - written) kIoChunk) (drop written data))"
        have n: "n \<le> min (length data - written) kIoChunk" "honest answers data (written + n)"
          using Cons.prems(1) SentBytes by simp_all
        then have fits: "written + n \<le> length data" using True by auto
        have "concat (pieces @ [?piece]) = take (written + n) data"
          using Cons.prems(3) n(1) by (simp add: take_add min_def)
        then have "case send_loop answers data (written + n) (pieces @ [?piece]) of
            None \<Rightarrow> length answers < length data - (written + n)
          | Some (st, n, sent) \<Rightarrow> n \<le> length data \<and> concat sent = take n data \<and> (st = IsOk \<longleftrightarrow> n = length data)"
          using n(2) fits by (intro Cons.IH) simp_all
        moreover have "send_loop (a # answers) data written pieces = send_loop answers data (written + n) (pieces @ [?piece])"
          using SentBytes False True by (simp add: send_loop.simps [of "_ # answers"] Let_def)
        ultimately show ?thesis using False by (auto split: option.splits)
      qed
    qed
  qed
qed

text \<open>
  C39: sending reports exactly what went out. On an open socket, with a system that never takes
  more than it is offered, the bytes taken are the prefix of the buffer of the reported length,
  the status is OK exactly when that is all of it, and the loop returns at the latest when the
  system has answered once per byte.
\<close>

theorem send_all_exact:
  assumes "socket_valid s" and "honest answers data 0"
  shows "case send_all answers data s of
           None \<Rightarrow> length answers < length data
         | Some (st, n, pieces) \<Rightarrow> n \<le> length data \<and> concat pieces = take n data \<and> (st = IsOk \<longleftrightarrow> n = length data)"
  using send_loop_exact [OF assms(2), of "[]"] assms(1) by (auto simp: send_all_def split: option.splits)

theorem send_all_exact_witness:
  "send_all [SentBytes 2, SentBytes 1, SendFailed EPipe] [1, 2, 3] \<lparr>so_handle = 4\<rparr> = Some (IsOk, 3, [[1, 2], [3]]) \<and>
   (case send_all [SentBytes 2, SendFailed EPipe] [1, 2, 3] \<lparr>so_handle = 4\<rparr> of
      None \<Rightarrow> False
    | Some (st, n, pieces) \<Rightarrow> n \<le> 3 \<and> concat pieces = take n [1, 2, 3] \<and> (st = IsOk \<longleftrightarrow> n = 3))"
  using send_all_exact [of "\<lparr>so_handle = 4\<rparr>" "[SentBytes 2, SendFailed EPipe]" "[1, 2, 3]"]
  by (simp add: socket_valid_def kInvalidSocket_def kIoChunk_def send_all_def send_loop.simps)

section \<open>Handles\<close>

text \<open>
  A handle that was opened to connect or to listen is owned by the result or was closed, never
  both and never neither.
\<close>

lemma connect_owns_handle:
  "net_connect transport literal lookup na e = (r, closed) \<Longrightarrow>
     (case r of Inr s \<Rightarrow> so_handle s = na_handle na \<and> 0 \<le> na_handle na \<and> closed = []
      | Inl st \<Rightarrow> st \<noteq> StOk \<and> (closed = [na_handle na] \<or> closed = [] \<and>
          (na_handle na < 0 \<or> \<not> transport \<or> resolve_ipv4 literal lookup (ep_host e) = Inl st)))"
  by (auto simp: net_connect_def ensure_transport_initialized_def resolve_ipv4_def Let_def
      split: if_splits sum.splits option.splits)

lemma bind_owns_handle:
  "listener_bind transport literal lookup ba e = (r, closed) \<Longrightarrow>
     (case r of Inr l \<Rightarrow> li_handle l = ba_handle ba \<and> 0 \<le> ba_handle ba \<and> closed = []
      | Inl st \<Rightarrow> st \<noteq> StOk \<and> (closed = [ba_handle ba] \<or> closed = [] \<and>
          (ba_handle ba < 0 \<or> \<not> transport \<or> resolve_ipv4 literal lookup (ep_host e) = Inl st)))"
  by (auto simp: listener_bind_def ensure_transport_initialized_def resolve_ipv4_def Let_def
      split: if_splits sum.splits option.splits)

lemma timeval_exact: "fst (timeval_of ms) * 1000000 + snd (timeval_of ms) = ms * 1000 \<and> unat (snd (timeval_of ms)) < 1000000"
proof -
  have "ms div 1000 * 1000 + ms mod 1000 = ms" by (rule word_mod_div_equality)
  then have "(ms div 1000 * 1000 + ms mod 1000) * 1000 = ms * 1000" by simp
  moreover have "unat (ms mod 1000) < 1000" by (simp add: unat_mod)
  moreover have "unat ((ms mod 1000) * 1000) = unat (ms mod 1000) * 1000"
    using \<open>unat (ms mod 1000) < 1000\<close> by (simp add: unat_word_ariths)
  ultimately show ?thesis by (simp add: timeval_of_def algebra_simps)
qed

end
