(* ===== verification/Cli.thy ===== *)
theory Cli
  imports Net
begin

text \<open>
  The command line helpers (\<open>apps/common/cli.cpp\<close>, \<open>cli.hpp\<close>): the argument parser with its typed
  accessors, and the report files. Tokens are the program's arguments without its name; the
  answers of the file system are arguments.
\<close>

section \<open>Arguments\<close>

record arguments =
  ar_options :: "string \<rightharpoonup> string"
  ar_positionals :: "string list"

definition is_flag :: "string \<Rightarrow> bool" where
  "is_flag token \<longleftrightarrow>
     length token > 2 \<and> token ! 0 = CHR ''-'' \<and> token ! 1 = CHR ''-'' \<and> token ! 2 \<noteq> CHR ''-''"

definition add_option :: "string \<Rightarrow> string \<Rightarrow> arguments \<Rightarrow> arguments" where
  "add_option token v args = args\<lparr>ar_options := (ar_options args)(drop 2 token \<mapsto> v)\<rparr>"

fun parse_tokens :: "string list \<Rightarrow> arguments \<Rightarrow> arguments" where
  "parse_tokens [] args = args"
| "parse_tokens [token] args =
     (if \<not> is_flag token then args\<lparr>ar_positionals := ar_positionals args @ [token]\<rparr>
      else add_option token ''true'' args)"
| "parse_tokens (token # next # later) args =
     (if \<not> is_flag token then parse_tokens (next # later) (args\<lparr>ar_positionals := ar_positionals args @ [token]\<rparr>)
      else if \<not> is_flag next then parse_tokens later (add_option token next args)
      else parse_tokens (next # later) (add_option token ''true'' args))"

definition arguments_of :: "string list \<Rightarrow> arguments" where
  "arguments_of tokens = parse_tokens tokens \<lparr>ar_options = Map.empty, ar_positionals = []\<rparr>"

definition has :: "arguments \<Rightarrow> string \<Rightarrow> bool" where
  "has args flag \<longleftrightarrow> ar_options args flag \<noteq> None"

definition value_of :: "arguments \<Rightarrow> string \<Rightarrow> string option" where
  "value_of args flag = ar_options args flag"

definition value_or :: "arguments \<Rightarrow> string \<Rightarrow> string \<Rightarrow> string" where
  "value_or args flag fallback = (case value_of args flag of Some v \<Rightarrow> v | None \<Rightarrow> fallback)"

fun parse_u64_from :: "u64 \<Rightarrow> string \<Rightarrow> u64 option" where
  "parse_u64_from v [] = Some v"
| "parse_u64_from v (c # cs) =
     (if of_char c < (48 :: nat) \<or> of_char c > (57 :: nat) then None
      else
        let digit = of_nat (of_char c - 48)
        in if v > (kAmountMax - digit) div 10 then None else parse_u64_from (v * 10 + digit) cs)"

definition parse_u64 :: "string \<Rightarrow> u64 option" where
  "parse_u64 text = (if text = [] then None else parse_u64_from 0 text)"

definition u64_or :: "arguments \<Rightarrow> string \<Rightarrow> u64 \<Rightarrow> u64" where
  "u64_or args flag fallback =
     (case value_of args flag of
        None \<Rightarrow> fallback
      | Some text \<Rightarrow> (case parse_u64 text of None \<Rightarrow> fallback | Some v \<Rightarrow> v))"

text \<open>
  The signed accessor reinterprets the unsigned value; negating the least value, which the
  language leaves undefined, is the one input where this differs from the program.
\<close>

definition i64_or :: "arguments \<Rightarrow> string \<Rightarrow> int \<Rightarrow> int" where
  "i64_or args flag fallback =
     (case value_of args flag of
        None \<Rightarrow> fallback
      | Some text \<Rightarrow>
          let signed = (text \<noteq> [] \<and> (hd text = CHR ''-'' \<or> hd text = CHR ''+''));
              negative = (text \<noteq> [] \<and> hd text = CHR ''-'');
              body = (if signed then tl text else text)
          in (case parse_u64 body of
                None \<Rightarrow> fallback
              | Some v \<Rightarrow> if negative then - sint v else sint v))"

definition flag_or :: "arguments \<Rightarrow> string \<Rightarrow> bool \<Rightarrow> bool" where
  "flag_or args flag fallback =
     (case value_of args flag of
        None \<Rightarrow> fallback
      | Some text \<Rightarrow>
          if text \<in> {''true'', ''1'', ''yes'', ''on''} then True
          else if text \<in> {''false'', ''0'', ''no'', ''off''} then False
          else fallback)"

definition positional :: "arguments \<Rightarrow> nat \<Rightarrow> string \<Rightarrow> string" where
  "positional args index fallback =
     (if index \<ge> length (ar_positionals args) then fallback else ar_positionals args ! index)"

definition arguments_validate :: "arguments \<Rightarrow> string list \<Rightarrow> status" where
  "arguments_validate args required = (if list_all (has args) required then StOk else StInvalid)"

definition parse_endpoint :: "string \<Rightarrow> (string \<times> u16) expected" where
  "parse_endpoint text = ebind (endpoint_parse text) (\<lambda>e. Inr (ep_host e, ep_port e))"

definition short_hex :: "string \<Rightarrow> string" where
  "short_hex text =
     (let body = (if CHR '':'' \<notin> set text then text else tl (dropWhile (\<lambda>c. c \<noteq> CHR '':'') text))
      in if length body \<le> 8 then body else take 8 body)"

section \<open>Report files\<close>

text \<open>A path without a separator has no parent directory.\<close>

definition ensure_parent_directory :: "bool \<Rightarrow> string \<Rightarrow> status" where
  "ensure_parent_directory created path =
     (if CHR ''/'' \<notin> set path then StOk else if \<not> created then StUnavailable else StOk)"

record report_answers =
  rf_created :: bool
  rf_opened :: bool
  rf_written :: bool
  rf_partial :: nat
  rf_renamed :: bool

definition report_body :: "(string \<times> string) list \<Rightarrow> string" where
  "report_body entries = concat (map (\<lambda>(key, v). key @ ''='' @ v @ [CHR 0x0A]) entries)"

text \<open>The files by name, before and after.\<close>

definition write_report_file ::
    "report_answers \<Rightarrow> string \<Rightarrow> (string \<times> string) list \<Rightarrow> (string \<rightharpoonup> string) \<Rightarrow> status \<times> (string \<rightharpoonup> string)" where
  "write_report_file rf path entries files =
     (if path = [] then (StOk, files)
      else if ensure_parent_directory (rf_created rf) path \<noteq> StOk then
        (ensure_parent_directory (rf_created rf) path, files)
      else
        let temporary = path @ ''.tmp''
        in if \<not> rf_opened rf then (StUnavailable, files)
           else if \<not> rf_written rf then (StUnavailable, files(temporary \<mapsto> take (rf_partial rf) (report_body entries)))
           else
             let files = files(temporary \<mapsto> report_body entries, path := None)
             in if \<not> rf_renamed rf then (StUnavailable, files)
                else (StOk, files(path \<mapsto> report_body entries, temporary := None)))"

section \<open>Numbers\<close>

text \<open>What a digit string denotes.\<close>

definition is_digit :: "char \<Rightarrow> bool" where
  "is_digit c \<longleftrightarrow> 48 \<le> (of_char c :: nat) \<and> of_char c \<le> (57 :: nat)"

definition denotes :: "nat \<Rightarrow> string \<Rightarrow> nat" where
  "denotes = foldl (\<lambda>n c. n * 10 + (of_char c - 48))"

lemma denotes_simps [simp]: "denotes n [] = n" "denotes n (c # cs) = denotes (n * 10 + (of_char c - 48)) cs"
  by (simp_all add: denotes_def)

lemma denotes_mono: "n \<le> denotes n cs"
  by (induction cs arbitrary: n) (simp, metis add_leE denotes_simps(2) le_add1 mult.commute mult_le_mono1 mult_1 nat_le_linear one_le_numeral order_trans)

lemma parse_u64_from_exact:
  "parse_u64_from v digits =
     (if list_all is_digit digits \<and> denotes (unat v) digits < 2 ^ 64 then Some (of_nat (denotes (unat v) digits)) else None)"
proof (induction digits arbitrary: v)
  case Nil
  have "unat v < 2 ^ 64" using unsigned_less [of v] by simp
  then show ?case by simp
next
  case (Cons c cs)
  define d where "d = (of_char c :: nat) - 48"
  show ?case
  proof (cases "is_digit c")
    case False
    then show ?thesis by (auto simp: is_digit_def not_le)
  next
    case True
    then have d: "d \<le> 9" by (auto simp: is_digit_def d_def)
    then have ud: "unat (of_nat d :: u64) = d" by (simp add: unat_of_nat)
    have "unat (kAmountMax - of_nat d) = 2 ^ 64 - 1 - d" by (simp add: kAmountMax_minus ud)
    then have "unat ((kAmountMax - of_nat d) div 10) = (2 ^ 64 - 1 - d) div 10" by (simp add: unat_div)
    then have over: "v > (kAmountMax - of_nat d) div 10 \<longleftrightarrow> \<not> unat v * 10 + d < 2 ^ 64"
      using d by (auto simp: word_less_nat_alt)
    have "unat (v * 10 + of_nat d) = unat v * 10 + d" if "unat v * 10 + d < 2 ^ 64"
      using that ud by (simp add: unat_word_ariths)
    then show ?thesis
      using Cons.IH [of "v * 10 + of_nat d"] over True denotes_mono [of "unat v * 10 + d" cs]
      by (auto simp: is_digit_def not_less Let_def d_def [symmetric])
  qed
qed

text \<open>
  The parser of amounts is exact. It accepts precisely the non-empty strings of decimal digits
  whose value fits 64 bits, and yields that value; the overflow test in front of each digit
  neither wraps nor refuses a number that fits.
\<close>

theorem parse_u64_exact:
  "parse_u64 digits =
     (if digits \<noteq> [] \<and> list_all is_digit digits \<and> denotes 0 digits < 2 ^ 64 then Some (of_nat (denotes 0 digits)) else None)"
  using parse_u64_from_exact [of 0 digits] by (simp add: parse_u64_def)

end
