(* ===== verification/Control.thy ===== *)
theory Control
  imports Cli Client
begin

text \<open>
  The operator tool (\<open>apps/isfctl/main.cpp\<close>): one definition per command. What the daemon answers
  during the run of one command, the clock and the random identity are the fields of a \<open>link\<close>; a run
  yields the exit code, the lines printed and the mutations asked for. Diagnostics on the error
  stream are dropped.
\<close>

section \<open>Output\<close>

definition quote_char :: "char \<Rightarrow> string" where
  "quote_char c =
     (if c = CHR 0x22 \<or> c = CHR 0x5C then [CHR 0x5C, c]
      else if of_char c < (0x20 :: nat) then
        [CHR 0x5C, CHR ''u'', CHR ''0'', CHR ''0'', kHexDigits ! (of_char c div 16), kHexDigits ! (of_char c mod 16)]
      else [c])"

definition quote :: "string \<Rightarrow> string" where
  "quote text = CHR 0x22 # concat (map quote_char text) @ [CHR 0x22]"

datatype field_value = FText string | FNumber u64

definition pad :: "nat \<Rightarrow> string \<Rightarrow> string" where
  "pad width text = text @ replicate (width - length text) CHR '' ''"

definition out_field :: "bool \<Rightarrow> string \<Rightarrow> field_value \<Rightarrow> bool \<Rightarrow> string" where
  "out_field json key v is_last =
     (if json then
        ''  '' @ quote key @ '': '' @ (case v of FText s \<Rightarrow> quote s | FNumber n \<Rightarrow> u64_to_string n) @
        (if is_last then [] else '','')
      else pad 24 (key @ '':'') @ '' '' @ (case v of FText s \<Rightarrow> s | FNumber n \<Rightarrow> u64_to_string n))"

text \<open>The fields of one record; the last one is marked as such.\<close>

fun out_fields :: "bool \<Rightarrow> (string \<times> field_value) list \<Rightarrow> string list" where
  "out_fields json [] = []"
| "out_fields json ((key, v) # fs) = out_field json key v (fs = []) # out_fields json fs"

definition out_block :: "bool \<Rightarrow> (string \<times> field_value) list \<Rightarrow> string list" where
  "out_block json fs = (if json then [''{''] else []) @ out_fields json fs @ (if json then [''}''] else [])"

definition out_bool :: "bool \<Rightarrow> field_value" where
  "out_bool b = FText (if b then ''true'' else ''false'')"

definition ctl_usage :: "string list" where
  "ctl_usage =
     [''isfctl - inter-site fabric control and inspection'',
      [],
      ''usage: isfctl --daemon HOST:PORT [--json] COMMAND [options]'',
      [],
      ''inspection'',
      ''  status | sites | paths | grants | digest | verify | snapshot | probe'',
      ''  ledger --path ID'',
      [],
      ''topology and policy'',
      ''  site-register --name N [--site-id ID] [--capacity C] [--incarnation HEX]'',
      ''  site-state --site ID --state STATE [--reason R]'',
      ''  path-register --path ID --name N --a SITE --b SITE [--domain ID]'',
      ''                [--generation G] [--state S] [--advertised A] [--observed O]'',
      ''  path-state --path ID --state S [--reason R]'',
      ''  attest --path ID --usable N [--advertised A] [--observed O]'',
      ''         [--capacity-generation G] [--source S] [--principal ID] [--evidence HEX]'',
      ''  oversubscribe --path ID --ratio-bps N [--not-after-ms T]'',
      ''  policy-install [--generation G] [--protected-units N] [--protected-bps N]'',
      ''                 [--min-free-units N] [--min-free-bps N]'',
      ''                 [--max-oversubscription-bps N] [--max-lease-ms N]'',
      ''                 [--max-grants-per-path N] [--max-grants-per-site N]'',
      ''                 [--srd-concentration-bps N] [--allow-degraded-activation BOOL]'',
      ''                 [--require-verification BOOL] [--auto-reconcile BOOL]'',
      ''  epoch-bump --epoch N'',
      [],
      ''grant lifecycle'',
      ''  grant-propose --site ID --path ID --amount N [--duration-ms N]'',
      ''                [--class general|protected] [--incarnation HEX]'',
      ''  grant-evaluate | grant-reserve | grant-activate | grant-degrade'',
      ''  grant-withdraw | grant-retire | grant-cancel | grant-ack  --grant ID'',
      ''  grant-verify --grant ID --result verified|failed|indeterminate [--evidence HEX]'',
      ''  grant-reconcile --grant ID --target retired|active'',
      [],
      ''  tick | shutdown'']"

definition kCommands :: "string list" where
  "kCommands =
     [''status'', ''sites'', ''paths'', ''grants'', ''ledger'', ''digest'', ''verify'', ''snapshot'',
      ''probe'', ''site-register'', ''site-state'', ''path-register'', ''path-state'', ''attest'',
      ''oversubscribe'', ''policy-install'', ''epoch-bump'', ''grant-propose'', ''grant-evaluate'',
      ''grant-reserve'', ''grant-activate'', ''grant-degrade'', ''grant-withdraw'', ''grant-retire'',
      ''grant-cancel'', ''grant-ack'', ''grant-verify'', ''grant-reconcile'', ''tick'', ''shutdown'']"

definition policy_to_string :: "policy \<Rightarrow> string" where
  "policy_to_string p =
     ''policy generation='' @ u64_to_string (po_generation p) @ '' protected='' @ u64_to_string (po_protected_floor_units p) @
     ''+'' @ nat_to_dec (unat (po_protected_floor_bps p)) @ ''bps min_free='' @ u64_to_string (po_min_free_units p) @
     ''+'' @ nat_to_dec (unat (po_min_free_bps p)) @ ''bps max_oversubscription='' @
     nat_to_dec (unat (po_max_oversubscription_bps p)) @ ''bps srd_concentration='' @
     nat_to_dec (unat (po_max_srd_concentration_bps p)) @ ''bps''"

definition ledger_to_string :: "capacity_ledger \<Rightarrow> string" where
  "ledger_to_string l =
     ''usable='' @ u64_to_string (cl_authoritative_usable l) @ '' free='' @ u64_to_string (cl_free l) @
     '' allocatable='' @ u64_to_string (cl_allocatable l) @ '' committed='' @ u64_to_string (cl_committed l) @
     '' withdrawing='' @ u64_to_string (cl_withdrawing l) @ '' reserved='' @ u64_to_string (cl_reserved l) @
     '' protected='' @ u64_to_string (cl_protected_headroom l) @
     '' unavailable='' @ u64_to_string (cl_unavailable l) @ '' reclaimable='' @ u64_to_string (cl_reclaimable l) @
     (if cl_authorized_extension l \<noteq> 0 then '' extension='' @ u64_to_string (cl_authorized_extension l) else []) @
     (if cl_oversubscribed l \<noteq> 0 then '' oversubscribed='' @ u64_to_string (cl_oversubscribed l) else [])"

section \<open>Identities on the command line\<close>

definition parse_id :: "arguments \<Rightarrow> string \<Rightarrow> id128 option" where
  "parse_id args flag =
     (if \<not> has args flag then None
      else
        let given = value_or args flag [];
            body = (if CHR '':'' \<in> set given then tl (dropWhile (\<lambda>c. c \<noteq> CHR '':'') given) else given)
        in case id128_parse body of Inl _ \<Rightarrow> None | Inr x \<Rightarrow> Some x)"

definition parse_incarnation :: "arguments \<Rightarrow> string \<Rightarrow> incarnation option" where
  "parse_incarnation args flag =
     (if \<not> has args flag then None
      else case typed_id_parse ''inc'' (value_or args flag []) of Inl _ \<Rightarrow> None | Inr x \<Rightarrow> Some x)"

definition id_or :: "id128 option \<Rightarrow> id128 \<Rightarrow> id128" where
  "id_or found fallback = (case found of Some x \<Rightarrow> x | None \<Rightarrow> fallback)"

section \<open>A session with the daemon\<close>

record link =
  lk_hello :: hello_reply
  lk_version :: string
  lk_now :: u64
  lk_random :: id128
  lk_status :: "status_report expected"
  lk_sites :: "site_record list expected"
  lk_paths :: "path_record list expected"
  lk_grants :: "list_filter \<Rightarrow> grant_record list expected"
  lk_ledger :: "path_id \<Rightarrow> capacity_ledger expected"
  lk_digest :: "digest_report expected"
  lk_snapshot :: "authority_snapshot expected"
  lk_mutate :: "request \<Rightarrow> mutation_report expected"
  lk_shutdown :: status

record ctl_run =
  rn_code :: nat
  rn_out :: "string list"
  rn_sent :: "request list"

definition fails :: "nat \<Rightarrow> ctl_run" where
  "fails code = \<lparr>rn_code = code, rn_out = [], rn_sent = []\<rparr>"

definition says :: "string list \<Rightarrow> ctl_run" where
  "says lines = \<lparr>rn_code = 0, rn_out = lines, rn_sent = []\<rparr>"

text \<open>A request goes out before what the rest of the run does, its own requests included.\<close>

definition sends :: "request \<Rightarrow> ctl_run \<Rightarrow> ctl_run" where
  "sends rq rest = rest\<lparr>rn_sent := rq # rn_sent rest\<rparr>"

text \<open>Asking for a mutation: a refusal ends the program with code 4.\<close>

definition asks :: "link \<Rightarrow> request \<Rightarrow> (mutation_report \<Rightarrow> ctl_run) \<Rightarrow> ctl_run" where
  "asks lk rq k =
     (case lk_mutate lk rq of
        Inl _ \<Rightarrow> sends rq (fails 4)
      | Inr report \<Rightarrow> sends rq (k report))"

abbreviation epoch_of :: "link \<Rightarrow> epoch" where
  "epoch_of lk \<equiv> hr_epoch (lk_hello lk)"

section \<open>Inspection\<close>

definition ctl_probe :: "bool \<Rightarrow> endpoint \<Rightarrow> link \<Rightarrow> ctl_run" where
  "ctl_probe json e lk =
     (let h = lk_hello lk
      in says (out_block json
           [(''endpoint'', FText (endpoint_to_string e)),
            (''protocol_version'', FText (nat_to_dec (unat (hr_protocol_version h)))),
            (''server_incarnation'', FText (typed_id_to_string ''inc'' (hr_server_incarnation h))),
            (''epoch'', FText (u64_to_string (hr_epoch h))),
            (''store_fidelity'', FText (recovery_fidelity_name (hr_store_fidelity h))),
            (''frame_bound'', FText (nat_to_dec (unat (hr_max_frame_bytes h)))),
            (''store_servable'', out_bool (hr_store_servable h))]))"

definition ctl_status :: "bool \<Rightarrow> link \<Rightarrow> ctl_run" where
  "ctl_status json lk =
     (case lk_status lk of
        Inl _ \<Rightarrow> fails 4
      | Inr r \<Rightarrow>
          says (out_block json
            [(''version'', FText (lk_version lk)),
             (''incarnation'', FText (typed_id_to_string ''inc'' (sp_incarnation r))),
             (''epoch'', FText (u64_to_string (sp_epoch r))),
             (''policy_generation'', FText (u64_to_string (po_generation (sp_policy r)))),
             (''store_fidelity'', FText (recovery_fidelity_name (sp_store_fidelity r))),
             (''store_servable'', out_bool (sp_store_servable r)),
             (''store_truncated_on_open'', out_bool (sp_store_truncated_on_open r)),
             (''store_records'', FNumber (sp_store_records r)), (''store_bytes'', FNumber (sp_store_bytes r)),
             (''ambiguous_intents'', FNumber (sp_ambiguous_intents r)), (''sites'', FNumber (sp_sites r)),
             (''paths'', FNumber (sp_paths r)), (''grants'', FNumber (sp_grants r)),
             (''mutations_applied'', FNumber (sp_mutations_applied r)),
             (''mutations_refused'', FNumber (sp_mutations_refused r)),
             (''mutations_failed'', FNumber (sp_mutations_failed r)), (''uptime_ms'', FNumber (sp_uptime_ms r)),
             (''aggregate_ledger'', FText (ledger_to_string (sp_aggregate r))),
             (''state_digest'', FText (digest_to_string (sp_state_digest r))), (''detail'', FText (sp_detail r))]))"

definition ctl_site_fields :: "site_record \<Rightarrow> (string \<times> field_value) list" where
  "ctl_site_fields s =
     [(''id'', FText (typed_id_to_string ''site'' (sr_id s))), (''name'', FText (sr_name s)),
      (''state'', FText (site_state_name (sr_state s))),
      (''incarnation'', FText (typed_id_to_string ''inc'' (sr_incarnation s))),
      (''generation'', FText (u64_to_string (sr_generation s))), (''epoch'', FText (u64_to_string (sr_epoch s))),
      (''advertised_capacity'', FNumber (sr_advertised_capacity s)),
      (''last_heartbeat_ms'', FNumber (sr_last_heartbeat_ms s)),
      (''provenance'', FText (provenance_name (sr_provenance s))), (''fence_reason'', FText (sr_fence_reason s))]"

definition ctl_sites :: "bool \<Rightarrow> link \<Rightarrow> ctl_run" where
  "ctl_sites json lk =
     (case lk_sites lk of
        Inl _ \<Rightarrow> fails 4
      | Inr ss \<Rightarrow>
          says (concat (map (\<lambda>s. out_block json (ctl_site_fields s)) ss) @ (if ss = [] then [''no sites registered''] else [])))"

definition ctl_path_fields :: "path_record \<Rightarrow> (string \<times> field_value) list" where
  "ctl_path_fields p =
     [(''id'', FText (typed_id_to_string ''path'' (pr_id p))), (''name'', FText (pr_name p)),
      (''state'', FText (path_state_name (pr_state p))),
      (''endpoint_a'', FText (typed_id_to_string ''site'' (pr_endpoint_a p))),
      (''endpoint_b'', FText (typed_id_to_string ''site'' (pr_endpoint_b p))),
      (''shared_risk_domain'', FText (typed_id_to_string ''srd'' (pr_shared_risk_domain p))),
      (''generation'', FText (u64_to_string (pr_generation p))),
      (''capacity_generation'', FText (u64_to_string (pr_capacity_generation p))),
      (''advertised'', FNumber (pr_advertised p)), (''observed'', FNumber (pr_observed p)),
      (''authoritative_usable'', FNumber (pr_authoritative_usable p)), (''unavailable'', FNumber (pr_unavailable p)),
      (''provenance'', FText (provenance_name (pr_provenance p)))]"

definition ctl_paths :: "bool \<Rightarrow> link \<Rightarrow> ctl_run" where
  "ctl_paths json lk =
     (case lk_paths lk of
        Inl _ \<Rightarrow> fails 4
      | Inr ps \<Rightarrow>
          says (concat (map (\<lambda>p. out_block json (ctl_path_fields p)) ps) @ (if ps = [] then [''no paths registered''] else [])))"

definition ctl_grant_fields :: "grant_record \<Rightarrow> (string \<times> field_value) list" where
  "ctl_grant_fields g =
     [(''id'', FText (typed_id_to_string ''grant'' (gr_id g))), (''state'', FText (grant_state_name (gr_state g))),
      (''class'', FText (grant_class_name (gr_class g))), (''amount'', FNumber (gr_amount g)),
      (''holder'', FText (typed_id_to_string ''site'' (gb_holder (gr_binding g)))),
      (''path'', FText (typed_id_to_string ''path'' (gb_path (gr_binding g)))),
      (''lease'', FText (typed_id_to_string ''lease'' (gb_lease (gr_binding g)))),
      (''arbitration'', FText (u64_to_string (gr_arbitration g))),
      (''verification'', FText (verification_state_name (gr_verification g))),
      (''acknowledged'', out_bool (gr_acknowledged g)), (''historical'', out_bool (gr_historical g)),
      (''ambiguous'', out_bool (gr_ambiguous g)), (''provenance'', FText (provenance_name (gr_provenance g))),
      (''reason'', FText (gr_reason g))]"

definition ctl_grants :: "bool \<Rightarrow> arguments \<Rightarrow> link \<Rightarrow> ctl_run" where
  "ctl_grants json args lk =
     (case (if has args ''path'' then typed_id_parse ''path'' (value_or args ''path'' []) else Inr nil_id) of
        Inl _ \<Rightarrow> fails 2
      | Inr path \<Rightarrow>
          (case (if has args ''site'' then typed_id_parse ''site'' (value_or args ''site'' []) else Inr nil_id) of
             Inl _ \<Rightarrow> fails 2
           | Inr site \<Rightarrow>
               (case lk_grants lk \<lparr>lf_include_terminal = flag_or args ''include-terminal'' True,
                       lf_limit = ucast (u64_or args ''limit'' 4096), lf_path = path, lf_site = site\<rparr> of
                  Inl _ \<Rightarrow> fails 4
                | Inr gs \<Rightarrow>
                    says (concat (map (\<lambda>g. out_block json (ctl_grant_fields g)) gs) @
                          (if gs = [] then [''no grants''] else [])))))"

definition ctl_ledger_fields :: "path_id \<Rightarrow> capacity_ledger \<Rightarrow> (string \<times> field_value) list" where
  "ctl_ledger_fields path l =
     [(''path'', FText (typed_id_to_string ''path'' path)), (''authoritative_usable'', FNumber (cl_authoritative_usable l)),
      (''committed'', FNumber (cl_committed l)), (''withdrawing'', FNumber (cl_withdrawing l)),
      (''reserved'', FNumber (cl_reserved l)), (''protected_headroom'', FNumber (cl_protected_headroom l)),
      (''unavailable'', FNumber (cl_unavailable l)), (''free'', FNumber (cl_free l)),
      (''allocatable'', FNumber (cl_allocatable l)), (''reclaimable'', FNumber (cl_reclaimable l)),
      (''oversubscribed'', FNumber (cl_oversubscribed l)),
      (''authorized_extension'', FNumber (cl_authorized_extension l)),
      (''closure'', FText (status_name (verify_closure l)))]"

text \<open>The lines and the number of failures over the selected paths.\<close>

fun ctl_check_ledgers :: "bool \<Rightarrow> link \<Rightarrow> path_record list \<Rightarrow> string list \<times> nat" where
  "ctl_check_ledgers json lk [] = ([], 0)"
| "ctl_check_ledgers json lk (p # ps) =
     (case ctl_check_ledgers json lk ps of
        (lines, failures) \<Rightarrow>
          (case lk_ledger lk (pr_id p) of
             Inl _ \<Rightarrow> (lines, failures + 1)
           | Inr l \<Rightarrow>
               (out_block json (ctl_ledger_fields (pr_id p) l) @ lines,
                if verify_closure l \<noteq> StOk then failures + 1 else failures)))"

definition ctl_ledgers :: "bool \<Rightarrow> link \<Rightarrow> path_record list \<Rightarrow> ctl_run" where
  "ctl_ledgers json lk ps =
     (case ctl_check_ledgers json lk ps of
        (lines, failures) \<Rightarrow> (says lines)\<lparr>rn_code := (if failures = 0 then 0 else 5)\<rparr>)"

definition ctl_verify :: "bool \<Rightarrow> link \<Rightarrow> ctl_run" where
  "ctl_verify json lk = (case lk_paths lk of Inl _ \<Rightarrow> fails 4 | Inr ps \<Rightarrow> ctl_ledgers json lk ps)"

definition ctl_ledger :: "bool \<Rightarrow> arguments \<Rightarrow> link \<Rightarrow> ctl_run" where
  "ctl_ledger json args lk =
     (case lk_paths lk of
        Inl _ \<Rightarrow> fails 4
      | Inr ps \<Rightarrow>
          (case typed_id_parse ''path'' (value_or args ''path'' []) of
             Inl _ \<Rightarrow> fails 2
           | Inr wanted \<Rightarrow>
               let selected = filter (\<lambda>p. pr_id p = wanted) ps
               in if selected = [] then fails 4 else ctl_ledgers json lk selected))"

definition ctl_digest :: "bool \<Rightarrow> link \<Rightarrow> ctl_run" where
  "ctl_digest json lk =
     (case lk_digest lk of
        Inl _ \<Rightarrow> fails 4
      | Inr r \<Rightarrow>
          says (out_block json
            [(''state_digest'', FText (digest_to_string (dr_state_digest r))), (''policy_digest'', FText (dr_policy_digest r)),
             (''last_arbitration'', FNumber (dr_last_arbitration r)), (''sites'', FNumber (dr_sites r)),
             (''paths'', FNumber (dr_paths r)), (''grants'', FNumber (dr_grants r))]))"

definition ctl_snapshot :: "bool \<Rightarrow> link \<Rightarrow> ctl_run" where
  "ctl_snapshot json lk =
     (case lk_snapshot lk of
        Inl _ \<Rightarrow> fails 4
      | Inr sn \<Rightarrow>
          says (out_block json
            [(''epoch'', FText (u64_to_string (sn_epoch sn))),
             (''incarnation'', FText (typed_id_to_string ''inc'' (sn_incarnation sn))),
             (''sites'', FNumber (of_nat (length (sn_sites sn)))), (''paths'', FNumber (of_nat (length (sn_paths sn)))),
             (''domains'', FNumber (of_nat (length (sn_domains sn)))),
             (''attestations'', FNumber (of_nat (length (sn_attestations sn)))),
             (''grants'', FNumber (of_nat (length (sn_grants sn)))),
             (''verifications'', FNumber (of_nat (length (sn_verifications sn)))),
             (''oversubscriptions'', FNumber (of_nat (length (sn_oversubscriptions sn)))),
             (''last_arbitration'', FNumber (sn_last_arbitration sn))]))"

definition ctl_tick :: "link \<Rightarrow> ctl_run" where
  "ctl_tick lk =
     (let rq = RqTick (lk_now lk)
      in case lk_mutate lk rq of
           Inl s \<Rightarrow> sends rq (if s \<noteq> StRefused then fails 4 else says [''nothing to expire''])
         | Inr _ \<Rightarrow> sends rq (says [''tick applied'']))"

definition ctl_shutdown :: "link \<Rightarrow> ctl_run" where
  "ctl_shutdown lk = (if lk_shutdown lk \<noteq> StOk then fails 4 else says [''shutdown accepted''])"

end
