(* ===== verification/Operator.thy ===== *)
theory Operator
  imports Control Example
begin

text \<open>
  The commands of the operator tool that ask for mutations, and its main function
  (\<open>apps/isfctl/main.cpp\<close>).
\<close>

section \<open>Topology and policy\<close>

definition principal_named :: "arguments \<Rightarrow> u64 \<Rightarrow> principal_id" where
  "principal_named args salt = from_seed (fnv1a64 (value_or args ''principal'' ''operator'')) salt"

definition ctl_site_register :: "bool \<Rightarrow> arguments \<Rightarrow> link \<Rightarrow> ctl_run" where
  "ctl_site_register json args lk =
     (let name = value_or args ''name'' [];
          descriptor = \<lparr>sdesc_id = id_or (parse_id args ''site-id'') (from_seed (fnv1a64 name) 0x15F0517E),
                        sdesc_name = name, sdesc_advertised_capacity = u64_or args ''capacity'' 0\<rparr>
      in asks lk (RqRegisterSite
           \<lparr>sreg_descriptor = descriptor, sreg_incarnation = id_or (parse_incarnation args ''incarnation'') (lk_random lk),
            sreg_epoch = epoch_of lk, sreg_now_ms = lk_now lk\<rparr>) (\<lambda>report.
         case extract_site report of
           Inl _ \<Rightarrow> fails 4
         | Inr s \<Rightarrow>
             says (out_fields json
               [(''site_id'', FText (typed_id_to_string ''site'' (sr_id s))),
                (''generation'', FText (u64_to_string (sr_generation s))),
                (''incarnation'', FText (typed_id_to_string ''inc'' (sr_incarnation s))),
                (''state'', FText (site_state_name (sr_state s)))])))"

definition ctl_site_state :: "arguments \<Rightarrow> link \<Rightarrow> ctl_run" where
  "ctl_site_state args lk =
     (case (typed_id_parse ''site'' (value_or args ''site'' []), site_state_from_name (value_or args ''state'' [])) of
        (Inr site, Some st) \<Rightarrow>
          asks lk (RqSetSiteState site st (value_or args ''reason'' []) (lk_now lk)) (\<lambda>_.
            says [''site '' @ typed_id_to_string ''site'' site @ '' set to '' @ site_state_name st])
      | _ \<Rightarrow> fails 2)"

definition ctl_path_register :: "bool \<Rightarrow> arguments \<Rightarrow> link \<Rightarrow> ctl_run" where
  "ctl_path_register json args lk =
     (case (typed_id_parse ''path'' (value_or args ''path'' []), typed_id_parse ''site'' (value_or args ''a'' []),
            typed_id_parse ''site'' (value_or args ''b'' [])) of
        (Inr path, Inr a, Inr b) \<Rightarrow>
          let descriptor = \<lparr>pdesc_id = path, pdesc_name = value_or args ''name'' (value_or args ''path'' []),
                pdesc_edge = id_or (parse_id args ''edge'') nil_id,
                pdesc_shared_risk_domain = id_or (parse_id args ''domain'') nil_id, pdesc_endpoint_a = a,
                pdesc_endpoint_b = b\<rparr>
          in asks lk (RqRegisterPath
               \<lparr>preg_descriptor = descriptor, preg_path_generation = u64_or args ''generation'' 1,
                preg_state = (case path_state_from_name (value_or args ''state'' ''UP'') of Some st \<Rightarrow> st | None \<Rightarrow> PsUp),
                preg_advertised = u64_or args ''advertised'' 0, preg_observed = u64_or args ''observed'' 0,
                preg_now_ms = lk_now lk\<rparr>) (\<lambda>report.
             case extract_path report of
               Inl _ \<Rightarrow> fails 4
             | Inr p \<Rightarrow>
                 says (out_fields json
                   [(''path_id'', FText (typed_id_to_string ''path'' (pr_id p))),
                    (''generation'', FText (u64_to_string (pr_generation p))),
                    (''capacity_generation'', FText (u64_to_string (pr_capacity_generation p))),
                    (''authoritative_usable'', FNumber (pr_authoritative_usable p))]))
      | _ \<Rightarrow> fails 2)"

definition ctl_path_state :: "arguments \<Rightarrow> link \<Rightarrow> ctl_run" where
  "ctl_path_state args lk =
     (case (typed_id_parse ''path'' (value_or args ''path'' []), path_state_from_name (value_or args ''state'' [])) of
        (Inr path, Some st) \<Rightarrow>
          asks lk (RqSetPathState path st (value_or args ''reason'' []) (lk_now lk)) (\<lambda>_.
            says [''path '' @ typed_id_to_string ''path'' path @ '' set to '' @ path_state_name st])
      | _ \<Rightarrow> fails 2)"

text \<open>The record of a path or site in a listing; the loops keep the last match.\<close>

definition last_match :: "('a \<Rightarrow> bool) \<Rightarrow> 'a list \<Rightarrow> 'a option" where
  "last_match wanted xs = find wanted (rev xs)"

definition ctl_attestation :: "arguments \<Rightarrow> link \<Rightarrow> path_record \<Rightarrow> digest256 \<Rightarrow> capacity_attestation" where
  "ctl_attestation args lk path evidence =
     \<lparr>ca_id = lk_random lk, ca_path = pr_id path, ca_path_generation = pr_generation path,
      ca_capacity_generation = u64_or args ''capacity-generation'' (pr_capacity_generation path + 1),
      ca_usable = u64_or args ''usable'' 0, ca_advertised = u64_or args ''advertised'' 0,
      ca_observed = u64_or args ''observed'' 0, ca_issuer = hr_server_incarnation (lk_hello lk),
      ca_epoch = epoch_of lk, ca_principal = id_or (parse_id args ''principal'') (principal_named args 7),
      ca_observed_at_ms = lk_now lk, ca_evidence = evidence, ca_source = value_or args ''source'' ''isfctl''\<rparr>"

definition evidence_or :: "arguments \<Rightarrow> string \<Rightarrow> digest256 expected" where
  "evidence_or args default_source =
     digest_parse (value_or args ''evidence'' (digest_to_hex (digest_of_bytes (map byte_of_char default_source))))"

definition ctl_attest :: "arguments \<Rightarrow> link \<Rightarrow> ctl_run" where
  "ctl_attest args lk =
     (case typed_id_parse ''path'' (value_or args ''path'' []) of
        Inl _ \<Rightarrow> fails 2
      | Inr path \<Rightarrow>
          if \<not> has args ''usable'' then fails 2
          else
            (case lk_paths lk of
               Inl _ \<Rightarrow> fails 4
             | Inr ps \<Rightarrow>
                 (case last_match (\<lambda>p. pr_id p = path) ps of
                    None \<Rightarrow> fails 4
                  | Some p \<Rightarrow>
                      (case evidence_or args (value_or args ''source'' ''isfctl'') of
                         Inl _ \<Rightarrow> fails 2
                       | Inr evidence \<Rightarrow>
                           let att = ctl_attestation args lk p evidence
                           in asks lk (RqAttestCapacity att) (\<lambda>_.
                                says [''path '' @ typed_id_to_string ''path'' path @ '' attested usable='' @
                                      u64_to_string (ca_usable att) @ '' capacity_generation='' @
                                      u64_to_string (ca_capacity_generation att)])))))"

definition ctl_oversubscribe :: "arguments \<Rightarrow> link \<Rightarrow> ctl_run" where
  "ctl_oversubscribe args lk =
     (case typed_id_parse ''path'' (value_or args ''path'' []) of
        Inl _ \<Rightarrow> fails 2
      | Inr path \<Rightarrow>
          if \<not> has args ''ratio-bps'' then fails 2
          else
            (case lk_paths lk of
               Inl _ \<Rightarrow> fails 4
             | Inr ps \<Rightarrow>
                 (case last_match (\<lambda>p. pr_id p = path) ps of
                    None \<Rightarrow> fails 4
                  | Some p \<Rightarrow>
                      (case lk_status lk of
                         Inl _ \<Rightarrow> fails 4
                       | Inr r \<Rightarrow>
                           let ratio = ucast (u64_or args ''ratio-bps'' 0) :: u32
                           in asks lk (RqIssueOversubscription
                                \<lparr>oa_id = lk_random lk, oa_path = path, oa_path_generation = pr_generation p,
                                 oa_capacity_generation = pr_capacity_generation p,
                                 oa_policy_generation = po_generation (sp_policy r), oa_epoch = epoch_of lk,
                                 oa_issuer = hr_server_incarnation (lk_hello lk), oa_ratio_bps = ratio,
                                 oa_issued_at_ms = lk_now lk, oa_not_after_ms = u64_or args ''not-after-ms'' 0,
                                 oa_principal = principal_named args 8\<rparr>) (\<lambda>_.
                                says [''oversubscription issued for path '' @ typed_id_to_string ''path'' path @
                                      '' ratio='' @ nat_to_dec (unat ratio) @ '' bps''])))))"

definition u32_or :: "arguments \<Rightarrow> string \<Rightarrow> u32 \<Rightarrow> u32" where
  "u32_or args flag fallback = ucast (u64_or args flag (ucast fallback))"

definition ctl_policy :: "arguments \<Rightarrow> policy \<Rightarrow> policy" where
  "ctl_policy args p =
     p\<lparr>po_generation := u64_or args ''generation'' (po_generation p + 1),
       po_protected_floor_units := u64_or args ''protected-units'' (po_protected_floor_units p),
       po_protected_floor_bps := u32_or args ''protected-bps'' (po_protected_floor_bps p),
       po_min_free_units := u64_or args ''min-free-units'' (po_min_free_units p),
       po_min_free_bps := u32_or args ''min-free-bps'' (po_min_free_bps p),
       po_max_oversubscription_bps := u32_or args ''max-oversubscription-bps'' (po_max_oversubscription_bps p),
       po_max_lease_duration_ms := u64_or args ''max-lease-ms'' (po_max_lease_duration_ms p),
       po_max_grants_per_path := u32_or args ''max-grants-per-path'' (po_max_grants_per_path p),
       po_max_grants_per_site := u32_or args ''max-grants-per-site'' (po_max_grants_per_site p),
       po_max_srd_concentration_bps := u32_or args ''srd-concentration-bps'' (po_max_srd_concentration_bps p),
       po_allow_degraded_activation := flag_or args ''allow-degraded-activation'' (po_allow_degraded_activation p),
       po_require_verification_for_active := flag_or args ''require-verification'' (po_require_verification_for_active p),
       po_auto_reconcile_on_restart := flag_or args ''auto-reconcile'' (po_auto_reconcile_on_restart p),
       po_allow_partition_optimistic_recovery := False\<rparr>"

definition ctl_policy_install :: "arguments \<Rightarrow> link \<Rightarrow> ctl_run" where
  "ctl_policy_install args lk =
     (case lk_status lk of
        Inl _ \<Rightarrow> fails 4
      | Inr r \<Rightarrow>
          let p = ctl_policy args (sp_policy r)
          in asks lk (RqInstallPolicy p (principal_named args 9)) (\<lambda>_.
               says [''policy generation '' @ u64_to_string (po_generation p) @ '' installed'']))"

definition ctl_epoch_bump :: "arguments \<Rightarrow> link \<Rightarrow> ctl_run" where
  "ctl_epoch_bump args lk =
     (let next_epoch = u64_or args ''epoch'' (epoch_of lk + 1)
      in asks lk (RqBumpEpoch next_epoch (principal_named args 10)) (\<lambda>_.
           says [''epoch advanced to '' @ u64_to_string next_epoch]))"

section \<open>Grants\<close>

definition ctl_grant_propose :: "bool \<Rightarrow> arguments \<Rightarrow> link \<Rightarrow> ctl_run" where
  "ctl_grant_propose json args lk =
     (case (typed_id_parse ''site'' (value_or args ''site'' []), typed_id_parse ''path'' (value_or args ''path'' [])) of
        (Inr site, Inr path) \<Rightarrow>
          if \<not> has args ''amount'' then fails 2
          else
            (case lk_sites lk of
               Inl _ \<Rightarrow> fails 4
             | Inr ss \<Rightarrow>
                 (case last_match (\<lambda>s. sr_id s = site) ss of
                    None \<Rightarrow> fails 4
                  | Some s \<Rightarrow>
                      asks lk (RqProposeGrant
                        \<lparr>gp_request = id_or (parse_id args ''request'') (lk_random lk), gp_holder = site,
                         gp_holder_incarnation = id_or (parse_incarnation args ''incarnation'') (sr_incarnation s),
                         gp_holder_generation = sr_generation s, gp_path = path, gp_amount = u64_or args ''amount'' 0,
                         gp_grant_class = (if value_or args ''class'' ''general'' = ''protected'' then GcProtected else GcGeneral),
                         gp_duration_ms = u64_or args ''duration-ms'' 60000, gp_now_ms = lk_now lk,
                         gp_reason = value_or args ''reason'' ''operator proposal'',
                         gp_grant_id = id_or (parse_id args ''grant'') nil_id, gp_lease = nil_id\<rparr>) (\<lambda>report.
                        case extract_grant report of
                          Inl _ \<Rightarrow> fails 4
                        | Inr g \<Rightarrow>
                            says (out_fields json
                              [(''grant_id'', FText (typed_id_to_string ''grant'' (gr_id g))),
                               (''state'', FText (grant_state_name (gr_state g))),
                               (''lease'', FText (typed_id_to_string ''lease'' (gb_lease (gr_binding g)))),
                               (''arbitration'', FText (u64_to_string (gr_arbitration g)))]))))
      | _ \<Rightarrow> fails 2)"

definition blank_operation :: grant_operation where
  "blank_operation =
     \<lparr>go_grant = nil_id, go_request = nil_id, go_actor = nil_id, go_actor_incarnation = nil_id, go_actor_generation = 0,
      go_epoch = 0, go_path_generation = 0, go_capacity_generation = 0, go_policy_generation = 0, go_lease = nil_id,
      go_now_ms = 0, go_reason = []\<rparr>"

definition ctl_operation :: "string \<Rightarrow> arguments \<Rightarrow> link \<Rightarrow> grant_id \<Rightarrow> grant_operation" where
  "ctl_operation command args lk grant =
     blank_operation\<lparr>go_grant := grant,
       go_actor :=
         (if has args ''site'' then
            (case typed_id_parse ''site'' (value_or args ''site'' []) of Inl _ \<Rightarrow> nil_id | Inr x \<Rightarrow> x)
          else nil_id),
       go_actor_incarnation := id_or (parse_incarnation args ''incarnation'') nil_id,
       go_epoch := epoch_of lk, go_now_ms := lk_now lk,
       go_reason := value_or args ''reason'' (''isfctl '' @ command)\<rparr>"

definition operation_request :: "string \<Rightarrow> grant_operation \<Rightarrow> request" where
  "operation_request command op =
     (if command = ''grant-evaluate'' then RqEvaluateGrant op
      else if command = ''grant-reserve'' then RqReserveGrant op
      else if command = ''grant-activate'' then RqActivateGrant op
      else if command = ''grant-degrade'' then RqDegradeGrant op
      else if command = ''grant-withdraw'' then RqWithdrawGrant op
      else if command = ''grant-retire'' then RqRetireGrant op
      else RqCancelGrant op)"

definition ctl_grant_operation :: "bool \<Rightarrow> string \<Rightarrow> arguments \<Rightarrow> link \<Rightarrow> ctl_run" where
  "ctl_grant_operation json command args lk =
     (case typed_id_parse ''grant'' (value_or args ''grant'' []) of
        Inl _ \<Rightarrow> fails 2
      | Inr grant \<Rightarrow>
          asks lk (operation_request command (ctl_operation command args lk grant)) (\<lambda>report.
            case extract_grant report of
              Inl _ \<Rightarrow> fails 4
            | Inr g \<Rightarrow>
                says (out_fields json
                  [(''grant_id'', FText (typed_id_to_string ''grant'' (gr_id g))),
                   (''state'', FText (grant_state_name (gr_state g)))])))"

definition ctl_grant_ack :: "arguments \<Rightarrow> link \<Rightarrow> ctl_run" where
  "ctl_grant_ack args lk =
     (case typed_id_parse ''grant'' (value_or args ''grant'' []) of
        Inl _ \<Rightarrow> fails 2
      | Inr grant \<Rightarrow>
          asks lk (RqAcknowledgeGrant
            \<lparr>gk_grant = grant, gk_actor = nil_id, gk_actor_incarnation = nil_id, gk_epoch = epoch_of lk,
             gk_now_ms = lk_now lk\<rparr>) (\<lambda>report.
            says [''grant '' @ typed_id_to_string ''grant'' grant @ '' acknowledged='' @
                  (case extract_grant report of Inr g \<Rightarrow> if gr_acknowledged g then ''true'' else ''false'' | Inl _ \<Rightarrow> ''false'') @
                  '' verification='' @
                  (case extract_grant report of Inr g \<Rightarrow> verification_state_name (gr_verification g) | Inl _ \<Rightarrow> ''UNKNOWN'')]))"

definition verification_result :: "string \<Rightarrow> verification_state option" where
  "verification_result name =
     (if name = ''verified'' then Some VsVerified
      else if name = ''failed'' then Some VsFailed
      else if name = ''indeterminate'' then Some VsIndeterminate
      else None)"

definition ctl_grant_verify :: "arguments \<Rightarrow> link \<Rightarrow> ctl_run" where
  "ctl_grant_verify args lk =
     (case typed_id_parse ''grant'' (value_or args ''grant'' []) of
        Inl _ \<Rightarrow> fails 2
      | Inr grant \<Rightarrow>
          (case verification_result (value_or args ''result'' ''verified'') of
             None \<Rightarrow> fails 2
           | Some result \<Rightarrow>
               (case evidence_or args ''grant-verify'' of
                  Inl _ \<Rightarrow> fails 2
                | Inr evidence \<Rightarrow>
                    asks lk (RqVerifyGrant
                      \<lparr>gv_id = lk_random lk, gv_grant = grant,
                       gv_verifier = from_seed (fnv1a64 (value_or args ''verifier'' ''verifier'')) 11, gv_result = result,
                       gv_evidence = evidence, gv_now_ms = lk_now lk, gv_detail = value_or args ''detail'' []\<rparr>) (\<lambda>_.
                      says [''grant '' @ typed_id_to_string ''grant'' grant @ '' verification='' @
                            verification_state_name result]))))"

definition ctl_grant_reconcile :: "bool \<Rightarrow> arguments \<Rightarrow> link \<Rightarrow> ctl_run" where
  "ctl_grant_reconcile json args lk =
     (case typed_id_parse ''grant'' (value_or args ''grant'' []) of
        Inl _ \<Rightarrow> fails 2
      | Inr grant \<Rightarrow>
          asks lk (RqReconcileGrant
            (blank_operation\<lparr>go_grant := grant, go_epoch := epoch_of lk, go_now_ms := lk_now lk,
               go_reason := value_or args ''reason'' ''operator reconciliation''\<rparr>)
            (if value_or args ''target'' ''retired'' = ''active'' then GsActive else GsRetired) (principal_named args 12))
            (\<lambda>report.
               says (out_fields json
                 [(''grant_id'', FText (typed_id_to_string ''grant'' grant)),
                  (''state'', FText (case extract_grant report of Inr g \<Rightarrow> grant_state_name (gr_state g) | Inl _ \<Rightarrow> ''UNKNOWN''))])))"

section \<open>The program\<close>

definition ctl_command :: "string \<Rightarrow> endpoint \<Rightarrow> arguments \<Rightarrow> link \<Rightarrow> ctl_run" where
  "ctl_command command e args lk =
     (let json = has args ''json''
      in if command = ''probe'' then ctl_probe json e lk
         else if command = ''status'' then ctl_status json lk
         else if command = ''sites'' then ctl_sites json lk
         else if command = ''paths'' then ctl_paths json lk
         else if command = ''grants'' then ctl_grants json args lk
         else if command = ''ledger'' then ctl_ledger json args lk
         else if command = ''verify'' then ctl_verify json lk
         else if command = ''digest'' then ctl_digest json lk
         else if command = ''snapshot'' then ctl_snapshot json lk
         else if command = ''tick'' then ctl_tick lk
         else if command = ''shutdown'' then ctl_shutdown lk
         else if command = ''site-register'' then ctl_site_register json args lk
         else if command = ''site-state'' then ctl_site_state args lk
         else if command = ''path-register'' then ctl_path_register json args lk
         else if command = ''path-state'' then ctl_path_state args lk
         else if command = ''attest'' then ctl_attest args lk
         else if command = ''oversubscribe'' then ctl_oversubscribe args lk
         else if command = ''policy-install'' then ctl_policy_install args lk
         else if command = ''epoch-bump'' then ctl_epoch_bump args lk
         else if command = ''grant-propose'' then ctl_grant_propose json args lk
         else if command \<in> {''grant-evaluate'', ''grant-reserve'', ''grant-activate'', ''grant-degrade'', ''grant-withdraw'',
                            ''grant-retire'', ''grant-cancel''} then ctl_grant_operation json command args lk
         else if command = ''grant-ack'' then ctl_grant_ack args lk
         else if command = ''grant-verify'' then ctl_grant_verify args lk
         else if command = ''grant-reconcile'' then ctl_grant_reconcile json args lk
         else fails 2)"

definition isfctl :: "(endpoint \<Rightarrow> link expected) \<Rightarrow> string list \<Rightarrow> ctl_run" where
  "isfctl connect tokens =
     (let args = arguments_of tokens
      in if has args ''help'' \<or> ar_positionals args = [] then
           (says ctl_usage)\<lparr>rn_code := (if has args ''help'' then 0 else 2)\<rparr>
         else
           let command = positional args 0 []
           in if command \<notin> set kCommands then fails 2
              else if arguments_validate args [''daemon''] \<noteq> StOk then fails 2
              else
                case endpoint_parse (value_or args ''daemon'' []) of
                  Inl _ \<Rightarrow> fails 2
                | Inr e \<Rightarrow> (case connect e of Inl _ \<Rightarrow> fails 3 | Inr lk \<Rightarrow> ctl_command command e args lk))"

section \<open>What an exit code says\<close>

text \<open>
  At most one mutation per run, and an exit code that tells what became of it: success for one
  that was accepted, or a tick for which nothing was due, and failure for one that was refused or
  whose report lacks the record that the command prints.
\<close>

definition lacks_record :: "request \<Rightarrow> mutation_report \<Rightarrow> bool" where
  "lacks_record rq report =
     (case rq of
        RqRegisterSite _ \<Rightarrow> isl (extract_site report)
      | RqRegisterPath _ \<Rightarrow> isl (extract_path report)
      | RqProposeGrant _ \<Rightarrow> isl (extract_grant report)
      | RqEvaluateGrant _ \<Rightarrow> isl (extract_grant report)
      | RqReserveGrant _ \<Rightarrow> isl (extract_grant report)
      | RqActivateGrant _ \<Rightarrow> isl (extract_grant report)
      | RqDegradeGrant _ \<Rightarrow> isl (extract_grant report)
      | RqWithdrawGrant _ \<Rightarrow> isl (extract_grant report)
      | RqRetireGrant _ \<Rightarrow> isl (extract_grant report)
      | RqCancelGrant _ \<Rightarrow> isl (extract_grant report)
      | _ \<Rightarrow> False)"

definition told :: "link \<Rightarrow> request \<Rightarrow> nat \<Rightarrow> bool" where
  "told lk rq code \<longleftrightarrow>
     code = 0 \<and> ((\<exists>report. lk_mutate lk rq = Inr report) \<or> (\<exists>now. rq = RqTick now \<and> lk_mutate lk rq = Inl StRefused)) \<or>
     code > 0 \<and> ((\<exists>s. lk_mutate lk rq = Inl s) \<or> (\<exists>report. lk_mutate lk rq = Inr report \<and> lacks_record rq report))"

definition truthful :: "link \<Rightarrow> ctl_run \<Rightarrow> bool" where
  "truthful lk r \<longleftrightarrow> rn_sent r = [] \<or> (\<exists>rq. rn_sent r = [rq] \<and> told lk rq (rn_code r))"

lemma truthful_quiet [simp]: "truthful lk (fails code)" "truthful lk (says lines)" "truthful lk ((says lines)\<lparr>rn_code := code\<rparr>)"
  by (simp_all add: truthful_def fails_def says_def)

text \<open>What follows an accepted request sends nothing more, and fails only without a record to print.\<close>

definition settled_run :: "request \<Rightarrow> mutation_report \<Rightarrow> ctl_run \<Rightarrow> bool" where
  "settled_run rq report r \<longleftrightarrow> rn_sent r = [] \<and> (rn_code r = 0 \<or> lacks_record rq report)"

lemma settled_quiet [simp]: "settled_run rq report (says lines)"
  "settled_run rq report (fails code) \<longleftrightarrow> code = 0 \<or> lacks_record rq report"
  by (simp_all add: settled_run_def says_def fails_def)

lemma truthful_asks [simp]:
  assumes "\<And>report. settled_run rq report (k report)"
  shows "truthful lk (asks lk rq k)"
proof (cases "lk_mutate lk rq")
  case (Inr report)
  then show ?thesis using assms [of report] by (auto simp: truthful_def told_def settled_run_def asks_def sends_def)
qed (simp add: truthful_def told_def asks_def sends_def fails_def)

lemma truthful_inspection:
  "truthful lk (ctl_probe json e lk)" "truthful lk (ctl_status json lk)" "truthful lk (ctl_sites json lk)"
  "truthful lk (ctl_paths json lk)" "truthful lk (ctl_grants json args lk)" "truthful lk (ctl_ledgers json lk ps)"
  "truthful lk (ctl_digest json lk)" "truthful lk (ctl_snapshot json lk)" "truthful lk (ctl_shutdown lk)"
  by (simp_all add: ctl_probe_def ctl_status_def ctl_sites_def ctl_paths_def ctl_grants_def ctl_ledgers_def ctl_digest_def
      ctl_snapshot_def ctl_shutdown_def Let_def split: sum.split prod.split)

lemma truthful_checks: "truthful lk (ctl_verify json lk)" "truthful lk (ctl_ledger json args lk)"
  by (simp_all add: ctl_verify_def ctl_ledger_def truthful_inspection Let_def split: sum.split)

lemma truthful_tick: "truthful lk (ctl_tick lk)"
  by (auto simp: ctl_tick_def truthful_def told_def sends_def fails_def says_def Let_def split: sum.split)

lemma truthful_mutations:
  "truthful lk (ctl_site_register json args lk)" "truthful lk (ctl_site_state args lk)"
  "truthful lk (ctl_path_register json args lk)" "truthful lk (ctl_path_state args lk)" "truthful lk (ctl_attest args lk)"
  "truthful lk (ctl_oversubscribe args lk)" "truthful lk (ctl_policy_install args lk)" "truthful lk (ctl_epoch_bump args lk)"
  "truthful lk (ctl_grant_propose json args lk)" "truthful lk (ctl_grant_operation json command args lk)"
  "truthful lk (ctl_grant_ack args lk)" "truthful lk (ctl_grant_verify args lk)" "truthful lk (ctl_grant_reconcile json args lk)"
  by (simp_all add: ctl_site_register_def ctl_site_state_def ctl_path_register_def ctl_path_state_def ctl_attest_def
      ctl_oversubscribe_def ctl_policy_install_def ctl_epoch_bump_def ctl_grant_propose_def ctl_grant_operation_def
      ctl_grant_ack_def ctl_grant_verify_def ctl_grant_reconcile_def operation_request_def lacks_record_def Let_def
      split: sum.split option.split)

lemma truthful_command: "truthful lk (ctl_command command e args lk)"
  by (simp add: ctl_command_def Let_def truthful_inspection truthful_checks truthful_tick truthful_mutations)

text \<open>
  C38: the operator tool tells the truth. Of the requests of a run, which are logged as they are
  sent, at most one is a mutation. When there is one, the run exits with 0 only if the daemon
  accepted it, or if it was a tick for which nothing was due; it fails only if the daemon refused
  it, or if the report that came back lacks the record that the command prints; and a run that
  never reached the daemon asks for nothing.
\<close>

theorem isfctl_exit_truthful:
  "rn_sent (isfctl connect tokens) = [] \<or>
   (\<exists>e lk rq. connect e = Inr lk \<and> rn_sent (isfctl connect tokens) = [rq] \<and>
      (rn_code (isfctl connect tokens) = 0 \<and>
         ((\<exists>report. lk_mutate lk rq = Inr report) \<or> (\<exists>now. rq = RqTick now \<and> lk_mutate lk rq = Inl StRefused)) \<or>
       rn_code (isfctl connect tokens) > 0 \<and>
         ((\<exists>s. lk_mutate lk rq = Inl s) \<or> (\<exists>report. lk_mutate lk rq = Inr report \<and> lacks_record rq report))))"
proof -
  have "rn_sent (isfctl connect tokens) = [] \<or>
      (\<exists>e lk. connect e = Inr lk \<and> truthful lk (isfctl connect tokens))"
    by (auto simp: isfctl_def Let_def fails_def says_def intro: truthful_command split: sum.split)
  then show ?thesis unfolding told_def [symmetric] truthful_def by blast
qed

section \<open>Where the tool departs from its usage text\<close>

text \<open>
  The form the usage text gives does not work. A command written after \<open>--json\<close>, as in
  \<open>isfctl --daemon HOST:PORT --json COMMAND\<close>, is taken for the value of that option: whatever the
  command and the daemon, the program prints its usage and exits with 2 without connecting.
\<close>

lemma json_flag_swallows_command:
  assumes "\<not> is_flag host" and "\<not> is_flag command"
  shows "isfctl connect [''--daemon'', host, ''--json'', command] = \<lparr>rn_code = 2, rn_out = ctl_usage, rn_sent = []\<rparr>"
  using assms by (simp add: isfctl_def arguments_of_def is_flag_def add_option_def has_def says_def)

lemma json_flag_example:
  "\<forall>connect. isfctl connect [''--daemon'', ''127.0.0.1:7400'', ''--json'', ''status''] =
     \<lparr>rn_code = 2, rn_out = ctl_usage, rn_sent = []\<rparr>"
  using json_flag_swallows_command [of "''127.0.0.1:7400''" "''status''"] by (simp add: is_flag_def)

text \<open>
  C40: a mistyped amount attests zero. When the value of \<open>--usable\<close> is not a number, or does not fit
  64 bits, the tool does not refuse it: it asks the daemon to attest a usable capacity of zero for
  the path, the strongest withdrawal an attestation can cause.
\<close>

theorem mistyped_amount_attests_zero:
  assumes "value_of args ''usable'' = Some amount" and "parse_u64 amount = None"
    and "typed_id_parse ''path'' (value_or args ''path'' []) = Inr path" and "lk_paths lk = Inr ps"
    and "last_match (\<lambda>p. pr_id p = path) ps = Some p" and "value_of args ''evidence'' = None"
  shows "\<exists>att. rn_sent (ctl_attest args lk) = [RqAttestCapacity att] \<and> ca_path att = path \<and> ca_usable att = 0"
proof -
  have "has args ''usable''" "u64_or args ''usable'' 0 = 0" "pr_id p = path"
    using assms(1,2,5) by (auto simp: has_def value_of_def u64_or_def last_match_def find_Some_iff)
  moreover have "\<exists>evidence. evidence_or args source = Inr evidence" for source
    using assms(6) by (simp add: evidence_or_def value_or_def digest_text_roundtrip)
  then obtain evidence where "evidence_or args (value_or args ''source'' ''isfctl'') = Inr evidence" by blast
  ultimately show ?thesis
    using assms(3-5) by (auto simp: ctl_attest_def asks_def sends_def fails_def says_def ctl_attestation_def Let_def split: sum.split)
qed

definition demo_attest :: arguments where
  "demo_attest = arguments_of [''attest'', ''--path'', ''00000000000000000000000000000007'', ''--usable'', ''10k'']"

theorem mistyped_amount_attests_zero_witness:
  "\<forall>lk. \<exists>att. rn_sent (ctl_attest demo_attest (lk\<lparr>lk_paths := Inr [demo_path_record]\<rparr>)) = [RqAttestCapacity att] \<and>
     ca_path att = Id128 0 7 \<and> ca_usable att = 0"
proof
  fix lk :: link
  have args: "demo_attest = \<lparr>ar_options = [''path'' \<mapsto> ''00000000000000000000000000000007'', ''usable'' \<mapsto> ''10k''],
      ar_positionals = [''attest'']\<rparr>"
    by (simp add: demo_attest_def arguments_of_def is_flag_def add_option_def)
  have path: "typed_id_parse ''path'' ''00000000000000000000000000000007'' = Inr (Id128 0 7)" by code_simp
  have bad: "parse_u64 ''10k'' = None" by (simp add: parse_u64_def kAmountMax_def)
  show "\<exists>att. rn_sent (ctl_attest demo_attest (lk\<lparr>lk_paths := Inr [demo_path_record]\<rparr>)) = [RqAttestCapacity att] \<and>
      ca_path att = Id128 0 7 \<and> ca_usable att = 0"
    by (rule mistyped_amount_attests_zero [OF _ bad, of _ "Id128 0 7" _ "[demo_path_record]" demo_path_record])
       (simp_all add: args value_of_def value_or_def path last_match_def demo_path_record_def)
qed

end
