(* ===== verification/Agent.thy ===== *)
theory Agent
  imports Operator
begin

text \<open>
  The site agent (\<open>apps/isfsited/main.cpp\<close>): it registers a site, may reconcile a grant, takes a
  grant through its life cycle and sends heartbeats. The fabric it talks to is a state with a
  function that answers mutations; every reading of the clock is an argument. The agent's report
  files and its requests, with whether they were accepted, are logged; an error entry in a report names the status without its detail.
\<close>

section \<open>State\<close>

record 's agent =
  ag_fabric :: 's
  ag_sent :: "(request \<times> bool) list"
  ag_files :: "(string \<times> (string \<times> string) list) list"
  ag_report :: "(string \<times> string) list"

text \<open>A phase either ends the program with an exit code or goes on.\<close>

type_synonym ('s, 'a) phase = "nat \<times> 's agent + 'a \<times> 's agent"

definition pbind :: "('s, 'a) phase \<Rightarrow> ('a \<Rightarrow> 's agent \<Rightarrow> ('s, 'b) phase) \<Rightarrow> ('s, 'b) phase" where
  "pbind p f = (case p of Inl e \<Rightarrow> Inl e | Inr (v, ag) \<Rightarrow> f v ag)"

type_synonym 's fabric = "request \<Rightarrow> 's \<Rightarrow> mutation_report expected \<times> 's"

definition agent_call :: "'s fabric \<Rightarrow> request \<Rightarrow> 's agent \<Rightarrow> mutation_report expected \<times> 's agent" where
  "agent_call call rq ag =
     (case call rq (ag_fabric ag) of
        (r, s) \<Rightarrow>
          (r, ag\<lparr>ag_fabric := s, ag_sent := ag_sent ag @ [(rq, case r of Inl _ \<Rightarrow> False | Inr _ \<Rightarrow> True)]\<rparr>))"

text \<open>Writing a report to a named file, which an empty name switches off.\<close>

definition agent_writes :: "string \<Rightarrow> (string \<times> string) list \<Rightarrow> 's agent \<Rightarrow> 's agent" where
  "agent_writes path entries ag = (if path = [] then ag else ag\<lparr>ag_files := ag_files ag @ [(path, entries)]\<rparr>)"

definition agent_notes :: "(string \<times> string) list \<Rightarrow> 's agent \<Rightarrow> 's agent" where
  "agent_notes entries ag = ag\<lparr>ag_report := ag_report ag @ entries\<rparr>"

text \<open>What the options and the handshake settle before the first request.\<close>

record agent_identity =
  ai_site :: site_id
  ai_incarnation :: incarnation
  ai_epoch :: epoch
  ai_capacity :: amount

record agent_clock =
  at_connected :: u64
  at_reconcile :: u64
  at_propose :: u64
  at_operate :: u64
  at_acknowledge :: u64

definition derive_site_id :: "string \<Rightarrow> site_id" where
  "derive_site_id name = from_seed (fnv1a64 name) 0x15F0517E"

definition base_report :: "site_record \<Rightarrow> (string \<times> string) list" where
  "base_report s =
     [(''site_id'', typed_id_to_string ''site'' (sr_id s)), (''site_name'', sr_name s),
      (''site_incarnation'', typed_id_to_string ''inc'' (sr_incarnation s)),
      (''site_generation'', u64_to_string (sr_generation s)), (''site_state'', site_state_name (sr_state s))]"

section \<open>Registration and reconciliation\<close>

definition agent_registration :: "arguments \<Rightarrow> agent_identity \<Rightarrow> agent_clock \<Rightarrow> request" where
  "agent_registration args ai at =
     RqRegisterSite
       \<lparr>sreg_descriptor = \<lparr>sdesc_id = ai_site ai, sdesc_name = value_or args ''site-name'' [],
          sdesc_advertised_capacity = ai_capacity ai\<rparr>,
        sreg_incarnation = ai_incarnation ai, sreg_epoch = ai_epoch ai, sreg_now_ms = at_connected at\<rparr>"

definition agent_register ::
    "'s fabric \<Rightarrow> arguments \<Rightarrow> agent_identity \<Rightarrow> agent_clock \<Rightarrow> 's agent \<Rightarrow> ('s, site_record) phase" where
  "agent_register call args ai at ag =
     (let result_file = value_or args ''result-file'' [];
          ready_file = value_or args ''ready-file'' []
      in case agent_call call (agent_registration args ai at) ag of
           (Inl s, ag) \<Rightarrow> Inl (4, agent_writes result_file [(''error'', status_name s)] ag)
         | (Inr report, ag) \<Rightarrow>
             (case extract_site report of
                Inl _ \<Rightarrow> Inl (4, ag)
              | Inr s \<Rightarrow>
                  let ag = agent_notes (base_report s @
                             [(''daemon_endpoint'', value_or args ''daemon'' ''127.0.0.1:0''),
                              (''epoch'', u64_to_string (ai_epoch ai))]) ag;
                      ag = agent_writes ready_file (ag_report ag) ag
                  in if value_or args ''fault-inject'' [] = ''registered'' then Inl (1, ag) else Inr (s, ag)))"

definition agent_operation :: "agent_identity \<Rightarrow> grant_id \<Rightarrow> u64 \<Rightarrow> grant_operation" where
  "agent_operation ai grant now =
     blank_operation\<lparr>go_grant := grant, go_actor := ai_site ai, go_actor_incarnation := ai_incarnation ai,
       go_epoch := ai_epoch ai, go_now_ms := now\<rparr>"

definition agent_reconciliation :: "arguments \<Rightarrow> agent_identity \<Rightarrow> agent_clock \<Rightarrow> grant_id \<Rightarrow> request" where
  "agent_reconciliation args ai at grant =
     RqReconcileGrant
       ((agent_operation ai grant (at_reconcile at))\<lparr>go_reason := ''operator reconciliation by site agent''\<rparr>)
       (if value_or args ''reconcile-target'' ''retired'' = ''active'' then GsActive else GsRetired)
       (from_seed (fnv1a64 (value_or args ''site-name'' [])) 1)"

definition agent_reconcile ::
    "'s fabric \<Rightarrow> arguments \<Rightarrow> agent_identity \<Rightarrow> agent_clock \<Rightarrow> 's agent \<Rightarrow> ('s, unit) phase" where
  "agent_reconcile call args ai at ag =
     (let given = value_or args ''reconcile'' [];
          result_file = value_or args ''result-file'' []
      in if given = [] then Inr ((), ag)
         else
           case typed_id_parse ''grant'' given of
             Inl _ \<Rightarrow> Inl (2, ag)
           | Inr grant \<Rightarrow>
               (case agent_call call (agent_reconciliation args ai at grant) ag of
                  (Inl s, ag) \<Rightarrow> Inl (6, agent_writes result_file [(''error'', status_name s)] ag)
                | (Inr report, ag) \<Rightarrow>
                    let ag = agent_notes (case extract_grant report of
                               Inl _ \<Rightarrow> []
                             | Inr g \<Rightarrow> [(''grant_id'', typed_id_to_string ''grant'' (gr_id g)),
                                        (''grant_state'', grant_state_name (gr_state g))]) ag;
                        ag = agent_writes result_file (ag_report ag) ag
                    in if u64_or args ''run-ms'' 0 = 0 then Inl (0, ag) else Inr ((), ag)))"

section \<open>A grant\<close>

text \<open>A refused step: the status is reported and the program ends with code 5.\<close>

definition agent_refused :: "arguments \<Rightarrow> status \<Rightarrow> 's agent \<Rightarrow> ('s, 'a) phase" where
  "agent_refused args s ag =
     (let ag = agent_notes [(''error'', status_name s)] ag
      in Inl (5, agent_writes (value_or args ''result-file'' []) (ag_report ag) ag))"

definition agent_proposal ::
    "arguments \<Rightarrow> agent_identity \<Rightarrow> agent_clock \<Rightarrow> id128 \<Rightarrow> site_record \<Rightarrow> path_id \<Rightarrow> request" where
  "agent_proposal args ai at random s path =
     RqProposeGrant
       \<lparr>gp_request = random, gp_holder = ai_site ai, gp_holder_incarnation = ai_incarnation ai,
        gp_holder_generation = sr_generation s, gp_path = path, gp_amount = u64_or args ''reserve'' 0,
        gp_grant_class = (if value_or args ''grant-class'' ''general'' = ''protected'' then GcProtected else GcGeneral),
        gp_duration_ms = u64_or args ''duration-ms'' 600000, gp_now_ms = at_propose at,
        gp_reason = ''site agent request for '' @ value_or args ''site-name'' [], gp_grant_id = nil_id, gp_lease = nil_id\<rparr>"

definition agent_propose ::
    "'s fabric \<Rightarrow> arguments \<Rightarrow> agent_identity \<Rightarrow> agent_clock \<Rightarrow> id128 \<Rightarrow> site_record \<Rightarrow> path_id \<Rightarrow> 's agent \<Rightarrow>
     ('s, grant_record) phase" where
  "agent_propose call args ai at random s path ag =
     (case agent_call call (agent_proposal args ai at random s path) ag of
        (Inl status, ag) \<Rightarrow> agent_refused args status ag
      | (Inr report, ag) \<Rightarrow>
          (case extract_grant report of
             Inl _ \<Rightarrow> Inl (5, ag)
           | Inr g \<Rightarrow>
               Inr (g, agent_notes
                 [(''grant_id'', typed_id_to_string ''grant'' (gr_id g)),
                  (''lease'', typed_id_to_string ''lease'' (gb_lease (gr_binding g))),
                  (''arbitration'', u64_to_string (gr_arbitration g)),
                  (''grant_state'', grant_state_name (gr_state g))] ag)))"

definition agent_evaluate :: "'s fabric \<Rightarrow> arguments \<Rightarrow> grant_operation \<Rightarrow> 's agent \<Rightarrow> ('s, unit) phase" where
  "agent_evaluate call args op ag =
     (case agent_call call (RqEvaluateGrant op) ag of
        (Inl status, ag) \<Rightarrow> agent_refused args status ag
      | (Inr report, ag) \<Rightarrow>
          let state = (case extract_grant report of Inl _ \<Rightarrow> ''UNKNOWN'' | Inr g \<Rightarrow> grant_state_name (gr_state g));
              ag = agent_notes [(''evaluated_state'', state)] ag
          in if state \<noteq> ''ELIGIBLE'' then Inl (0, agent_writes (value_or args ''result-file'' []) (ag_report ag) ag)
             else Inr ((), ag))"

definition agent_fault :: "arguments \<Rightarrow> string \<Rightarrow> 's agent \<Rightarrow> ('s, unit) phase" where
  "agent_fault args stage ag =
     (if value_or args ''fault-inject'' [] = stage then
        Inl (1, agent_writes (value_or args ''result-file'' []) (ag_report ag) ag)
      else Inr ((), ag))"

definition agent_reserve :: "'s fabric \<Rightarrow> arguments \<Rightarrow> grant_operation \<Rightarrow> 's agent \<Rightarrow> ('s, unit) phase" where
  "agent_reserve call args op ag =
     (case agent_call call (RqReserveGrant op) ag of
        (Inl status, ag) \<Rightarrow> agent_refused args status ag
      | (Inr _, ag) \<Rightarrow> agent_fault args ''reserved'' ag)"

definition agent_activate :: "'s fabric \<Rightarrow> arguments \<Rightarrow> grant_operation \<Rightarrow> 's agent \<Rightarrow> ('s, unit) phase" where
  "agent_activate call args op ag =
     (case agent_call call (RqActivateGrant op) ag of
        (Inl status, ag) \<Rightarrow> agent_refused args status ag
      | (Inr report, ag) \<Rightarrow>
          agent_fault args ''activated'' (agent_notes (case extract_grant report of
            Inl _ \<Rightarrow> [] | Inr g \<Rightarrow> [(''grant_state'', grant_state_name (gr_state g))]) ag))"

definition agent_receipt :: "agent_identity \<Rightarrow> agent_clock \<Rightarrow> grant_id \<Rightarrow> request" where
  "agent_receipt ai at grant =
     RqAcknowledgeGrant
       \<lparr>gk_grant = grant, gk_actor = ai_site ai, gk_actor_incarnation = ai_incarnation ai, gk_epoch = ai_epoch ai,
        gk_now_ms = at_acknowledge at\<rparr>"

text \<open>An acknowledgement the daemon refuses is only noted.\<close>

definition agent_acknowledge ::
    "'s fabric \<Rightarrow> agent_identity \<Rightarrow> agent_clock \<Rightarrow> grant_id \<Rightarrow> 's agent \<Rightarrow> ('s, unit) phase" where
  "agent_acknowledge call ai at grant ag =
     (case agent_call call (agent_receipt ai at grant) ag of
        (r, ag) \<Rightarrow> Inr ((), agent_notes [(''acknowledged'', case r of Inl _ \<Rightarrow> ''0'' | Inr _ \<Rightarrow> ''1'')] ag))"

definition agent_grant ::
    "'s fabric \<Rightarrow> arguments \<Rightarrow> agent_identity \<Rightarrow> agent_clock \<Rightarrow> id128 \<Rightarrow> site_record \<Rightarrow> 's agent \<Rightarrow> ('s, unit) phase" where
  "agent_grant call args ai at random s ag =
     (if value_or args ''path'' [] = [] \<or> u64_or args ''reserve'' 0 = 0 then Inr ((), ag)
      else
        case typed_id_parse ''path'' (value_or args ''path'' []) of
          Inl _ \<Rightarrow> Inl (2, ag)
        | Inr path \<Rightarrow>
            pbind (agent_propose call args ai at random s path ag) (\<lambda>g ag.
              let op = (agent_operation ai (gr_id g) (at_operate at))\<lparr>go_actor_generation := sr_generation s,
                         go_lease := gb_lease (gr_binding g)\<rparr>
              in pbind (agent_evaluate call args op ag) (\<lambda>_ ag.
                 pbind (agent_reserve call args op ag) (\<lambda>_ ag.
                 pbind (agent_activate call args op ag) (\<lambda>_ ag.
                   agent_acknowledge call ai at (gr_id g) ag)))))"

section \<open>Heartbeats\<close>

text \<open>One round of the last loop: whether a stop was requested, the time elapsed and the time of day.\<close>

record beat =
  bt_stop :: bool
  bt_elapsed :: u64
  bt_now :: u64

definition agent_heartbeat :: "agent_identity \<Rightarrow> generation \<Rightarrow> u64 \<Rightarrow> request" where
  "agent_heartbeat ai gen now =
     RqHeartbeat
       \<lparr>hb_id = ai_site ai, hb_incarnation = ai_incarnation ai, hb_generation = gen, hb_epoch = ai_epoch ai,
        hb_advertised_capacity = ai_capacity ai, hb_now_ms = now\<rparr>"

fun agent_loop ::
    "'s fabric \<Rightarrow> arguments \<Rightarrow> agent_identity \<Rightarrow> generation \<Rightarrow> beat list \<Rightarrow> u64 \<Rightarrow> 's agent \<Rightarrow> nat option \<times> 's agent" where
  "agent_loop call args ai gen [] last_heartbeat ag = (None, ag)"
| "agent_loop call args ai gen (b # bs) last_heartbeat ag =
     (let result_file = value_or args ''result-file'' [];
          run_ms = u64_or args ''run-ms'' 0;
          heartbeat_ms = u64_or args ''heartbeat-ms'' 0
      in if bt_stop b \<or> run_ms \<noteq> 0 \<and> bt_elapsed b \<ge> run_ms then
           (let ag = agent_notes [(''exit'', ''clean'')] ag in (Some 0, agent_writes result_file (ag_report ag) ag))
         else if heartbeat_ms \<noteq> 0 \<and> bt_elapsed b - last_heartbeat \<ge> heartbeat_ms then
           (case agent_call call (agent_heartbeat ai gen (bt_now b)) ag of
              (Inl _, ag) \<Rightarrow> (Some 7, agent_writes result_file (ag_report ag) ag)
            | (Inr _, ag) \<Rightarrow> agent_loop call args ai gen bs (bt_elapsed b) ag)
         else agent_loop call args ai gen bs last_heartbeat ag)"

section \<open>The program\<close>

text \<open>The identity, from the options; \<open>random\<close> is drawn when none is given.\<close>

definition agent_identity_of :: "arguments \<Rightarrow> id128 \<Rightarrow> (site_id \<times> incarnation) option" where
  "agent_identity_of args random =
     (case (if has args ''site-id'' then typed_id_parse ''site'' (value_or args ''site-id'' [])
            else Inr (derive_site_id (value_or args ''site-name'' []))) of
        Inl _ \<Rightarrow> None
      | Inr site \<Rightarrow>
          (case (if has args ''incarnation'' then typed_id_parse ''inc'' (value_or args ''incarnation'' []) else Inr random) of
             Inl _ \<Rightarrow> None
           | Inr inc \<Rightarrow> Some (site, inc)))"

definition agent_run ::
    "'s fabric \<Rightarrow> arguments \<Rightarrow> agent_identity \<Rightarrow> agent_clock \<Rightarrow> id128 \<Rightarrow> beat list \<Rightarrow> 's agent \<Rightarrow> nat option \<times> 's agent" where
  "agent_run call args ai at random beats ag =
     (case pbind (agent_register call args ai at ag) (\<lambda>s ag.
             pbind (agent_reconcile call args ai at ag) (\<lambda>_ ag.
             pbind (agent_grant call args ai at random s ag) (\<lambda>_ ag. Inr (s, ag)))) of
        Inl (code, ag) \<Rightarrow> (Some code, ag)
      | Inr (s, ag) \<Rightarrow>
          let ag = agent_writes (value_or args ''result-file'' []) (ag_report ag) ag
          in if flag_or args ''register-only'' False \<or> u64_or args ''run-ms'' 0 = 0 \<and> u64_or args ''heartbeat-ms'' 0 = 0
             then (Some 0, ag)
             else agent_loop call args ai (sr_generation s) beats 0 ag)"

text \<open>
  The main function: \<open>connect\<close> answers with the handshake and the fabric behind it. \<open>None\<close> as exit
  code says that the program is still running when the readings of the clock are used up.
\<close>

definition isfsited ::
    "(endpoint \<Rightarrow> (hello_reply \<times> 's) expected) \<Rightarrow> 's fabric \<Rightarrow> agent_clock \<Rightarrow> id128 \<Rightarrow> id128 \<Rightarrow> beat list \<Rightarrow> string list \<Rightarrow>
     nat option \<times> 's agent option" where
  "isfsited connect call at random_incarnation random_request beats tokens =
     (let args = arguments_of tokens
      in if has args ''help'' then (Some 0, None)
         else if arguments_validate args [''daemon'', ''site-name''] \<noteq> StOk then (Some 2, None)
         else
           case agent_identity_of args random_incarnation of
             None \<Rightarrow> (Some 2, None)
           | Some (site, inc) \<Rightarrow>
               (case endpoint_parse (value_or args ''daemon'' ''127.0.0.1:0'') of
                  Inl _ \<Rightarrow> (Some 2, None)
                | Inr e \<Rightarrow>
                    (case connect e of
                       Inl _ \<Rightarrow> (Some 3, None)
                     | Inr (hello, s) \<Rightarrow>
                         map_prod id Some (agent_run call args
                           \<lparr>ai_site = site, ai_incarnation = inc, ai_epoch = hr_epoch hello,
                            ai_capacity = u64_or args ''advertised-capacity'' 0\<rparr>
                           at random_request beats \<lparr>ag_fabric = s, ag_sent = [], ag_files = [], ag_report = []\<rparr>))))"

section \<open>The order of an agent's requests\<close>

fun agent_stage :: "request \<Rightarrow> nat" where
  "agent_stage (RqRegisterSite _) = 0"
| "agent_stage (RqReconcileGrant _ _ _) = 1"
| "agent_stage (RqProposeGrant _) = 2"
| "agent_stage (RqEvaluateGrant _) = 3"
| "agent_stage (RqReserveGrant _) = 4"
| "agent_stage (RqActivateGrant _) = 5"
| "agent_stage (RqAcknowledgeGrant _) = 6"
| "agent_stage (RqHeartbeat _) = 7"
| "agent_stage _ = 8"

text \<open>A request in the name of the agent's own site and incarnation.\<close>

fun own_request :: "agent_identity \<Rightarrow> request \<Rightarrow> bool" where
  "own_request ai (RqRegisterSite r) \<longleftrightarrow> sdesc_id (sreg_descriptor r) = ai_site ai \<and> sreg_incarnation r = ai_incarnation ai"
| "own_request ai (RqReconcileGrant op _ _) \<longleftrightarrow> go_actor op = ai_site ai \<and> go_actor_incarnation op = ai_incarnation ai"
| "own_request ai (RqProposeGrant p) \<longleftrightarrow> gp_holder p = ai_site ai \<and> gp_holder_incarnation p = ai_incarnation ai"
| "own_request ai (RqEvaluateGrant op) \<longleftrightarrow> go_actor op = ai_site ai \<and> go_actor_incarnation op = ai_incarnation ai"
| "own_request ai (RqReserveGrant op) \<longleftrightarrow> go_actor op = ai_site ai \<and> go_actor_incarnation op = ai_incarnation ai"
| "own_request ai (RqActivateGrant op) \<longleftrightarrow> go_actor op = ai_site ai \<and> go_actor_incarnation op = ai_incarnation ai"
| "own_request ai (RqAcknowledgeGrant k) \<longleftrightarrow> gk_actor k = ai_site ai \<and> gk_actor_incarnation k = ai_incarnation ai"
| "own_request ai (RqHeartbeat h) \<longleftrightarrow> hb_id h = ai_site ai \<and> hb_incarnation h = ai_incarnation ai"
| "own_request ai _ \<longleftrightarrow> False"

text \<open>A logged request that the agent may go on from.\<close>

definition settled :: "request \<times> bool \<Rightarrow> bool" where
  "settled e \<longleftrightarrow> snd e \<or> agent_stage (fst e) = 6"

definition log_of :: "('s, 'a) phase \<Rightarrow> (request \<times> bool) list" where
  "log_of p = (case p of Inl (code, ag) \<Rightarrow> ag_sent ag | Inr (v, ag) \<Rightarrow> ag_sent ag)"

text \<open>A phase sends requests of the given stages, in order, and goes on only when all were settled.\<close>

definition grows :: "agent_identity \<Rightarrow> nat list \<Rightarrow> 's agent \<Rightarrow> ('s, 'a) phase \<Rightarrow> bool" where
  "grows ai stages ag p \<longleftrightarrow>
     (\<exists>xs. log_of p = ag_sent ag @ xs \<and> list_all (own_request ai \<circ> fst) xs \<and>
        map (agent_stage \<circ> fst) xs = take (length xs) stages \<and> list_all settled (butlast xs) \<and>
        (\<forall>v ag'. p = Inr (v, ag') \<longrightarrow> list_all settled xs \<and> length xs = length stages))"

lemma grows_stay: "ag_sent ag' = ag_sent ag \<Longrightarrow> grows ai stages ag (Inl (code, ag'))" "grows ai [] ag (Inr (v, ag))"
  by (auto simp: grows_def log_of_def intro: exI [of _ "[]"])

lemma grows_one:
  assumes "own_request ai rq" and "log_of p = ag_sent ag @ [(rq, b)]" and "\<And>v ag'. p = Inr (v, ag') \<Longrightarrow> settled (rq, b)"
  shows "grows ai [agent_stage rq] ag p"
  using assms by (auto simp: grows_def intro!: exI [of _ "[(rq, b)]"])

lemma grows_bind:
  assumes "grows ai st1 ag p" and "\<And>v ag'. p = Inr (v, ag') \<Longrightarrow> grows ai st2 ag' (f v ag')"
  shows "grows ai (st1 @ st2) ag (pbind p f)"
proof -
  obtain xs where xs: "log_of p = ag_sent ag @ xs" "list_all (own_request ai \<circ> fst) xs"
    "map (agent_stage \<circ> fst) xs = take (length xs) st1" "list_all settled (butlast xs)"
    "\<And>v ag'. p = Inr (v, ag') \<Longrightarrow> list_all settled xs \<and> length xs = length st1"
    using assms(1) unfolding grows_def by blast
  show ?thesis
  proof (cases p)
    case (Inl e)
    have "length xs \<le> length st1" using arg_cong [OF xs(3), of length] by simp
    with Inl xs show ?thesis
      by (cases e) (auto simp: grows_def pbind_def log_of_def intro!: exI [of _ xs])
  next
    case (Inr r)
    obtain v ag1 where r: "p = Inr (v, ag1)" using Inr by (cases r) simp
    obtain ys where ys: "log_of (f v ag1) = ag_sent ag1 @ ys" "list_all (own_request ai \<circ> fst) ys"
      "map (agent_stage \<circ> fst) ys = take (length ys) st2" "list_all settled (butlast ys)"
      "\<And>w ag'. f v ag1 = Inr (w, ag') \<Longrightarrow> list_all settled ys \<and> length ys = length st2"
      using assms(2) [OF r] unfolding grows_def by blast
    have all: "list_all settled xs" "length xs = length st1" using xs(5) [OF r] by simp_all
    show ?thesis
      unfolding grows_def
    proof (intro exI [of _ "xs @ ys"] conjI allI impI)
      show "list_all settled (butlast (xs @ ys))" using all(1) xs(4) ys(4) by (simp add: butlast_append)
      show "log_of (pbind p f) = ag_sent ag @ xs @ ys" using xs(1) ys(1) r by (simp add: pbind_def log_of_def)
      show "map (agent_stage \<circ> fst) (xs @ ys) = take (length (xs @ ys)) (st1 @ st2)" using xs(3) ys(3) all(2) by simp
      show "list_all (own_request ai \<circ> fst) (xs @ ys)" using xs(2) ys(2) by simp
      fix w ag' assume "pbind p f = Inr (w, ag')"
      then have "list_all settled ys \<and> length ys = length st2" using ys(5) r by (simp add: pbind_def)
      then show "list_all settled (xs @ ys)" "length (xs @ ys) = length (st1 @ st2)" using all by simp_all
    qed
  qed
qed

lemma agent_helpers_frame [simp]:
  "ag_sent (agent_writes path entries ag) = ag_sent ag" "ag_sent (agent_notes entries ag) = ag_sent ag"
  by (simp_all add: agent_writes_def agent_notes_def)

lemma agent_call_log:
  "agent_call call rq ag = (r, ag') \<Longrightarrow> ag_sent ag' = ag_sent ag @ [(rq, case r of Inl _ \<Rightarrow> False | Inr _ \<Rightarrow> True)]"
  by (auto simp: agent_call_def split: prod.splits)

lemma agent_call_cases:
  obtains s ag' where "agent_call call rq ag = (Inl s, ag')" and "ag_sent ag' = ag_sent ag @ [(rq, False)]"
  | report ag' where "agent_call call rq ag = (Inr report, ag')" and "ag_sent ag' = ag_sent ag @ [(rq, True)]"
  using agent_call_log [of call rq ag] by (cases "agent_call call rq ag"; cases "fst (agent_call call rq ag)") auto

lemma agent_requests:
  "own_request ai (agent_registration args ai at)" "agent_stage (agent_registration args ai at) = 0"
  "own_request ai (agent_reconciliation args ai at grant)" "agent_stage (agent_reconciliation args ai at grant) = 1"
  "own_request ai (agent_proposal args ai at random s path)" "agent_stage (agent_proposal args ai at random s path) = 2"
  "own_request ai (agent_receipt ai at grant)" "agent_stage (agent_receipt ai at grant) = 6"
  "own_request ai (agent_heartbeat ai gen now)" "agent_stage (agent_heartbeat ai gen now) = 7"
  by (simp_all add: agent_registration_def agent_reconciliation_def agent_operation_def agent_proposal_def
      agent_receipt_def agent_heartbeat_def)

text \<open>Each phase sends one request, logs it, and goes on only when it was accepted.\<close>

lemma step_grows:
  assumes "own_request ai rq"
    and "\<And>st ag'. agent_call call rq ag = (Inl st, ag') \<Longrightarrow> log_of p = ag_sent ag' \<and> (\<forall>w. p \<noteq> Inr w)"
    and "\<And>report ag'. agent_call call rq ag = (Inr report, ag') \<Longrightarrow> log_of p = ag_sent ag'"
  shows "grows ai [agent_stage rq] ag p"
proof (rule agent_call_cases [of call rq ag])
  fix st ag' assume "agent_call call rq ag = (Inl st, ag')" "ag_sent ag' = ag_sent ag @ [(rq, False)]"
  then show ?thesis using assms(2) by (intro grows_one [OF assms(1), of p ag False]) auto
next
  fix report ag' assume "agent_call call rq ag = (Inr report, ag')" "ag_sent ag' = ag_sent ag @ [(rq, True)]"
  then show ?thesis using assms(3) by (intro grows_one [OF assms(1), of p ag True]) (auto simp: settled_def)
qed

lemma register_grows: "grows ai [0] ag (agent_register call args ai at ag)"
  using step_grows [OF agent_requests(1) [of ai args at], of call ag "agent_register call args ai at ag"]
  by (simp add: agent_requests(2) agent_register_def log_of_def Let_def split: sum.split)

definition wants_reconciliation :: "arguments \<Rightarrow> bool" where
  "wants_reconciliation args \<longleftrightarrow>
     value_or args ''reconcile'' [] \<noteq> [] \<and> (\<exists>grant. typed_id_parse ''grant'' (value_or args ''reconcile'' []) = Inr grant)"

lemma reconcile_grows: "grows ai (if wants_reconciliation args then [1] else []) ag (agent_reconcile call args ai at ag)"
proof (cases "wants_reconciliation args")
  case True
  then obtain grant where "value_or args ''reconcile'' [] \<noteq> []"
    "typed_id_parse ''grant'' (value_or args ''reconcile'' []) = Inr grant"
    by (auto simp: wants_reconciliation_def)
  then show ?thesis
    using True step_grows [OF agent_requests(3) [of ai args at grant], of call ag "agent_reconcile call args ai at ag"]
    by (simp add: agent_requests(4) agent_reconcile_def log_of_def Let_def)
next
  case False
  then show ?thesis
    by (cases "typed_id_parse ''grant'' (value_or args ''reconcile'' [])")
       (auto simp: wants_reconciliation_def agent_reconcile_def grows_stay Let_def)
qed

lemma propose_grows: "grows ai [2] ag (agent_propose call args ai at random s path ag)"
  using step_grows [OF agent_requests(5) [of ai args at random s path], of call ag "agent_propose call args ai at random s path ag"]
  by (simp add: agent_requests(6) agent_propose_def agent_refused_def log_of_def Let_def split: sum.split)

lemma steps_grow:
  assumes "go_actor op = ai_site ai" and "go_actor_incarnation op = ai_incarnation ai"
  shows "grows ai [3] ag (agent_evaluate call args op ag)" and "grows ai [4] ag (agent_reserve call args op ag)"
    and "grows ai [5] ag (agent_activate call args op ag)"
  using step_grows [of ai "RqEvaluateGrant op" call ag "agent_evaluate call args op ag"]
    step_grows [of ai "RqReserveGrant op" call ag "agent_reserve call args op ag"]
    step_grows [of ai "RqActivateGrant op" call ag "agent_activate call args op ag"] assms
  by (simp_all add: agent_evaluate_def agent_reserve_def agent_activate_def agent_refused_def log_of_def agent_fault_def Let_def)

lemma acknowledge_grows: "grows ai [6] ag (agent_acknowledge call ai at grant ag)"
proof -
  obtain r ag' where c: "agent_call call (agent_receipt ai at grant) ag = (r, ag')" by fastforce
  then have "log_of (agent_acknowledge call ai at grant ag) =
      ag_sent ag @ [(agent_receipt ai at grant, case r of Inl _ \<Rightarrow> False | Inr _ \<Rightarrow> True)]"
    using agent_call_log [OF c] by (simp add: agent_acknowledge_def log_of_def)
  then have "grows ai [agent_stage (agent_receipt ai at grant)] ag (agent_acknowledge call ai at grant ag)"
    by (rule grows_one [OF agent_requests(7)]) (simp add: settled_def agent_requests(8))
  then show ?thesis by (simp add: agent_requests(8))
qed

definition wants_grant :: "arguments \<Rightarrow> bool" where
  "wants_grant args \<longleftrightarrow>
     value_or args ''path'' [] \<noteq> [] \<and> u64_or args ''reserve'' 0 \<noteq> 0 \<and>
     (\<exists>path. typed_id_parse ''path'' (value_or args ''path'' []) = Inr path)"

lemma grant_grows:
  "grows ai (if wants_grant args then [2, 3, 4, 5, 6] else []) ag (agent_grant call args ai at random s ag)"
proof (cases "value_or args ''path'' [] = [] \<or> u64_or args ''reserve'' 0 = 0")
  case True
  then show ?thesis by (auto simp: agent_grant_def wants_grant_def grows_stay)
next
  case some: False
  show ?thesis
  proof (cases "typed_id_parse ''path'' (value_or args ''path'' [])")
    case (Inl st)
    then show ?thesis using some by (simp add: agent_grant_def wants_grant_def grows_stay)
  next
    case (Inr path)
    define op where "op g = (agent_operation ai (gr_id g) (at_operate at))\<lparr>go_actor_generation := sr_generation s,
      go_lease := gb_lease (gr_binding g)\<rparr>" for g :: grant_record
    have op: "go_actor (op g) = ai_site ai" "go_actor_incarnation (op g) = ai_incarnation ai" for g
      by (simp_all add: op_def agent_operation_def)
    have "grows ai ([2] @ [3] @ [4] @ [5] @ [6]) ag
      (pbind (agent_propose call args ai at random s path ag) (\<lambda>g ag.
         pbind (agent_evaluate call args (op g) ag) (\<lambda>_ ag.
         pbind (agent_reserve call args (op g) ag) (\<lambda>_ ag.
         pbind (agent_activate call args (op g) ag) (\<lambda>_ ag.
           agent_acknowledge call ai at (gr_id g) ag)))))"
      by (intro grows_bind propose_grows steps_grow acknowledge_grows op)
    then show ?thesis using some Inr by (simp add: agent_grant_def wants_grant_def op_def Let_def)
  qed
qed

lemma loop_log:
  assumes "agent_loop call args ai gen beats last_beat ag = (code, ag')"
  shows "\<exists>hs. ag_sent ag' = ag_sent ag @ hs \<and> list_all (own_request ai \<circ> fst) hs \<and>
      map (agent_stage \<circ> fst) hs = replicate (length hs) 7 \<and> list_all settled (butlast hs)"
  using assms
proof (induction beats arbitrary: last_beat ag)
  case Nil
  then show ?case by (intro exI [of _ "[]"]) simp
next
  case (Cons b bs)
  let ?stop = "bt_stop b \<or> u64_or args ''run-ms'' 0 \<noteq> 0 \<and> bt_elapsed b \<ge> u64_or args ''run-ms'' 0"
  let ?due = "u64_or args ''heartbeat-ms'' 0 \<noteq> 0 \<and> bt_elapsed b - last_beat \<ge> u64_or args ''heartbeat-ms'' 0"
  let ?rq = "agent_heartbeat ai gen (bt_now b)"
  consider "?stop" | "\<not> ?stop" "\<not> ?due" | "\<not> ?stop" "?due" by blast
  then show ?case
  proof cases
    case 1
    then show ?thesis using Cons.prems by (intro exI [of _ "[]"]) (auto simp: Let_def)
  next
    case 2
    have "agent_loop call args ai gen bs last_beat ag = (code, ag')"
      using Cons.prems unfolding agent_loop.simps Let_def if_not_P [OF 2(1)] if_not_P [OF 2(2)] .
    then show ?thesis by (rule Cons.IH)
  next
    case 3
    show ?thesis
    proof (rule agent_call_cases [of call ?rq ag])
      fix s ag1 assume "agent_call call ?rq ag = (Inl s, ag1)" "ag_sent ag1 = ag_sent ag @ [(?rq, False)]"
      then show ?thesis
        using 3 Cons.prems by (intro exI [of _ "[(?rq, False)]"]) (auto simp: Let_def agent_requests)
    next
      fix report ag1 assume c: "agent_call call ?rq ag = (Inr report, ag1)" "ag_sent ag1 = ag_sent ag @ [(?rq, True)]"
      then have "agent_loop call args ai gen bs (bt_elapsed b) ag1 = (code, ag')"
        using Cons.prems unfolding agent_loop.simps Let_def if_not_P [OF 3(1)] if_P [OF 3(2)] by simp
      from Cons.IH [OF this] obtain hs where hs: "ag_sent ag' = ag_sent ag1 @ hs" "list_all (own_request ai \<circ> fst) hs"
        "map (agent_stage \<circ> fst) hs = replicate (length hs) 7" "list_all settled (butlast hs)" by blast
      moreover have "settled (?rq, True)" by (simp add: settled_def)
      ultimately show ?thesis
        using c(2) by (intro exI [of _ "(?rq, True) # hs"]) (simp add: agent_requests comp_def)
    qed
  qed
qed

definition agent_plan :: "arguments \<Rightarrow> nat list" where
  "agent_plan args = [0] @ (if wants_reconciliation args then [1] else []) @ (if wants_grant args then [2, 3, 4, 5, 6] else [])"

lemma run_log:
  assumes "agent_run call args ai at random beats ag = (code, ag')"
  shows "\<exists>xs hs. ag_sent ag' = ag_sent ag @ xs @ hs \<and> list_all (own_request ai \<circ> fst) (xs @ hs) \<and>
      map (agent_stage \<circ> fst) xs = take (length xs) (agent_plan args) \<and> map (agent_stage \<circ> fst) hs = replicate (length hs) 7 \<and>
      (hs = [] \<or> length xs = length (agent_plan args)) \<and> list_all settled (butlast (xs @ hs))"
proof -
  define p where "p = pbind (agent_register call args ai at ag) (\<lambda>s ag.
    pbind (agent_reconcile call args ai at ag) (\<lambda>_ ag. pbind (agent_grant call args ai at random s ag) (\<lambda>_ ag. Inr (s, ag))))"
  have "grows ai ([0] @ (if wants_reconciliation args then [1] else []) @
      (if wants_grant args then [2, 3, 4, 5, 6] else []) @ []) ag p"
    unfolding p_def by (intro grows_bind register_grows reconcile_grows grant_grows grows_stay)
  then obtain xs where xs: "log_of p = ag_sent ag @ xs" "list_all (own_request ai \<circ> fst) xs"
    "map (agent_stage \<circ> fst) xs = take (length xs) (agent_plan args)" "list_all settled (butlast xs)"
    "\<And>v ag'. p = Inr (v, ag') \<Longrightarrow> list_all settled xs \<and> length xs = length (agent_plan args)"
    unfolding grows_def agent_plan_def append_Nil2 by blast
  show ?thesis
  proof (cases p)
    case (Inl e)
    then have "ag_sent ag' = ag_sent ag @ xs"
      using assms xs(1) by (cases e) (simp add: agent_run_def p_def [symmetric] log_of_def)
    with xs show ?thesis by (intro exI [of _ xs] exI [of _ "[]"]) simp
  next
    case (Inr r)
    obtain s ag1 where r: "p = Inr (s, ag1)" using Inr by (cases r) simp
    let ?ag = "agent_writes (value_or args ''result-file'' []) (ag_report ag1) ag1"
    have sent: "ag_sent ?ag = ag_sent ag @ xs" using xs(1) r by (simp add: log_of_def)
    have "\<exists>hs. ag_sent ag' = ag_sent ?ag @ hs \<and> list_all (own_request ai \<circ> fst) hs \<and>
        map (agent_stage \<circ> fst) hs = replicate (length hs) 7 \<and> list_all settled (butlast hs)"
    proof (cases "flag_or args ''register-only'' False \<or> u64_or args ''run-ms'' 0 = 0 \<and> u64_or args ''heartbeat-ms'' 0 = 0")
      case True
      then show ?thesis
        using assms r by (intro exI [of _ "[]"]) (auto simp: agent_run_def p_def [symmetric] Let_def)
    next
      case False
      then have "agent_loop call args ai (sr_generation s) beats 0 ?ag = (code, ag')"
        using assms r by (auto simp: agent_run_def p_def [symmetric] Let_def)
      then show ?thesis by (rule loop_log)
    qed
    then obtain hs where hs: "ag_sent ag' = ag_sent ag @ xs @ hs" "list_all (own_request ai \<circ> fst) hs"
        "map (agent_stage \<circ> fst) hs = replicate (length hs) 7" "list_all settled (butlast hs)"
      using sent by auto
    moreover have "list_all settled (butlast (xs @ hs))"
      using xs(4) xs(5) [OF r] hs(4) by (simp add: butlast_append)
    ultimately show ?thesis using xs(2,3) xs(5) [OF r] by (intro exI [of _ xs] exI [of _ hs]) simp
  qed
qed

text \<open>
  C37: the site agent follows the protocol. Whatever the fabric answers and however long it runs,
  the requests of an agent are, in this order and as far as it gets: the registration, the
  reconciliation if one was asked for, proposal, evaluation, reservation, activation and
  acknowledgement of one grant if one was asked for, and then only heartbeats; every request is
  in the name of its own site and incarnation; and after a request that was refused, an
  acknowledgement apart, it sends nothing more.
\<close>

theorem agent_follows_protocol:
  assumes "isfsited connect call at random_incarnation random_request beats tokens = (code, Some ag)"
  shows "\<exists>ai k h. agent_identity_of (arguments_of tokens) random_incarnation = Some (ai_site ai, ai_incarnation ai) \<and>
           map (agent_stage \<circ> fst) (ag_sent ag) = take k (agent_plan (arguments_of tokens)) @ replicate h 7 \<and>
           (h = 0 \<or> k = length (agent_plan (arguments_of tokens))) \<and>
           list_all (own_request ai \<circ> fst) (ag_sent ag) \<and> list_all settled (butlast (ag_sent ag))"
proof -
  let ?args = "arguments_of tokens"
  obtain site inc and hello :: hello_reply and s where i: "agent_identity_of ?args random_incarnation = Some (site, inc)"
    and run: "agent_run call ?args \<lparr>ai_site = site, ai_incarnation = inc, ai_epoch = hr_epoch hello,
         ai_capacity = u64_or ?args ''advertised-capacity'' 0\<rparr> at random_request beats
       \<lparr>ag_fabric = s, ag_sent = [], ag_files = [], ag_report = []\<rparr> = (code, ag)"
    using assms by (simp add: isfsited_def Let_def map_prod_def split: if_splits option.splits sum.splits prod.splits)
  let ?ai = "\<lparr>ai_site = site, ai_incarnation = inc, ai_epoch = hr_epoch hello,
    ai_capacity = u64_or ?args ''advertised-capacity'' 0\<rparr>"
  obtain xs hs where "ag_sent ag = xs @ hs" "list_all (own_request ?ai \<circ> fst) (xs @ hs)"
    "map (agent_stage \<circ> fst) xs = take (length xs) (agent_plan ?args)" "map (agent_stage \<circ> fst) hs = replicate (length hs) 7"
    "hs = [] \<or> length xs = length (agent_plan ?args)" "list_all settled (butlast (xs @ hs))"
    using run_log [OF run] by auto
  with i show ?thesis by (intro exI [of _ ?ai] exI [of _ "length xs"] exI [of _ "length hs"]) auto
qed

theorem agent_follows_protocol_witness:
  "\<forall>hello at inc req. \<exists>(ag :: unit agent) ai.
     isfsited (\<lambda>_. Inr (hello, ())) (\<lambda>rq s. (Inl StRefused, s)) at inc req [] [''--daemon'', ''h:1'', ''--site-name'', ''a''] =
       (Some 4, Some ag) \<and> ag_sent ag \<noteq> [] \<and> list_all (own_request ai \<circ> fst) (ag_sent ag)"
proof (intro allI)
  fix hello :: hello_reply and at :: agent_clock and inc req :: id128
  let ?tokens = "[''--daemon'', ''h:1'', ''--site-name'', ''a'']"
  let ?run = "isfsited (\<lambda>_. Inr (hello, ())) (\<lambda>rq s. (Inl StRefused, s)) at inc req [] ?tokens"
  have args: "arguments_of ?tokens = \<lparr>ar_options = [''daemon'' \<mapsto> ''h:1'', ''site-name'' \<mapsto> ''a''], ar_positionals = []\<rparr>"
    by (simp add: arguments_of_def is_flag_def add_option_def)
  have e: "endpoint_parse ''h:1'' = Inr \<lparr>ep_host = ''h'', ep_port = 1\<rparr>" by code_simp
  obtain ag where ag: "?run = (Some 4, Some ag)" "ag_sent ag \<noteq> []"
    by (simp add: isfsited_def args has_def value_or_def value_of_def arguments_validate_def agent_identity_of_def e Let_def
        agent_run_def agent_register_def agent_call_def pbind_def agent_writes_def)
  then show "\<exists>(ag :: unit agent) ai. ?run = (Some 4, Some ag) \<and> ag_sent ag \<noteq> [] \<and>
      list_all (own_request ai \<circ> fst) (ag_sent ag)"
    using agent_follows_protocol [OF ag(1)] by auto
qed

end
