(* ===== verification/Runtime.thy ===== *)
theory Runtime
  imports Server Cli
begin

text \<open>
  Logging (\<open>src/log.cpp\<close>), version text (\<open>src/version.cpp\<close>) and the daemon program
  (\<open>apps/isfd/main.cpp\<close>), which puts store, daemon and server together. What the threads do while
  the program runs is a function argument; the fault injection hook is left out.
\<close>

section \<open>Logging\<close>

datatype log_level = LlError | LlWarn | LlInfo | LlDebug | LlTrace

fun log_level_code :: "log_level \<Rightarrow> nat" where
  "log_level_code LlError = 0"
| "log_level_code LlWarn = 1"
| "log_level_code LlInfo = 2"
| "log_level_code LlDebug = 3"
| "log_level_code LlTrace = 4"

fun log_level_name :: "log_level \<Rightarrow> string" where
  "log_level_name LlError = ''error''"
| "log_level_name LlWarn = ''warn''"
| "log_level_name LlInfo = ''info''"
| "log_level_name LlDebug = ''debug''"
| "log_level_name LlTrace = ''trace''"

definition log_level_from_name :: "string \<Rightarrow> log_level option" where
  "log_level_from_name name =
     (if name = ''error'' then Some LlError
      else if name = ''warn'' then Some LlWarn
      else if name = ''info'' then Some LlInfo
      else if name = ''debug'' then Some LlDebug
      else if name = ''trace'' then Some LlTrace
      else None)"

text \<open>Where a line goes: \<open>None\<close> is standard error, otherwise the file the operator named.\<close>

record log_state =
  lg_level :: log_level
  lg_sink :: "string option"
  lg_lines :: "(string option \<times> string) list"

definition set_log_level :: "log_level \<Rightarrow> log_state \<Rightarrow> log_state" where
  "set_log_level level ls = ls\<lparr>lg_level := level\<rparr>"

definition set_log_file :: "bool \<Rightarrow> string \<Rightarrow> log_state \<Rightarrow> bool \<times> log_state" where
  "set_log_file opens path ls =
     (let ls = ls\<lparr>lg_sink := None\<rparr>
      in if path = [] then (True, ls)
         else if \<not> opens then (False, ls)
         else (True, ls\<lparr>lg_sink := Some path\<rparr>))"

definition log_message :: "string \<Rightarrow> log_level \<Rightarrow> string \<Rightarrow> string \<Rightarrow> log_state \<Rightarrow> log_state" where
  "log_message timestamp level component message ls =
     (if log_level_code level > log_level_code (lg_level ls) then ls
      else
        ls\<lparr>lg_lines := lg_lines ls @
          [(lg_sink ls, timestamp @ '' ['' @ log_level_name level @ ''] '' @ component @ '': '' @ message @ [CHR 0x0A])]\<rparr>)"

interpretation log_level_names: naming log_level_name log_level_from_name
proof
  show "log_level_from_name n = Some level \<longleftrightarrow> n = log_level_name level" for n level
    by (cases level) (auto simp: log_level_from_name_def)
qed

text \<open>
  A message is written exactly when the threshold admits its level; after a failed or an empty
  redirection it goes to standard error, never to the file that was open before.
\<close>

lemma redirected_message:
  "set_log_file opens path ls = (ok, ls') \<Longrightarrow>
     map fst (lg_lines (log_message t level component message (set_log_level threshold ls'))) =
       map fst (lg_lines ls) @
         (if log_level_code level \<le> log_level_code threshold then [if opens \<and> path \<noteq> [] then Some path else None] else [])"
  by (auto simp: set_log_file_def set_log_level_def log_message_def Let_def not_less split: if_splits)

section \<open>Version\<close>

definition build_description :: "string \<Rightarrow> bool \<Rightarrow> string" where
  "build_description version release =
     ''inter-site-fabric '' @ version @ '' (wire protocol '' @ nat_to_dec (unat kWireProtocolVersion) @ '', store format '' @
     nat_to_dec (unat kStoreFormatVersion) @ '')'' @ (if release then '' [release]'' else '' [debug]'')"

section \<open>The daemon program\<close>

definition daemon_options_of :: "arguments \<Rightarrow> incarnation \<Rightarrow> daemon_options" where
  "daemon_options_of args random =
     \<lparr>do_state_path = value_or args ''state'' ''./isf-state/daemon.isfstore'', do_policy = conservative_default, do_epoch = 1,
      do_incarnation = random, do_store = default_store_options, do_max_changes_in_reply = 512,
      do_verify_after_mutation = flag_or args ''verify-after-mutation'' True,
      do_auto_compact = flag_or args ''auto-compact'' True\<rparr>"

definition server_options_of :: "arguments \<Rightarrow> server_options" where
  "server_options_of args =
     \<lparr>vo_max_connections = u64_or args ''max-connections'' 64, vo_max_frame_bytes = kDefaultMaxFrameBytes,
      vo_io_timeout_ms = 30000, vo_send_timeout_ms = 15000, vo_tcp_nodelay = True\<rparr>"

definition ready_entries :: "string \<Rightarrow> string \<Rightarrow> status_report \<Rightarrow> (string \<times> string) list" where
  "ready_entries bound state_path r =
     [(''endpoint'', bound), (''state_path'', state_path), (''incarnation'', typed_id_to_string ''inc'' (sp_incarnation r)),
      (''epoch'', u64_to_string (sp_epoch r)), (''policy_generation'', u64_to_string (po_generation (sp_policy r))),
      (''store_fidelity'', recovery_fidelity_name (sp_store_fidelity r)),
      (''store_records'', u64_to_string (sp_store_records r)),
      (''ambiguous_intents'', u64_to_string (sp_ambiguous_intents r)),
      (''store_servable'', if sp_store_servable r then ''1'' else ''0'')]"

text \<open>What the program meets: the store's and the report's file system, the listener, and the run itself.\<close>

record boot =
  bo_start :: surroundings
  bo_stop :: surroundings
  bo_bound :: status
  bo_port :: u16
  bo_report :: report_answers
  bo_version :: "u32 \<times> u32 \<times> u32"
  bo_while :: "daemon \<Rightarrow> daemon"

text \<open>The endpoint the server reports: the port is the one the listener was given.\<close>

definition local_endpoint :: "endpoint \<Rightarrow> u16 \<Rightarrow> endpoint" where
  "local_endpoint e port = \<lparr>ep_host = (if ep_host e = [] then kLoopback else ep_host e), ep_port = port\<rparr>"

definition isfd :: "boot \<Rightarrow> string list \<Rightarrow> disk \<Rightarrow> (string \<rightharpoonup> string) \<Rightarrow> nat \<times> disk \<times> (string \<rightharpoonup> string)" where
  "isfd bo tokens d files =
     (let args = arguments_of tokens;
          opts = daemon_options_of args (sx_random (bo_start bo))
      in if has args ''help'' then (0, d, files)
         else if log_level_from_name (value_or args ''log-level'' ''info'') = None then (2, d, files)
         else if value_or args ''fault-inject'' [] \<noteq> [] \<and>
                 value_or args ''fault-inject'' [] \<notin> {''intent-durable'', ''applied'', ''commit-durable''} then (2, d, files)
         else if ensure_parent_directory (rf_created (bo_report bo)) (do_state_path opts) \<noteq> StOk then (3, d, files)
         else
           case endpoint_parse (value_or args ''listen'' ''127.0.0.1:0'') of
             Inl _ \<Rightarrow> (2, d, files)
           | Inr e \<Rightarrow>
               (case daemon_start (bo_start bo) opts d of
                  (Inl _, d) \<Rightarrow> (4, d, files)
                | (Inr dm, d) \<Rightarrow>
                    (case server_start (bo_bound bo) (new_server (server_options_of args)) of
                       (started, sv) \<Rightarrow>
                         if started \<noteq> StOk then (5, st_disk (dm_store (daemon_stop (bo_stop bo) dm)), files)
                         else
                           (case write_report_file (bo_report bo) (value_or args ''ready-file'' [])
                                   (ready_entries (endpoint_to_string (local_endpoint e (bo_port bo))) (do_state_path opts)
                                      (daemon_status_report (bo_version bo) (sx_now (bo_start bo)) [] dm)) files of
                              (wrote, files) \<Rightarrow>
                                if wrote \<noteq> StOk then (6, st_disk (dm_store (daemon_stop (bo_stop bo) dm)), files)
                                else (0, st_disk (dm_store (daemon_stop (bo_stop bo) (bo_while bo dm))), files)))))"

end
