(* ===== verification/Spec2Isabelle.thy ===== *)
theory Spec2Isabelle
  imports Guarantees Framing Restart Calls Connections Agent Runtime
begin

text \<open>
  \<^bold>\<open>Inter-site fabric: a verified model\<close>

  \<^bold>\<open>The program.\<close> The fabric hands out transport capacity between sites. An \<^emph>\<open>authority\<close> keeps
  sites, paths, capacity attestations, grants, verifications, oversubscription authorities, a policy
  and an epoch. A mutation is first \<^emph>\<open>planned\<close>: the authority computes the encoded images of all
  objects it would change, without changing anything. The \<^emph>\<open>daemon\<close> writes these images as an intent
  into a durable log, applies them, and writes a completion record; after a crash it replays the
  log, and of an intent without completion it applies only what frees no capacity. A \<^emph>\<open>server\<close> accepts
  connections and hands framed requests to the daemon, a \<^emph>\<open>client\<close> library sends them, and three
  programs sit on top: the daemon program \<open>isfd\<close>, the operator tool \<open>isfctl\<close> and the site agent
  \<open>isfsited\<close>.

  \<^bold>\<open>Where what is modelled\<close> (paths are below \<open>src/\<close>).

  \<^item> \<open>Prelude\<close>: names of the machine integers, the ordered table that stands for \<open>std::map\<close> with its
    interface \<open>table\<close>, and the interface \<open>naming\<close> between printing and parsing an enumeration.
  \<^item> \<open>Outcome\<close>: \<open>src/status.cpp\<close>, \<open>include/isf/checked.hpp\<close>. An \<open>Expected<T>\<close> is a sum with the
    status on the left; amounts are 64-bit words with checked and saturating arithmetic.
  \<^item> \<open>Ids\<close>: \<open>src/ids.cpp\<close>. \<open>Capacity\<close>: \<open>src/capacity.cpp\<close>. \<open>Lifecycle\<close>: \<open>src/lifecycle.cpp\<close>.
  \<^item> \<open>Wire\<close>: \<open>src/wire.cpp\<close>, bytes, limits and UTF-8. \<open>Digest\<close>: \<open>src/digest.cpp\<close>, CRC-32C and SHA-256.
  \<^item> \<open>Model\<close>: \<open>src/model.cpp\<close> and \<open>src/policy.cpp\<close>, the records, the policy and their codecs.
  \<^item> \<open>Authority\<close>: \<open>src/authority.cpp\<close>. State, queries, ledger, room for grants, change images, apply,
    fencing, recovery marks, invariant checker. \<open>Plan\<close>: \<open>src/authority_plan.cpp\<close>, one function per
    planning operation; the type \<open>request\<close> lists them, so that properties of all operations are
    stated once.
  \<^item> \<open>Store\<close>: \<open>src/store.cpp\<close>. A log is a byte list on a disk of three files; what the file system
    answers is an argument, one answer per call site and operation, so that each error return is
    a branch and a read or a write may break off. The store knows how many bytes of the log are on
    the medium (\<open>st_synced\<close>): an append does not raise that number, \<open>fsync\<close> does, and a crash leaves
    those bytes and any part of the rest. \<open>compact_trace\<close> lists the disks between the file operations of a
    compaction and ends, as is proved, on the disk of \<open>store_compact\<close>.
  \<^item> \<open>Protocol\<close>: \<open>src/protocol.cpp\<close>. \<open>Daemon\<close>: \<open>src/daemon.cpp\<close>. \<open>Server\<close>: \<open>src/server.cpp\<close>.
    \<open>Client\<close>: \<open>src/client.cpp\<close>. \<open>Net\<close>: \<open>src/net.cpp\<close>.
  \<^item> \<open>Cli\<close>: \<open>apps/common/cli.cpp\<close>. \<open>Control\<close> and \<open>Operator\<close>: \<open>apps/isfctl/main.cpp\<close>, one definition
    per command. \<open>Agent\<close>: \<open>apps/isfsited/main.cpp\<close>. \<open>Runtime\<close>: \<open>src/log.cpp\<close>, \<open>src/version.cpp\<close>
    and \<open>apps/isfd/main.cpp\<close>.

  Field names carry a short prefix for their record; definitions keep the names of the code. Sockets,
  clocks, random identities and the file system are arguments: a list of answers, a record of
  readings, or a function. Threads are interleavings: the daemon's operations are serialised by
  mutexes in the code and are functions here, and each turn of a server loop is a function.

  \<^bold>\<open>What is proved.\<close>

  \<^item> \<^emph>\<open>Codecs\<close> (\<open>Codec\<close>, \<open>Apply\<close>, \<open>Messages\<close>). The interface \<open>codec\<close> says that a decoder reads back
    what the encoder wrote and leaves the rest; counted sequences and whole payloads follow in the
    locale. Every record, the change image, every message body and both envelopes are instances.
    Decoding bounds text to 512 bytes, which the side conditions (\<open>restorable\<close>, \<open>clean\<close>) state.
  \<^item> \<^emph>\<open>The capacity promise\<close> (\<open>Ledger\<close>, \<open>Steps\<close>, \<open>Rebalance\<close>, \<open>Safety\<close>, \<open>Guarantees\<close>). Every planned
    image is a legal successor of the object it replaces; rebalancing withdraws until the rest fits;
    so in every reached state the promises on a path fit its ceiling and its protected floor, the
    ledger closes and nothing is oversubscribed. Two operations are excluded by \<open>regular\<close>, because
    the code does not keep the promise there: an operator reconciliation that activates a grant
    that holds nothing, and the reuse of the identity of an oversubscription authority. Further:
    fencing, lifecycle, terminal states, identity of grants, release flags, monotone generations.
  \<^item> \<^emph>\<open>The log\<close> (\<open>Log\<close>, \<open>Durability\<close>). Any prefix of a log that a crash leaves is recovered to its complete
    records; compaction is atomic; the chain of hashes binds the log unless SHA-256 collides.
  \<^item> \<^emph>\<open>Crashes and restarts\<close> (\<open>Release\<close>, \<open>Marks\<close>, \<open>Snapshots\<close>, \<open>Recovery\<close>, \<open>Compaction\<close>, \<open>History\<close>,
    \<open>Restart\<close>). The log of a running daemon replays to its state up to recovery marks. Every state a
    daemon computes is \<open>lasting\<close>: its records are filed under their own identity, its index of
    requests is exact and its text reads back, so its snapshot restores it; hence compacting the
    log keeps that it replays to the state. A \<open>history\<close> is any sequence of requests with the
    compactions they trigger, shutdowns, crashes at any byte of an append and after any call of a
    compaction, and restarts; along it the capacity promise holds. What was acknowledged is on the
    medium, because \<open>commit\<close> flushes before it answers: the next start and every restart after it
    recovers it. Writes are taken to be durable (\<open>so_durable_writes\<close>), since without \<open>fsync\<close> the code
    promises neither. A history leaves out what the code does not survive as a running daemon: a request whose
    log append failed, after which the daemon refuses mutations, and a compaction that ended with
    the log closed; a restart from the disk such a compaction leaves is part of a history. Restarts
    are taken with room left in the log (\<open>spacious\<close>): a full log is the subject of its own theorem.
  \<^item> \<^emph>\<open>Sessions\<close> (\<open>Framing\<close>, \<open>Sessions\<close>, \<open>Calls\<close>, \<open>Connections\<close>). Frames survive any cutting of the stream,
    the decoder's memory is bounded, each request reaches the daemon at most once and every call in
    a joined session is answered. The interface \<open>service\<close> states what a client needs of an
    answer; the daemon and the two answers the server gives itself are its instances.
  \<^item> \<^emph>\<open>Programs\<close> (\<open>Net\<close>, \<open>Cli\<close>, \<open>Operator\<close>, \<open>Agent\<close>). Sending puts out exactly what it reports, numbers and
    endpoints are parsed exactly, the exit code of \<open>isfctl\<close> tells whether the one mutation that it
    sent, out of a log of all it sends, was accepted,
    and the agent keeps to the order of the protocol and to its own identity.
  \<^item> \<^emph>\<open>Where the code falls short\<close>: a log that is full up to an unfinished intent never opens again, a
    read error while the log is opened erases the records behind it, a shutdown record behind a torn record corrupts the log, a stopped and restarted server can have
    lost all its slots, a mistyped amount is attested as zero, and the documented position of
    \<open>--json\<close> does not work. These are theorems about the same definitions.

  \<open>Example\<close> runs the authority on a small network; it serves as the concrete input of the theorems
  that have hypotheses, together with the daemon that \<open>Restart\<close> brings up on an empty disk.

  \<^bold>\<open>Bounds.\<close> No function of the model runs on fuel. Loops over bytes, records and grants are total
  recursions. A loop that waits for the system consumes its list of answers, and the result \<open>None\<close>
  says that it still waits when they are used up; the properties that the loop returns say after
  how many answers it does (one per byte for sending, one frame for a call).

  \<^bold>\<open>Not modelled.\<close> The operating system itself: sockets, files, clocks, entropy and signals appear by
  their answers only, and the Windows variants of the same calls are left out. Diagnostic texts on
  the error stream, printf formatting, the usage texts of \<open>isfd\<close> and \<open>isfsited\<close>, and the fault injection
  hook of \<open>isfd\<close>; a crash in a history can cut a run at every point the hook can. Thread scheduling
  below the granularity of one operation under a mutex: \<open>serve\<close> follows one worker, whose daemon no
  other connection changes between its turns, while the histories of the daemon take the requests
  of all connections in the order of its mutex. On the disk, renames and truncations take effect
  at once and in order (the code does not synchronise the directory), and negating the least
  signed number in \<open>i64_or\<close>, undefined in C++, has the two's complement result. Tests, benchmarks and examples, which only
  use the library.
\<close>

end
